(* ===== verification/Wallet_Prelude.thy ===== *)
theory Wallet_Prelude
  imports Main "HOL-Library.Word"
begin

text \<open>
  Shared material of the development.  The first part names the machine types of the Go
  sources (fixed-width words, byte slices, hashes, times), the error values the sources
  return and the three ways a Go call can end (a value, a returned error, a run-time panic).
  The second part holds the generic facts the component theories rest on: wrap-around of
  signed integers, 32-bit words read as natural numbers, and tables with a primary key.
\<close>

unbundle bit_operations_syntax

named_theorems word_nat_simps \<open>reading 32-bit word operations as natural-number operations\<close>
named_theorems table_simps \<open>keyed tables: membership and lookup after an operation\<close>

section \<open>Machine types of the sources\<close>

type_synonym byte = "8 word"
type_synonym bytes = "byte list"
type_synonym u8 = "8 word"
type_synonym u32 = "32 word"
type_synonym u64 = "64 word"

text \<open>A \<open>chainhash.Hash\<close> is an array of 32 bytes: byte \<open>i\<close> holds the bits \<open>8*i ..< 8*i+8\<close>.\<close>

type_synonym hash = "256 word"

definition hash_bytes :: "hash \<Rightarrow> bytes" where
  "hash_bytes h = map (\<lambda>i. ucast (drop_bit (8 * i) h)) [0..<32]"

text \<open>A \<open>time.Time\<close> is the number of nanoseconds since the Unix epoch.\<close>

type_synonym go_time = int

definition nano :: int where
  "nano = 1000000000"

definition time_Unix :: "int \<Rightarrow> go_time" where
  "time_Unix sec = sec * nano"

definition Unix :: "go_time \<Rightarrow> int" where
  "Unix t = t div nano"

lemma Unix_time_Unix [simp]: "Unix (time_Unix s) = s"
  by (simp add: Unix_def time_Unix_def nano_def)

text \<open>Signed machine integers are \<open>int\<close> with the wrap-around written where the code adds.\<close>

definition wrap64 :: "int \<Rightarrow> int" where
  "wrap64 i = signed_take_bit 63 i"

definition wrap32 :: "int \<Rightarrow> int" where
  "wrap32 i = signed_take_bit 31 i"

text \<open>The three ways a Go call ends: it returns, it returns an error, or it panics.\<close>

datatype error =
    ErrMsg string
  | OrphanHeaderError
  | DbError
  | NoRows
  | ConstraintError
  | LibError

datatype 'a go = Ok 'a | Err error | Panic

fun go_bind :: "'a go \<Rightarrow> ('a \<Rightarrow> 'b go) \<Rightarrow> 'b go" where
  "go_bind (Ok a) f = f a"
| "go_bind (Err e) f = Err e"
| "go_bind Panic f = Panic"

lemma go_bind_Ok: "go_bind r f = Ok b \<longleftrightarrow> (\<exists>a. r = Ok a \<and> f a = Ok b)"
  by (cases r) auto

text \<open>
  A run of code that loops or recurses without a bound of its own returns, panics, or never ends.
\<close>

datatype 'a run = Ret 'a | Panics | Hangs

fun run_bind :: "'a run \<Rightarrow> ('a \<Rightarrow> 'b run) \<Rightarrow> 'b run" where
  "run_bind (Ret a) f = f a"
| "run_bind Panics f = Panics"
| "run_bind Hangs f = Hangs"

lemma run_bind_Ret: "run_bind r f = Ret b \<longleftrightarrow> (\<exists>a. r = Ret a \<and> f a = Ret b)"
  by (cases r) auto

lemma run_bind_cong [fundef_cong]:
  "r = r' \<Longrightarrow> (\<And>a. r' = Ret a \<Longrightarrow> f a = f' a) \<Longrightarrow> run_bind r f = run_bind r' f'"
  by (cases r') auto

section \<open>Wrap-around\<close>

lemma wrap64_id: "- (2 ^ 63) \<le> i \<Longrightarrow> i < 2 ^ 63 \<Longrightarrow> wrap64 i = i"
  by (simp add: wrap64_def signed_take_bit_int_eq_self)

lemma wrap64_add_left [simp]: "wrap64 (wrap64 a + b) = wrap64 (a + b)"
  using signed_take_bit_add [of 63 "signed_take_bit 63 a" b] signed_take_bit_add [of 63 a b]
  by (simp add: wrap64_def)

lemma wrap64_add_right [simp]: "wrap64 (a + wrap64 b) = wrap64 (a + b)"
  using wrap64_add_left [of b a] by (simp add: add.commute)

lemma wrap64_diff_left [simp]: "wrap64 (wrap64 a - b) = wrap64 (a - b)"
  using wrap64_add_left [of a "- b"] by simp

lemma wrap64_idem [simp]: "wrap64 (wrap64 a) = wrap64 a"
  by (simp add: wrap64_def)

lemma wrap64_range: "- (2 ^ 63) \<le> wrap64 i \<and> wrap64 i < 2 ^ 63"
  unfolding wrap64_def
  using signed_take_bit_int_greater_eq_minus_exp [of 63 i] signed_take_bit_int_less_exp [of 63 i]
  by simp

lemma wrap32_id: "- (2 ^ 31) \<le> i \<Longrightarrow> i < 2 ^ 31 \<Longrightarrow> wrap32 i = i"
  by (simp add: wrap32_def signed_take_bit_int_eq_self)

section \<open>32-bit words as natural numbers\<close>

lemma unat_exp32 [word_nat_simps]: "e < 32 \<Longrightarrow> unat (2 ^ e :: u32) = 2 ^ e"
proof -
  assume "e < 32"
  then have "(2 :: nat) ^ e < 2 ^ 32" by (rule power_strict_increasing) simp
  moreover have "2 ^ e = (of_nat (2 ^ e) :: u32)" by simp
  ultimately show ?thesis by (simp only: unat_of_nat) simp
qed

lemma exp32_le: "unat (2 ^ e :: u32) \<le> 2 ^ 31"
proof (cases "e < 32")
  case True
  then have "(2 :: nat) ^ e \<le> 2 ^ 31" by (intro power_increasing) simp_all
  with True show ?thesis by (simp add: unat_exp32)
next
  case False
  then have "(2 :: u32) ^ e = 0" by simp
  then show ?thesis by (simp only: unsigned_0)
qed

lemma unat_drop1 [word_nat_simps]: "unat (drop_bit (Suc 0) (w :: u32)) = unat w div 2"
  by (simp add: drop_bit_eq_div unat_div)

lemma nat_or_exp: "(a :: nat) < 2 ^ n \<Longrightarrow> a OR 2 ^ n = a + 2 ^ n"
proof -
  assume a: "a < 2 ^ n"
  have "a AND 2 ^ n = 0"
    using a by (simp add: and_exp_eq_0_iff_not_bit bit_nat_def)
  then show ?thesis
    using disjunctive_add_eq_or by fastforce
qed

lemma unat_or_exp:
  assumes "unat (w :: u32) < 2 ^ d" "d < 32"
  shows "unat (w OR 2 ^ d) = unat w + 2 ^ d"
  using assms by (simp add: unsigned_or_eq unat_exp32 nat_or_exp)

lemma unat_half_or_exp [word_nat_simps]:
  assumes "unat (w :: u32) < 2 * 2 ^ d" "d < 32"
  shows "unat (drop_bit (Suc 0) w OR 2 ^ d) = unat w div 2 + 2 ^ d"
  using assms by (subst unat_or_exp) (auto simp: unat_drop1)

lemma unat_or_one [word_nat_simps]: "unat ((w :: u32) OR 1) = (if even (unat w) then unat w + 1 else unat w)"
  by (simp add: unsigned_or_eq or_Suc_0_eq)

lemma unat_push1_minus2 [word_nat_simps]:
  assumes "d < 32"
  shows "unat (2 ^ d * 2 - 2 :: u32) = 2 * 2 ^ d - 2"
proof (cases "d = 31")
  case True
  then show ?thesis by simp
next
  case False
  with assms have d: "Suc d < 32" by simp
  have "2 ^ d * 2 = (2 ^ Suc d :: u32)" by simp
  moreover have "unat (2 ^ Suc d :: u32) = 2 * 2 ^ d" using unat_exp32 [OF d] by simp
  moreover have "unat (2 :: u32) = 2" by simp
  ultimately show ?thesis
    by (simp add: unat_sub_if' word_le_nat_alt del: power_Suc)
qed

lemma and_exp_iff:
  assumes "unat (w :: u32) < 2 * 2 ^ d" "d < 32"
  shows "w AND 2 ^ d = 0 \<longleftrightarrow> unat w < 2 ^ d"
proof -
  have "w AND 2 ^ d = 0 \<longleftrightarrow> \<not> bit (unat w) d"
    by (simp add: and_exp_eq_0_iff_not_bit bit_unsigned_iff assms(2))
  also have "\<dots> \<longleftrightarrow> unat w < 2 ^ d"
  proof (cases "unat w < 2 ^ d")
    case True
    then show ?thesis by (simp add: bit_nat_def)
  next
    case False
    with assms(1) have "unat w div 2 ^ d = 1"
      by (intro div_nat_eqI) auto
    with False show ?thesis by (simp add: bit_nat_def)
  qed
  finally show ?thesis .
qed

lemma and_one_iff: "(w :: u32) AND 1 = 0 \<longleftrightarrow> even (unat w)"
proof -
  have "odd (unat w) \<longleftrightarrow> bit (unat w) 0" by (simp add: bit_0)
  also have "\<dots> \<longleftrightarrow> bit w 0" by (simp only: bit_unsigned_iff) simp
  finally show ?thesis using and_exp_eq_0_iff_not_bit [of w 0] by auto
qed

lemma nat_xor_exp:
  assumes "2 ^ n \<le> (a :: nat)" "a < 2 * 2 ^ n"
  shows "a XOR 2 ^ n = a - 2 ^ n"
proof -
  let ?b = "a - 2 ^ n"
  have b: "?b < 2 ^ n" using assms by simp
  then have nb: "\<not> bit ?b n" by (simp add: bit_nat_def)
  have "a = ?b OR 2 ^ n" using b assms by (simp add: nat_or_exp)
  then have "a XOR 2 ^ n = (?b OR 2 ^ n) XOR 2 ^ n" by simp
  also have "\<dots> = ?b" using nb by (intro bit_eqI) (auto simp: bit_simps)
  finally show ?thesis .
qed

lemma unat_descend [word_nat_simps]:
  assumes "2 ^ d \<le> unat (w :: u32)" "unat w < 2 * 2 ^ d" "d < 32"
  shows "unat ((w XOR 2 ^ d) * 2) = 2 * (unat w - 2 ^ d)"
proof -
  have "unat (w XOR 2 ^ d) = unat w - 2 ^ d"
    using assms by (simp add: unsigned_xor_eq unat_exp32 nat_xor_exp)
  moreover have "2 * (unat w - 2 ^ d) < 2 ^ 32"
  proof -
    have "(2 :: nat) ^ d \<le> 2 ^ 31" using assms(3) by (intro power_increasing) simp_all
    with assms(2) show ?thesis by simp
  qed
  ultimately show ?thesis by (simp add: unat_word_ariths mult.commute)
qed

section \<open>Tables with a primary key\<close>

text \<open>
  A table is the list of its rows in insertion order.  \<open>upsert\<close> is an insert that replaces the
  row with the same key, \<open>del_key\<close> deletes by key.
\<close>

definition upsert :: "('a \<Rightarrow> 'k) \<Rightarrow> 'a \<Rightarrow> 'a list \<Rightarrow> 'a list" where
  "upsert key x t = filter (\<lambda>y. key y \<noteq> key x) t @ [x]"

definition del_key :: "('a \<Rightarrow> 'k) \<Rightarrow> 'k \<Rightarrow> 'a list \<Rightarrow> 'a list" where
  "del_key key k t = filter (\<lambda>y. key y \<noteq> k) t"

definition keyed :: "('a \<Rightarrow> 'k) \<Rightarrow> 'a list \<Rightarrow> bool" where
  "keyed key t \<longleftrightarrow> distinct (map key t)"

lemma set_upsert [table_simps]: "set (upsert key x t) = insert x {y \<in> set t. key y \<noteq> key x}"
  by (auto simp: upsert_def)

lemma set_del_key [table_simps]: "set (del_key key k t) = {y \<in> set t. key y \<noteq> k}"
  by (auto simp: del_key_def)

lemma keyed_Nil [simp]: "keyed key []"
  by (simp add: keyed_def)

lemma keyed_filter: "keyed key t \<Longrightarrow> keyed key (filter P t)"
  by (simp add: keyed_def distinct_map_filter)

lemma keyed_upsert [simp]: "keyed key t \<Longrightarrow> keyed key (upsert key x t)"
  by (auto simp: keyed_def upsert_def distinct_map_filter)

lemma keyed_del_key [simp]: "keyed key t \<Longrightarrow> keyed key (del_key key k t)"
  by (simp add: del_key_def keyed_filter)

lemma keyed_map: "keyed key t \<Longrightarrow> (\<And>x. key (f x) = key x) \<Longrightarrow> keyed key (map f t)"
  by (simp add: keyed_def comp_def)

lemma keyed_eqD: "keyed key t \<Longrightarrow> x \<in> set t \<Longrightarrow> y \<in> set t \<Longrightarrow> key x = key y \<Longrightarrow> x = y"
  by (auto simp: keyed_def distinct_map inj_on_def)

lemma length_del_key_le [simp]: "length (del_key key k t) \<le> length t"
  by (simp add: del_key_def)

lemma length_del_key_less: "x \<in> set t \<Longrightarrow> length (del_key key (key x) t) < length t"
  unfolding del_key_def by (rule length_filter_less) auto

lemma del_key_absent [simp]: "k \<notin> key ` set t \<Longrightarrow> del_key key k t = t"
  by (auto simp: del_key_def filter_id_conv)

lemma del_key_idem [simp]: "del_key key k (del_key key k t) = del_key key k t"
  by (simp add: del_key_def)

end
