(* ===== verification/Wallet_Types.thy ===== *)
theory Wallet_Types
  imports Wallet_Prelude
begin

text \<open>
  The data the wallet's components exchange.  The first part gives the messages of the wire
  library with the fields the sources read or write (outpoints, transactions, block headers,
  merkle blocks).  The second part is \<^verbatim>\<open>src/wallet-interface/datastore.go\<close> and the data types
  of \<^verbatim>\<open>src/wallet-interface/wallet.go\<close>: utxos, stxos, stored transactions, key paths, callbacks,
  their equality tests and the coin names.  Signed Go integers are words read in two's
  complement (\<open>i32\<close>, \<open>i64\<close>); a Go \<open>int\<close> is \<open>int\<close>.
\<close>

type_synonym i32 = "32 word"
type_synonym i64 = "64 word"

section \<open>Messages of the wire library\<close>

record OutPoint =
  op_Hash :: hash
  op_Index :: u32

record TxIn =
  PreviousOutPoint :: OutPoint
  SignatureScript :: bytes
  Sequence :: u32

record TxOut =
  txout_Value :: i64
  PkScript :: bytes

record MsgTx =
  tx_Version :: i32
  tx_TxIn :: "TxIn list"
  tx_TxOut :: "TxOut list"
  tx_LockTime :: u32

record BlockHeader =
  hdr_Version :: i32
  PrevBlock :: hash
  MerkleRoot :: hash
  hdr_Timestamp :: go_time
  Bits :: u32
  Nonce :: u32

record MsgMerkleBlock =
  mb_Header :: BlockHeader
  Transactions :: u32
  Hashes :: "hash list"
  Flags :: bytes

text \<open>An address is what its methods return.\<close>

record Address =
  ScriptAddress :: bytes
  EncodeAddress :: string

section \<open>Coins\<close>

definition CoinType_String :: "u32 \<Rightarrow> string" where
  "CoinType_String c =
     (if c = 0 then ''Bitcoin''
      else if c = 145 then ''Bitcoin Cash''
      else if c = 133 then ''Zcash''
      else if c = 1 then ''Litecoin''
      else if c = 60 then ''Ethereum''
      else if c = 1000000 then ''Testnet Bitcoin''
      else if c = 1000145 then ''Testnet Bitcoin Cash''
      else if c = 1000133 then ''Testnet Zcash''
      else if c = 1000001 then ''Testnet Litecoin''
      else if c = 1000060 then ''Testnet Ethereum''
      else '''')"

definition CoinType_CurrencyCode :: "u32 \<Rightarrow> string" where
  "CoinType_CurrencyCode c =
     (if c = 0 then ''BTC''
      else if c = 145 then ''BCH''
      else if c = 133 then ''ZEC''
      else if c = 1 then ''LTC''
      else if c = 60 then ''ETH''
      else if c = 1000000 then ''TBTC''
      else if c = 1000145 then ''TBCH''
      else if c = 1000133 then ''TZEC''
      else if c = 1000001 then ''TLTC''
      else if c = 1000060 then ''TETH''
      else '''')"

section \<open>Stored data\<close>

record Utxo =
  utxo_Op :: OutPoint
  AtHeight :: i32
  utxo_Value :: i64
  ScriptPubkey :: bytes
  WatchOnly :: bool

text \<open>The receiver and the argument of \<open>IsEqual\<close> are pointers, \<open>None\<close> for nil.\<close>

definition Utxo_IsEqual :: "Utxo option \<Rightarrow> Utxo option \<Rightarrow> bool go" where
  "Utxo_IsEqual utxo alt =
     (case alt of
        None \<Rightarrow> Ok (utxo = None)
      | Some a \<Rightarrow>
          (case utxo of
             None \<Rightarrow> Panic
           | Some u \<Rightarrow>
               Ok (if op_Hash (utxo_Op u) \<noteq> op_Hash (utxo_Op a) then False
                   else if op_Index (utxo_Op u) \<noteq> op_Index (utxo_Op a) then False
                   else if AtHeight u \<noteq> AtHeight a then False
                   else if utxo_Value u \<noteq> utxo_Value a then False
                   else if ScriptPubkey u \<noteq> ScriptPubkey a then False
                   else True)))"

record Stxo =
  stxo_Utxo :: Utxo
  SpendHeight :: i32
  SpendTxid :: hash

definition Stxo_IsEqual :: "Stxo option \<Rightarrow> Stxo option \<Rightarrow> bool go" where
  "Stxo_IsEqual stxo alt =
     (case alt of
        None \<Rightarrow> Ok (stxo = None)
      | Some a \<Rightarrow>
          (case stxo of
             None \<Rightarrow> Panic
           | Some s \<Rightarrow>
               (case Utxo_IsEqual (Some (stxo_Utxo s)) (Some (stxo_Utxo a)) of
                  Ok True \<Rightarrow>
                    Ok (if SpendHeight s \<noteq> SpendHeight a then False
                        else if SpendTxid s \<noteq> SpendTxid a then False
                        else True)
                | r \<Rightarrow> r)))"

type_synonym StatusCode = string

record Txn =
  txn_Txid :: string
  txn_Value :: i64
  txn_Height :: i32
  txn_Timestamp :: go_time
  txn_WatchOnly :: bool
  Confirmations :: i64
  txn_Status :: StatusCode
  ErrorMessage :: string
  txn_Bytes :: bytes

text \<open>The zero value of the struct, as \<open>var txn wallet.Txn\<close> declares it.\<close>

definition zero_Txn :: Txn where
  "zero_Txn = \<lparr>txn_Txid = '''', txn_Value = 0, txn_Height = 0, txn_Timestamp = 0,
     txn_WatchOnly = False, Confirmations = 0, txn_Status = '''', ErrorMessage = '''',
     txn_Bytes = []\<rparr>"

type_synonym KeyPurpose = int

abbreviation (input) EXTERNAL :: KeyPurpose where "EXTERNAL \<equiv> 0"
abbreviation (input) INTERNAL :: KeyPurpose where "INTERNAL \<equiv> 1"

record KeyPath =
  kp_Purpose :: KeyPurpose
  kp_Index :: int

type_synonym FeeLevel = int

abbreviation (input) PRIOIRTY :: FeeLevel where "PRIOIRTY \<equiv> 0"
abbreviation (input) NORMAL :: FeeLevel where "NORMAL \<equiv> 1"
abbreviation (input) ECONOMIC :: FeeLevel where "ECONOMIC \<equiv> 2"
abbreviation (input) FEE_BUMP :: FeeLevel where "FEE_BUMP \<equiv> 3"

section \<open>Callbacks\<close>

record TransactionOutput =
  tout_Address :: "Address option"
  tout_Value :: i64
  tout_Index :: u32

record TransactionInput =
  OutpointHash :: bytes
  OutpointIndex :: u32
  LinkedAddress :: "Address option"
  tin_Value :: i64

record TransactionCallback =
  cb_Txid :: string
  cb_Outputs :: "TransactionOutput list"
  cb_Inputs :: "TransactionInput list"
  cb_Height :: i32
  cb_Value :: i64
  cb_BlockTime :: go_time

record BlockCallback =
  bcb_Hash :: string
  bcb_Height :: u32
  bcb_Nonce :: u32
  bcb_Timestamp :: go_time
  ChainTip :: bool
  bcb_PrevBlock :: string
  bcb_Version :: i32

record Signature =
  InputIndex :: u32
  Signature :: bytes

section \<open>Equality tests\<close>

lemma OutPoint_eq_iff: "(p :: OutPoint) = q \<longleftrightarrow> op_Hash p = op_Hash q \<and> op_Index p = op_Index q"
  by (cases p; cases q) simp

lemma Utxo_eq_upto_WatchOnly:
  "u\<lparr>WatchOnly := b\<rparr> = a\<lparr>WatchOnly := b\<rparr> \<longleftrightarrow>
     utxo_Op u = utxo_Op a \<and> AtHeight u = AtHeight a \<and> utxo_Value u = utxo_Value a \<and>
     ScriptPubkey u = ScriptPubkey a"
  for u a :: Utxo
  by (cases u; cases a) simp

lemma Utxo_IsEqual_Some:
  "Utxo_IsEqual (Some u) (Some a) = Ok (u\<lparr>WatchOnly := b\<rparr> = a\<lparr>WatchOnly := b\<rparr>)"
  by (simp add: Utxo_IsEqual_def Utxo_eq_upto_WatchOnly OutPoint_eq_iff)

text \<open>\<open>Utxo.IsEqual\<close> on non-nil pointers holds exactly when the two outputs agree in
  every field but the watch-only flag, and comparing with nil is false.\<close>

theorem Utxo_IsEqual_correct:
  "Utxo_IsEqual (Some u) alt =
     Ok (case alt of None \<Rightarrow> False | Some a \<Rightarrow> u\<lparr>WatchOnly := b\<rparr> = a\<lparr>WatchOnly := b\<rparr>)"
  by (cases alt) (simp_all add: Utxo_IsEqual_def Utxo_eq_upto_WatchOnly OutPoint_eq_iff)

lemma Stxo_IsEqual_iff:
  "Stxo_IsEqual (Some s) (Some a) =
     Ok ((stxo_Utxo s)\<lparr>WatchOnly := b\<rparr> = (stxo_Utxo a)\<lparr>WatchOnly := b\<rparr> \<and>
         SpendHeight s = SpendHeight a \<and> SpendTxid s = SpendTxid a)"
  by (simp add: Stxo_IsEqual_def Utxo_IsEqual_Some [where b = b] del: Utxo.update_convs split: bool.split)

end
