(* ===== verification/Merkle_Block.thy ===== *)
theory Merkle_Block
  imports Wallet_Types
begin

text \<open>
  The partial Merkle tree parser of \<^verbatim>\<open>src/mblock.go\<close>: \<open>MakeMerkleParent\<close>, the tree-shape
  functions \<open>treeDepth\<close>, \<open>nextPowerOfTwo\<close> and \<open>inDeadZone\<close>, and the stack machine
  \<open>checkMBlock\<close>, one definition per branch of its main loop.  Positions, depths and flag
  indices keep their Go widths; loops that may not end are partial functions into
  \<open>option\<close>, where \<open>None\<close> means that the Go code does not return; an index out of range is
  the outcome \<open>Panic\<close>.

  The proofs relate the machine to an abstract partial Merkle tree (\<open>mtree\<close>): every hash on
  the stack is the root of a tree that fits the node's position, and the loop's remaining
  flag bits and stack height bound its length.
\<close>

section \<open>The program\<close>

text \<open>\<open>chainhash.DoubleHashH\<close> (the library's double SHA-256) is the parameter \<open>dh\<close>.\<close>

definition MakeMerkleParent :: "(bytes \<Rightarrow> hash) \<Rightarrow> hash option \<Rightarrow> hash option \<Rightarrow> error + hash" where
  "MakeMerkleParent dh left right =
     (if left \<noteq> None \<and> right \<noteq> None \<and> left = right then Inl (ErrMsg ''DUP HASH CRASH'')
      else case left of
        None \<Rightarrow> Inl (ErrMsg ''Left child is nil'')
      | Some l \<Rightarrow>
          (let r = (case right of None \<Rightarrow> l | Some r \<Rightarrow> r)
           in Inr (dh (hash_bytes l @ hash_bytes r))))"

record merkleNode =
  node_p :: u32
  node_h :: "hash option"

partial_function (option) treeDepth_loop :: "u8 \<Rightarrow> u32 \<Rightarrow> u8 option" where
  "treeDepth_loop e n =
     (if push_bit (unat e) 1 < n then treeDepth_loop (e + 1) n else Some e)"

definition treeDepth :: "u32 \<Rightarrow> u8 option" where
  "treeDepth n = treeDepth_loop 0 n"

definition nextPowerOfTwo :: "u32 \<Rightarrow> u32 option" where
  "nextPowerOfTwo n = map_option (\<lambda>e. push_bit (unat e) 1) (treeDepth n)"

partial_function (option) inDeadZone_loop :: "u32 \<Rightarrow> u32 \<Rightarrow> u32 \<Rightarrow> u32 \<Rightarrow> u32 option" where
  "inDeadZone_loop pos msb h lst =
     (if h \<le> pos then inDeadZone_loop pos msb (drop_bit 1 h OR msb) (drop_bit 1 lst OR msb)
      else Some lst)"

definition inDeadZone :: "u32 \<Rightarrow> u32 \<Rightarrow> bool option" where
  "inDeadZone pos sz =
     (case nextPowerOfTwo sz of
        None \<Rightarrow> None
      | Some msb \<Rightarrow>
          (if push_bit 1 msb - 2 < pos then Some True
           else map_option (\<lambda>lst. lst < pos) (inDeadZone_loop pos msb msb (sz - 1))))"

record mb_state =
  mb_s :: "merkleNode list"
  mb_r :: "hash list"
  mb_pos :: u32
  mb_i :: u8
  mb_hashes :: "hash list"
  mb_flags :: bytes

datatype mb_step = Done "hash list go" | Continue mb_state

text \<open>One pass through the main loop.  The slice \<open>s\<close> is kept with its tip first.\<close>

definition mb_dead :: "(bytes \<Rightarrow> hash) \<Rightarrow> mb_state \<Rightarrow> mb_step" where
  "mb_dead dh st =
     (case mb_s st of
        [] \<Rightarrow> Done Panic
      | x # below \<Rightarrow>
          (case MakeMerkleParent dh (node_h x) None of
             Inl e \<Rightarrow> Done (Err e)
           | Inr h \<Rightarrow>
               (case below of
                  [] \<Rightarrow> Done Panic
                | y # r \<Rightarrow>
                    Continue (st\<lparr>mb_s := y\<lparr>node_h := Some h\<rparr> # r,
                                 mb_pos := node_p y OR 1\<rparr>))))"

definition mb_combine :: "(bytes \<Rightarrow> hash) \<Rightarrow> mb_state \<Rightarrow> mb_step option" where
  "mb_combine dh st =
     (case mb_s st of
        x # y # z # r \<Rightarrow>
          (if node_h y \<noteq> None \<and> node_h x \<noteq> None then
             Some (case MakeMerkleParent dh (node_h y) (node_h x) of
                     Inl e \<Rightarrow> Done (Err e)
                   | Inr h \<Rightarrow>
                       Continue (st\<lparr>mb_s := z\<lparr>node_h := Some h\<rparr> # r,
                                    mb_pos := node_p z OR 1\<rparr>))
           else None)
      | _ \<Rightarrow> None)"

definition mb_advance :: "mb_state \<Rightarrow> mb_state" where
  "mb_advance st =
     (let i = mb_i st + 1
      in if i = 8 then st\<lparr>mb_i := 0, mb_flags := tl (mb_flags st)\<rparr> else st\<lparr>mb_i := i\<rparr>)"

definition mb_push :: "u32 \<Rightarrow> u32 \<Rightarrow> mb_state \<Rightarrow> mb_step" where
  "mb_push msb txs st =
     (case mb_hashes st of
        [] \<Rightarrow> Done (Err (ErrMsg ''Ran out of hashes''))
      | hh # hs \<Rightarrow>
          (case mb_flags st of
             [] \<Rightarrow> Done (Err (ErrMsg ''Ran out of flag bits.''))
           | fl # _ \<Rightarrow>
               (let pos = mb_pos st;
                    flag = (fl AND push_bit (unat (mb_i st)) 1 \<noteq> 0);
                    filled = \<lparr>node_p = pos, node_h = Some hh\<rparr>
                in if pos AND msb \<noteq> 0 then
                     (if \<not> flag then
                        Continue (mb_advance (st\<lparr>
                          mb_hashes := hs,
                          mb_pos := (if pos AND 1 \<noteq> 0 then drop_bit 1 pos OR msb else pos OR 1),
                          mb_s := filled # mb_s st\<rparr>))
                      else
                        Continue (mb_advance (st\<lparr>
                          mb_pos := push_bit 1 (pos XOR msb),
                          mb_s := \<lparr>node_p = pos, node_h = None\<rparr> # mb_s st\<rparr>)))
                   else if txs \<le> pos then Done (Err (ErrMsg ''got into an invalid txid node''))
                   else
                     Continue (mb_advance (st\<lparr>
                       mb_hashes := hs,
                       mb_r := (if flag then mb_r st @ [hh] else mb_r st),
                       mb_pos := (if pos AND 1 = 0 then pos OR 1 else pos),
                       mb_s := filled # mb_s st\<rparr>)))))"

definition mb_root_check :: "hash \<Rightarrow> mb_state \<Rightarrow> mb_step option" where
  "mb_root_check root st =
     (case mb_s st of
        [x] \<Rightarrow>
          (case node_h x of
             None \<Rightarrow> None
           | Some h \<Rightarrow>
               Some (if h = root then Done (Ok (mb_r st))
                     else Done (Err (ErrMsg ''computed root mismatch''))))
      | _ \<Rightarrow> None)"

definition mb_iter :: "(bytes \<Rightarrow> hash) \<Rightarrow> hash \<Rightarrow> u32 \<Rightarrow> u32 \<Rightarrow> mb_state \<Rightarrow> mb_step option" where
  "mb_iter dh root txs msb st =
     (case mb_root_check root st of
        Some r \<Rightarrow> Some r
      | None \<Rightarrow>
          (case inDeadZone (mb_pos st) txs of
             None \<Rightarrow> None
           | Some True \<Rightarrow> Some (mb_dead dh st)
           | Some False \<Rightarrow>
               (case mb_combine dh st of
                  Some r \<Rightarrow> Some r
                | None \<Rightarrow> Some (mb_push msb txs st))))"

partial_function (option) checkMBlock_loop ::
    "(bytes \<Rightarrow> hash) \<Rightarrow> hash \<Rightarrow> u32 \<Rightarrow> u32 \<Rightarrow> mb_state \<Rightarrow> hash list go option" where
  "checkMBlock_loop dh root txs msb st =
     (case mb_iter dh root txs msb st of
        None \<Rightarrow> None
      | Some (Done r) \<Rightarrow> Some r
      | Some (Continue st') \<Rightarrow> checkMBlock_loop dh root txs msb st')"

definition checkMBlock :: "(bytes \<Rightarrow> hash) \<Rightarrow> MsgMerkleBlock \<Rightarrow> hash list go option" where
  "checkMBlock dh m =
     (if Transactions m = 0 then Some (Err (ErrMsg ''No transactions in merkleblock''))
      else if Flags m = [] then Some (Err (ErrMsg ''No flag bits''))
      else case nextPowerOfTwo (Transactions m) of
        None \<Rightarrow> None
      | Some msb \<Rightarrow>
          checkMBlock_loop dh (MerkleRoot (mb_Header m)) (Transactions m) msb
            \<lparr>mb_s = [], mb_r = [], mb_pos = push_bit 1 msb - 2, mb_i = 0,
             mb_hashes = Hashes m, mb_flags = Flags m\<rparr>)"

declare treeDepth_loop.simps [code] inDeadZone_loop.simps [code] checkMBlock_loop.simps [code]

section \<open>Depth of the tree\<close>

lemma treeDepth_loop_Some: "treeDepth_loop e n = Some r \<Longrightarrow> \<not> push_bit (unat r) 1 < n"
proof -
  assume ret: "treeDepth_loop e n = Some r"
  show ?thesis
  proof (rule treeDepth_loop.raw_induct [where P = "\<lambda>e n r. \<not> push_bit (unat r) 1 < n", OF _ ret])
    fix f e n r
    assume "\<And>e n r. f e n = Some r \<Longrightarrow> \<not> push_bit (unat r) 1 < (n :: u32)"
      and "(if push_bit (unat e) 1 < n then f (e + 1) n else Some e) = Some (r :: u8)"
    then show "\<not> push_bit (unat r) 1 < n" by (auto split: if_splits)
  qed
qed

lemma treeDepth_loop_least:
  assumes "unat e \<le> d" "d \<le> 31" "\<And>j. unat e \<le> j \<Longrightarrow> j < d \<Longrightarrow> 2 ^ j < unat n" "unat n \<le> 2 ^ d"
  shows "treeDepth_loop e n = Some (of_nat d)"
  using assms
proof (induction "d - unat e" arbitrary: e)
  case 0
  then have d: "d = unat e" by simp
  with 0 have "\<not> push_bit (unat e) 1 < n"
    by (simp add: word_less_nat_alt word_nat_simps)
  with d show ?case by (subst treeDepth_loop.simps) simp
next
  case (Suc k)
  then have lt: "unat e < d" by simp
  with Suc.prems have "push_bit (unat e) 1 < n"
    by (simp add: word_less_nat_alt word_nat_simps)
  moreover have ue: "unat (e + 1) = unat e + 1"
    using lt Suc.prems(2) by (simp add: unat_word_ariths)
  then have "treeDepth_loop (e + 1) n = Some (of_nat d)"
    using Suc.hyps(2) Suc.prems lt by (intro Suc.hyps(1)) auto
  ultimately show ?case by (subst treeDepth_loop.simps) simp
qed

definition depth_of :: "nat \<Rightarrow> nat" where
  "depth_of n = (LEAST d. n \<le> 2 ^ d)"

lemma depth_of_le: "n \<le> 2 ^ depth_of n"
  unfolding depth_of_def by (rule LeastI [of _ n]) (simp add: less_imp_le)

lemma depth_of_least: "j < depth_of n \<Longrightarrow> 2 ^ j < n"
  unfolding depth_of_def by (meson not_le not_less_Least)

lemma depth_of_bound: "n \<le> 2 ^ k \<Longrightarrow> depth_of n \<le> k"
  unfolding depth_of_def by (rule Least_le)

lemma depth_of_Suc: "2 ^ d < n \<Longrightarrow> n \<le> 2 ^ Suc d \<Longrightarrow> depth_of n = Suc d"
proof (rule antisym)
  assume lt: "2 ^ d < n"
  show "Suc d \<le> depth_of n"
  proof (rule ccontr)
    assume "\<not> Suc d \<le> depth_of n"
    then have "(2 :: nat) ^ depth_of n \<le> 2 ^ d" by (intro power_increasing) auto
    with lt depth_of_le [of n] show False by simp
  qed
qed (rule depth_of_bound)

lemma nextPowerOfTwo_Some:
  assumes "unat n \<le> 2 ^ 31"
  shows "nextPowerOfTwo n = Some (push_bit (depth_of (unat n)) 1)"
proof -
  let ?d = "depth_of (unat n)"
  have d: "?d \<le> 31" using assms by (rule depth_of_bound)
  have "treeDepth n = Some (of_nat ?d)"
    unfolding treeDepth_def
    using d depth_of_le depth_of_least by (intro treeDepth_loop_least) auto
  moreover have "unat (of_nat ?d :: u8) = ?d"
    using d by (simp add: unat_of_nat)
  ultimately show ?thesis by (simp add: nextPowerOfTwo_def)
qed

lemma treeDepth_diverges:
  assumes "2 ^ 31 < unat n"
  shows "treeDepth n = None"
proof (rule ccontr)
  assume "treeDepth n \<noteq> None"
  then obtain r where "treeDepth_loop 0 n = Some r" by (auto simp: treeDepth_def)
  then have ge: "\<not> push_bit (unat r) 1 < n" by (rule treeDepth_loop_Some)
  with assms exp32_le [of "unat r"] show False
    by (simp add: word_less_nat_alt)
qed

section \<open>The dead zone\<close>

text \<open>The index of the first leaf below a node of a tree with \<open>M\<close> leaf slots.\<close>

function first_leaf :: "nat \<Rightarrow> nat \<Rightarrow> nat" where
  "first_leaf M p = (if p < M \<or> 2 * M \<le> p then p else first_leaf M (2 * (p - M)))"
  by pat_completeness auto
termination
  by (relation "measure snd") auto

declare first_leaf.simps [simp del]

lemma first_leaf_low: "p < M \<Longrightarrow> first_leaf M p = p"
  by (simp add: first_leaf.simps)

lemma first_leaf_up: "M \<le> p \<Longrightarrow> p < 2 * M \<Longrightarrow> first_leaf M p = first_leaf M (2 * (p - M))"
  by (subst first_leaf.simps) simp

lemma inDeadZone_loop_spec:
  fixes d :: nat
  defines "M \<equiv> 2 ^ d"
  assumes "d < 32" "unat h = 2 * M - 2 ^ j" "j \<le> d"
    and "2 * M - 2 * 2 ^ j \<le> unat pos" "unat pos < 2 * M - 1" "unat lst < 2 * M"
    and row: "\<And>q. 2 * M - 2 * 2 ^ j \<le> q \<Longrightarrow> q < 2 * M - 2 ^ j \<Longrightarrow>
                unat lst < q \<longleftrightarrow> N \<le> first_leaf M q"
  shows "\<exists>r. inDeadZone_loop pos (2 ^ d) h lst = Some r \<and>
             (r < pos \<longleftrightarrow> N \<le> first_leaf M (unat pos))"
  using assms(3-)
proof (induction j arbitrary: h lst)
  case 0
  then have "\<not> h \<le> pos" by (simp add: word_le_nat_alt)
  with 0 show ?case
    by (subst inDeadZone_loop.simps) (simp add: word_less_nat_alt)
next
  case (Suc j)
  show ?case
  proof (cases "h \<le> pos")
    case False
    with Suc.prems have "lst < pos \<longleftrightarrow> N \<le> first_leaf M (unat pos)"
      by (simp add: word_le_nat_alt word_less_nat_alt)
    with False show ?thesis by (subst inDeadZone_loop.simps) simp
  next
    case True
    have pw: "(2 :: nat) ^ j * 2 \<le> M" 
      using Suc.prems(2) power_increasing [of "Suc j" d "2::nat"] by (simp add: M_def mult.commute)
    let ?h = "drop_bit 1 h OR 2 ^ d" and ?l = "drop_bit 1 lst OR 2 ^ d"
    have h: "unat ?h = 2 * M - 2 ^ j"
      using Suc.prems(1) pw assms(2) by (simp add: word_nat_simps M_def)
    have l: "unat ?l = unat lst div 2 + M"
      using Suc.prems(5) assms(2) by (simp add: word_nat_simps M_def)
    have "\<exists>r. inDeadZone_loop pos (2 ^ d) ?h ?l = Some r \<and>
             (r < pos \<longleftrightarrow> N \<le> first_leaf M (unat pos))"
    proof (rule Suc.IH [OF h])
      show "j \<le> d" "unat pos < 2 * M - 1" using Suc.prems by auto
      show "2 * M - 2 * 2 ^ j \<le> unat pos"
        using True Suc.prems(1) by (simp add: word_le_nat_alt)
      show "unat ?l < 2 * M" using Suc.prems(5) l by simp
      fix q assume q: "2 * M - 2 * 2 ^ j \<le> q" "q < 2 * M - 2 ^ j"
      then have "unat lst < 2 * (q - M) \<longleftrightarrow> N \<le> first_leaf M (2 * (q - M))"
        using pw by (intro Suc.prems(6)) auto
      moreover have "first_leaf M q = first_leaf M (2 * (q - M))"
        using q pw by (intro first_leaf_up) auto
      ultimately show "unat ?l < q \<longleftrightarrow> N \<le> first_leaf M q"
        using q pw l by auto
    qed
    with True show ?thesis by (subst inDeadZone_loop.simps) simp
  qed
qed

lemma inDeadZone_spec:
  assumes "0 < unat n" "unat n \<le> 2 ^ 31" "unat pos \<le> 2 * 2 ^ depth_of (unat n) - 2"
  shows "inDeadZone pos n = Some (unat n \<le> first_leaf (2 ^ depth_of (unat n)) (unat pos))"
proof -
  let ?d = "depth_of (unat n)"
  have d: "?d < 32" using depth_of_bound [OF assms(2)] by simp
  have n1: "unat (n - 1) = unat n - 1"
    using assms(1) by (simp add: unat_sub_if')
  have le: "unat n \<le> 2 ^ ?d" by (rule depth_of_le)
  have root: "unat (push_bit 1 (2 ^ ?d) - 2 :: u32) = 2 * 2 ^ ?d - 2"
    using d by (simp add: word_nat_simps)
  have "\<exists>r. inDeadZone_loop pos (2 ^ ?d) (2 ^ ?d) (n - 1) = Some r \<and>
             (r < pos \<longleftrightarrow> unat n \<le> first_leaf (2 ^ ?d) (unat pos))"
    by (rule inDeadZone_loop_spec [where j = ?d])
       (use assms d n1 le in \<open>auto simp: word_nat_simps first_leaf_low\<close>)
  with assms root nextPowerOfTwo_Some [OF assms(2)] show ?thesis
    by (auto simp: inDeadZone_def word_less_nat_alt)
qed

section \<open>Partial Merkle trees\<close>

datatype mtree = MTx hash bool | MHash hash | MNode mtree mtree | MOdd mtree

fun mroot :: "(bytes \<Rightarrow> hash) \<Rightarrow> mtree \<Rightarrow> hash" where
  "mroot dh (MTx t _) = t"
| "mroot dh (MHash h) = h"
| "mroot dh (MNode l r) = dh (hash_bytes (mroot dh l) @ hash_bytes (mroot dh r))"
| "mroot dh (MOdd l) = dh (hash_bytes (mroot dh l) @ hash_bytes (mroot dh l))"

fun mtxs :: "mtree \<Rightarrow> hash list" where
  "mtxs (MTx t b) = (if b then [t] else [])"
| "mtxs (MHash h) = []"
| "mtxs (MNode l r) = mtxs l @ mtxs r"
| "mtxs (MOdd l) = mtxs l"

fun mhashes :: "mtree \<Rightarrow> hash list" where
  "mhashes (MTx t b) = [t]"
| "mhashes (MHash h) = [h]"
| "mhashes (MNode l r) = mhashes l @ mhashes r"
| "mhashes (MOdd l) = mhashes l"

text \<open>\<open>fits dh N M p t\<close>: \<open>t\<close> is the node at position \<open>p\<close> of the tree over \<open>N\<close> leaves.\<close>

fun fits :: "(bytes \<Rightarrow> hash) \<Rightarrow> nat \<Rightarrow> nat \<Rightarrow> nat \<Rightarrow> mtree \<Rightarrow> bool" where
  "fits dh N M p (MTx t b) \<longleftrightarrow> p < M \<and> p < N"
| "fits dh N M p (MHash h) \<longleftrightarrow> M \<le> p \<and> first_leaf M p < N"
| "fits dh N M p (MNode l r) \<longleftrightarrow>
     M \<le> p \<and> fits dh N M (2 * (p - M)) l \<and> fits dh N M (2 * (p - M) + 1) r \<and>
     mroot dh l \<noteq> mroot dh r"
| "fits dh N M p (MOdd l) \<longleftrightarrow>
     M \<le> p \<and> fits dh N M (2 * (p - M)) l \<and> N \<le> first_leaf M (2 * (p - M) + 1)"

section \<open>The invariant of the main loop\<close>

definition filled :: "(bytes \<Rightarrow> hash) \<Rightarrow> nat \<Rightarrow> nat \<Rightarrow> nat \<Rightarrow> mtree \<Rightarrow> merkleNode \<Rightarrow> bool" where
  "filled dh N M p t x \<longleftrightarrow>
     unat (node_p x) = p \<and> node_h x = Some (mroot dh t) \<and> fits dh N M p t"

text \<open>
  \<open>open_path\<close>: the tip of the stack is a node still without a hash; below it lies, for every
  ancestor, its completed left child where the path goes right.
\<close>

inductive open_path :: "(bytes \<Rightarrow> hash) \<Rightarrow> nat \<Rightarrow> nat \<Rightarrow> merkleNode list \<Rightarrow> hash list \<Rightarrow> hash list \<Rightarrow> bool"
  for dh N M where
  op_root: "unat (node_p x) = 2 * M - 2 \<Longrightarrow> node_h x = None \<Longrightarrow> 2 \<le> M \<Longrightarrow>
    first_leaf M (2 * M - 2) < N \<Longrightarrow> open_path dh N M [x] [] []"
| op_left: "open_path dh N M (y # ys) rs cs \<Longrightarrow> unat (node_p x) = 2 * (unat (node_p y) - M) \<Longrightarrow>
    node_h x = None \<Longrightarrow> M \<le> unat (node_p x) \<Longrightarrow> open_path dh N M (x # y # ys) rs cs"
| op_right: "open_path dh N M (y # ys) rs cs \<Longrightarrow> filled dh N M (2 * (unat (node_p y) - M)) t l \<Longrightarrow>
    unat (node_p x) = 2 * (unat (node_p y) - M) + 1 \<Longrightarrow> node_h x = None \<Longrightarrow>
    M \<le> unat (node_p x) \<Longrightarrow> first_leaf M (unat (node_p x)) < N \<Longrightarrow>
    open_path dh N M (x # l # y # ys) (rs @ mtxs t) (cs @ mhashes t)"

inductive mb_inv :: "(bytes \<Rightarrow> hash) \<Rightarrow> nat \<Rightarrow> nat \<Rightarrow> merkleNode list \<Rightarrow> u32 \<Rightarrow> hash list \<Rightarrow> hash list \<Rightarrow> bool"
  for dh N M where
  mb_start: "unat pos = 2 * M - 2 \<Longrightarrow> mb_inv dh N M [] pos [] []"
| mb_descend: "open_path dh N M (y # ys) rs cs \<Longrightarrow> unat pos = 2 * (unat (node_p y) - M) \<Longrightarrow>
    mb_inv dh N M (y # ys) pos rs cs"
| mb_leftdone: "open_path dh N M (y # ys) rs cs \<Longrightarrow> filled dh N M (2 * (unat (node_p y) - M)) t l \<Longrightarrow>
    unat pos = 2 * (unat (node_p y) - M) + 1 \<Longrightarrow>
    mb_inv dh N M (l # y # ys) pos (rs @ mtxs t) (cs @ mhashes t)"
| mb_bothdone: "open_path dh N M (y # ys) rs cs \<Longrightarrow> filled dh N M (2 * (unat (node_p y) - M)) t l \<Longrightarrow>
    filled dh N M (2 * (unat (node_p y) - M) + 1) t' x \<Longrightarrow>
    unat pos \<le> 2 * M - 2 \<Longrightarrow> first_leaf M (unat pos) < N \<Longrightarrow>
    mb_inv dh N M (x # l # y # ys) pos (rs @ mtxs t @ mtxs t') (cs @ mhashes t @ mhashes t')"
| mb_done: "filled dh N M (2 * M - 2) t x \<Longrightarrow> mb_inv dh N M [x] pos (mtxs t) (mhashes t)"

lemma first_leaf_left:
  "M \<le> p \<Longrightarrow> p \<le> 2 * M - 2 \<Longrightarrow> first_leaf M p < N \<Longrightarrow> first_leaf M (2 * (p - M)) < N"
  by (cases M) (auto simp: first_leaf_up)

lemma open_path_tip:
  "open_path dh N M s rs cs \<Longrightarrow> 2 \<le> M \<and> (\<exists>x xs. s = x # xs \<and> node_h x = None \<and>
     M \<le> unat (node_p x) \<and> unat (node_p x) \<le> 2 * M - 2 \<and> first_leaf M (unat (node_p x)) < N)"
  by (induction rule: open_path.induct) (auto simp: first_leaf_left)

text \<open>Completing the node at the tip of an open path.\<close>

lemma open_path_fill:
  assumes "open_path dh N M (y # ys) rs cs" "fits dh N M (unat (node_p y)) t"
  shows "mb_inv dh N M (y\<lparr>node_h := Some (mroot dh t)\<rparr> # ys) (node_p y OR 1)
           (rs @ mtxs t) (cs @ mhashes t)"
  using assms(1)
proof cases
  case op_root
  then show ?thesis
    using assms(2) mb_done [of dh N M t "y\<lparr>node_h := Some (mroot dh t)\<rparr>"]
    by (simp add: filled_def)
next
  case (op_left z zs)
  then show ?thesis
    using assms(2) mb_leftdone [OF op_left(2), of t "y\<lparr>node_h := Some (mroot dh t)\<rparr>" "node_p y OR 1"]
    by (simp add: filled_def unat_or_one)
next
  case (op_right z zs rs' cs' t' l)
  moreover have "unat (node_p y) \<le> 2 * M - 2" using open_path_tip [OF assms(1)] by simp
  ultimately show ?thesis
    using assms(2)
      mb_bothdone [OF op_right(4,5), of t "y\<lparr>node_h := Some (mroot dh t)\<rparr>" "node_p y OR 1"]
    by (simp add: filled_def unat_or_one)
qed

lemma first_leaf_row: "j \<le> d \<Longrightarrow> first_leaf (2 ^ d) (2 * 2 ^ d - 2 * 2 ^ j) = 0"
proof (induction "d - j" arbitrary: j)
  case 0
  then show ?case by (simp add: first_leaf_low)
next
  case (Suc k)
  then have lt: "Suc j \<le> d" by simp
  let ?M = "(2 :: nat) ^ d" and ?p = "2 * 2 ^ d - 2 * (2 :: nat) ^ j"
  have pw: "2 * 2 ^ j \<le> ?M" using power_increasing [OF lt, of "2 :: nat"] by simp
  then have "first_leaf ?M ?p = first_leaf ?M (2 * (?p - ?M))"
    by (intro first_leaf_up) auto
  also have "2 * (?p - ?M) = 2 * 2 ^ d - 2 * 2 ^ Suc j" using pw by simp
  also have "first_leaf ?M \<dots> = 0" using Suc.hyps lt by (intro Suc.hyps(1)) auto
  finally show ?case .
qed

lemma first_leaf_root: "first_leaf (2 ^ d) (2 * 2 ^ d - 2) = 0"
  using first_leaf_row [of 0 d] by simp

text \<open>Pushing a completed node.\<close>

lemma push_filled:
  assumes inv: "mb_inv dh N M s pos rs cs"
    and rc: "mb_root_check root (st\<lparr>mb_s := s\<rparr>) = None" and cb: "mb_combine dh (st\<lparr>mb_s := s\<rparr>) = None"
    and x: "filled dh N M (unat pos) t x"
    and ev: "even (unat pos) \<Longrightarrow> pos' = pos OR 1"
    and od: "odd (unat pos) \<Longrightarrow> pos' = pos \<and> first_leaf M (unat pos) < N \<or>
               unat pos' = unat pos div 2 + M"
  shows "mb_inv dh N M (x # s) pos' (rs @ mtxs t) (cs @ mhashes t)"
  using inv
proof cases
  case mb_start
  then show ?thesis using x mb_done [of dh N M t x pos'] by simp
next
  case (mb_descend y ys)
  then show ?thesis using x ev mb_leftdone [OF mb_descend(2), of t x pos']
    by (simp add: unat_or_one)
next
  case (mb_leftdone y ys rs' cs' t' l)
  from open_path_tip [OF mb_leftdone(4)] mb_leftdone od
  have "unat pos' \<le> 2 * M - 2" "first_leaf M (unat pos') < N" by auto
  then show ?thesis using x mb_leftdone mb_bothdone [OF mb_leftdone(4,5), of t x pos']
    by simp
next
  case mb_bothdone
  then show ?thesis using cb by (simp add: mb_combine_def filled_def)
next
  case mb_done
  then show ?thesis using rc by (simp add: mb_root_check_def filled_def)
qed

text \<open>Pushing a node that the flag bit says to open.\<close>

lemma push_open:
  assumes inv: "mb_inv dh N M s pos rs cs"
    and rc: "mb_root_check root (st\<lparr>mb_s := s\<rparr>) = None" and cb: "mb_combine dh (st\<lparr>mb_s := s\<rparr>) = None"
    and x: "node_p x = pos" "node_h x = None" "M \<le> unat pos" "0 < M" "first_leaf M (unat pos) < N"
    and pos': "unat pos' = 2 * (unat pos - M)"
  shows "mb_inv dh N M (x # s) pos' rs cs"
  using inv
proof cases
  case mb_start
  then show ?thesis using x pos' by (auto intro!: mb_inv.mb_descend open_path.op_root)
next
  case (mb_descend y ys)
  then show ?thesis using x pos' by (auto intro!: mb_inv.mb_descend open_path.op_left)
next
  case (mb_leftdone y ys rs' cs' t l)
  then show ?thesis using x pos' by (auto intro!: mb_inv.mb_descend open_path.op_right)
next
  case mb_bothdone
  then show ?thesis using cb by (simp add: mb_combine_def filled_def)
next
  case mb_done
  then show ?thesis using rc by (simp add: mb_root_check_def filled_def)
qed

text \<open>What the parser promises of a result, and one pass of the loop.\<close>

definition mb_good :: "(bytes \<Rightarrow> hash) \<Rightarrow> nat \<Rightarrow> nat \<Rightarrow> hash \<Rightarrow> hash list \<Rightarrow> hash list go \<Rightarrow> bool" where
  "mb_good dh N M root hs res \<longleftrightarrow>
     (case res of
        Ok txs \<Rightarrow> (\<exists>t rest. fits dh N M (2 * M - 2) t \<and> mroot dh t = root \<and>
                      mtxs t = txs \<and> hs = mhashes t @ rest)
      | Err e \<Rightarrow> True
      | Panic \<Rightarrow> False)"

definition mb_ok :: "(bytes \<Rightarrow> hash) \<Rightarrow> nat \<Rightarrow> nat \<Rightarrow> hash list \<Rightarrow> mb_state \<Rightarrow> bool" where
  "mb_ok dh N M hs st \<longleftrightarrow>
     (\<exists>cs. mb_inv dh N M (mb_s st) (mb_pos st) (mb_r st) cs \<and> hs = cs @ mb_hashes st)"

lemma mb_advance_simps [simp]:
  "mb_s (mb_advance st) = mb_s st" "mb_pos (mb_advance st) = mb_pos st"
  "mb_r (mb_advance st) = mb_r st" "mb_hashes (mb_advance st) = mb_hashes st"
  by (simp_all add: mb_advance_def Let_def)

lemma mb_advance_ok [simp]: "mb_ok dh N M hs (mb_advance st) = mb_ok dh N M hs st"
  by (simp add: mb_ok_def)

lemma root_check_good:
  assumes "mb_ok dh N M hs st" "mb_root_check root st = Some r"
  shows "\<exists>res. r = Done res \<and> mb_good dh N M root hs res"
proof -
  from assms(1) obtain cs where inv: "mb_inv dh N M (mb_s st) (mb_pos st) (mb_r st) cs"
    and hs: "hs = cs @ mb_hashes st" by (auto simp: mb_ok_def)
  from assms(2) obtain x where x: "mb_s st = [x]" "node_h x \<noteq> None"
    by (auto simp: mb_root_check_def split: list.splits option.splits)
  from inv have "\<exists>t. filled dh N M (2 * M - 2) t x \<and> mb_r st = mtxs t \<and> cs = mhashes t"
    by (cases) (use x in \<open>auto dest: open_path_tip\<close>)
  with assms(2) x hs show ?thesis
    by (auto simp: mb_root_check_def mb_good_def filled_def split: if_splits) blast
qed

lemma dead_good:
  assumes inv: "mb_inv dh N M s (mb_pos st) (mb_r st) cs" and s: "mb_s st = s"
    and rc: "mb_root_check root st = None" and M: "M = 2 ^ d" and N: "0 < N"
    and dead: "N \<le> first_leaf M (unat (mb_pos st))"
  shows "\<exists>st'. mb_dead dh st = Continue st' \<and> mb_hashes st' = mb_hashes st \<and>
           mb_inv dh N M (mb_s st') (mb_pos st') (mb_r st') cs"
  using inv
proof cases
  case mb_start
  with dead M N show ?thesis by (simp add: first_leaf_root)
next
  case (mb_descend y ys)
  with dead open_path_tip [OF mb_descend(2)] show ?thesis
    by (auto dest: first_leaf_left)
next
  case (mb_leftdone y ys rs' cs' t l)
  then have "fits dh N M (unat (node_p y)) (MOdd t)"
    using dead open_path_tip [OF mb_leftdone(4)] by (simp add: filled_def)
  from open_path_fill [OF mb_leftdone(4) this] mb_leftdone s show ?thesis
    by (simp add: mb_dead_def MakeMerkleParent_def filled_def)
next
  case mb_bothdone
  with dead show ?thesis by simp
next
  case mb_done
  with rc s show ?thesis by (simp add: mb_root_check_def filled_def)
qed

lemma combine_good:
  assumes inv: "mb_inv dh N M s (mb_pos st) (mb_r st) cs" and s: "mb_s st = s"
    and cb: "mb_combine dh st = Some r"
  shows "(\<exists>e. r = Done (Err e)) \<or>
         (\<exists>st'. r = Continue st' \<and> mb_hashes st' = mb_hashes st \<and>
           mb_inv dh N M (mb_s st') (mb_pos st') (mb_r st') cs)"
  using inv
proof cases
  case mb_start
  with cb s show ?thesis by (simp add: mb_combine_def)
next
  case (mb_descend y ys)
  with cb s open_path_tip [OF mb_descend(2)] show ?thesis
    by (auto simp: mb_combine_def split: list.splits if_splits)
next
  case (mb_leftdone y ys)
  with cb s open_path_tip [OF mb_leftdone(4)] show ?thesis
    by (auto simp: mb_combine_def split: list.splits if_splits)
next
  case (mb_bothdone y ys rs' cs' t l t' x)
  show ?thesis
  proof (cases "mroot dh t = mroot dh t'")
    case True
    with cb s mb_bothdone show ?thesis
      by (simp add: mb_combine_def MakeMerkleParent_def filled_def) blast
  next
    case False
    then have "fits dh N M (unat (node_p y)) (MNode t t')"
      using open_path_tip [OF mb_bothdone(4)] mb_bothdone by (simp add: filled_def)
    from open_path_fill [OF mb_bothdone(4) this] mb_bothdone s cb False show ?thesis
      by (auto simp add: mb_combine_def MakeMerkleParent_def filled_def)
  qed
next
  case mb_done
  with cb s show ?thesis by (simp add: mb_combine_def)
qed

lemma mb_inv_pos:
  assumes "mb_inv dh N M s pos rs cs" "mb_root_check root (st\<lparr>mb_s := s\<rparr>) = None" "0 < M"
  shows "unat pos \<le> 2 * M - 2"
  using assms(1)
proof cases
  case (mb_descend y ys)
  with open_path_tip [OF mb_descend(2)] show ?thesis by auto
next
  case (mb_leftdone y ys)
  with open_path_tip [OF mb_leftdone(4)] show ?thesis by auto
next
  case mb_done
  with assms(2) show ?thesis by (simp add: mb_root_check_def filled_def)
qed auto

lemma push_leaf:
  assumes inv: "mb_inv dh (unat n) (2 ^ d) (mb_s st) (mb_pos st) (mb_r st) cs"
    and rc: "mb_root_check root st = None" and cb: "mb_combine dh st = None" and d: "d < 32"
    and live: "first_leaf (2 ^ d) (unat (mb_pos st)) < unat n" and low: "unat (mb_pos st) < 2 ^ d"
    and hf: "mb_hashes st = hh # hs'" "mb_flags st = fl # fs" and hs: "hs = cs @ mb_hashes st"
  shows "\<exists>st'. mb_push (2 ^ d) n st = Continue st' \<and> mb_ok dh (unat n) (2 ^ d) hs st'"
proof -
  let ?M = "(2 :: nat) ^ d" and ?p = "mb_pos st"
  let ?x = "\<lparr>node_p = ?p, node_h = Some hh\<rparr>" and ?t = "MTx hh (fl AND push_bit (unat (mb_i st)) 1 \<noteq> 0)"
  have "unat ?p < 2 * ?M" using low by linarith
  note facts = and_exp_iff [OF this d] and_one_iff
  have "?p < n" using live low by (simp add: first_leaf_low word_less_nat_alt)
  moreover have "filled dh (unat n) ?M (unat ?p) ?t ?x"
    using live low by (simp add: filled_def first_leaf_low)
  then have "mb_inv dh (unat n) ?M (?x # mb_s st) (if ?p AND 1 = 0 then ?p OR 1 else ?p)
      (mb_r st @ mtxs ?t) (cs @ mhashes ?t)"
    using rc cb live by (intro push_filled [OF inv, of root st]) (auto simp: and_one_iff)
  ultimately show ?thesis using low hf hs
    by (auto simp: mb_push_def Let_def facts mb_ok_def split: if_splits)
qed

lemma push_inner:
  assumes inv: "mb_inv dh (unat n) (2 ^ d) (mb_s st) (mb_pos st) (mb_r st) cs"
    and rc: "mb_root_check root st = None" and cb: "mb_combine dh st = None" and d: "d < 32"
    and live: "first_leaf (2 ^ d) (unat (mb_pos st)) < unat n"
    and up: "\<not> unat (mb_pos st) < 2 ^ d" and p: "unat (mb_pos st) < 2 * 2 ^ d"
    and hf: "mb_hashes st = hh # hs'" "mb_flags st = fl # fs" and hs: "hs = cs @ mb_hashes st"
  shows "\<exists>st'. mb_push (2 ^ d) n st = Continue st' \<and> mb_ok dh (unat n) (2 ^ d) hs st'"
proof (cases "fl AND push_bit (unat (mb_i st)) 1 \<noteq> 0")
  case True
  have "mb_inv dh (unat n) (2 ^ d) (\<lparr>node_p = mb_pos st, node_h = None\<rparr> # mb_s st) ((mb_pos st XOR 2 ^ d) * 2) (mb_r st) cs"
    using rc cb live up p d
    by (intro push_open [OF inv, of root st]) (auto simp: word_nat_simps)
  then show ?thesis using True hf hs up
    by (auto simp: mb_push_def Let_def and_exp_iff [OF p d] and_one_iff mb_ok_def simp del: push_bit_xor)
next
  case False
  let ?p = "mb_pos st" and ?x = "\<lparr>node_p = mb_pos st, node_h = Some hh\<rparr>"
  have "filled dh (unat n) (2 ^ d) (unat ?p) (MHash hh) ?x"
    using live up by (simp add: filled_def)
  then have "mb_inv dh (unat n) (2 ^ d) (?x # mb_s st)
      (if ?p AND 1 \<noteq> 0 then drop_bit (Suc 0) ?p OR 2 ^ d else ?p OR 1)
      (mb_r st @ mtxs (MHash hh)) (cs @ mhashes (MHash hh))"
    using rc cb p d
    by (intro push_filled [OF inv, of root st]) (auto simp: and_one_iff word_nat_simps)
  then show ?thesis using False hf hs up
    by (auto simp: mb_push_def Let_def and_exp_iff [OF p d] and_one_iff mb_ok_def)
qed

lemma push_good:
  assumes inv: "mb_inv dh (unat n) (2 ^ d) (mb_s st) (mb_pos st) (mb_r st) cs"
    and rc: "mb_root_check root st = None" and cb: "mb_combine dh st = None" and d: "d < 32"
    and live: "first_leaf (2 ^ d) (unat (mb_pos st)) < unat n"
    and hs: "hs = cs @ mb_hashes st"
  shows "(\<exists>e. mb_push (2 ^ d) n st = Done (Err e)) \<or>
         (\<exists>st'. mb_push (2 ^ d) n st = Continue st' \<and> mb_ok dh (unat n) (2 ^ d) hs st')"
proof (cases "mb_hashes st = [] \<or> mb_flags st = []")
  case True
  then show ?thesis by (auto simp: mb_push_def split: list.splits)
next
  case False
  then obtain hh hs' fl fs where hf: "mb_hashes st = hh # hs'" "mb_flags st = fl # fs"
    by (auto simp: neq_Nil_conv)
  have "unat (mb_pos st) \<le> 2 * 2 ^ d - 2"
    using mb_inv_pos [OF inv, of root st] rc by simp
  then have p: "unat (mb_pos st) < 2 * 2 ^ d"
    using zero_less_power [of "2::nat" d] by linarith
  show ?thesis
  proof (cases "unat (mb_pos st) < 2 ^ d")
    case True
    from push_leaf [OF inv rc cb d live this hf hs] show ?thesis by blast
  next
    case False
    from push_inner [OF inv rc cb d live this p hf hs] show ?thesis by blast
  qed
qed

lemma mb_iter_good:
  assumes n: "0 < unat n" "unat n \<le> 2 ^ 31" and d: "d = depth_of (unat n)"
    and ok: "mb_ok dh (unat n) (2 ^ d) hs st"
  shows "(\<exists>res. mb_iter dh root n (2 ^ d) st = Some (Done res) \<and>
            mb_good dh (unat n) (2 ^ d) root hs res) \<or>
         (\<exists>st'. mb_iter dh root n (2 ^ d) st = Some (Continue st') \<and>
            mb_ok dh (unat n) (2 ^ d) hs st')"
proof (cases "mb_root_check root st")
  case (Some r)
  with root_check_good [OF ok Some] show ?thesis by (auto simp: mb_iter_def)
next
  case None
  from ok obtain cs where inv: "mb_inv dh (unat n) (2 ^ d) (mb_s st) (mb_pos st) (mb_r st) cs"
    and hs: "hs = cs @ mb_hashes st" by (auto simp: mb_ok_def)
  have d32: "d < 32" using d depth_of_bound [OF n(2)] by simp
  have "unat (mb_pos st) \<le> 2 * 2 ^ d - 2"
    using mb_inv_pos [OF inv, of root st] None by simp
  then have dz: "inDeadZone (mb_pos st) n = Some (unat n \<le> first_leaf (2 ^ d) (unat (mb_pos st)))"
    using inDeadZone_spec [OF n] d by simp
  show ?thesis
  proof (cases "unat n \<le> first_leaf (2 ^ d) (unat (mb_pos st))")
    case True
    with dead_good [OF inv refl None refl n(1)] dz None hs show ?thesis
      by (auto simp: mb_iter_def mb_ok_def)
  next
    case live: False
    show ?thesis
    proof (cases "mb_combine dh st")
      case (Some r)
      with combine_good [OF inv refl Some] dz live None hs show ?thesis
        by (auto simp: mb_iter_def mb_ok_def mb_good_def)
    next
      case cb: None
      with push_good [OF inv None cb d32 _ hs] dz live None show ?thesis
        by (auto simp: mb_iter_def mb_good_def)
    qed
  qed
qed

section \<open>Termination of the main loop\<close>

definition mb_measure :: "mb_state \<Rightarrow> nat" where
  "mb_measure st = 2 * (8 * length (mb_flags st) - unat (mb_i st)) + length (mb_s st)"

lemma mb_advance_measure:
  assumes "unat (mb_i st) < 8" "mb_flags st \<noteq> []"
  shows "unat (mb_i (mb_advance st)) < 8"
    and "mb_measure (mb_advance st) + 2 = mb_measure st"
proof -
  have i1: "unat (mb_i st + 1) = unat (mb_i st) + 1"
    using assms(1) by (simp add: unat_word_ariths)
  have eq8: "mb_i st + 1 = 8 \<longleftrightarrow> unat (mb_i st) = 7"
    using i1 by (simp add: word_unat_eq_iff)
  obtain f fs where fl: "mb_flags st = f # fs" using assms(2) by (cases "mb_flags st") auto
  show "unat (mb_i (mb_advance st)) < 8"
    using assms(1) i1 eq8 by (auto simp: mb_advance_def Let_def)
  show "mb_measure (mb_advance st) + 2 = mb_measure st"
    using assms(1) i1 eq8 fl by (auto simp: mb_advance_def mb_measure_def Let_def)
qed

lemma mb_iter_measure:
  assumes "mb_iter dh root n msb st = Some (Continue st')" "unat (mb_i st) < 8"
  shows "unat (mb_i st') < 8 \<and> mb_measure st' < mb_measure st"
proof -
  have rc: "mb_root_check root st = None"
    using assms(1) by (auto simp: mb_iter_def mb_root_check_def split: option.splits list.splits if_splits)
  then consider "mb_dead dh st = Continue st'" | "mb_combine dh st = Some (Continue st')"
    | "mb_push msb n st = Continue st'"
    using assms(1) by (auto simp: mb_iter_def split: option.splits bool.splits)
  then show ?thesis
  proof cases
    case 1
    then show ?thesis using assms(2)
      by (auto simp: mb_dead_def mb_measure_def split: list.splits sum.splits)
  next
    case 2
    then show ?thesis using assms(2)
      by (auto simp: mb_combine_def mb_measure_def split: list.splits sum.splits if_splits)
  next
    case 3
    then obtain st'' where "st' = mb_advance st''" "mb_i st'' = mb_i st" "mb_flags st'' = mb_flags st"
      "length (mb_s st'') = Suc (length (mb_s st))" "mb_flags st \<noteq> []"
      by (auto simp: mb_push_def Let_def split: list.splits if_splits)
    moreover from this have "mb_measure st'' = Suc (mb_measure st)" by (simp add: mb_measure_def)
    ultimately show ?thesis
      using mb_advance_measure [of st''] assms(2) by simp
  qed
qed

lemma checkMBlock_loop_good:
  assumes n: "0 < unat n" "unat n \<le> 2 ^ 31" and d: "d = depth_of (unat n)"
    and "mb_ok dh (unat n) (2 ^ d) hs st" "unat (mb_i st) < 8"
  shows "\<exists>res. checkMBlock_loop dh root n (2 ^ d) st = Some res \<and>
           mb_good dh (unat n) (2 ^ d) root hs res"
  using assms(4-)
proof (induction st rule: measure_induct_rule [of mb_measure])
  case (less st)
  from mb_iter_good [OF n d less.prems(1), of root] show ?case
  proof (elim disjE exE conjE)
    fix res assume "mb_iter dh root n (2 ^ d) st = Some (Done res)"
      "mb_good dh (unat n) (2 ^ d) root hs res"
    then show ?case by (subst checkMBlock_loop.simps) simp
  next
    fix st' assume it: "mb_iter dh root n (2 ^ d) st = Some (Continue st')"
      and ok: "mb_ok dh (unat n) (2 ^ d) hs st'"
    from less.IH [OF _ ok] mb_iter_measure [OF it less.prems(2)] it show ?case
      by (subst checkMBlock_loop.simps) simp
  qed
qed

lemma checkMBlock_spec:
  assumes "unat (Transactions m) \<le> 2 ^ 31"
  shows "\<exists>res. checkMBlock dh m = Some res \<and> res \<noteq> Panic \<and>
    (\<forall>txs. res = Ok txs \<longrightarrow>
       mb_good dh (unat (Transactions m)) (2 ^ depth_of (unat (Transactions m)))
         (MerkleRoot (mb_Header m)) (Hashes m) res)"
proof (cases "Transactions m = 0 \<or> Flags m = []")
  case True
  then show ?thesis by (auto simp: checkMBlock_def)
next
  case False
  let ?n = "Transactions m"
  let ?d = "depth_of (unat ?n)"
  let ?st = "\<lparr>mb_s = [], mb_r = [], mb_pos = push_bit 1 (2 ^ ?d) - 2, mb_i = 0,
              mb_hashes = Hashes m, mb_flags = Flags m\<rparr>"
  have n: "0 < unat ?n" using False by (simp add: unat_gt_0)
  have d: "?d < 32" using depth_of_bound [OF assms] by simp
  then have "mb_ok dh (unat ?n) (2 ^ ?d) (Hashes m) ?st"
    by (auto simp: mb_ok_def word_nat_simps intro!: mb_start)
  from checkMBlock_loop_good [OF n assms refl this, of "MerkleRoot (mb_Header m)"]
  obtain res where "checkMBlock_loop dh (MerkleRoot (mb_Header m)) ?n (2 ^ ?d) ?st = Some res"
    "mb_good dh (unat ?n) (2 ^ ?d) (MerkleRoot (mb_Header m)) (Hashes m) res" by auto
  with False nextPowerOfTwo_Some [OF assms] show ?thesis
    by (auto simp: checkMBlock_def mb_good_def)
qed

section \<open>Correctness\<close>

text \<open>Property C1. An accepted merkle block authenticates its transactions: when \<open>checkMBlock\<close>
  returns a list of transaction ids, there is a partial Merkle tree over the announced number
  of transactions whose root is the header's Merkle root, whose flagged leaves are exactly the
  ids returned, in order, and whose hashes are a prefix of the hashes of the message.  In the
  tree no inner node has two equal children (CVE-2012-2459).\<close>

theorem checkMBlock_sound:
  assumes "checkMBlock dh m = Some (Ok txs)"
  shows "\<exists>t rest. fits dh (unat (Transactions m)) (2 ^ depth_of (unat (Transactions m)))
             (2 * 2 ^ depth_of (unat (Transactions m)) - 2) t \<and>
           mroot dh t = MerkleRoot (mb_Header m) \<and> mtxs t = txs \<and> Hashes m = mhashes t @ rest"
proof -
  have "unat (Transactions m) \<le> 2 ^ 31"
  proof (rule ccontr)
    assume "\<not> ?thesis"
    then have "nextPowerOfTwo (Transactions m) = None"
      by (simp add: nextPowerOfTwo_def treeDepth_diverges)
    with assms show False by (auto simp: checkMBlock_def split: if_splits)
  qed
  from checkMBlock_spec [OF this, of dh] assms show ?thesis by (auto simp: mb_good_def)
qed

text \<open>A block with two transactions whose first one is flagged.\<close>

definition example_header :: BlockHeader where
  "example_header = \<lparr>hdr_Version = 1, PrevBlock = 9, MerkleRoot = 64, hdr_Timestamp = 0,
     Bits = 0, Nonce = 0\<rparr>"

definition example_block :: MsgMerkleBlock where
  "example_block = \<lparr>mb_Header = example_header, Transactions = 2, Hashes = [5, 6], Flags = [3]\<rparr>"

theorem checkMBlock_sound_witness:
  "\<exists>t rest. fits (\<lambda>bs. of_nat (length bs)) 2 (2 ^ depth_of 2) (2 * 2 ^ depth_of 2 - 2) t \<and>
     mroot (\<lambda>bs. of_nat (length bs)) t = 64 \<and> mtxs t = [5] \<and> [5, 6] = mhashes t @ rest"
proof -
  have "checkMBlock (\<lambda>bs. of_nat (length bs)) example_block = Some (Ok [5])"
    by code_simp
  from checkMBlock_sound [OF this] show ?thesis by (simp add: example_block_def example_header_def)
qed

text \<open>Property C18. The parser is safe on every message with at most \<open>2^31\<close> transactions, whatever
  its hashes and flags: it returns (a list or an error), and no stack access is out of
  range.\<close>

theorem checkMBlock_returns:
  assumes "unat (Transactions m) \<le> 2 ^ 31"
  shows "\<exists>res. checkMBlock dh m = Some res \<and> res \<noteq> Panic"
  using checkMBlock_spec [OF assms, of dh] by auto

theorem checkMBlock_returns_witness:
  "\<exists>res. checkMBlock (\<lambda>_. 0) example_block = Some res \<and> res \<noteq> Panic"
  using checkMBlock_returns [of example_block "\<lambda>_. 0"] by (simp add: example_block_def)

text \<open>Property C38. A message that announces more than \<open>2^31\<close> transactions and carries a flag byte
  makes the parser run forever: the shift in \<open>treeDepth\<close> overflows to zero for exponents from
  32 on and its 8-bit counter wraps around, so the loop condition never fails.\<close>

theorem checkMBlock_hangs:
  assumes "2 ^ 31 < unat (Transactions m)" "Flags m \<noteq> []"
  shows "checkMBlock dh m = None"
  using assms by (auto simp: checkMBlock_def nextPowerOfTwo_def treeDepth_diverges)

theorem checkMBlock_hangs_witness:
  "checkMBlock (\<lambda>_. 0) \<lparr>mb_Header = example_header, Transactions = 2147483649, Hashes = [], Flags = [0]\<rparr> = None"
  by (rule checkMBlock_hangs) simp_all

text \<open>\<open>inDeadZone\<close> returns for every position of the tree and says exactly whether the
  node lies outside the populated part: the first leaf below it is not a transaction.\<close>

theorem inDeadZone_correct:
  assumes "0 < unat n" "unat n \<le> 2 ^ 31" "unat pos \<le> 2 * 2 ^ depth_of (unat n) - 2"
  shows "inDeadZone pos n = Some (unat n \<le> first_leaf (2 ^ depth_of (unat n)) (unat pos))"
  using assms by (rule inDeadZone_spec)

theorem inDeadZone_correct_witness:
  "depth_of 5 = 3 \<and> inDeadZone 11 5 = Some (5 \<le> first_leaf (2 ^ 3) 11)"
proof -
  have d: "depth_of 5 = 3"
    using depth_of_Suc [of 2 5] by simp
  then show ?thesis using inDeadZone_correct [of 5 11] by simp
qed

text \<open>\<open>nextPowerOfTwo\<close> returns exactly for arguments up to \<open>2^31\<close>, and then its value
  is the least power of two that is not below the argument.\<close>

theorem nextPowerOfTwo_correct:
  "nextPowerOfTwo n = (if unat n \<le> 2 ^ 31 then Some (2 ^ depth_of (unat n)) else None)"
  using nextPowerOfTwo_Some [of n] treeDepth_diverges [of n]
  by (simp add: nextPowerOfTwo_def)

end
