(* ===== verification/Go_Lib.thy ===== *)
theory Go_Lib
  imports Wallet_Types
begin

text \<open>
  The parts of Go's standard library the sources use on strings and bytes (hexadecimal text,
  decimal text, splitting), with their round trips, and the record \<open>wire_lib\<close> that collects the
  functions of the wire library the sources call.  The wire library is not part of the
  repository: its functions are parameters, and \<open>wire_ok\<close> states the documented facts about them
  the wallet relies on.
\<close>

section \<open>Hexadecimal text\<close>

definition hexchar :: "nat \<Rightarrow> char" where
  "hexchar n = ''0123456789abcdef'' ! n"

definition hexval :: "char \<Rightarrow> nat option" where
  "hexval c =
     (let n = of_char c :: nat in
      if 48 \<le> n \<and> n \<le> 57 then Some (n - 48)
      else if 97 \<le> n \<and> n \<le> 102 then Some (n - 87)
      else if 65 \<le> n \<and> n \<le> 70 then Some (n - 55)
      else None)"

fun hex_EncodeToString :: "bytes \<Rightarrow> string" where
  "hex_EncodeToString [] = []"
| "hex_EncodeToString (b # bs) =
     hexchar (unat b div 16) # hexchar (unat b mod 16) # hex_EncodeToString bs"

fun hex_DecodeString :: "string \<Rightarrow> bytes option" where
  "hex_DecodeString [] = Some []"
| "hex_DecodeString [c] = None"
| "hex_DecodeString (c # d # cs) =
     (case (hexval c, hexval d, hex_DecodeString cs) of
        (Some x, Some y, Some bs) \<Rightarrow> Some (of_nat (16 * x + y) # bs)
      | _ \<Rightarrow> None)"

lemma hexval_hexchar: "n < 16 \<Longrightarrow> hexval (hexchar n) = Some n"
proof -
  have "\<forall>n \<in> set [0..<16]. hexval (hexchar n) = Some n" by code_simp
  then show "n < 16 \<Longrightarrow> ?thesis" by simp
qed

lemma hex_roundtrip [simp]: "hex_DecodeString (hex_EncodeToString bs) = Some bs"
proof (induction bs)
  case (Cons b bs)
  have "unat b < 2 ^ LENGTH(8)" by (rule unsigned_less)
  then have "unat b div 16 < 16" by simp
  with Cons show ?case by (simp add: hexval_hexchar)
qed simp

lemma hex_EncodeToString_inj [simp]: "hex_EncodeToString a = hex_EncodeToString b \<longleftrightarrow> a = b"
  by (metis hex_roundtrip option.inject)

section \<open>Decimal text\<close>

definition digit :: "nat \<Rightarrow> char" where
  "digit n = char_of (48 + n)"

fun nat_digits :: "nat \<Rightarrow> string" where
  "nat_digits n = (if n < 10 then [digit n] else nat_digits (n div 10) @ [digit (n mod 10)])"

declare nat_digits.simps [simp del]

definition Itoa :: "int \<Rightarrow> string" where
  "Itoa i = (if i < 0 then CHR ''-'' # nat_digits (nat (- i)) else nat_digits (nat i))"

definition digit_val :: "char \<Rightarrow> nat option" where
  "digit_val c = (let n = of_char c :: nat in if 48 \<le> n \<and> n \<le> 57 then Some (n - 48) else None)"

fun parse_digits :: "nat \<Rightarrow> string \<Rightarrow> nat option" where
  "parse_digits acc [] = Some acc"
| "parse_digits acc (c # cs) =
     (case digit_val c of None \<Rightarrow> None | Some d \<Rightarrow> parse_digits (10 * acc + d) cs)"

definition parse_nat :: "string \<Rightarrow> nat option" where
  "parse_nat s = (if s = [] then None else parse_digits 0 s)"

definition in_int64 :: "int \<Rightarrow> bool" where
  "in_int64 i \<longleftrightarrow> - (2 ^ 63) \<le> i \<and> i < 2 ^ 63"

definition Atoi :: "string \<Rightarrow> int option" where
  "Atoi s =
     (let r = (case s of
                 [] \<Rightarrow> None
               | c # cs \<Rightarrow> if c = CHR ''-'' then map_option (\<lambda>n. - int n) (parse_nat cs)
                           else if c = CHR ''+'' then map_option int (parse_nat cs)
                           else map_option int (parse_nat s))
      in case r of None \<Rightarrow> None | Some i \<Rightarrow> if in_int64 i then Some i else None)"

lemma digit_val_digit [simp]: "n < 10 \<Longrightarrow> digit_val (digit n) = Some n"
  by (simp add: digit_val_def digit_def)

lemma parse_digits_append:
  "parse_digits acc (xs @ ys) =
     (case parse_digits acc xs of None \<Rightarrow> None | Some a \<Rightarrow> parse_digits a ys)"
  by (induction xs arbitrary: acc) (auto split: option.splits)

lemma parse_digits_nat_digits: "parse_digits 0 (nat_digits n) = Some n"
proof (induction n rule: nat_digits.induct)
  case (1 n)
  then show ?case
    by (subst nat_digits.simps) (simp add: parse_digits_append)
qed

lemma nat_digits_Nil [simp]: "nat_digits n \<noteq> []"
  by (subst nat_digits.simps) simp

lemma set_nat_digits: "set (nat_digits n) \<subseteq> digit ` {..<10}"
proof (induction n rule: nat_digits.induct)
  case (1 n)
  then show ?case by (subst nat_digits.simps) auto
qed

lemma digit_neq: "n < 10 \<Longrightarrow> digit n \<noteq> CHR '':'' \<and> digit n \<noteq> CHR ''-'' \<and> digit n \<noteq> CHR ''+''"
proof -
  have "\<forall>n \<in> set [0..<10]. digit n \<noteq> CHR '':'' \<and> digit n \<noteq> CHR ''-'' \<and> digit n \<noteq> CHR ''+''"
    by code_simp
  then show "n < 10 \<Longrightarrow> ?thesis" by simp
qed

lemma nat_digits_chars: "c \<in> set (nat_digits n) \<Longrightarrow> c \<noteq> CHR '':'' \<and> c \<noteq> CHR ''-'' \<and> c \<noteq> CHR ''+''"
proof -
  assume "c \<in> set (nat_digits n)"
  then obtain m where "m < 10" "c = digit m" using set_nat_digits [of n] by auto
  then show ?thesis using digit_neq by simp
qed

lemma colon_Itoa [simp]: "CHR '':'' \<notin> set (Itoa i)"
  using nat_digits_chars by (auto simp: Itoa_def)

lemma Atoi_Itoa: "in_int64 i \<Longrightarrow> Atoi (Itoa i) = Some i"
proof (cases "i < 0")
  case True
  then show "in_int64 i \<Longrightarrow> ?thesis"
    by (simp add: Atoi_def Itoa_def parse_nat_def parse_digits_nat_digits)
next
  case False
  obtain c cs where c: "nat_digits (nat i) = c # cs" by (cases "nat_digits (nat i)") auto
  then have "c \<noteq> CHR ''-''" "c \<noteq> CHR ''+''" using nat_digits_chars [of c "nat i"] by auto
  with False c show "in_int64 i \<Longrightarrow> ?thesis"
    using parse_digits_nat_digits [of "nat i"] by (simp add: Atoi_def Itoa_def parse_nat_def)
qed

lemma Atoi_Itoa_u32 [simp]: "Atoi (Itoa (uint (w :: u32))) = Some (uint w)"
  using uint_bounded [of w] uint_nonnegative [of w]
  by (intro Atoi_Itoa) (auto simp: in_int64_def intro: order_trans [of _ 0])

section \<open>Splitting\<close>

fun split_on :: "char \<Rightarrow> string \<Rightarrow> string list" where
  "split_on c [] = [[]]"
| "split_on c (x # xs) =
     (if x = c then [] # split_on c xs
      else case split_on c xs of [] \<Rightarrow> [[x]] | w # ws \<Rightarrow> (x # w) # ws)"

lemma split_on_none: "c \<notin> set b \<Longrightarrow> split_on c b = [b]"
  by (induction b) auto

lemma split_on_two [simp]:
  "c \<notin> set a \<Longrightarrow> c \<notin> set b \<Longrightarrow> split_on c (a @ c # b) = [a, b]"
  by (induction a) (auto simp: split_on_none)

section \<open>The wire library\<close>

record wire_lib =
  txHash :: "MsgTx \<Rightarrow> hash"
  encodeTx :: "MsgTx \<Rightarrow> bytes"
  decodeTx :: "bytes \<Rightarrow> MsgTx"
  hashString :: "hash \<Rightarrow> string"
  hashFromStr :: "string \<Rightarrow> hash option"
  privKeyFromBytes :: "bytes \<Rightarrow> bytes"

definition wire_ok :: "wire_lib \<Rightarrow> bool" where
  "wire_ok lib \<longleftrightarrow>
     (\<forall>h. hashFromStr lib (hashString lib h) = Some h) \<and>
     (\<forall>h. CHR '':'' \<notin> set (hashString lib h)) \<and>
     (\<forall>tx. txHash lib (decodeTx lib (encodeTx lib tx)) = txHash lib tx)"

definition txid_of :: "wire_lib \<Rightarrow> bytes \<Rightarrow> string" where
  "txid_of lib raw = hashString lib (txHash lib (decodeTx lib raw))"

lemma hashString_inj: "wire_ok lib \<Longrightarrow> hashString lib a = hashString lib b \<longleftrightarrow> a = b"
  unfolding wire_ok_def by (metis option.inject)

lemma txid_of_encode: "wire_ok lib \<Longrightarrow> txid_of lib (encodeTx lib tx) = hashString lib (txHash lib tx)"
  by (simp add: txid_of_def wire_ok_def)

definition outpoint_str :: "wire_lib \<Rightarrow> OutPoint \<Rightarrow> string" where
  "outpoint_str lib p = hashString lib (op_Hash p) @ '':'' @ Itoa (uint (op_Index p))"

definition parse_outpoint :: "wire_lib \<Rightarrow> string \<Rightarrow> OutPoint option" where
  "parse_outpoint lib s =
     (case split_on CHR '':'' s of
        h # i # _ \<Rightarrow>
          (case hashFromStr lib h of
             None \<Rightarrow> None
           | Some sh \<Rightarrow>
               (case Atoi i of
                  None \<Rightarrow> None
                | Some index \<Rightarrow> Some \<lparr>op_Hash = sh, op_Index = word_of_int index\<rparr>))
      | _ \<Rightarrow> None)"

lemma parse_outpoint_str: "wire_ok lib \<Longrightarrow> parse_outpoint lib (outpoint_str lib p) = Some p"
  by (simp add: parse_outpoint_def outpoint_str_def wire_ok_def)

lemma outpoint_str_inj: "wire_ok lib \<Longrightarrow> outpoint_str lib p = outpoint_str lib q \<longleftrightarrow> p = q"
  by (metis option.inject parse_outpoint_str)

section \<open>A concrete library for examples\<close>

definition bit_string :: "hash \<Rightarrow> string" where
  "bit_string h = map (\<lambda>i. if bit h i then CHR ''1'' else CHR ''0'') [0..<256]"

definition bit_parse :: "string \<Rightarrow> hash option" where
  "bit_parse s = Some (horner_sum of_bool 2 (map (\<lambda>c. c = CHR ''1'') s))"

lemma bit_parse_string [simp]: "bit_parse (bit_string h) = Some h"
proof -
  have "(\<lambda>i. (if bit h i then CHR ''1'' else CHR ''0'') = CHR ''1'') = bit h" by auto
  then have "horner_sum of_bool 2 (map (\<lambda>c. c = CHR ''1'') (bit_string h)) = take_bit 256 h"
    by (simp only: bit_string_def map_map comp_def horner_sum_bit_eq_take_bit)
  then show ?thesis by (simp add: bit_parse_def take_bit_word_eq_self)
qed

lemma colon_bit_string [simp]: "CHR '':'' \<notin> set (bit_string h)"
  by (auto simp: bit_string_def)

text \<open>Transactions are identified by the low byte of their lock time.\<close>

definition ex_lib :: wire_lib where
  "ex_lib = \<lparr>txHash = (\<lambda>tx. ucast (ucast (tx_LockTime tx) :: u8)), encodeTx = (\<lambda>tx. [ucast (tx_LockTime tx)]),
     decodeTx = (\<lambda>b. \<lparr>tx_Version = 1,
       tx_TxIn = [\<lparr>PreviousOutPoint = \<lparr>op_Hash = 3, op_Index = 0\<rparr>, SignatureScript = [], Sequence = 0\<rparr>],
       tx_TxOut = [], tx_LockTime = ucast (hd b)\<rparr>),
     hashString = bit_string, hashFromStr = bit_parse, privKeyFromBytes = id\<rparr>"

lemma ucast_u8_u32 [simp]: "ucast (ucast (b :: u8) :: u32) = b"
  by (rule bit_word_eqI) (simp add: bit_simps)

lemma ex_lib_ok: "wire_ok ex_lib"
  by (simp add: wire_ok_def ex_lib_def)

end
