(* ===== verification/Datastore_Spec.thy ===== *)
theory Datastore_Spec
  imports Wallet_Types
begin

text \<open>
  The \<open>wallet.Datastore\<close> interface of \<^verbatim>\<open>src/wallet-interface/datastore.go\<close>.  A Go interface value is
  its table of methods, so \<open>datastore\<close> is a record with one field per method of the five
  sub-interfaces, over a store state \<open>'s\<close>; a method that can fail returns the error beside the
  state or the value, as in Go.  The client code (key manager, transaction store, wallet) takes
  such a record as an argument.

  The contract the clients rely on is the locale \<open>datastore_laws\<close>: an abstract view of the store
  (\<open>wview\<close>, five keyed tables) and the effect of every method on it.  Its interpretation for the
  SQLite implementation is in \<open>Sqlite_Store\<close>.
\<close>

section \<open>The interface\<close>

record 's datastore =
  Utxos_Put :: "Utxo \<Rightarrow> 's \<Rightarrow> error option \<times> 's"
  Utxos_GetAll :: "'s \<Rightarrow> Utxo list \<times> error option"
  Utxos_SetWatchOnly :: "Utxo \<Rightarrow> 's \<Rightarrow> error option \<times> 's"
  Utxos_Delete :: "Utxo \<Rightarrow> 's \<Rightarrow> error option \<times> 's"
  Stxos_Put :: "Stxo \<Rightarrow> 's \<Rightarrow> error option \<times> 's"
  Stxos_GetAll :: "'s \<Rightarrow> Stxo list \<times> error option"
  Stxos_Delete :: "Stxo \<Rightarrow> 's \<Rightarrow> error option \<times> 's"
  Txns_Put :: "bytes \<Rightarrow> string \<Rightarrow> int \<Rightarrow> int \<Rightarrow> go_time \<Rightarrow> bool \<Rightarrow> 's \<Rightarrow> error option \<times> 's"
  Txns_Get :: "hash \<Rightarrow> 's \<Rightarrow> Txn \<times> error option"
  Txns_GetAll :: "bool \<Rightarrow> 's \<Rightarrow> Txn list \<times> error option"
  Txns_UpdateHeight :: "hash \<Rightarrow> int \<Rightarrow> go_time \<Rightarrow> 's \<Rightarrow> error option \<times> 's"
  Txns_Delete :: "hash \<Rightarrow> 's \<Rightarrow> error option \<times> 's"
  Keys_Put :: "bytes \<Rightarrow> KeyPath \<Rightarrow> 's \<Rightarrow> error option \<times> 's"
  Keys_ImportKey :: "bytes \<Rightarrow> bytes \<Rightarrow> 's \<Rightarrow> error option \<times> 's"
  Keys_MarkKeyAsUsed :: "bytes \<Rightarrow> 's \<Rightarrow> error option \<times> 's"
  Keys_GetLastKeyIndex :: "KeyPurpose \<Rightarrow> 's \<Rightarrow> int \<times> bool \<times> error option"
  Keys_GetPathForKey :: "bytes \<Rightarrow> 's \<Rightarrow> KeyPath \<times> error option"
  Keys_GetKey :: "bytes \<Rightarrow> 's \<Rightarrow> bytes option \<times> error option"
  Keys_GetImported :: "'s \<Rightarrow> bytes list \<times> error option"
  Keys_GetUnused :: "KeyPurpose \<Rightarrow> 's \<Rightarrow> int list \<times> error option"
  Keys_GetAll :: "'s \<Rightarrow> KeyPath list \<times> error option"
  Keys_GetLookaheadWindows :: "'s \<Rightarrow> KeyPurpose \<Rightarrow> int option"
  Watched_Put :: "bytes \<Rightarrow> 's \<Rightarrow> error option \<times> 's"
  Watched_GetAll :: "'s \<Rightarrow> bytes list \<times> error option"
  Watched_Delete :: "bytes \<Rightarrow> 's \<Rightarrow> error option \<times> 's"

section \<open>The abstract view\<close>

record krow =
  kr_script :: bytes
  kr_path :: KeyPath
  kr_used :: bool
  kr_key :: "bytes option"

record wview =
  v_utxos :: "Utxo list"
  v_stxos :: "Stxo list"
  v_txns :: "Txn list"
  v_keys :: "krow list"
  v_watched :: "bytes list"

abbreviation stxo_Op :: "Stxo \<Rightarrow> OutPoint" where
  "stxo_Op s \<equiv> utxo_Op (stxo_Utxo s)"

definition set_height :: "string \<Rightarrow> i32 \<Rightarrow> go_time \<Rightarrow> Txn \<Rightarrow> Txn" where
  "set_height txid h t r = (if txn_Txid r = txid then r\<lparr>txn_Height := h, txn_Timestamp := t\<rparr> else r)"

definition mark_used :: "bytes \<Rightarrow> krow \<Rightarrow> krow" where
  "mark_used sa r = (if kr_script r = sa then r\<lparr>kr_used := True\<rparr> else r)"

definition new_txn :: "string \<Rightarrow> bytes \<Rightarrow> int \<Rightarrow> int \<Rightarrow> go_time \<Rightarrow> bool \<Rightarrow> Txn" where
  "new_txn txid raw value height t wo =
     zero_Txn\<lparr>txn_Txid := txid, txn_Value := word_of_int value, txn_Height := word_of_int height,
       txn_Timestamp := time_Unix (Unix t), txn_WatchOnly := wo, txn_Bytes := raw\<rparr>"

text \<open>The number of unused keys after the last used one, per purpose.\<close>

definition window :: "KeyPurpose \<Rightarrow> krow list \<Rightarrow> nat" where
  "window p ks = length (takeWhile (\<lambda>r. \<not> kr_used r) (rev (filter (\<lambda>r. kp_Purpose (kr_path r) = p) ks)))"

definition view_ok :: "wview \<Rightarrow> bool" where
  "view_ok v \<longleftrightarrow> keyed utxo_Op (v_utxos v) \<and> keyed stxo_Op (v_stxos v) \<and>
     keyed txn_Txid (v_txns v) \<and> keyed kr_script (v_keys v) \<and> distinct (v_watched v)"

section \<open>The contract\<close>

locale datastore_laws =
  fixes ds :: "'s datastore"
    and view :: "'s \<Rightarrow> wview"
    and inv :: "'s \<Rightarrow> bool"
    and txidOf :: "bytes \<Rightarrow> string"
    and hstr :: "hash \<Rightarrow> string"
  assumes view_ok: "inv s \<Longrightarrow> view_ok (view s)"
    and hstr_inj: "inv s \<Longrightarrow> hstr h = hstr h' \<Longrightarrow> h = h'"
    and Utxos_Put: "inv s \<Longrightarrow> \<exists>s'. Utxos_Put ds u s = (None, s') \<and> inv s' \<and>
      view s' = (view s)\<lparr>v_utxos := upsert utxo_Op u (v_utxos (view s))\<rparr>"
    and Utxos_GetAll: "inv s \<Longrightarrow> Utxos_GetAll ds s = (v_utxos (view s), None)"
    and Utxos_SetWatchOnly: "inv s \<Longrightarrow> \<exists>s'. Utxos_SetWatchOnly ds u s = (None, s') \<and> inv s' \<and>
      view s' = (view s)\<lparr>v_utxos := map (\<lambda>x. if utxo_Op x = utxo_Op u then x\<lparr>WatchOnly := True\<rparr> else x)
                           (v_utxos (view s))\<rparr>"
    and Utxos_Delete: "inv s \<Longrightarrow> \<exists>s'. Utxos_Delete ds u s = (None, s') \<and> inv s' \<and>
      view s' = (view s)\<lparr>v_utxos := del_key utxo_Op (utxo_Op u) (v_utxos (view s))\<rparr>"
    and Stxos_Put: "inv s \<Longrightarrow> \<exists>s'. Stxos_Put ds x s = (None, s') \<and> inv s' \<and>
      view s' = (view s)\<lparr>v_stxos := upsert stxo_Op x (v_stxos (view s))\<rparr>"
    and Stxos_GetAll: "inv s \<Longrightarrow> Stxos_GetAll ds s = (v_stxos (view s), None)"
    and Stxos_Delete: "inv s \<Longrightarrow> \<exists>s'. Stxos_Delete ds x s = (None, s') \<and> inv s' \<and>
      view s' = (view s)\<lparr>v_stxos := del_key stxo_Op (stxo_Op x) (v_stxos (view s))\<rparr>"
    and Txns_Put: "inv s \<Longrightarrow> txid = txidOf raw \<Longrightarrow>
      \<exists>s'. Txns_Put ds raw txid value height t wo s = (None, s') \<and> inv s' \<and>
        view s' = (view s)\<lparr>v_txns := upsert txn_Txid (new_txn txid raw value height t wo) (v_txns (view s))\<rparr>"
    and Txns_Get: "inv s \<Longrightarrow> Txns_Get ds h s =
      (case find (\<lambda>t. txn_Txid t = hstr h) (v_txns (view s)) of
         None \<Rightarrow> (zero_Txn, Some NoRows) | Some t \<Rightarrow> (t, None))"
    and Txns_GetAll: "inv s \<Longrightarrow> Txns_GetAll ds b s =
      (filter (\<lambda>t. b \<or> \<not> txn_WatchOnly t) (v_txns (view s)), None)"
    and Txns_UpdateHeight: "inv s \<Longrightarrow> \<exists>s'. Txns_UpdateHeight ds h height t s = (None, s') \<and> inv s' \<and>
      view s' = (view s)\<lparr>v_txns := map (set_height (hstr h) (word_of_int height) (time_Unix (Unix t)))
                           (v_txns (view s))\<rparr>"
    and Txns_Delete: "inv s \<Longrightarrow> \<exists>s'. Txns_Delete ds h s = (None, s') \<and> inv s' \<and>
      view s' = (view s)\<lparr>v_txns := del_key txn_Txid (hstr h) (v_txns (view s))\<rparr>"
    and Keys_Put: "inv s \<Longrightarrow> sa \<notin> kr_script ` set (v_keys (view s)) \<Longrightarrow>
      \<exists>s'. Keys_Put ds sa kp s = (None, s') \<and> inv s' \<and>
        view s' = (view s)\<lparr>v_keys := v_keys (view s) @ [\<lparr>kr_script = sa, kr_path = kp, kr_used = False, kr_key = None\<rparr>]\<rparr>"
    and Keys_Put_dup: "inv s \<Longrightarrow> sa \<in> kr_script ` set (v_keys (view s)) \<Longrightarrow>
      Keys_Put ds sa kp s = (Some ConstraintError, s)"
    and Keys_ImportKey: "inv s \<Longrightarrow> sa \<notin> kr_script ` set (v_keys (view s)) \<Longrightarrow>
      \<exists>s' i. Keys_ImportKey ds sa k s = (None, s') \<and> inv s' \<and>
        view s' = (view s)\<lparr>v_keys := v_keys (view s) @
          [\<lparr>kr_script = sa, kr_path = \<lparr>kp_Purpose = -1, kp_Index = i\<rparr>, kr_used = True, kr_key = Some k\<rparr>]\<rparr>"
    and Keys_MarkKeyAsUsed: "inv s \<Longrightarrow> \<exists>s'. Keys_MarkKeyAsUsed ds sa s = (None, s') \<and> inv s' \<and>
      view s' = (view s)\<lparr>v_keys := map (mark_used sa) (v_keys (view s))\<rparr>"
    and Keys_GetLastKeyIndex: "inv s \<Longrightarrow> Keys_GetLastKeyIndex ds p s =
      (case rev (filter (\<lambda>r. kp_Purpose (kr_path r) = p) (v_keys (view s))) of
         [] \<Rightarrow> (0, False, Some NoRows) | r # _ \<Rightarrow> (kp_Index (kr_path r), kr_used r, None))"
    and Keys_GetUnused: "inv s \<Longrightarrow> Keys_GetUnused ds p s =
      (map (\<lambda>r. kp_Index (kr_path r))
         (filter (\<lambda>r. kp_Purpose (kr_path r) = p \<and> \<not> kr_used r) (v_keys (view s))), None)"
    and Keys_GetAll: "inv s \<Longrightarrow> Keys_GetAll ds s = (map kr_path (v_keys (view s)), None)"
    and Keys_GetLookaheadWindows: "inv s \<Longrightarrow> Keys_GetLookaheadWindows ds s =
      (\<lambda>p. if p = 0 \<or> p = 1 then Some (int (window p (v_keys (view s)))) else None)"
    and Keys_GetPathForKey: "inv s \<Longrightarrow> r \<in> set (v_keys (view s)) \<Longrightarrow> kr_script r = sa \<Longrightarrow>
      kp_Purpose (kr_path r) \<noteq> -1 \<Longrightarrow> Keys_GetPathForKey ds sa s = (kr_path r, None)"
    and Keys_GetPathForKey_none: "inv s \<Longrightarrow>
      (\<And>r. r \<in> set (v_keys (view s)) \<Longrightarrow> kr_script r = sa \<Longrightarrow> kp_Purpose (kr_path r) = -1) \<Longrightarrow>
      snd (Keys_GetPathForKey ds sa s) \<noteq> None"
    and Watched_Put: "inv s \<Longrightarrow> \<exists>s'. Watched_Put ds w s = (None, s') \<and> inv s' \<and>
      view s' = (view s)\<lparr>v_watched := upsert id w (v_watched (view s))\<rparr>"
    and Watched_GetAll: "inv s \<Longrightarrow> Watched_GetAll ds s = (v_watched (view s), None)"
    and Watched_Delete: "inv s \<Longrightarrow> \<exists>s'. Watched_Delete ds w s = (None, s') \<and> inv s' \<and>
      view s' = (view s)\<lparr>v_watched := del_key id w (v_watched (view s))\<rparr>"
    and Txns_id: "inv s \<Longrightarrow> tx \<in> set (v_txns (view s)) \<Longrightarrow> \<exists>h. txn_Txid tx = hstr h"
begin

lemmas reads = Utxos_GetAll Stxos_GetAll Txns_Get Txns_GetAll Keys_GetAll Watched_GetAll
  Keys_GetLastKeyIndex Keys_GetUnused Keys_GetLookaheadWindows

text \<open>The effect of a method whose error result the caller drops.\<close>

lemma Utxos_Put_snd [simp]:
  "inv s \<Longrightarrow> inv (snd (Utxos_Put ds u s))"
  "inv s \<Longrightarrow> view (snd (Utxos_Put ds u s)) = (view s)\<lparr>v_utxos := upsert utxo_Op u (v_utxos (view s))\<rparr>"
  "inv s \<Longrightarrow> fst (Utxos_Put ds u s) = None"
  using Utxos_Put [of s u] by auto

lemma Utxos_Delete_snd [simp]:
  "inv s \<Longrightarrow> inv (snd (Utxos_Delete ds u s))"
  "inv s \<Longrightarrow> view (snd (Utxos_Delete ds u s)) =
     (view s)\<lparr>v_utxos := del_key utxo_Op (utxo_Op u) (v_utxos (view s))\<rparr>"
  "inv s \<Longrightarrow> fst (Utxos_Delete ds u s) = None"
  using Utxos_Delete [of s u] by auto

lemma Stxos_Put_snd [simp]:
  "inv s \<Longrightarrow> inv (snd (Stxos_Put ds x s))"
  "inv s \<Longrightarrow> view (snd (Stxos_Put ds x s)) = (view s)\<lparr>v_stxos := upsert stxo_Op x (v_stxos (view s))\<rparr>"
  "inv s \<Longrightarrow> fst (Stxos_Put ds x s) = None"
  using Stxos_Put [of s x] by auto

lemma Stxos_Delete_snd [simp]:
  "inv s \<Longrightarrow> inv (snd (Stxos_Delete ds x s))"
  "inv s \<Longrightarrow> view (snd (Stxos_Delete ds x s)) =
     (view s)\<lparr>v_stxos := del_key stxo_Op (stxo_Op x) (v_stxos (view s))\<rparr>"
  "inv s \<Longrightarrow> fst (Stxos_Delete ds x s) = None"
  using Stxos_Delete [of s x] by auto

lemma Txns_UpdateHeight_snd [simp]:
  "inv s \<Longrightarrow> inv (snd (Txns_UpdateHeight ds h height t s))"
  "inv s \<Longrightarrow> view (snd (Txns_UpdateHeight ds h height t s)) =
     (view s)\<lparr>v_txns := map (set_height (hstr h) (word_of_int height) (time_Unix (Unix t))) (v_txns (view s))\<rparr>"
  "inv s \<Longrightarrow> fst (Txns_UpdateHeight ds h height t s) = None"
  using Txns_UpdateHeight [of s h height t] by auto

lemma Txns_Put_snd:
  assumes "inv s" "txid = txidOf raw"
  shows "inv (snd (Txns_Put ds raw txid val height t wo s))"
    and "view (snd (Txns_Put ds raw txid val height t wo s)) =
      (view s)\<lparr>v_txns := upsert txn_Txid (new_txn txid raw val height t wo) (v_txns (view s))\<rparr>"
  using Txns_Put [OF assms, of val height t wo] by auto

lemma Keys_MarkKeyAsUsed_snd [simp]:
  "inv s \<Longrightarrow> inv (snd (Keys_MarkKeyAsUsed ds sa s))"
  "inv s \<Longrightarrow> view (snd (Keys_MarkKeyAsUsed ds sa s)) = (view s)\<lparr>v_keys := map (mark_used sa) (v_keys (view s))\<rparr>"
  "inv s \<Longrightarrow> fst (Keys_MarkKeyAsUsed ds sa s) = None"
  using Keys_MarkKeyAsUsed [of s sa] by auto

end

end
