(* ===== verification/Sqlite_Store.thy ===== *)
theory Sqlite_Store
  imports Go_Lib Datastore_Spec
begin

text \<open>
  The SQLite implementation of the datastore, \<^verbatim>\<open>src/db\<close>.  A table is the list of its rows in
  rowid order; the columns hold what the code writes, texts as strings and integers as \<open>int\<close>.
  An \<open>insert or replace\<close> removes the row with the same primary key and appends the new one, a
  plain \<open>insert\<close> fails on a primary key that exists, \<open>update\<close>, \<open>delete\<close> and \<open>select\<close> act on the
  rows their \<open>where\<close> clause matches.  Failures of the engine itself (I/O errors, a locked
  file) are not modelled.  Rows are decoded by the sources with the hexadecimal, decimal and
  outpoint texts of \<open>Go_Lib\<close>; the last section shows that the decoded tables satisfy
  \<open>datastore_laws\<close>.
\<close>

section \<open>Tables\<close>

record utxo_row =
  ur_outpoint :: string
  ur_value :: int
  ur_height :: int
  ur_scriptPubKey :: string
  ur_watchOnly :: int

record stxo_row =
  sr_outpoint :: string
  sr_value :: int
  sr_height :: int
  sr_scriptPubKey :: string
  sr_watchOnly :: int
  sr_spendHeight :: int
  sr_spendTxid :: string

record txn_row =
  tr_txid :: string
  tr_value :: int
  tr_height :: int
  tr_timestamp :: int
  tr_watchOnly :: int
  tr_tx :: bytes

record key_row =
  k_scriptAddress :: string
  k_purpose :: int
  k_keyIndex :: int
  k_used :: int
  k_key :: "string option"

text \<open>
  The \<open>config\<close> table maps keys to values.  \<open>rand\<close> stands for the stream of numbers that
  \<open>math/rand\<close> delivers, \<open>rand_n\<close> counts the numbers taken.
\<close>

record sqldb =
  t_keys :: "key_row list"
  t_utxos :: "utxo_row list"
  t_stxos :: "stxo_row list"
  t_txns :: "txn_row list"
  t_watched :: "string list"
  t_config :: "(string \<times> string) list"
  rand :: "nat \<Rightarrow> u32"
  rand_n :: nat

text \<open>\<open>initDatabaseTables\<close> on a new file.\<close>

definition initDatabaseTables :: "(nat \<Rightarrow> u32) \<Rightarrow> sqldb" where
  "initDatabaseTables r = \<lparr>t_keys = [], t_utxos = [], t_stxos = [], t_txns = [], t_watched = [],
     t_config = [], rand = r, rand_n = 0\<rparr>"

definition of_flag :: "bool \<Rightarrow> int" where
  "of_flag b = (if b then 1 else 0)"

section \<open>utxo.go\<close>

definition UtxoDB_Put :: "wire_lib \<Rightarrow> Utxo \<Rightarrow> sqldb \<Rightarrow> error option \<times> sqldb" where
  "UtxoDB_Put lib utxo db =
     (let row = \<lparr>ur_outpoint = outpoint_str lib (utxo_Op utxo), ur_value = sint (utxo_Value utxo),
                 ur_height = sint (AtHeight utxo),
                 ur_scriptPubKey = hex_EncodeToString (ScriptPubkey utxo),
                 ur_watchOnly = of_flag (WatchOnly utxo)\<rparr>
      in (None, db\<lparr>t_utxos := upsert ur_outpoint row (t_utxos db)\<rparr>))"

definition decode_utxo :: "wire_lib \<Rightarrow> utxo_row \<Rightarrow> Utxo option" where
  "decode_utxo lib r =
     (case parse_outpoint lib (ur_outpoint r) of
        None \<Rightarrow> None
      | Some p \<Rightarrow>
          (case hex_DecodeString (ur_scriptPubKey r) of
             None \<Rightarrow> None
           | Some script \<Rightarrow>
               Some \<lparr>utxo_Op = p, AtHeight = word_of_int (ur_height r),
                     utxo_Value = word_of_int (ur_value r), ScriptPubkey = script,
                     WatchOnly = (ur_watchOnly r = 1)\<rparr>))"

definition UtxoDB_GetAll :: "wire_lib \<Rightarrow> sqldb \<Rightarrow> Utxo list \<times> error option" where
  "UtxoDB_GetAll lib db = (List.map_filter (decode_utxo lib) (t_utxos db), None)"

definition UtxoDB_SetWatchOnly :: "wire_lib \<Rightarrow> Utxo \<Rightarrow> sqldb \<Rightarrow> error option \<times> sqldb" where
  "UtxoDB_SetWatchOnly lib utxo db =
     (None, db\<lparr>t_utxos := map (\<lambda>r. if ur_outpoint r = outpoint_str lib (utxo_Op utxo)
                                    then r\<lparr>ur_watchOnly := 1\<rparr> else r) (t_utxos db)\<rparr>)"

definition UtxoDB_Delete :: "wire_lib \<Rightarrow> Utxo \<Rightarrow> sqldb \<Rightarrow> error option \<times> sqldb" where
  "UtxoDB_Delete lib utxo db =
     (None, db\<lparr>t_utxos := del_key ur_outpoint (outpoint_str lib (utxo_Op utxo)) (t_utxos db)\<rparr>)"

section \<open>stxo.go\<close>

definition StxoDB_Put :: "wire_lib \<Rightarrow> Stxo \<Rightarrow> sqldb \<Rightarrow> error option \<times> sqldb" where
  "StxoDB_Put lib stxo db =
     (let utxo = stxo_Utxo stxo;
          row = \<lparr>sr_outpoint = outpoint_str lib (utxo_Op utxo), sr_value = sint (utxo_Value utxo),
                 sr_height = sint (AtHeight utxo),
                 sr_scriptPubKey = hex_EncodeToString (ScriptPubkey utxo),
                 sr_watchOnly = of_flag (WatchOnly utxo), sr_spendHeight = sint (SpendHeight stxo),
                 sr_spendTxid = hashString lib (SpendTxid stxo)\<rparr>
      in (None, db\<lparr>t_stxos := upsert sr_outpoint row (t_stxos db)\<rparr>))"

definition decode_stxo :: "wire_lib \<Rightarrow> stxo_row \<Rightarrow> Stxo option" where
  "decode_stxo lib r =
     (case parse_outpoint lib (sr_outpoint r) of
        None \<Rightarrow> None
      | Some p \<Rightarrow>
          (case hex_DecodeString (sr_scriptPubKey r) of
             None \<Rightarrow> None
           | Some script \<Rightarrow>
               (case hashFromStr lib (sr_spendTxid r) of
                  None \<Rightarrow> None
                | Some spent \<Rightarrow>
                    Some \<lparr>stxo_Utxo =
                            \<lparr>utxo_Op = p, AtHeight = word_of_int (sr_height r),
                             utxo_Value = word_of_int (sr_value r), ScriptPubkey = script,
                             WatchOnly = (0 < sr_watchOnly r)\<rparr>,
                          SpendHeight = word_of_int (sr_spendHeight r), SpendTxid = spent\<rparr>)))"

definition StxoDB_GetAll :: "wire_lib \<Rightarrow> sqldb \<Rightarrow> Stxo list \<times> error option" where
  "StxoDB_GetAll lib db = (List.map_filter (decode_stxo lib) (t_stxos db), None)"

definition StxoDB_Delete :: "wire_lib \<Rightarrow> Stxo \<Rightarrow> sqldb \<Rightarrow> error option \<times> sqldb" where
  "StxoDB_Delete lib stxo db =
     (None, db\<lparr>t_stxos := del_key sr_outpoint (outpoint_str lib (stxo_Op stxo)) (t_stxos db)\<rparr>)"

section \<open>txns.go\<close>

definition TxnsDB_Put ::
    "bytes \<Rightarrow> string \<Rightarrow> int \<Rightarrow> int \<Rightarrow> go_time \<Rightarrow> bool \<Rightarrow> sqldb \<Rightarrow> error option \<times> sqldb" where
  "TxnsDB_Put txn txid val height timestamp watchOnly db =
     (let row = \<lparr>tr_txid = txid, tr_value = val, tr_height = height, tr_timestamp = Unix timestamp,
                 tr_watchOnly = of_flag watchOnly, tr_tx = txn\<rparr>
      in (None, db\<lparr>t_txns := upsert tr_txid row (t_txns db)\<rparr>))"

text \<open>The transaction id of a returned \<open>Txn\<close> is recomputed from the stored bytes.\<close>

definition decode_txn :: "wire_lib \<Rightarrow> txn_row \<Rightarrow> Txn" where
  "decode_txn lib r =
     zero_Txn\<lparr>txn_Txid := hashString lib (txHash lib (decodeTx lib (tr_tx r))),
       txn_Value := word_of_int (tr_value r), txn_Height := word_of_int (tr_height r),
       txn_Timestamp := time_Unix (tr_timestamp r), txn_WatchOnly := (0 < tr_watchOnly r),
       txn_Bytes := tr_tx r\<rparr>"

definition TxnsDB_Get :: "wire_lib \<Rightarrow> hash \<Rightarrow> sqldb \<Rightarrow> Txn \<times> error option" where
  "TxnsDB_Get lib txid db =
     (case find (\<lambda>r. tr_txid r = hashString lib txid) (t_txns db) of
        None \<Rightarrow> (zero_Txn, Some NoRows)
      | Some r \<Rightarrow> (decode_txn lib r, None))"

definition TxnsDB_GetAll :: "wire_lib \<Rightarrow> bool \<Rightarrow> sqldb \<Rightarrow> Txn list \<times> error option" where
  "TxnsDB_GetAll lib includeWatchOnly db =
     (map (decode_txn lib) (filter (\<lambda>r. \<not> (0 < tr_watchOnly r \<and> \<not> includeWatchOnly)) (t_txns db)), None)"

definition TxnsDB_Delete :: "wire_lib \<Rightarrow> hash \<Rightarrow> sqldb \<Rightarrow> error option \<times> sqldb" where
  "TxnsDB_Delete lib txid db =
     (None, db\<lparr>t_txns := del_key tr_txid (hashString lib txid) (t_txns db)\<rparr>)"

definition TxnsDB_UpdateHeight ::
    "wire_lib \<Rightarrow> hash \<Rightarrow> int \<Rightarrow> go_time \<Rightarrow> sqldb \<Rightarrow> error option \<times> sqldb" where
  "TxnsDB_UpdateHeight lib txid height timestamp db =
     (None, db\<lparr>t_txns := map (\<lambda>r. if tr_txid r = hashString lib txid
                                   then r\<lparr>tr_height := height, tr_timestamp := Unix timestamp\<rparr> else r)
                              (t_txns db)\<rparr>)"

section \<open>keys.go\<close>

definition KeysDB_insert :: "key_row \<Rightarrow> sqldb \<Rightarrow> error option \<times> sqldb" where
  "KeysDB_insert row db =
     (if k_scriptAddress row \<in> k_scriptAddress ` set (t_keys db) then (Some ConstraintError, db)
      else (None, db\<lparr>t_keys := t_keys db @ [row]\<rparr>))"

definition KeysDB_Put :: "bytes \<Rightarrow> KeyPath \<Rightarrow> sqldb \<Rightarrow> error option \<times> sqldb" where
  "KeysDB_Put scriptAddress keyPath db =
     KeysDB_insert \<lparr>k_scriptAddress = hex_EncodeToString scriptAddress, k_purpose = kp_Purpose keyPath,
       k_keyIndex = kp_Index keyPath, k_used = 0, k_key = None\<rparr> db"

definition KeysDB_ImportKey :: "bytes \<Rightarrow> bytes \<Rightarrow> sqldb \<Rightarrow> error option \<times> sqldb" where
  "KeysDB_ImportKey scriptAddress key db =
     KeysDB_insert \<lparr>k_scriptAddress = hex_EncodeToString scriptAddress, k_purpose = -1,
       k_keyIndex = uint (rand db (rand_n db)), k_used = 1, k_key = Some (hex_EncodeToString key)\<rparr>
       (db\<lparr>rand_n := Suc (rand_n db)\<rparr>)"

definition KeysDB_MarkKeyAsUsed :: "bytes \<Rightarrow> sqldb \<Rightarrow> error option \<times> sqldb" where
  "KeysDB_MarkKeyAsUsed scriptAddress db =
     (None, db\<lparr>t_keys := map (\<lambda>r. if k_scriptAddress r = hex_EncodeToString scriptAddress
                                   then r\<lparr>k_used := 1\<rparr> else r) (t_keys db)\<rparr>)"

definition KeysDB_GetLastKeyIndex :: "KeyPurpose \<Rightarrow> sqldb \<Rightarrow> int \<times> bool \<times> error option" where
  "KeysDB_GetLastKeyIndex purpose db =
     (case rev (filter (\<lambda>r. k_purpose r = purpose) (t_keys db)) of
        [] \<Rightarrow> (0, False, Some NoRows)
      | r # _ \<Rightarrow> (k_keyIndex r, k_used r \<noteq> 0, None))"

definition KeysDB_GetPathForKey :: "bytes \<Rightarrow> sqldb \<Rightarrow> KeyPath \<times> error option" where
  "KeysDB_GetPathForKey scriptAddress db =
     (case find (\<lambda>r. k_scriptAddress r = hex_EncodeToString scriptAddress \<and> k_purpose r \<noteq> -1)
             (t_keys db) of
        None \<Rightarrow> (\<lparr>kp_Purpose = 0, kp_Index = 0\<rparr>, Some (ErrMsg ''Key not found''))
      | Some r \<Rightarrow> (\<lparr>kp_Purpose = k_purpose r, kp_Index = k_keyIndex r\<rparr>, None))"

text \<open>Scanning a NULL key into a string fails, so a derived key is not found here.\<close>

definition KeysDB_GetKey :: "wire_lib \<Rightarrow> bytes \<Rightarrow> sqldb \<Rightarrow> bytes option \<times> error option" where
  "KeysDB_GetKey lib scriptAddress db =
     (case find (\<lambda>r. k_scriptAddress r = hex_EncodeToString scriptAddress) (t_keys db) of
        None \<Rightarrow> (None, Some (ErrMsg ''Key not found''))
      | Some r \<Rightarrow>
          (case k_key r of
             None \<Rightarrow> (None, Some (ErrMsg ''Key not found''))
           | Some keyHex \<Rightarrow>
               (case hex_DecodeString keyHex of
                  None \<Rightarrow> (None, Some LibError)
                | Some keyBytes \<Rightarrow> (Some (privKeyFromBytes lib keyBytes), None))))"

definition KeysDB_GetUnused :: "KeyPurpose \<Rightarrow> sqldb \<Rightarrow> int list \<times> error option" where
  "KeysDB_GetUnused purpose db =
     (map k_keyIndex (filter (\<lambda>r. k_purpose r = purpose \<and> k_used r = 0) (t_keys db)), None)"

text \<open>The loop over the rows stops at the first key that does not decode.\<close>

fun imported_loop :: "wire_lib \<Rightarrow> string option list \<Rightarrow> bytes list \<times> error option" where
  "imported_loop lib [] = ([], None)"
| "imported_loop lib (k # ks) =
     (case hex_DecodeString (case k of None \<Rightarrow> [] | Some s \<Rightarrow> s) of
        None \<Rightarrow> ([], Some LibError)
      | Some keyBytes \<Rightarrow>
          (let (rest, err) = imported_loop lib ks in (privKeyFromBytes lib keyBytes # rest, err)))"

definition KeysDB_GetImported :: "wire_lib \<Rightarrow> sqldb \<Rightarrow> bytes list \<times> error option" where
  "KeysDB_GetImported lib db =
     imported_loop lib (map k_key (filter (\<lambda>r. k_purpose r = -1) (t_keys db)))"

definition KeysDB_GetAll :: "sqldb \<Rightarrow> KeyPath list \<times> error option" where
  "KeysDB_GetAll db = (map (\<lambda>r. \<lparr>kp_Purpose = k_purpose r, kp_Index = k_keyIndex r\<rparr>) (t_keys db), None)"

text \<open>Counting unused keys from the newest row back, up to the first used one.\<close>

fun count_unused :: "int \<Rightarrow> int list \<Rightarrow> int" where
  "count_unused n [] = n"
| "count_unused n (used # rest) = (if used = 0 then count_unused (n + 1) rest else n)"

definition KeysDB_GetLookaheadWindows :: "sqldb \<Rightarrow> KeyPurpose \<Rightarrow> int option" where
  "KeysDB_GetLookaheadWindows db =
     (\<lambda>purpose. if purpose = 0 \<or> purpose = 1
        then Some (count_unused 0 (map k_used (rev (filter (\<lambda>r. k_purpose r = purpose) (t_keys db)))))
        else None)"

section \<open>watched\_scripts.go\<close>

definition WatchedScriptsDB_Put :: "bytes \<Rightarrow> sqldb \<Rightarrow> error option \<times> sqldb" where
  "WatchedScriptsDB_Put scriptPubKey db =
     (None, db\<lparr>t_watched := upsert id (hex_EncodeToString scriptPubKey) (t_watched db)\<rparr>)"

definition WatchedScriptsDB_GetAll :: "sqldb \<Rightarrow> bytes list \<times> error option" where
  "WatchedScriptsDB_GetAll db = (List.map_filter hex_DecodeString (t_watched db), None)"

definition WatchedScriptsDB_Delete :: "bytes \<Rightarrow> sqldb \<Rightarrow> error option \<times> sqldb" where
  "WatchedScriptsDB_Delete scriptPubKey db =
     (None, db\<lparr>t_watched := del_key id (hex_EncodeToString scriptPubKey) (t_watched db)\<rparr>)"

section \<open>database.go: the config table\<close>

definition config_put :: "string \<Rightarrow> string \<Rightarrow> sqldb \<Rightarrow> sqldb" where
  "config_put k v db = db\<lparr>t_config := upsert fst (k, v) (t_config db)\<rparr>"

definition GetMnemonic :: "sqldb \<Rightarrow> string \<times> error option" where
  "GetMnemonic db =
     (case map_of (t_config db) ''mnemonic'' of None \<Rightarrow> ('''', Some NoRows) | Some m \<Rightarrow> (m, None))"

definition SetMnemonic :: "string \<Rightarrow> sqldb \<Rightarrow> error option \<times> sqldb" where
  "SetMnemonic mnemonic db = (None, config_put ''mnemonic'' mnemonic db)"

text \<open>\<open>time.Format\<close> and \<open>time.Parse\<close> with RFC3339 are the parameters \<open>fmt\<close> and \<open>parse\<close>.\<close>

definition GetCreationDate :: "(string \<Rightarrow> go_time option) \<Rightarrow> sqldb \<Rightarrow> go_time \<times> error option" where
  "GetCreationDate parse db =
     (case map_of (t_config db) ''creationDate'' of
        None \<Rightarrow> (0, Some NoRows)
      | Some d \<Rightarrow> (case parse d of None \<Rightarrow> (0, Some LibError) | Some t \<Rightarrow> (t, None)))"

definition SetCreationDate :: "(go_time \<Rightarrow> string) \<Rightarrow> go_time \<Rightarrow> sqldb \<Rightarrow> error option \<times> sqldb" where
  "SetCreationDate fmt creationDate db = (None, config_put ''creationDate'' (fmt creationDate) db)"

definition SetConfigKV :: "string \<Rightarrow> string \<Rightarrow> sqldb \<Rightarrow> error option \<times> sqldb" where
  "SetConfigKV key val db =
     (if key \<in> fst ` set (t_config db) then (Some ConstraintError, db)
      else (None, db\<lparr>t_config := t_config db @ [(key, val)]\<rparr>))"

section \<open>The method table\<close>

definition SQLiteDatastore :: "wire_lib \<Rightarrow> sqldb datastore" where
  "SQLiteDatastore lib =
     \<lparr>Utxos_Put = UtxoDB_Put lib, Utxos_GetAll = UtxoDB_GetAll lib,
      Utxos_SetWatchOnly = UtxoDB_SetWatchOnly lib, Utxos_Delete = UtxoDB_Delete lib,
      Stxos_Put = StxoDB_Put lib, Stxos_GetAll = StxoDB_GetAll lib, Stxos_Delete = StxoDB_Delete lib,
      Txns_Put = TxnsDB_Put, Txns_Get = TxnsDB_Get lib, Txns_GetAll = TxnsDB_GetAll lib,
      Txns_UpdateHeight = TxnsDB_UpdateHeight lib, Txns_Delete = TxnsDB_Delete lib,
      Keys_Put = KeysDB_Put, Keys_ImportKey = KeysDB_ImportKey,
      Keys_MarkKeyAsUsed = KeysDB_MarkKeyAsUsed, Keys_GetLastKeyIndex = KeysDB_GetLastKeyIndex,
      Keys_GetPathForKey = KeysDB_GetPathForKey, Keys_GetKey = KeysDB_GetKey lib,
      Keys_GetImported = KeysDB_GetImported lib, Keys_GetUnused = KeysDB_GetUnused,
      Keys_GetAll = KeysDB_GetAll, Keys_GetLookaheadWindows = KeysDB_GetLookaheadWindows,
      Watched_Put = WatchedScriptsDB_Put, Watched_GetAll = WatchedScriptsDB_GetAll,
      Watched_Delete = WatchedScriptsDB_Delete\<rparr>"

section \<open>The tables as an abstract view\<close>

definition enc_utxo :: "wire_lib \<Rightarrow> Utxo \<Rightarrow> utxo_row" where
  "enc_utxo lib u =
     \<lparr>ur_outpoint = outpoint_str lib (utxo_Op u), ur_value = sint (utxo_Value u),
      ur_height = sint (AtHeight u), ur_scriptPubKey = hex_EncodeToString (ScriptPubkey u),
      ur_watchOnly = of_flag (WatchOnly u)\<rparr>"

definition enc_stxo :: "wire_lib \<Rightarrow> Stxo \<Rightarrow> stxo_row" where
  "enc_stxo lib s =
     (let u = stxo_Utxo s in
      \<lparr>sr_outpoint = outpoint_str lib (utxo_Op u), sr_value = sint (utxo_Value u),
       sr_height = sint (AtHeight u), sr_scriptPubKey = hex_EncodeToString (ScriptPubkey u),
       sr_watchOnly = of_flag (WatchOnly u), sr_spendHeight = sint (SpendHeight s),
       sr_spendTxid = hashString lib (SpendTxid s)\<rparr>)"

definition enc_key :: "krow \<Rightarrow> key_row" where
  "enc_key k =
     \<lparr>k_scriptAddress = hex_EncodeToString (kr_script k), k_purpose = kp_Purpose (kr_path k),
      k_keyIndex = kp_Index (kr_path k), k_used = of_flag (kr_used k),
      k_key = map_option hex_EncodeToString (kr_key k)\<rparr>"

definition dec_key :: "key_row \<Rightarrow> krow" where
  "dec_key r =
     \<lparr>kr_script = the (hex_DecodeString (k_scriptAddress r)),
      kr_path = \<lparr>kp_Purpose = k_purpose r, kp_Index = k_keyIndex r\<rparr>,
      kr_used = (k_used r \<noteq> 0), kr_key = map_option (the \<circ> hex_DecodeString) (k_key r)\<rparr>"

definition sql_view :: "wire_lib \<Rightarrow> sqldb \<Rightarrow> wview" where
  "sql_view lib db =
     \<lparr>v_utxos = fst (UtxoDB_GetAll lib db), v_stxos = fst (StxoDB_GetAll lib db),
      v_txns = map (decode_txn lib) (t_txns db), v_keys = map dec_key (t_keys db),
      v_watched = fst (WatchedScriptsDB_GetAll db)\<rparr>"

text \<open>A database represents a view when its rows are the encodings of the view's rows, and a
  transaction row is filed under the id of its bytes.\<close>

definition represents :: "wire_lib \<Rightarrow> wview \<Rightarrow> sqldb \<Rightarrow> bool" where
  "represents lib v db \<longleftrightarrow>
     t_utxos db = map (enc_utxo lib) (v_utxos v) \<and> t_stxos db = map (enc_stxo lib) (v_stxos v) \<and>
     map (decode_txn lib) (t_txns db) = v_txns v \<and>
     list_all (\<lambda>r. tr_txid r = txid_of lib (tr_tx r)) (t_txns db) \<and>
     t_keys db = map enc_key (v_keys v) \<and> t_watched db = map hex_EncodeToString (v_watched v)"

definition sql_inv :: "wire_lib \<Rightarrow> sqldb \<Rightarrow> bool" where
  "sql_inv lib db \<longleftrightarrow> wire_ok lib \<and> represents lib (sql_view lib db) db \<and> view_ok (sql_view lib db)"

lemma of_flag_simps [simp]: "(of_flag b = 1) = b" "(of_flag b = 0) = (\<not> b)" "(0 < of_flag b) = b"
  by (simp_all add: of_flag_def)

lemma decode_enc_utxo [simp]: "wire_ok lib \<Longrightarrow> decode_utxo lib (enc_utxo lib u) = Some u"
  by (simp add: decode_utxo_def enc_utxo_def parse_outpoint_str)

lemma decode_enc_stxo [simp]: "wire_ok lib \<Longrightarrow> decode_stxo lib (enc_stxo lib s) = Some s"
  by (simp add: decode_stxo_def enc_stxo_def Let_def parse_outpoint_str) (simp add: wire_ok_def)

lemma dec_enc_key [simp]: "dec_key (enc_key k) = k"
  by (simp add: dec_key_def enc_key_def option.map_comp comp_def option.map_ident)

lemma map_filter_encode: "(\<And>x. dec (enc x) = Some x) \<Longrightarrow> List.map_filter dec (map enc xs) = xs"
  by (induction xs) (simp_all add: List.map_filter_simps)

lemma represents_view: "wire_ok lib \<Longrightarrow> represents lib v db \<Longrightarrow> sql_view lib db = v"
  by (cases v) (simp add: represents_def sql_view_def UtxoDB_GetAll_def StxoDB_GetAll_def
      WatchedScriptsDB_GetAll_def map_filter_encode comp_def)

lemma sql_invI: "wire_ok lib \<Longrightarrow> represents lib v db \<Longrightarrow> view_ok v \<Longrightarrow> sql_inv lib db \<and> sql_view lib db = v"
  using represents_view [of lib v db] by (simp add: sql_inv_def)

lemma sql_inv_init: "wire_ok lib \<Longrightarrow> sql_inv lib (initDatabaseTables r)"
  by (simp add: sql_inv_def represents_def sql_view_def initDatabaseTables_def UtxoDB_GetAll_def
      StxoDB_GetAll_def WatchedScriptsDB_GetAll_def List.map_filter_simps view_ok_def)

lemma upsert_map:
  "(\<And>x y. key' (f x) = key' (f y) \<longleftrightarrow> key x = key y) \<Longrightarrow>
   upsert key' (f x) (map f t) = map f (upsert key x t)"
  by (simp add: upsert_def filter_map comp_def)

lemma del_key_map:
  "(\<And>x. key' (f x) = k' \<longleftrightarrow> key x = k) \<Longrightarrow> del_key key' k' (map f t) = map f (del_key key k t)"
  by (simp add: del_key_def filter_map comp_def)

lemma row_keys [simp]:
  "ur_outpoint (enc_utxo lib u) = outpoint_str lib (utxo_Op u)"
  "sr_outpoint (enc_stxo lib s) = outpoint_str lib (stxo_Op s)"
  "txn_Txid (decode_txn lib r) = txid_of lib (tr_tx r)"
  "k_scriptAddress (enc_key k) = hex_EncodeToString (kr_script k)"
  "k_purpose (enc_key k) = kp_Purpose (kr_path k)"
  "k_keyIndex (enc_key k) = kp_Index (kr_path k)"
  "k_used (enc_key k) = of_flag (kr_used k)"
  "k_key (enc_key k) = map_option hex_EncodeToString (kr_key k)"
  by (simp_all add: enc_utxo_def enc_stxo_def decode_txn_def txid_of_def enc_key_def Let_def)

section \<open>The SQLite store satisfies the contract\<close>

lemma sql_invD:
  assumes "sql_inv lib db"
  shows "wire_ok lib" "represents lib (sql_view lib db) db" "view_ok (sql_view lib db)"
  using assms by (simp_all add: sql_inv_def)

lemma sql_step:
  assumes "sql_inv lib db" "represents lib v db'" "view_ok v"
  shows "sql_inv lib db' \<and> sql_view lib db' = v"
  using assms sql_invI by (simp add: sql_inv_def)

lemma sql_write:
  assumes "sql_inv lib db" "fst m = None" "represents lib v (snd m)" "view_ok v"
  shows "\<exists>s'. m = (None, s') \<and> sql_inv lib s' \<and> sql_view lib s' = v"
  using assms sql_step [of lib db v "snd m"] by (cases m) auto

lemma sql_Utxos_Put:
  assumes "sql_inv lib db"
  shows "\<exists>s'. UtxoDB_Put lib u db = (None, s') \<and> sql_inv lib s' \<and>
    sql_view lib s' = (sql_view lib db)\<lparr>v_utxos := upsert utxo_Op u (v_utxos (sql_view lib db))\<rparr>"
  by (rule sql_write [OF assms]; use sql_invD [OF assms] in
      \<open>simp add: UtxoDB_Put_def enc_utxo_def [symmetric] represents_def view_ok_def Let_def
        upsert_map [where key = utxo_Op] outpoint_str_inj\<close>)

lemma sql_Utxos_SetWatchOnly:
  assumes "sql_inv lib db"
  shows "\<exists>s'. UtxoDB_SetWatchOnly lib u db = (None, s') \<and> sql_inv lib s' \<and>
    sql_view lib s' = (sql_view lib db)\<lparr>v_utxos :=
      map (\<lambda>x. if utxo_Op x = utxo_Op u then x\<lparr>WatchOnly := True\<rparr> else x) (v_utxos (sql_view lib db))\<rparr>"
proof -
  have "(enc_utxo lib x)\<lparr>ur_watchOnly := 1\<rparr> = enc_utxo lib (x\<lparr>WatchOnly := True\<rparr>)" for x
    by (simp add: enc_utxo_def of_flag_def)
  then show ?thesis
    by (intro sql_write [OF assms]; use sql_invD [OF assms] in
      \<open>simp add: UtxoDB_SetWatchOnly_def represents_def view_ok_def outpoint_str_inj keyed_map\<close>)
qed

lemma sql_Utxos_Delete:
  assumes "sql_inv lib db"
  shows "\<exists>s'. UtxoDB_Delete lib u db = (None, s') \<and> sql_inv lib s' \<and>
    sql_view lib s' = (sql_view lib db)\<lparr>v_utxos := del_key utxo_Op (utxo_Op u) (v_utxos (sql_view lib db))\<rparr>"
  by (rule sql_write [OF assms]; use sql_invD [OF assms] in
      \<open>simp add: UtxoDB_Delete_def represents_def view_ok_def
        del_key_map [where key = utxo_Op and k = "utxo_Op u"] outpoint_str_inj\<close>)

lemma sql_Stxos_Put:
  assumes "sql_inv lib db"
  shows "\<exists>s'. StxoDB_Put lib x db = (None, s') \<and> sql_inv lib s' \<and>
    sql_view lib s' = (sql_view lib db)\<lparr>v_stxos := upsert stxo_Op x (v_stxos (sql_view lib db))\<rparr>"
  by (rule sql_write [OF assms]; use sql_invD [OF assms] in
      \<open>simp add: StxoDB_Put_def enc_stxo_def [unfolded Let_def, symmetric] represents_def view_ok_def Let_def
        upsert_map [where key = stxo_Op] outpoint_str_inj\<close>)

lemma sql_Stxos_Delete:
  assumes "sql_inv lib db"
  shows "\<exists>s'. StxoDB_Delete lib x db = (None, s') \<and> sql_inv lib s' \<and>
    sql_view lib s' = (sql_view lib db)\<lparr>v_stxos := del_key stxo_Op (stxo_Op x) (v_stxos (sql_view lib db))\<rparr>"
  by (rule sql_write [OF assms]; use sql_invD [OF assms] in
      \<open>simp add: StxoDB_Delete_def represents_def view_ok_def
        del_key_map [where key = stxo_Op and k = "stxo_Op x"] outpoint_str_inj\<close>)

lemma decode_put: "decode_txn lib \<lparr>tr_txid = txid_of lib raw, tr_value = v, tr_height = h,
    tr_timestamp = Unix t, tr_watchOnly = of_flag wo, tr_tx = raw\<rparr> = new_txn (txid_of lib raw) raw v h t wo"
  by (simp add: decode_txn_def new_txn_def txid_of_def)

lemma map_filter_commute:
  "(\<And>x. x \<in> set t \<Longrightarrow> P x \<longleftrightarrow> Q (f x)) \<Longrightarrow> map f (filter P t) = filter Q (map f t)"
  by (induction t) auto

lemma txn_rows:
  assumes "sql_inv lib db"
  shows "r \<in> set (t_txns db) \<Longrightarrow> tr_txid r = txid_of lib (tr_tx r)"
    and "v_txns (sql_view lib db) = map (decode_txn lib) (t_txns db)"
  using sql_invD [OF assms] by (simp_all add: represents_def list_all_iff)

text \<open>An operation on the transaction table that commutes with decoding.\<close>

lemma sql_txns_write:
  assumes inv: "sql_inv lib db"
    and m: "m = (None, db\<lparr>t_txns := rows\<rparr>)"
    and rows: "\<And>r. r \<in> set rows \<Longrightarrow> tr_txid r = txid_of lib (tr_tx r)"
    and dec: "map (decode_txn lib) rows = txs"
    and keyed: "keyed txn_Txid txs"
  shows "\<exists>s'. m = (None, s') \<and> sql_inv lib s' \<and> sql_view lib s' = (sql_view lib db)\<lparr>v_txns := txs\<rparr>"
  by (rule sql_write [OF inv]; use sql_invD [OF inv] m rows dec keyed in
      \<open>simp add: represents_def view_ok_def list_all_iff\<close>)

lemma sql_Txns_Put:
  assumes "sql_inv lib db"
  shows "\<exists>s'. TxnsDB_Put raw (txid_of lib raw) v h t wo db = (None, s') \<and> sql_inv lib s' \<and>
    sql_view lib s' = (sql_view lib db)\<lparr>v_txns := upsert txn_Txid (new_txn (txid_of lib raw) raw v h t wo)
      (v_txns (sql_view lib db))\<rparr>"
proof (rule sql_txns_write [OF assms])
  let ?row = "\<lparr>tr_txid = txid_of lib raw, tr_value = v, tr_height = h, tr_timestamp = Unix t,
    tr_watchOnly = of_flag wo, tr_tx = raw\<rparr>"
  show "TxnsDB_Put raw (txid_of lib raw) v h t wo db = (None, db\<lparr>t_txns := upsert tr_txid ?row (t_txns db)\<rparr>)"
    by (simp add: TxnsDB_Put_def)
  show "tr_txid r = txid_of lib (tr_tx r)" if "r \<in> set (upsert tr_txid ?row (t_txns db))" for r
    using that txn_rows(1) [OF assms] by (auto simp: table_simps)
  have "map (decode_txn lib) (filter (\<lambda>y. tr_txid y \<noteq> txid_of lib raw) (t_txns db)) =
      filter (\<lambda>y. txn_Txid y \<noteq> txid_of lib raw) (map (decode_txn lib) (t_txns db))"
    by (rule map_filter_commute) (simp add: txn_rows(1) [OF assms])
  then show "map (decode_txn lib) (upsert tr_txid ?row (t_txns db)) =
      upsert txn_Txid (new_txn (txid_of lib raw) raw v h t wo) (v_txns (sql_view lib db))"
    by (simp add: upsert_def decode_put txn_rows(2) [OF assms]) (simp add: new_txn_def)
  show "keyed txn_Txid (upsert txn_Txid (new_txn (txid_of lib raw) raw v h t wo) (v_txns (sql_view lib db)))"
    using sql_invD(3) [OF assms] by (simp add: view_ok_def)
qed

lemma sql_Txns_Delete:
  assumes "sql_inv lib db"
  shows "\<exists>s'. TxnsDB_Delete lib h db = (None, s') \<and> sql_inv lib s' \<and>
    sql_view lib s' = (sql_view lib db)\<lparr>v_txns := del_key txn_Txid (hashString lib h) (v_txns (sql_view lib db))\<rparr>"
proof (rule sql_txns_write [OF assms])
  show "map (decode_txn lib) (del_key tr_txid (hashString lib h) (t_txns db)) =
      del_key txn_Txid (hashString lib h) (v_txns (sql_view lib db))"
    unfolding del_key_def txn_rows(2) [OF assms]
    by (rule map_filter_commute) (simp add: txn_rows(1) [OF assms])
qed (use txn_rows(1) [OF assms] sql_invD(3) [OF assms] in
      \<open>auto simp: TxnsDB_Delete_def view_ok_def table_simps\<close>)

lemma sql_Txns_UpdateHeight:
  assumes "sql_inv lib db"
  shows "\<exists>s'. TxnsDB_UpdateHeight lib h height t db = (None, s') \<and> sql_inv lib s' \<and>
    sql_view lib s' = (sql_view lib db)\<lparr>v_txns :=
      map (set_height (hashString lib h) (word_of_int height) (time_Unix (Unix t))) (v_txns (sql_view lib db))\<rparr>"
proof (rule sql_txns_write [OF assms])
  show "map (decode_txn lib) (map (\<lambda>r. if tr_txid r = hashString lib h
        then r\<lparr>tr_height := height, tr_timestamp := Unix t\<rparr> else r) (t_txns db)) =
      map (set_height (hashString lib h) (word_of_int height) (time_Unix (Unix t))) (v_txns (sql_view lib db))"
    unfolding txn_rows(2) [OF assms] map_map
    by (rule map_cong) (simp_all add: set_height_def txn_rows(1) [OF assms], simp add: decode_txn_def)
qed (use txn_rows(1) [OF assms] sql_invD(3) [OF assms] in
      \<open>auto simp: TxnsDB_UpdateHeight_def view_ok_def set_height_def intro!: keyed_map\<close>)

lemma sql_Txns_Get:
  assumes "sql_inv lib db"
  shows "TxnsDB_Get lib h db =
    (case find (\<lambda>t. txn_Txid t = hashString lib h) (v_txns (sql_view lib db)) of
       None \<Rightarrow> (zero_Txn, Some NoRows) | Some t \<Rightarrow> (t, None))"
proof -
  have "find (\<lambda>t. txn_Txid t = k) (map (decode_txn lib) rs) =
      map_option (decode_txn lib) (find (\<lambda>r. tr_txid r = k) rs)"
    if "\<And>r. r \<in> set rs \<Longrightarrow> tr_txid r = txid_of lib (tr_tx r)" for rs k
    using that by (induction rs) auto
  from this [OF txn_rows(1) [OF assms]] show ?thesis
    by (simp add: TxnsDB_Get_def txn_rows(2) [OF assms] split: option.split)
qed

lemma sql_Txns_GetAll:
  assumes "sql_inv lib db"
  shows "TxnsDB_GetAll lib b db = (filter (\<lambda>t. b \<or> \<not> txn_WatchOnly t) (v_txns (sql_view lib db)), None)"
  unfolding TxnsDB_GetAll_def txn_rows(2) [OF assms]
  by (simp, rule map_filter_commute) (auto simp: decode_txn_def)

lemma key_rows:
  assumes "sql_inv lib db"
  shows "t_keys db = map enc_key (v_keys (sql_view lib db))" "keyed kr_script (v_keys (sql_view lib db))"
  using sql_invD [OF assms] by (simp_all add: represents_def view_ok_def)

lemma key_script_in:
  assumes "sql_inv lib db"
  shows "hex_EncodeToString sa \<in> k_scriptAddress ` set (t_keys db) \<longleftrightarrow>
    sa \<in> kr_script ` set (v_keys (sql_view lib db))"
  by (auto simp: key_rows(1) [OF assms] image_iff)

lemma sql_keys_write:
  assumes inv: "sql_inv lib db"
    and m: "m = (None, db\<lparr>t_keys := map enc_key ks, rand_n := n\<rparr>)"
    and keyed: "keyed kr_script ks"
  shows "\<exists>s'. m = (None, s') \<and> sql_inv lib s' \<and> sql_view lib s' = (sql_view lib db)\<lparr>v_keys := ks\<rparr>"
  by (rule sql_write [OF inv]; use sql_invD [OF inv] m keyed in \<open>simp add: represents_def view_ok_def\<close>)

lemma keyed_snoc: "keyed key t \<Longrightarrow> key x \<notin> key ` set t \<Longrightarrow> keyed key (t @ [x])"
  by (auto simp: keyed_def)

lemma sql_Keys_Put:
  assumes "sql_inv lib db" "sa \<notin> kr_script ` set (v_keys (sql_view lib db))"
  shows "\<exists>s'. KeysDB_Put sa kp db = (None, s') \<and> sql_inv lib s' \<and>
    sql_view lib s' = (sql_view lib db)\<lparr>v_keys := v_keys (sql_view lib db) @
      [\<lparr>kr_script = sa, kr_path = kp, kr_used = False, kr_key = None\<rparr>]\<rparr>"
  by (rule sql_keys_write [OF assms(1), where n = "rand_n db"];
      use assms(2) key_rows [OF assms(1)] key_script_in [OF assms(1), of sa] in
      \<open>simp add: KeysDB_Put_def KeysDB_insert_def enc_key_def of_flag_def keyed_snoc\<close>)

lemma sql_Keys_ImportKey:
  assumes "sql_inv lib db" "sa \<notin> kr_script ` set (v_keys (sql_view lib db))"
  shows "\<exists>s' i. KeysDB_ImportKey sa k db = (None, s') \<and> sql_inv lib s' \<and>
    sql_view lib s' = (sql_view lib db)\<lparr>v_keys := v_keys (sql_view lib db) @
      [\<lparr>kr_script = sa, kr_path = \<lparr>kp_Purpose = -1, kp_Index = i\<rparr>, kr_used = True, kr_key = Some k\<rparr>]\<rparr>"
proof -
  have "\<exists>s'. KeysDB_ImportKey sa k db = (None, s') \<and> sql_inv lib s' \<and>
    sql_view lib s' = (sql_view lib db)\<lparr>v_keys := v_keys (sql_view lib db) @
      [\<lparr>kr_script = sa, kr_path = \<lparr>kp_Purpose = -1, kp_Index = uint (rand db (rand_n db))\<rparr>,
        kr_used = True, kr_key = Some k\<rparr>]\<rparr>"
    by (rule sql_keys_write [OF assms(1), where n = "Suc (rand_n db)"];
      use assms(2) key_rows [OF assms(1)] key_script_in [OF assms(1), of sa] in
      \<open>simp add: KeysDB_ImportKey_def KeysDB_insert_def enc_key_def of_flag_def keyed_snoc\<close>)
  then show ?thesis by blast
qed

lemma sql_Keys_MarkKeyAsUsed:
  assumes "sql_inv lib db"
  shows "\<exists>s'. KeysDB_MarkKeyAsUsed sa db = (None, s') \<and> sql_inv lib s' \<and>
    sql_view lib s' = (sql_view lib db)\<lparr>v_keys := map (mark_used sa) (v_keys (sql_view lib db))\<rparr>"
proof -
  have "(enc_key k)\<lparr>k_used := 1\<rparr> = enc_key (k\<lparr>kr_used := True\<rparr>)" for k
    by (simp add: enc_key_def of_flag_def)
  then show ?thesis
    by (intro sql_keys_write [OF assms, where n = "rand_n db"]; use key_rows [OF assms] in
      \<open>auto simp: KeysDB_MarkKeyAsUsed_def mark_used_def intro!: keyed_map\<close>)
qed

lemma count_unused_takeWhile:
  "count_unused n (map k_used (map enc_key ks)) = n + int (length (takeWhile (\<lambda>k. \<not> kr_used k) ks))"
  by (induction ks arbitrary: n) simp_all

lemma sql_Keys_GetLastKeyIndex:
  assumes "sql_inv lib db"
  shows "KeysDB_GetLastKeyIndex p db =
    (case rev (filter (\<lambda>r. kp_Purpose (kr_path r) = p) (v_keys (sql_view lib db))) of
       [] \<Rightarrow> (0, False, Some NoRows) | r # _ \<Rightarrow> (kp_Index (kr_path r), kr_used r, None))"
  by (simp add: KeysDB_GetLastKeyIndex_def key_rows(1) [OF assms] filter_map comp_def rev_map split: list.split)

lemma sql_Keys_GetLookaheadWindows:
  assumes "sql_inv lib db"
  shows "KeysDB_GetLookaheadWindows db =
    (\<lambda>p. if p = 0 \<or> p = 1 then Some (int (window p (v_keys (sql_view lib db)))) else None)"
proof -
  have "count_unused 0 (map k_used (rev (filter (\<lambda>r. k_purpose r = p) (t_keys db)))) =
      int (window p (v_keys (sql_view lib db)))" for p
    unfolding key_rows(1) [OF assms] filter_map rev_map count_unused_takeWhile
    by (simp add: window_def comp_def)
  then show ?thesis unfolding KeysDB_GetLookaheadWindows_def by presburger
qed

lemma sql_Keys_GetPathForKey:
  assumes "sql_inv lib db"
  shows "KeysDB_GetPathForKey sa db =
    (case find (\<lambda>k. kr_script k = sa \<and> kp_Purpose (kr_path k) \<noteq> -1) (v_keys (sql_view lib db)) of
       None \<Rightarrow> (\<lparr>kp_Purpose = 0, kp_Index = 0\<rparr>, Some (ErrMsg ''Key not found''))
     | Some k \<Rightarrow> (kr_path k, None))"
proof -
  have "find P (map enc_key ks) = map_option enc_key (find (P \<circ> enc_key) ks)" for P ks
    by (induction ks) simp_all
  then show ?thesis
    by (simp add: KeysDB_GetPathForKey_def key_rows(1) [OF assms] comp_def split: option.split)
qed

lemma sql_watched:
  assumes "sql_inv lib db"
  shows "t_watched db = map hex_EncodeToString (v_watched (sql_view lib db))" "distinct (v_watched (sql_view lib db))"
  using sql_invD [OF assms] by (simp_all add: represents_def view_ok_def)

lemma sql_watched_write:
  assumes inv: "sql_inv lib db"
    and m: "m = (None, db\<lparr>t_watched := map hex_EncodeToString ws\<rparr>)"
    and ws: "distinct ws"
  shows "\<exists>s'. m = (None, s') \<and> sql_inv lib s' \<and> sql_view lib s' = (sql_view lib db)\<lparr>v_watched := ws\<rparr>"
  by (rule sql_write [OF inv]; use sql_invD [OF inv] m ws in \<open>simp add: represents_def view_ok_def\<close>)

lemma sql_Watched_Put:
  assumes "sql_inv lib db"
  shows "\<exists>s'. WatchedScriptsDB_Put w db = (None, s') \<and> sql_inv lib s' \<and>
    sql_view lib s' = (sql_view lib db)\<lparr>v_watched := upsert id w (v_watched (sql_view lib db))\<rparr>"
  by (rule sql_watched_write [OF assms]; use sql_watched [OF assms] keyed_upsert [of id _ w] in
      \<open>simp add: WatchedScriptsDB_Put_def upsert_map [where key = id] keyed_def\<close>)

lemma sql_Watched_Delete:
  assumes "sql_inv lib db"
  shows "\<exists>s'. WatchedScriptsDB_Delete w db = (None, s') \<and> sql_inv lib s' \<and>
    sql_view lib s' = (sql_view lib db)\<lparr>v_watched := del_key id w (v_watched (sql_view lib db))\<rparr>"
  by (rule sql_watched_write [OF assms]; use sql_watched [OF assms] keyed_del_key [of id _ w] in
      \<open>simp add: WatchedScriptsDB_Delete_def del_key_map [where key = id and k = w] keyed_def\<close>)

lemmas sql_ops = sql_Utxos_Put sql_Utxos_SetWatchOnly sql_Utxos_Delete sql_Stxos_Put sql_Stxos_Delete
  sql_Txns_Put sql_Txns_Get sql_Txns_GetAll sql_Txns_UpdateHeight sql_Txns_Delete sql_Keys_Put
  sql_Keys_ImportKey sql_Keys_MarkKeyAsUsed sql_Keys_GetLastKeyIndex sql_Watched_Put sql_Watched_Delete

interpretation sqlite: datastore_laws "SQLiteDatastore lib" "sql_view lib" "sql_inv lib" "txid_of lib" "hashString lib"
  for lib
proof (unfold_locales, goal_cases)
  case (1 s) then show ?case by (rule sql_invD(3))
next
  case (2 s h h') then show ?case using hashString_inj [OF sql_invD(1) [OF 2(1)]] by simp
next
  case (4 s) then show ?case by (simp add: SQLiteDatastore_def sql_view_def UtxoDB_GetAll_def)
next
  case (8 s) then show ?case by (simp add: SQLiteDatastore_def sql_view_def StxoDB_GetAll_def)
next
  case (16 s sa kp) then show ?case
    by (simp add: SQLiteDatastore_def KeysDB_Put_def KeysDB_insert_def key_script_in)
next
  case (17 s sa k) then show ?case using sql_Keys_ImportKey [OF 17] by (simp add: SQLiteDatastore_def)
next
  case (20 s p) then show ?case
    by (simp add: SQLiteDatastore_def KeysDB_GetUnused_def key_rows(1) filter_map comp_def)
next
  case (21 s) then show ?case by (simp add: SQLiteDatastore_def KeysDB_GetAll_def key_rows(1))
next
  case (22 s) then show ?case by (simp add: SQLiteDatastore_def sql_Keys_GetLookaheadWindows)
next
  case (23 s r sa)
  let ?P = "\<lambda>k. kr_script k = sa \<and> kp_Purpose (kr_path k) \<noteq> -1"
  obtain k where k: "find ?P (v_keys (sql_view lib s)) = Some k"
    using 23(2-4) by (cases "find ?P (v_keys (sql_view lib s))") (auto simp: find_None_iff)
  then have "k \<in> set (v_keys (sql_view lib s))" "kr_script k = sa" by (auto simp: find_Some_iff)
  then have "k = r" using keyed_eqD [OF key_rows(2) [OF 23(1)]] 23(2,3) by simp
  with k show ?case by (simp add: SQLiteDatastore_def sql_Keys_GetPathForKey [OF 23(1)])
next
  case (24 s sa)
  then show ?case
    by (auto simp: SQLiteDatastore_def sql_Keys_GetPathForKey find_Some_iff split: option.split)
next
  case (26 s) then show ?case by (simp add: SQLiteDatastore_def sql_view_def WatchedScriptsDB_GetAll_def)
next
  case (28 s r) then show ?case by (auto simp: txn_rows(2) txid_of_def)
qed (simp_all add: SQLiteDatastore_def sql_ops)

section \<open>Round trips through the tables\<close>

text \<open>Property C7. With a wire library that behaves as documented, the SQLite store implements the
  datastore contract: a new database satisfies the representation invariant, and every method has
  on the decoded tables the effect the contract states and keeps the invariant.\<close>

theorem SQLiteDatastore_implements:
  assumes "wire_ok lib"
  shows "sql_inv lib (initDatabaseTables r) \<and>
    datastore_laws (SQLiteDatastore lib) (sql_view lib) (sql_inv lib) (txid_of lib) (hashString lib)"
  using sql_inv_init [OF assms] sqlite.datastore_laws_axioms by blast

theorem SQLiteDatastore_implements_witness:
  "sql_inv ex_lib (initDatabaseTables (\<lambda>n. 7)) \<and>
   datastore_laws (SQLiteDatastore ex_lib) (sql_view ex_lib) (sql_inv ex_lib) (txid_of ex_lib) (hashString ex_lib)"
  using SQLiteDatastore_implements [OF ex_lib_ok] by blast

text \<open>Every database the program can reach: a new one, then the writing methods in any order.\<close>

inductive sql_reach :: "wire_lib \<Rightarrow> sqldb \<Rightarrow> bool" for lib where
  init: "sql_reach lib (initDatabaseTables r)"
| UtxosPut: "sql_reach lib db \<Longrightarrow> sql_reach lib (snd (UtxoDB_Put lib u db))"
| UtxosSetWatchOnly: "sql_reach lib db \<Longrightarrow> sql_reach lib (snd (UtxoDB_SetWatchOnly lib u db))"
| UtxosDelete: "sql_reach lib db \<Longrightarrow> sql_reach lib (snd (UtxoDB_Delete lib u db))"
| StxosPut: "sql_reach lib db \<Longrightarrow> sql_reach lib (snd (StxoDB_Put lib x db))"
| StxosDelete: "sql_reach lib db \<Longrightarrow> sql_reach lib (snd (StxoDB_Delete lib x db))"
| TxnsPut: "sql_reach lib db \<Longrightarrow> txid = txid_of lib raw \<Longrightarrow>
    sql_reach lib (snd (TxnsDB_Put raw txid v h t wo db))"
| TxnsUpdateHeight: "sql_reach lib db \<Longrightarrow> sql_reach lib (snd (TxnsDB_UpdateHeight lib txh h t db))"
| TxnsDelete: "sql_reach lib db \<Longrightarrow> sql_reach lib (snd (TxnsDB_Delete lib txh db))"
| KeysPut: "sql_reach lib db \<Longrightarrow> sql_reach lib (snd (KeysDB_Put sa kp db))"
| KeysImportKey: "sql_reach lib db \<Longrightarrow> sql_reach lib (snd (KeysDB_ImportKey sa k db))"
| KeysMarkKeyAsUsed: "sql_reach lib db \<Longrightarrow> sql_reach lib (snd (KeysDB_MarkKeyAsUsed sa db))"
| WatchedPut: "sql_reach lib db \<Longrightarrow> sql_reach lib (snd (WatchedScriptsDB_Put w db))"
| WatchedDelete: "sql_reach lib db \<Longrightarrow> sql_reach lib (snd (WatchedScriptsDB_Delete w db))"

lemma sql_inv_rand [simp]: "sql_inv lib (db\<lparr>rand_n := n\<rparr>) = sql_inv lib db"
  by (simp add: sql_inv_def represents_def sql_view_def UtxoDB_GetAll_def StxoDB_GetAll_def
      WatchedScriptsDB_GetAll_def)

lemma writeD: "\<exists>s'. m = (None, s') \<and> P s' \<and> Q s' \<Longrightarrow> P (snd m)"
  by auto

lemma sql_inv_Keys_Put: "sql_inv lib db \<Longrightarrow> sql_inv lib (snd (KeysDB_Put sa kp db))"
  using writeD [OF sql_Keys_Put [of lib db sa kp]]
  by (cases "sa \<in> kr_script ` set (v_keys (sql_view lib db))")
    (simp_all add: KeysDB_Put_def KeysDB_insert_def key_script_in)

lemma sql_inv_ImportKey: "sql_inv lib db \<Longrightarrow> sql_inv lib (snd (KeysDB_ImportKey sa k db))"
proof (cases "sa \<in> kr_script ` set (v_keys (sql_view lib db))")
  case True
  then show "sql_inv lib db \<Longrightarrow> ?thesis"
    by (simp add: KeysDB_ImportKey_def KeysDB_insert_def key_script_in)
next
  case False
  then show "sql_inv lib db \<Longrightarrow> ?thesis" using sql_Keys_ImportKey [of lib db sa k] by auto
qed


definition ex_utxo :: Utxo where
  "ex_utxo = \<lparr>utxo_Op = \<lparr>op_Hash = 5, op_Index = 1\<rparr>, AtHeight = 100, utxo_Value = 5000,
     ScriptPubkey = [1, 2], WatchOnly = False\<rparr>"


text \<open>Insert and delete round trips of the utxo table: after \<open>Put\<close> the table holds the
  new output and every other output it held, after \<open>Delete\<close> every output but the deleted one.\<close>

theorem UtxoDB_roundtrip:
  assumes "sql_inv lib db"
  shows "set (fst (UtxoDB_GetAll lib (snd (UtxoDB_Put lib u db)))) =
      insert u {x \<in> set (fst (UtxoDB_GetAll lib db)). utxo_Op x \<noteq> utxo_Op u} \<and>
    set (fst (UtxoDB_GetAll lib (snd (UtxoDB_Delete lib u db)))) =
      {x \<in> set (fst (UtxoDB_GetAll lib db)). utxo_Op x \<noteq> utxo_Op u}"
proof -
  have v: "fst (UtxoDB_GetAll lib d) = v_utxos (sql_view lib d)" for d by (simp add: sql_view_def)
  show ?thesis
    using sql_Utxos_Put [OF assms, of u] sql_Utxos_Delete [OF assms, of u] by (auto simp: v table_simps)
qed

theorem UtxoDB_roundtrip_witness:
  "sql_inv ex_lib (initDatabaseTables (\<lambda>n. 7)) \<and>
   set (fst (UtxoDB_GetAll ex_lib (snd (UtxoDB_Put ex_lib ex_utxo (initDatabaseTables (\<lambda>n. 7)))))) =
     insert ex_utxo {x \<in> set (fst (UtxoDB_GetAll ex_lib (initDatabaseTables (\<lambda>n. 7)))).
       utxo_Op x \<noteq> utxo_Op ex_utxo}"
  using UtxoDB_roundtrip [OF sql_inv_init [OF ex_lib_ok]] sql_inv_init [OF ex_lib_ok] by blast

text \<open>A stored transaction is read back with its bytes, value, height, watch-only flag
  and the block time to the second, and the other transactions are unaffected.\<close>

theorem TxnsDB_roundtrip:
  assumes "sql_inv lib db"
    and "h = txHash lib tx" and "raw = encodeTx lib tx"
    and "db' = snd (TxnsDB_Put raw (hashString lib h) v height t wo db)"
  shows "TxnsDB_Get lib h' db' =
    (if h' = h then (new_txn (hashString lib h) raw v height t wo, None) else TxnsDB_Get lib h' db)"
proof -
  note lib = sql_invD(1) [OF assms(1)]
  have id: "txid_of lib raw = hashString lib h" using txid_of_encode [OF lib] assms(2,3) by simp
  have db': "sql_inv lib db'" "v_txns (sql_view lib db') =
      upsert txn_Txid (new_txn (hashString lib h) raw v height t wo) (v_txns (sql_view lib db))"
    using sql_Txns_Put [OF assms(1), of raw v height t wo] assms(4) by (auto simp: id)
  have new: "txn_Txid (new_txn (hashString lib h) raw v height t wo) = hashString lib h"
    by (simp add: new_txn_def)
  have nf: "find P (filter (\<lambda>x. \<not> P x) xs @ [y]) = (if P y then Some y else None)"
    for P xs and y :: Txn by (induction xs) simp_all
  have same: "TxnsDB_Get lib h db' = (new_txn (hashString lib h) raw v height t wo, None)"
    using nf [of "\<lambda>x. txn_Txid x = hashString lib h"]
    by (simp add: sql_Txns_Get [OF db'(1)] db'(2) upsert_def new)
  have "find (\<lambda>x. txn_Txid x = hashString lib h')
      (filter (\<lambda>x. txn_Txid x \<noteq> hashString lib h) xs @ [new_txn (hashString lib h) raw v height t wo]) =
      find (\<lambda>x. txn_Txid x = hashString lib h') xs" if "h' \<noteq> h" for xs
    using that by (induction xs) (auto simp: new hashString_inj [OF lib])
  then have "h' \<noteq> h \<Longrightarrow> TxnsDB_Get lib h' db' = TxnsDB_Get lib h' db"
    by (simp add: sql_Txns_Get [OF db'(1)] sql_Txns_Get [OF assms(1)] db'(2) upsert_def new)
  with same show ?thesis by simp
qed

definition ex_tx :: MsgTx where
  "ex_tx = \<lparr>tx_Version = 1, tx_TxIn = [], tx_TxOut = [], tx_LockTime = 9\<rparr>"

theorem TxnsDB_roundtrip_witness:
  "TxnsDB_Get ex_lib (txHash ex_lib ex_tx)
     (snd (TxnsDB_Put (encodeTx ex_lib ex_tx) (hashString ex_lib (txHash ex_lib ex_tx)) 10 20 30 False
       (initDatabaseTables (\<lambda>n. 7)))) =
   (new_txn (hashString ex_lib (txHash ex_lib ex_tx)) (encodeTx ex_lib ex_tx) 10 20 30 False, None)"
  using TxnsDB_roundtrip [OF sql_inv_init [OF ex_lib_ok] refl refl refl, of "txHash ex_lib ex_tx"]
  by (simp only: simp_thms if_True)

end
