(* ===== verification/Key_Manager.thy ===== *)
theory Key_Manager
  imports Sqlite_Store
begin

text \<open>
  The key manager, \<^verbatim>\<open>src/keys.go\<close>: BIP-44 derivation, the fresh-key loop and the look-ahead window of
  unused keys.  The hierarchical-key library is the record \<open>hd_lib\<close> over an abstract key type; a
  derivation that fails is \<open>None\<close> (the library then returns a nil key).  The operations take the
  datastore as a method table and thread its state.  The fresh-key loop has no bound in the code,
  so a call that does not return is the value \<open>None\<close>.
\<close>

section \<open>State and library\<close>

record 'k hd_lib =
  hd_Child :: "'k \<Rightarrow> u32 \<Rightarrow> 'k option"
  hd_Address :: "'k \<Rightarrow> Address option"
  hd_NewExtendedKey :: "bytes \<Rightarrow> bytes \<Rightarrow> bytes \<Rightarrow> bytes \<Rightarrow> u8 \<Rightarrow> u32 \<Rightarrow> bool \<Rightarrow> 'k"
  HDPrivateKeyID :: bytes
  key_Serialize :: "bytes \<Rightarrow> bytes"

definition LOOKAHEADWINDOW :: int where
  "LOOKAHEADWINDOW = 1000"

definition HardenedKeyStart :: u32 where
  "HardenedKeyStart = 0x80000000"

record 'k KeyManager =
  internalKey :: 'k
  externalKey :: 'k

definition Child_go :: "'k hd_lib \<Rightarrow> 'k \<Rightarrow> u32 \<Rightarrow> 'k go" where
  "Child_go kl k i = (case hd_Child kl k i of None \<Rightarrow> Err LibError | Some c \<Rightarrow> Ok c)"

section \<open>Derivation\<close>

definition Bip44Derivation :: "'k hd_lib \<Rightarrow> 'k \<Rightarrow> ('k \<times> 'k) go" where
  "Bip44Derivation kl masterPrivKey =
     go_bind (Child_go kl masterPrivKey (HardenedKeyStart + 44)) (\<lambda>fourtyFour.
     go_bind (Child_go kl fourtyFour (HardenedKeyStart + 145)) (\<lambda>bitcoin.
     go_bind (Child_go kl bitcoin (HardenedKeyStart + 0)) (\<lambda>account.
     go_bind (Child_go kl account 0) (\<lambda>external.
     go_bind (Child_go kl account 1) (\<lambda>internal.
     Ok (internal, external))))))"

definition generateChildKey :: "'k hd_lib \<Rightarrow> 'k KeyManager \<Rightarrow> KeyPurpose \<Rightarrow> u32 \<Rightarrow> 'k go" where
  "generateChildKey kl km purpose index =
     (if purpose = EXTERNAL then Child_go kl (externalKey km) index
      else if purpose = INTERNAL then Child_go kl (internalKey km) index
      else Err (ErrMsg ''Unknown key purpose''))"

section \<open>Keys\<close>

definition GetCurrentKey :: "'s datastore \<Rightarrow> 'k hd_lib \<Rightarrow> 'k KeyManager \<Rightarrow> KeyPurpose \<Rightarrow> 's \<Rightarrow> 'k go" where
  "GetCurrentKey ds kl km purpose s =
     (case Keys_GetUnused ds purpose s of
        (_, Some e) \<Rightarrow> Err e
      | ([], None) \<Rightarrow> Err (ErrMsg ''No unused keys in database'')
      | (i # _, None) \<Rightarrow> generateChildKey kl km purpose (word_of_int i))"

text \<open>The tail both key-creating operations share: file the key under its address.\<close>

definition put_key :: "'s datastore \<Rightarrow> 'k hd_lib \<Rightarrow> KeyPurpose \<Rightarrow> int \<Rightarrow> 'k \<Rightarrow> 's \<Rightarrow> 'k go \<times> 's" where
  "put_key ds kl purpose index childKey s =
     (case hd_Address kl childKey of
        None \<Rightarrow> (Err LibError, s)
      | Some addr \<Rightarrow>
          (case Keys_Put ds (ScriptAddress addr) \<lparr>kp_Purpose = purpose, kp_Index = index\<rparr> s of
             (Some e, s') \<Rightarrow> (Err e, s')
           | (None, s') \<Rightarrow> (Ok childKey, s')))"

text \<open>
  \<open>GetNewKey\<close>: when the derivation fails the loop body calls a method of the nil child key, which
  panics, so the loop never comes to a second round.
\<close>

definition GetNewKey :: "'s datastore \<Rightarrow> 'k hd_lib \<Rightarrow> 'k KeyManager \<Rightarrow> KeyPurpose \<Rightarrow> 's \<Rightarrow> 'k go \<times> 's" where
  "GetNewKey ds kl km purpose s =
     (let (lst, _, err) = Keys_GetLastKeyIndex ds purpose s;
          index = wrap64 ((if err \<noteq> None then 0 else lst) + 1)
      in case generateChildKey kl km purpose (word_of_int index) of
           Ok childKey \<Rightarrow> put_key ds kl purpose index childKey s
         | _ \<Rightarrow> (Panic, s))"

partial_function (option) fresh_index ::
    "'k hd_lib \<Rightarrow> 'k KeyManager \<Rightarrow> KeyPurpose \<Rightarrow> int \<Rightarrow> (int \<times> 'k) option" where
  "fresh_index kl km purpose index =
     (case generateChildKey kl km purpose (word_of_int index) of
        Ok childKey \<Rightarrow> Some (index, childKey)
      | _ \<Rightarrow> fresh_index kl km purpose (wrap64 (index + 1)))"

declare fresh_index.simps [code]

definition GetFreshKey ::
    "'s datastore \<Rightarrow> 'k hd_lib \<Rightarrow> 'k KeyManager \<Rightarrow> KeyPurpose \<Rightarrow> 's \<Rightarrow> ('k go \<times> 's) option" where
  "GetFreshKey ds kl km purpose s =
     (let (lst, _, err) = Keys_GetLastKeyIndex ds purpose s;
          index = (if err \<noteq> None then 0 else wrap64 (lst + 1))
      in case fresh_index kl km purpose index of
           None \<Rightarrow> None
         | Some (i, childKey) \<Rightarrow> Some (put_key ds kl purpose i childKey s))"

text \<open>An imported private key as an extended key.\<close>

definition imported_key :: "'k hd_lib \<Rightarrow> bytes \<Rightarrow> 'k" where
  "imported_key kl key =
     hd_NewExtendedKey kl (HDPrivateKeyID kl) (key_Serialize kl key) (replicate 32 0) [0, 0, 0, 0] 0 0 True"

definition GetKeys :: "'s datastore \<Rightarrow> 'k hd_lib \<Rightarrow> 'k KeyManager \<Rightarrow> 's \<Rightarrow> 'k list" where
  "GetKeys ds kl km s =
     (case Keys_GetAll ds s of
        (_, Some _) \<Rightarrow> []
      | (keyPaths, None) \<Rightarrow>
          (let ks = List.map_filter
                 (\<lambda>path. case generateChildKey kl km (kp_Purpose path) (word_of_int (kp_Index path)) of
                           Ok k \<Rightarrow> Some k | _ \<Rightarrow> None) keyPaths
           in case Keys_GetImported ds s of
                (_, Some _) \<Rightarrow> ks
              | (imported, None) \<Rightarrow> ks @ map (imported_key kl) imported))"

definition GetKeyForScript ::
    "'s datastore \<Rightarrow> 'k hd_lib \<Rightarrow> 'k KeyManager \<Rightarrow> bytes \<Rightarrow> 's \<Rightarrow> 'k go" where
  "GetKeyForScript ds kl km scriptAddress s =
     (case Keys_GetPathForKey ds scriptAddress s of
        (keyPath, None) \<Rightarrow> generateChildKey kl km (kp_Purpose keyPath) (word_of_int (kp_Index keyPath))
      | (_, Some _) \<Rightarrow>
          (case Keys_GetKey ds scriptAddress s of
             (_, Some e) \<Rightarrow> Err e
           | (None, None) \<Rightarrow> Panic
           | (Some key, None) \<Rightarrow> Ok (imported_key kl key)))"

section \<open>Look-ahead\<close>

fun fresh_keys ::
    "'s datastore \<Rightarrow> 'k hd_lib \<Rightarrow> 'k KeyManager \<Rightarrow> KeyPurpose \<Rightarrow> nat \<Rightarrow> 's \<Rightarrow> (unit go \<times> 's) option" where
  "fresh_keys ds kl km purpose 0 s = Some (Ok (), s)"
| "fresh_keys ds kl km purpose (Suc n) s =
     (case GetFreshKey ds kl km purpose s of
        None \<Rightarrow> None
      | Some (Ok _, s') \<Rightarrow> fresh_keys ds kl km purpose n s'
      | Some (Err e, s') \<Rightarrow> Some (Err e, s')
      | Some (Panic, s') \<Rightarrow> Some (Panic, s'))"

text \<open>\<open>order\<close> is the order in which Go iterates over the map of windows.\<close>

fun lookahead_loop ::
    "'s datastore \<Rightarrow> 'k hd_lib \<Rightarrow> 'k KeyManager \<Rightarrow> (KeyPurpose \<Rightarrow> int option) \<Rightarrow> KeyPurpose list \<Rightarrow> 's \<Rightarrow>
     (unit go \<times> 's) option" where
  "lookahead_loop ds kl km windows [] s = Some (Ok (), s)"
| "lookahead_loop ds kl km windows (purpose # rest) s =
     (case windows purpose of
        None \<Rightarrow> lookahead_loop ds kl km windows rest s
      | Some sz \<Rightarrow>
          if sz < LOOKAHEADWINDOW
          then (case fresh_keys ds kl km purpose (nat (LOOKAHEADWINDOW - sz)) s of
                  Some (Ok _, s') \<Rightarrow> lookahead_loop ds kl km windows rest s'
                | r \<Rightarrow> r)
          else lookahead_loop ds kl km windows rest s)"

definition lookahead ::
    "'s datastore \<Rightarrow> 'k hd_lib \<Rightarrow> 'k KeyManager \<Rightarrow> KeyPurpose list \<Rightarrow> 's \<Rightarrow> (unit go \<times> 's) option" where
  "lookahead ds kl km order s = lookahead_loop ds kl km (Keys_GetLookaheadWindows ds s) order s"

definition MarkKeyAsUsed ::
    "'s datastore \<Rightarrow> 'k hd_lib \<Rightarrow> 'k KeyManager \<Rightarrow> KeyPurpose list \<Rightarrow> bytes \<Rightarrow> 's \<Rightarrow> (unit go \<times> 's) option" where
  "MarkKeyAsUsed ds kl km order scriptAddress s =
     (case Keys_MarkKeyAsUsed ds scriptAddress s of
        (Some e, s') \<Rightarrow> Some (Err e, s')
      | (None, s') \<Rightarrow> lookahead ds kl km order s')"

definition NewKeyManager ::
    "'s datastore \<Rightarrow> 'k hd_lib \<Rightarrow> KeyPurpose list \<Rightarrow> 'k \<Rightarrow> 's \<Rightarrow> ('k KeyManager go \<times> 's) option" where
  "NewKeyManager ds kl order masterPrivKey s =
     (case Bip44Derivation kl masterPrivKey of
        Err e \<Rightarrow> Some (Err e, s)
      | Panic \<Rightarrow> Some (Panic, s)
      | Ok (internal, external) \<Rightarrow>
          (let km = \<lparr>internalKey = internal, externalKey = external\<rparr>
           in case lookahead ds kl km order s of
                None \<Rightarrow> None
              | Some (Ok _, s') \<Rightarrow> Some (Ok km, s')
              | Some (Err e, s') \<Rightarrow> Some (Err e, s')
              | Some (Panic, s') \<Rightarrow> Some (Panic, s')))"

section \<open>The key table\<close>

text \<open>The script address a derivation path leads to.\<close>

definition derived_addr :: "'k hd_lib \<Rightarrow> 'k KeyManager \<Rightarrow> KeyPurpose \<Rightarrow> int \<Rightarrow> bytes option" where
  "derived_addr kl km p i =
     (case generateChildKey kl km p (word_of_int i) of
        Ok k \<Rightarrow> map_option ScriptAddress (hd_Address kl k)
      | _ \<Rightarrow> None)"

abbreviation row_purpose :: "krow \<Rightarrow> KeyPurpose" where
  "row_purpose r \<equiv> kp_Purpose (kr_path r)"

abbreviation row_index :: "krow \<Rightarrow> int" where
  "row_index r \<equiv> kp_Index (kr_path r)"

definition hd_purpose :: "KeyPurpose \<Rightarrow> bool" where
  "hd_purpose p \<longleftrightarrow> p = EXTERNAL \<or> p = INTERNAL"

text \<open>The first \<open>N\<close> indices of both chains derive and have addresses of their own.\<close>

definition key_supply :: "'k hd_lib \<Rightarrow> 'k KeyManager \<Rightarrow> int \<Rightarrow> bool" where
  "key_supply kl km N \<longleftrightarrow> N \<le> 2 ^ 32 \<and>
     (\<forall>p i. hd_purpose p \<and> 0 \<le> i \<and> i < N \<longrightarrow> derived_addr kl km p i \<noteq> None) \<and>
     (\<forall>p i q j. hd_purpose p \<and> hd_purpose q \<and> 0 \<le> i \<and> i < N \<and> 0 \<le> j \<and> j < N \<and>
        derived_addr kl km p i = derived_addr kl km q j \<longrightarrow> p = q \<and> i = j)"

text \<open>The index \<open>GetFreshKey\<close> tries first.\<close>

definition next_index :: "KeyPurpose \<Rightarrow> krow list \<Rightarrow> int" where
  "next_index p ks =
     (case rev (filter (\<lambda>r. row_purpose r = p) ks) of [] \<Rightarrow> 0 | r # _ \<Rightarrow> row_index r + 1)"

text \<open>
  The invariant of the key table: a derived key is filed under its own address, the indices of
  a chain lie below the next index, and no imported key has an address of the supply.
\<close>

definition row_ok :: "'k hd_lib \<Rightarrow> 'k KeyManager \<Rightarrow> int \<Rightarrow> (KeyPurpose \<Rightarrow> int) \<Rightarrow> krow \<Rightarrow> bool" where
  "row_ok kl km N nxt r \<longleftrightarrow>
     (if hd_purpose (row_purpose r)
      then 0 \<le> row_index r \<and> row_index r < N \<and> row_index r < nxt (row_purpose r) \<and>
           derived_addr kl km (row_purpose r) (row_index r) = Some (kr_script r)
      else \<forall>p i. hd_purpose p \<and> 0 \<le> i \<and> i < N \<longrightarrow> derived_addr kl km p i \<noteq> Some (kr_script r))"

definition keys_ok :: "'k hd_lib \<Rightarrow> 'k KeyManager \<Rightarrow> int \<Rightarrow> krow list \<Rightarrow> bool" where
  "keys_ok kl km N ks \<longleftrightarrow> (\<forall>r \<in> set ks. row_ok kl km N (\<lambda>p. next_index p ks) r)"

lemma keys_ok_Nil [simp]: "keys_ok kl km N []"
  by (simp add: keys_ok_def)

lemma next_index_snoc [simp]:
  "next_index p (ks @ [r]) = (if row_purpose r = p then row_index r + 1 else next_index p ks)"
  by (simp add: next_index_def)

lemma window_snoc [simp]:
  "window p (ks @ [r]) =
     (if row_purpose r = p then if kr_used r then 0 else Suc (window p ks) else window p ks)"
  by (simp add: window_def)

lemma next_index_nonneg:
  assumes "keys_ok kl km N ks" "hd_purpose p"
  shows "0 \<le> next_index p ks"
proof (cases "rev (filter (\<lambda>r. row_purpose r = p) ks)")
  case (Cons r rs)
  then have "r \<in> set (rev (filter (\<lambda>r. row_purpose r = p) ks))" by simp
  then have "r \<in> set ks" "row_purpose r = p" by auto
  with assms have "0 \<le> row_index r" by (auto simp: keys_ok_def row_ok_def)
  with Cons show ?thesis by (simp add: next_index_def)
qed (simp add: next_index_def)

lemma key_supply_inj:
  "key_supply kl km N \<Longrightarrow> hd_purpose p \<Longrightarrow> hd_purpose q \<Longrightarrow> 0 \<le> i \<Longrightarrow> i < N \<Longrightarrow> 0 \<le> j \<Longrightarrow> j < N \<Longrightarrow>
   derived_addr kl km p i = derived_addr kl km q j \<Longrightarrow> p = q \<and> i = j"
  by (simp only: key_supply_def)

lemma fresh_addr_new:
  assumes "key_supply kl km N" "keys_ok kl km N ks" "hd_purpose p"
    "next_index p ks < N" "derived_addr kl km p (next_index p ks) = Some a"
  shows "a \<notin> kr_script ` set ks"
proof
  assume "a \<in> kr_script ` set ks"
  then obtain r where r: "r \<in> set ks" "kr_script r = a" by auto
  then have ok: "row_ok kl km N (\<lambda>p. next_index p ks) r" using assms(2) by (simp add: keys_ok_def)
  note nn = next_index_nonneg [OF assms(2,3)]
  show False
  proof (cases "hd_purpose (row_purpose r)")
    case True
    then have "row_purpose r = p \<and> row_index r = next_index p ks"
      using key_supply_inj [OF assms(1) True assms(3), of "row_index r" "next_index p ks"] ok assms(4,5) nn r by (simp add: row_ok_def)
    with ok True show False by (simp add: row_ok_def)
  next
    case False
    with ok r assms nn show False by (auto simp: row_ok_def)
  qed
qed

lemma keys_ok_snoc:
  assumes "keys_ok kl km N ks" "hd_purpose p" "next_index p ks < N"
    "derived_addr kl km p (next_index p ks) = Some a"
  shows "keys_ok kl km N (ks @ [\<lparr>kr_script = a, kr_path = \<lparr>kp_Purpose = p, kp_Index = next_index p ks\<rparr>,
    kr_used = False, kr_key = None\<rparr>])"
proof -
  have "row_ok kl km N (\<lambda>q. if p = q then next_index p ks + 1 else next_index q ks) r" if "r \<in> set ks" for r
    using assms(1) that by (auto simp: keys_ok_def row_ok_def split: if_splits)
  moreover have "row_ok kl km N (\<lambda>q. if p = q then next_index p ks + 1 else next_index q ks)
      \<lparr>kr_script = a, kr_path = \<lparr>kp_Purpose = p, kp_Index = next_index p ks\<rparr>, kr_used = False, kr_key = None\<rparr>"
    using assms next_index_nonneg [OF assms(1,2)] by (simp add: row_ok_def)
  ultimately show ?thesis by (simp add: keys_ok_def cong: if_cong)
qed

lemma fresh_index_hit:
  "generateChildKey kl km p (word_of_int i) = Ok k \<Longrightarrow> fresh_index kl km p i = Some (i, k)"
  by (subst fresh_index.simps) simp

text \<open>The rows \<open>fresh_keys\<close> adds.\<close>

definition fresh_ext :: "KeyPurpose \<Rightarrow> nat \<Rightarrow> krow list \<Rightarrow> krow list \<Rightarrow> bool" where
  "fresh_ext p n ks ks' \<longleftrightarrow>
     (\<exists>new. ks' = ks @ new \<and> length new = n) \<and> window p ks' = window p ks + n \<and>
     next_index p ks' = next_index p ks + int n \<and>
     (\<forall>q. q \<noteq> p \<longrightarrow> window q ks' = window q ks \<and> next_index q ks' = next_index q ks)"

lemma fresh_ext_0 [simp]: "fresh_ext p 0 ks ks"
  by (simp add: fresh_ext_def)

lemma fresh_ext_trans: "fresh_ext p m ks ks' \<Longrightarrow> fresh_ext p n ks' ks'' \<Longrightarrow> fresh_ext p (m + n) ks ks''"
  by (auto simp: fresh_ext_def)

lemma fresh_ext_one:
  "fresh_ext p 1 ks (ks @ [\<lparr>kr_script = a, kr_path = \<lparr>kp_Purpose = p, kp_Index = next_index p ks\<rparr>,
     kr_used = False, kr_key = None\<rparr>])"
  by (simp add: fresh_ext_def)

section \<open>Look-ahead over any datastore\<close>

lemma row_derived:
  assumes "keys_ok kl km N ks" "r \<in> set ks" "row_purpose r = p" "hd_purpose p"
  shows "\<exists>k addr. generateChildKey kl km p (word_of_int (row_index r)) = Ok k \<and> hd_Address kl k = Some addr \<and> ScriptAddress addr = kr_script r"
proof -
  have "derived_addr kl km p (row_index r) = Some (kr_script r)" using assms by (auto simp: keys_ok_def row_ok_def)
  then show ?thesis by (auto simp: derived_addr_def split: go.splits)
qed

lemma mark_used_simps [simp]: "kr_path (mark_used sa r) = kr_path r" "kr_script (mark_used sa r) = kr_script r"
  by (simp_all add: mark_used_def)

lemma next_index_mark_used: "next_index p (map (mark_used sa) ks) = next_index p ks"
  by (simp add: next_index_def filter_map comp_def rev_map split: list.split)

lemma keys_ok_mark_used: "keys_ok kl km N (map (mark_used sa) ks) \<longleftrightarrow> keys_ok kl km N ks"
  by (simp add: keys_ok_def row_ok_def next_index_mark_used)

context datastore_laws
begin

lemma put_key_new:
  assumes "inv s" "hd_Address kl k = Some addr" "ScriptAddress addr \<notin> kr_script ` set (v_keys (view s))"
  shows "\<exists>s'. put_key ds kl p i k s = (Ok k, s') \<and> inv s' \<and>
    view s' = (view s)\<lparr>v_keys := v_keys (view s) @ [\<lparr>kr_script = ScriptAddress addr,
      kr_path = \<lparr>kp_Purpose = p, kp_Index = i\<rparr>, kr_used = False, kr_key = None\<rparr>]\<rparr>"
  using Keys_Put [OF assms(1,3), of "\<lparr>kp_Purpose = p, kp_Index = i\<rparr>"] assms(2)
  by (auto simp: put_key_def)

lemma GetFreshKey_ok:
  assumes "inv s" "key_supply kl km N" "keys_ok kl km N (v_keys (view s))" "hd_purpose p"
    "next_index p (v_keys (view s)) < N"
  shows "\<exists>k a s'. GetFreshKey ds kl km p s = Some (Ok k, s') \<and> inv s' \<and>
    derived_addr kl km p (next_index p (v_keys (view s))) = Some a \<and>
    view s' = (view s)\<lparr>v_keys := v_keys (view s) @ [\<lparr>kr_script = a,
      kr_path = \<lparr>kp_Purpose = p, kp_Index = next_index p (v_keys (view s))\<rparr>,
      kr_used = False, kr_key = None\<rparr>]\<rparr>"
proof -
  let ?n = "next_index p (v_keys (view s))"
  note nn = next_index_nonneg [OF assms(3,4)]
  obtain a where a: "derived_addr kl km p ?n = Some a"
    using assms nn by (fastforce simp: key_supply_def)
  then obtain k addr where k: "generateChildKey kl km p (word_of_int ?n) = Ok k"
    "hd_Address kl k = Some addr" "a = ScriptAddress addr"
    by (auto simp: derived_addr_def split: go.splits)
  have "wrap64 ?n = ?n"
    using nn assms(2,5) by (intro wrap64_id) (auto simp: key_supply_def)
  then have fresh: "GetFreshKey ds kl km p s = Some (put_key ds kl p ?n k s)"
    using fresh_index_hit [OF k(1)]
    by (simp add: GetFreshKey_def Keys_GetLastKeyIndex [OF assms(1)] next_index_def split: list.split)
      (auto split: list.splits)
  moreover have "a \<notin> kr_script ` set (v_keys (view s))"
    by (rule fresh_addr_new [OF assms(2-5) a])
  ultimately show ?thesis
    using put_key_new [OF assms(1) k(2), of p ?n] a k(3) by auto
qed

lemma fresh_keys_ok:
  assumes "inv s" "key_supply kl km N" "keys_ok kl km N (v_keys (view s))" "hd_purpose p"
    "next_index p (v_keys (view s)) + int n \<le> N"
  shows "\<exists>s' ks. fresh_keys ds kl km p n s = Some (Ok (), s') \<and> inv s' \<and>
    view s' = (view s)\<lparr>v_keys := ks\<rparr> \<and> keys_ok kl km N ks \<and> fresh_ext p n (v_keys (view s)) ks"
  using assms(1,3,5)
proof (induction n arbitrary: s)
  case 0
  then show ?case by force
next
  case (Suc n)
  let ?ks = "v_keys (view s)"
  obtain k a s1 where s1: "GetFreshKey ds kl km p s = Some (Ok k, s1)" "inv s1"
    "derived_addr kl km p (next_index p ?ks) = Some a"
    "view s1 = (view s)\<lparr>v_keys := ?ks @ [\<lparr>kr_script = a,
      kr_path = \<lparr>kp_Purpose = p, kp_Index = next_index p ?ks\<rparr>, kr_used = False, kr_key = None\<rparr>]\<rparr>"
    using GetFreshKey_ok [OF Suc.prems(1) assms(2) Suc.prems(2) assms(4)] Suc.prems(3) by auto
  have ok: "keys_ok kl km N (v_keys (view s1))"
    using keys_ok_snoc [OF Suc.prems(2) assms(4) _ s1(3)] Suc.prems(3) s1(4) by simp
  obtain s' ks where s': "fresh_keys ds kl km p n s1 = Some (Ok (), s')" "inv s'"
    "view s' = (view s1)\<lparr>v_keys := ks\<rparr>" "keys_ok kl km N ks" "fresh_ext p n (v_keys (view s1)) ks"
    using Suc.IH [OF s1(2) ok] Suc.prems(3) s1(4) by auto
  have "fresh_ext p (1 + n) ?ks ks"
    using fresh_ext_trans [OF fresh_ext_one] s'(5) s1(4) by simp
  with s1 s' show ?case by auto
qed

lemma lookahead_step:
  assumes "windows p = Some (int w)" "fresh_keys ds kl km p (1000 - w) s = Some (Ok (), s1)"
  shows "lookahead_loop ds kl km windows (p # order) s = lookahead_loop ds kl km windows order s1"
proof (cases "w < 1000")
  case True
  then have "nat (LOOKAHEADWINDOW - int w) = 1000 - w" by (simp add: LOOKAHEADWINDOW_def)
  then show ?thesis using True assms by (simp add: LOOKAHEADWINDOW_def)
next
  case False
  then have "s1 = s" using assms(2) by simp
  with False assms(1) show ?thesis by (simp add: LOOKAHEADWINDOW_def)
qed

lemma lookahead_loop_ok:
  assumes "key_supply kl km N"
  shows "inv s \<Longrightarrow> keys_ok kl km N (v_keys (view s)) \<Longrightarrow> distinct order \<Longrightarrow>
    (\<forall>p \<in> set order. hd_purpose p \<and> windows p = Some (int (window p (v_keys (view s)))) \<and>
       next_index p (v_keys (view s)) + LOOKAHEADWINDOW \<le> N) \<Longrightarrow>
    \<exists>s' ks. lookahead_loop ds kl km windows order s = Some (Ok (), s') \<and> inv s' \<and>
      view s' = (view s)\<lparr>v_keys := v_keys (view s) @ ks\<rparr> \<and> keys_ok kl km N (v_keys (view s')) \<and>
      (\<forall>p. window p (v_keys (view s')) =
        (if p \<in> set order then max 1000 (window p (v_keys (view s))) else window p (v_keys (view s)))) \<and>
      (\<forall>p. next_index p (v_keys (view s')) \<le> next_index p (v_keys (view s)) + (if p \<in> set order then 1000 else 0))"
proof (induction order arbitrary: s)
  case Nil
  then show ?case by (auto intro!: exI [of _ "[]"])
next
  case (Cons p order)
  let ?w = "window p (v_keys (view s))"
  from Cons.prems have p: "hd_purpose p" "windows p = Some (int ?w)"
    "next_index p (v_keys (view s)) + 1000 \<le> N" by (simp_all add: LOOKAHEADWINDOW_def)
  then have "next_index p (v_keys (view s)) + int (1000 - ?w) \<le> N" by simp
  from fresh_keys_ok [OF Cons.prems(1) assms Cons.prems(2) p(1) this]
  obtain s1 ks where s1: "fresh_keys ds kl km p (1000 - ?w) s = Some (Ok (), s1)" "inv s1"
    "view s1 = (view s)\<lparr>v_keys := ks\<rparr>" "keys_ok kl km N ks" "fresh_ext p (1000 - ?w) (v_keys (view s)) ks"
    by blast
  note lookahead_step [of windows p ?w, OF p(2) s1(1), of order]
  moreover have "\<forall>q \<in> set order. hd_purpose q \<and> windows q = Some (int (window q (v_keys (view s1)))) \<and>
      next_index q (v_keys (view s1)) + LOOKAHEADWINDOW \<le> N"
    using Cons.prems(3,4) s1(3,5) by (auto simp: fresh_ext_def)
  then obtain s' ks' where s': "lookahead_loop ds kl km windows order s1 = Some (Ok (), s')" "inv s'"
      "view s' = (view s1)\<lparr>v_keys := v_keys (view s1) @ ks'\<rparr>" "keys_ok kl km N (v_keys (view s'))"
      "\<forall>q. window q (v_keys (view s')) =
        (if q \<in> set order then max 1000 (window q (v_keys (view s1))) else window q (v_keys (view s1)))"
      "\<forall>q. next_index q (v_keys (view s')) \<le> next_index q (v_keys (view s1)) + (if q \<in> set order then 1000 else 0)"
    using Cons.IH [OF s1(2)] s1(3,4) Cons.prems(3) by auto
  have one: "window q (v_keys (view s1)) = (if q = p then max 1000 ?w else window q (v_keys (view s)))"
    "next_index q (v_keys (view s1)) \<le> next_index q (v_keys (view s)) + (if q = p then 1000 else 0)" for q
    using s1(3,5) by (auto simp: fresh_ext_def)
  have "window q (v_keys (view s')) =
      (if q \<in> set (p # order) then max 1000 (window q (v_keys (view s))) else window q (v_keys (view s)))" for q
    using s'(5) one(1) Cons.prems(3) by auto
  moreover have "next_index q (v_keys (view s')) \<le> next_index q (v_keys (view s)) + (if q \<in> set (p # order) then 1000 else 0)" for q
    using s'(6) [rule_format, of q] one(2) [of q] Cons.prems(3) by (auto split: if_splits)
  moreover have "\<exists>new. view s' = (view s)\<lparr>v_keys := v_keys (view s) @ new\<rparr>"
    using s'(3) s1(3,5) by (auto simp: fresh_ext_def)
  ultimately show ?case using s'(1,2,4) by auto
qed

lemma lookahead_ok:
  assumes "key_supply kl km N" "inv s" "keys_ok kl km N (v_keys (view s))"
    "distinct order" "set order = {EXTERNAL, INTERNAL}"
    "\<And>p. hd_purpose p \<Longrightarrow> next_index p (v_keys (view s)) + LOOKAHEADWINDOW \<le> N"
  shows "\<exists>s' ks. lookahead ds kl km order s = Some (Ok (), s') \<and> inv s' \<and>
    view s' = (view s)\<lparr>v_keys := v_keys (view s) @ ks\<rparr> \<and> keys_ok kl km N (v_keys (view s')) \<and>
    (\<forall>p. hd_purpose p \<longrightarrow> window p (v_keys (view s')) = max 1000 (window p (v_keys (view s))) \<and>
       next_index p (v_keys (view s')) \<le> next_index p (v_keys (view s)) + 1000)"
proof -
  have "\<forall>p \<in> set order. hd_purpose p \<and>
      Keys_GetLookaheadWindows ds s p = Some (int (window p (v_keys (view s)))) \<and>
      next_index p (v_keys (view s)) + LOOKAHEADWINDOW \<le> N"
    using assms(5,6) by (auto simp: Keys_GetLookaheadWindows [OF assms(2)] hd_purpose_def)
  from lookahead_loop_ok [OF assms(1-4) this] obtain s' ks where
    "lookahead ds kl km order s = Some (Ok (), s')" "inv s'" "view s' = (view s)\<lparr>v_keys := v_keys (view s) @ ks\<rparr>"
    "keys_ok kl km N (v_keys (view s'))"
    and w: "\<And>p. window p (v_keys (view s')) =
      (if p \<in> set order then max 1000 (window p (v_keys (view s))) else window p (v_keys (view s)))"
    and n: "\<And>p. next_index p (v_keys (view s')) \<le> next_index p (v_keys (view s)) + (if p \<in> set order then 1000 else 0)"
    by (auto simp: lookahead_def)
  moreover have "window p (v_keys (view s')) = max 1000 (window p (v_keys (view s))) \<and>
      next_index p (v_keys (view s')) \<le> next_index p (v_keys (view s)) + 1000" if "hd_purpose p" for p
    using w [of p] n [of p] that assms(5) by (auto simp: hd_purpose_def)
  ultimately show ?thesis by blast
qed

lemma MarkKeyAsUsed_ok:
  assumes "key_supply kl km N" "inv s" "keys_ok kl km N (v_keys (view s))"
    "distinct order" "set order = {EXTERNAL, INTERNAL}"
    "\<And>p. hd_purpose p \<Longrightarrow> next_index p (v_keys (view s)) + LOOKAHEADWINDOW \<le> N"
  shows "\<exists>s' ks. MarkKeyAsUsed ds kl km order sa s = Some (Ok (), s') \<and> inv s' \<and>
    view s' = (view s)\<lparr>v_keys := map (mark_used sa) (v_keys (view s)) @ ks\<rparr> \<and>
    keys_ok kl km N (v_keys (view s')) \<and> (\<forall>p. hd_purpose p \<longrightarrow> 1000 \<le> window p (v_keys (view s')) \<and>
      next_index p (v_keys (view s')) \<le> next_index p (v_keys (view s)) + 1000)"
proof -
  have ok: "keys_ok kl km N (map (mark_used sa) (v_keys (view s)))" using assms(3) by (simp add: keys_ok_mark_used)
  obtain s1 where s1: "Keys_MarkKeyAsUsed ds sa s = (None, s1)" "inv s1"
    "view s1 = (view s)\<lparr>v_keys := map (mark_used sa) (v_keys (view s))\<rparr>"
    using Keys_MarkKeyAsUsed [OF assms(2)] by blast
  from lookahead_ok [OF assms(1) s1(2) _ assms(4,5)] assms(6) ok s1(3)
  obtain s' ks where "lookahead ds kl km order s1 = Some (Ok (), s')" "inv s'"
    "view s' = (view s1)\<lparr>v_keys := v_keys (view s1) @ ks\<rparr>" "keys_ok kl km N (v_keys (view s'))"
    "\<forall>p. hd_purpose p \<longrightarrow> window p (v_keys (view s')) = max 1000 (window p (v_keys (view s1))) \<and>
      next_index p (v_keys (view s')) \<le> next_index p (v_keys (view s1)) + 1000"
    by (auto simp: next_index_mark_used)
  with s1 show ?thesis by (auto simp: MarkKeyAsUsed_def next_index_mark_used)
qed

text \<open>The current key is the oldest unused one, and it is filed under its address.\<close>

lemma GetCurrentKey_ok:
  assumes "inv s" "key_supply kl km N" "keys_ok kl km N (v_keys (view s))" "hd_purpose p"
    "0 < window p (v_keys (view s))"
  shows "\<exists>r k addr. r \<in> set (v_keys (view s)) \<and> row_purpose r = p \<and> \<not> kr_used r \<and>
    GetCurrentKey ds kl km p s = Ok k \<and> hd_Address kl k = Some addr \<and> ScriptAddress addr = kr_script r"
proof -
  let ?unused = "filter (\<lambda>r. row_purpose r = p \<and> \<not> kr_used r) (v_keys (view s))"
  have "rev (filter (\<lambda>r. row_purpose r = p) (v_keys (view s))) \<noteq> [] \<and>
      \<not> kr_used (hd (rev (filter (\<lambda>r. row_purpose r = p) (v_keys (view s)))))"
    using assms(5) by (cases "rev (filter (\<lambda>r. row_purpose r = p) (v_keys (view s)))")
      (auto simp: window_def split: if_splits)
  then have "hd (rev (filter (\<lambda>r. row_purpose r = p) (v_keys (view s)))) \<in> set ?unused"
    using hd_in_set by fastforce
  then obtain r rs where r: "?unused = r # rs" by (cases ?unused) auto
  then have "r \<in> set ?unused" by simp
  then have mem: "r \<in> set (v_keys (view s))" "row_purpose r = p" "\<not> kr_used r" by auto
  then obtain k addr where "generateChildKey kl km p (word_of_int (row_index r)) = Ok k"
    "hd_Address kl k = Some addr" "ScriptAddress addr = kr_script r"
    using row_derived [OF assms(3)] assms(4) by blast
  with mem r show ?thesis by (auto simp: GetCurrentKey_def Keys_GetUnused [OF assms(1)])
qed

lemma GetKeyForScript_ok:
  assumes "inv s" "keys_ok kl km N (v_keys (view s))" "r \<in> set (v_keys (view s))" "hd_purpose (row_purpose r)"
  shows "\<exists>k addr. GetKeyForScript ds kl km (kr_script r) s = Ok k \<and> hd_Address kl k = Some addr \<and>
    ScriptAddress addr = kr_script r"
proof -
  have "row_purpose r \<noteq> -1" using assms(4) by (auto simp: hd_purpose_def)
  then have "Keys_GetPathForKey ds (kr_script r) s = (kr_path r, None)"
    using Keys_GetPathForKey [OF assms(1,3) refl] by blast
  moreover have "derived_addr kl km (row_purpose r) (row_index r) = Some (kr_script r)"
    using assms(2-4) by (auto simp: keys_ok_def row_ok_def)
  ultimately show ?thesis
    by (auto simp: GetKeyForScript_def derived_addr_def split: go.splits)
qed

end

section \<open>Properties over the SQLite store\<close>

text \<open>A key library for examples: a key is its path, its address spells the last two steps.\<close>

definition ex_hd :: "u32 list hd_lib" where
  "ex_hd = \<lparr>hd_Child = (\<lambda>k i. Some (k @ [i])),
     hd_Address = (\<lambda>k. Some \<lparr>ScriptAddress = ucast (k ! 3) # replicate (unat (k ! 4)) 0, EncodeAddress = []\<rparr>),
     hd_NewExtendedKey = (\<lambda>_ _ _ _ _ _ _. []), HDPrivateKeyID = [], key_Serialize = id\<rparr>"

definition ex_km :: "u32 list KeyManager" where
  "ex_km = \<lparr>internalKey = [0x8000002C, 0x80000091, 0x80000000, 1],
     externalKey = [0x8000002C, 0x80000091, 0x80000000, 0]\<rparr>"

lemma ex_Bip44: "Bip44Derivation ex_hd [] = Ok (internalKey ex_km, externalKey ex_km)"
  by (simp add: Bip44Derivation_def Child_go_def ex_hd_def ex_km_def HardenedKeyStart_def)

lemma ex_derived:
  "hd_purpose p \<Longrightarrow> derived_addr ex_hd ex_km p i = Some (word_of_int p # replicate (unat (word_of_int i :: u32)) 0)"
  by (auto simp: hd_purpose_def derived_addr_def generateChildKey_def Child_go_def ex_hd_def ex_km_def)

lemma ex_supply: "key_supply ex_hd ex_km (2 ^ 32)"
proof -
  have eq: "unat (word_of_int i :: u32) = nat i" if "0 \<le> i" "i < 2 ^ 32" for i :: int
    using that by (simp add: unat_eq_nat_uint unsigned_of_int take_bit_int_eq_self)
  have inj: "p = q \<and> i = j"
    if "hd_purpose p" "hd_purpose q" "0 \<le> i" "i < 2 ^ 32" "0 \<le> j" "j < 2 ^ 32"
      "derived_addr ex_hd ex_km p i = derived_addr ex_hd ex_km q j" for p q i j
    using that arg_cong [OF that(7), of "map_option length"] arg_cong [OF that(7), of "map_option hd"]
    by (simp add: ex_derived eq) (auto simp: hd_purpose_def)
  show ?thesis
    unfolding key_supply_def
  proof (intro conjI allI impI)
    show "derived_addr ex_hd ex_km p i \<noteq> None" if "hd_purpose p \<and> 0 \<le> i \<and> i < 2 ^ 32" for p i
      using that by (simp add: ex_derived)
  qed (use inj in blast)+
qed

lemma sql_window: "sql_inv lib db \<Longrightarrow> hd_purpose p \<Longrightarrow>
    KeysDB_GetLookaheadWindows db p = Some (int (window p (v_keys (sql_view lib db))))"
  by (auto simp: sql_Keys_GetLookaheadWindows hd_purpose_def)

text \<open>Property C9. Marking a key as used tops the look-ahead up: when the table is well formed and the
  key chains still have keys, \<open>MarkKeyAsUsed\<close> returns without error whatever the order in which Go
  iterates over the windows, the key is marked, no filed key is lost, the table stays well formed, and
  both chains end with at least a thousand unused keys.\<close>

theorem MarkKeyAsUsed_window:
  assumes "sql_inv lib db" "key_supply kl km N" "keys_ok kl km N (v_keys (sql_view lib db))"
    and "order = [EXTERNAL, INTERNAL] \<or> order = [INTERNAL, EXTERNAL]"
    and "\<forall>p. hd_purpose p \<longrightarrow> next_index p (v_keys (sql_view lib db)) + 1000 \<le> N"
  shows "\<exists>db' new. MarkKeyAsUsed (SQLiteDatastore lib) kl km order sa db = Some (Ok (), db') \<and>
    sql_inv lib db' \<and> keys_ok kl km N (v_keys (sql_view lib db')) \<and>
    sql_view lib db' = (sql_view lib db)\<lparr>v_keys := map (mark_used sa) (v_keys (sql_view lib db)) @ new\<rparr> \<and>
    (\<forall>p. hd_purpose p \<longrightarrow> (\<exists>n. KeysDB_GetLookaheadWindows db' p = Some n \<and> 1000 \<le> n))"
proof -
  have order: "distinct order" "set order = {EXTERNAL, INTERNAL}" using assms(4) by auto
  obtain db' new where db': "MarkKeyAsUsed (SQLiteDatastore lib) kl km order sa db = Some (Ok (), db')"
    "sql_inv lib db'" "sql_view lib db' = (sql_view lib db)\<lparr>v_keys := map (mark_used sa) (v_keys (sql_view lib db)) @ new\<rparr>"
    "keys_ok kl km N (v_keys (sql_view lib db'))"
    "\<forall>p. hd_purpose p \<longrightarrow> 1000 \<le> window p (v_keys (sql_view lib db'))"
    using sqlite.MarkKeyAsUsed_ok [OF assms(2,1,3) order, of sa] assms(5) unfolding LOOKAHEADWINDOW_def by blast
  then have "\<forall>p. hd_purpose p \<longrightarrow> (\<exists>n. KeysDB_GetLookaheadWindows db' p = Some n \<and> 1000 \<le> n)"
    using sql_window [OF db'(2)] by fastforce
  with db' show ?thesis by blast
qed

lemma sql_view_init [simp]: "v_keys (sql_view lib (initDatabaseTables r)) = []"
  by (simp add: sql_view_def initDatabaseTables_def)

lemma next_index_Nil [simp]: "next_index p [] = 0"
  by (simp add: next_index_def)

theorem MarkKeyAsUsed_window_witness:
  "\<exists>db' new. MarkKeyAsUsed (SQLiteDatastore ex_lib) ex_hd ex_km [1, 0] [3] (initDatabaseTables (\<lambda>n. 7)) =
     Some (Ok (), db') \<and>
    sql_inv ex_lib db' \<and> keys_ok ex_hd ex_km (2 ^ 32) (v_keys (sql_view ex_lib db')) \<and>
    sql_view ex_lib db' = (sql_view ex_lib (initDatabaseTables (\<lambda>n. 7)))\<lparr>v_keys :=
      map (mark_used [3]) (v_keys (sql_view ex_lib (initDatabaseTables (\<lambda>n. 7)))) @ new\<rparr> \<and>
    (\<forall>p. hd_purpose p \<longrightarrow> (\<exists>n. KeysDB_GetLookaheadWindows db' p = Some n \<and> 1000 \<le> n))"
  by (rule MarkKeyAsUsed_window [OF sql_inv_init [OF ex_lib_ok] ex_supply]) simp_all

text \<open>Opening a wallet on a new database: when the account derives, \<open>NewKeyManager\<close> fills both
  windows and the key manager hands out, for both purposes, an unused key that is filed under its
  own address.\<close>

theorem NewKeyManager_ready:
  assumes "wire_ok lib" "Bip44Derivation kl master = Ok (internal, external)"
    and "km = \<lparr>internalKey = internal, externalKey = external\<rparr>" "key_supply kl km N" "1000 \<le> N"
    and "order = [EXTERNAL, INTERNAL] \<or> order = [INTERNAL, EXTERNAL]"
  shows "\<exists>db. NewKeyManager (SQLiteDatastore lib) kl order master (initDatabaseTables r) = Some (Ok km, db) \<and>
    sql_inv lib db \<and> keys_ok kl km N (v_keys (sql_view lib db)) \<and>
    (\<forall>p. hd_purpose p \<longrightarrow> KeysDB_GetLookaheadWindows db p = Some 1000 \<and>
      (\<exists>k addr row. GetCurrentKey (SQLiteDatastore lib) kl km p db = Ok k \<and> hd_Address kl k = Some addr \<and>
        row \<in> set (v_keys (sql_view lib db)) \<and> row_purpose row = p \<and> \<not> kr_used row \<and>
        kr_script row = ScriptAddress addr))"
proof -
  note inv = sql_inv_init [OF assms(1), of r]
  have order: "distinct order" "set order = {EXTERNAL, INTERNAL}" using assms(6) by auto
  have w0: "window p [] = 0" for p by (simp add: window_def)
  obtain db where db: "lookahead (SQLiteDatastore lib) kl km order (initDatabaseTables r) = Some (Ok (), db)"
    "sql_inv lib db" "keys_ok kl km N (v_keys (sql_view lib db))"
    "\<forall>p. hd_purpose p \<longrightarrow> window p (v_keys (sql_view lib db)) = 1000"
    using sqlite.lookahead_ok [OF assms(4) inv _ order] assms(5)
    by (auto simp: LOOKAHEADWINDOW_def w0)
  have "NewKeyManager (SQLiteDatastore lib) kl order master (initDatabaseTables r) = Some (Ok km, db)"
    using db(1) assms(3) by (simp add: NewKeyManager_def assms(2))
  moreover have "KeysDB_GetLookaheadWindows db p = Some 1000 \<and>
      (\<exists>k addr row. GetCurrentKey (SQLiteDatastore lib) kl km p db = Ok k \<and> hd_Address kl k = Some addr \<and>
        row \<in> set (v_keys (sql_view lib db)) \<and> row_purpose row = p \<and> \<not> kr_used row \<and>
        kr_script row = ScriptAddress addr)" if p: "hd_purpose p" for p
    using sqlite.GetCurrentKey_ok [OF db(2) assms(4) db(3) p] sql_window [OF db(2) p] db(4) p by fastforce
  ultimately show ?thesis using db(2,3) by blast
qed

theorem NewKeyManager_ready_witness:
  "\<exists>db. NewKeyManager (SQLiteDatastore ex_lib) ex_hd [0, 1] [] (initDatabaseTables (\<lambda>n. 7)) = Some (Ok ex_km, db) \<and>
    sql_inv ex_lib db \<and> keys_ok ex_hd ex_km (2 ^ 32) (v_keys (sql_view ex_lib db)) \<and>
    (\<forall>p. hd_purpose p \<longrightarrow> KeysDB_GetLookaheadWindows db p = Some 1000 \<and>
      (\<exists>k addr row. GetCurrentKey (SQLiteDatastore ex_lib) ex_hd ex_km p db = Ok k \<and>
        hd_Address ex_hd k = Some addr \<and> row \<in> set (v_keys (sql_view ex_lib db)) \<and> row_purpose row = p \<and>
        \<not> kr_used row \<and> kr_script row = ScriptAddress addr))"
  by (rule NewKeyManager_ready [OF ex_lib_ok ex_Bip44 _ ex_supply]) (simp_all add: ex_km_def)

text \<open>The key manager finds the private key of every filed derived key: the key returned for a
  script address has exactly that address.\<close>

theorem GetKeyForScript_correct:
  assumes "sql_inv lib db" "keys_ok kl km N (v_keys (sql_view lib db))"
    and "row \<in> set (v_keys (sql_view lib db))" "hd_purpose (row_purpose row)"
  shows "\<exists>k addr. GetKeyForScript (SQLiteDatastore lib) kl km (kr_script row) db = Ok k \<and>
    hd_Address kl k = Some addr \<and> ScriptAddress addr = kr_script row"
  by (rule sqlite.GetKeyForScript_ok [OF assms])

definition ex_keydb :: sqldb where
  "ex_keydb = snd (KeysDB_Put [1, 0, 0] \<lparr>kp_Purpose = 1, kp_Index = 2\<rparr> (initDatabaseTables (\<lambda>n. 7)))"

lemma ex_keydb:
  "sql_inv ex_lib ex_keydb"
  "v_keys (sql_view ex_lib ex_keydb) =
     [\<lparr>kr_script = [1, 0, 0], kr_path = \<lparr>kp_Purpose = 1, kp_Index = 2\<rparr>, kr_used = False, kr_key = None\<rparr>]"
  using sql_Keys_Put [OF sql_inv_init [OF ex_lib_ok], of "[1, 0, 0]" "\<lambda>n. 7" "\<lparr>kp_Purpose = 1, kp_Index = 2\<rparr>"]
  by (auto simp: ex_keydb_def)

theorem GetKeyForScript_correct_witness:
  "\<exists>k addr. GetKeyForScript (SQLiteDatastore ex_lib) ex_hd ex_km [1, 0, 0] ex_keydb = Ok k \<and>
    hd_Address ex_hd k = Some addr \<and> ScriptAddress addr = [1, 0, 0]"
proof -
  have "derived_addr ex_hd ex_km 1 2 = Some [1, 0, 0]" by code_simp
  then have "keys_ok ex_hd ex_km (2 ^ 32) (v_keys (sql_view ex_lib ex_keydb))"
    by (simp add: ex_keydb keys_ok_def row_ok_def hd_purpose_def next_index_def)
  from GetKeyForScript_correct [OF ex_keydb(1) this] show ?thesis
    by (force simp: ex_keydb(2) hd_purpose_def)
qed

text \<open>\<open>GetFreshKey\<close> never returns for a purpose other than external or internal: every derivation
  fails and the loop goes on to the next index.\<close>

theorem GetFreshKey_unknown_purpose:
  assumes "\<not> hd_purpose p"
  shows "GetFreshKey ds kl km p s = None"
proof -
  have "hd_purpose q" if "fresh_index kl km q i = Some y" for q i y
    by (rule fresh_index.raw_induct [where P = "\<lambda>_ _ q _ _. hd_purpose q", OF _ that])
      (force simp: generateChildKey_def hd_purpose_def split: if_splits go.splits)
  then have "fresh_index kl km p i = None" for i using assms by (cases "fresh_index kl km p i") auto
  then show ?thesis by (simp add: GetFreshKey_def split: prod.split)
qed

theorem GetFreshKey_unknown_purpose_witness:
  "GetFreshKey (SQLiteDatastore ex_lib) ex_hd ex_km 7 (initDatabaseTables (\<lambda>n. 7)) = None"
  by (rule GetFreshKey_unknown_purpose) (simp add: hd_purpose_def)

text \<open>A key imported before its index comes up blocks the look-ahead: when the next derived address
  is already filed, \<open>GetFreshKey\<close> fails on the primary key, leaves the table as it is and so fails
  again on every later call.\<close>

theorem GetFreshKey_blocked:
  assumes "sql_inv lib db" "hd_purpose p" "n = next_index p (v_keys (sql_view lib db))" "0 \<le> n" "n < 2 ^ 32"
    and "derived_addr kl km p n = Some a" "a \<in> kr_script ` set (v_keys (sql_view lib db))"
  shows "GetFreshKey (SQLiteDatastore lib) kl km p db = Some (Err ConstraintError, db)"
proof -
  obtain k addr where k: "generateChildKey kl km p (word_of_int n) = Ok k"
    "hd_Address kl k = Some addr" "a = ScriptAddress addr"
    using assms(6) by (auto simp: derived_addr_def split: go.splits)
  have "wrap64 n = n" using assms(4,5) by (intro wrap64_id) auto
  then have "GetFreshKey (SQLiteDatastore lib) kl km p db = Some (put_key (SQLiteDatastore lib) kl p n k db)"
    using fresh_index_hit [OF k(1)]
    by (simp add: GetFreshKey_def sqlite.Keys_GetLastKeyIndex [OF assms(1)] assms(3) next_index_def
        split: list.split) (auto split: list.splits)
  then show ?thesis
    using sqlite.Keys_Put_dup [OF assms(1,7)] k by (simp add: put_key_def)
qed

definition ex_blocked :: sqldb where
  "ex_blocked = snd (KeysDB_ImportKey [0] [9] (initDatabaseTables (\<lambda>n. 7)))"

theorem GetFreshKey_blocked_witness:
  "GetFreshKey (SQLiteDatastore ex_lib) ex_hd ex_km EXTERNAL ex_blocked = Some (Err ConstraintError, ex_blocked)"
proof -
  obtain i where b: "sql_inv ex_lib ex_blocked"
    "v_keys (sql_view ex_lib ex_blocked) =
     [\<lparr>kr_script = [0], kr_path = \<lparr>kp_Purpose = -1, kp_Index = i\<rparr>, kr_used = True, kr_key = Some [9]\<rparr>]"
    using sql_Keys_ImportKey [OF sql_inv_init [OF ex_lib_ok], of "[0]" "\<lambda>n. 7" "[9]"]
    by (auto simp: ex_blocked_def)
  show ?thesis
    by (rule GetFreshKey_blocked [OF b(1) _ refl, where a = "[0]"])
      (simp_all add: b(2) next_index_def ex_derived hd_purpose_def)
qed

end
