(* ===== verification/Tx_Store.thy ===== *)
theory Tx_Store
  imports Key_Manager
begin

text \<open>
  The transaction store, \<^verbatim>\<open>src/txstore.go\<close>: the in-memory view of addresses, watched scripts and
  known transaction ids, and the operations that take a transaction into the wallet (\<open>Ingest\<close>),
  find double spends, undo transactions (\<open>markAsDead\<close>) and handle a reorganisation of the chain.
  The datastore, the script functions and the key library are collected in the record \<open>ts_env\<close>.
  The state is the record \<open>TxStore\<close> and the state of the datastore; the callbacks of the listeners
  are returned as a list of events.  \<open>now\<close> is the reading of the clock.
\<close>

section \<open>State and environment\<close>

record script_lib =
  CheckTransactionSanity :: "MsgTx \<Rightarrow> error option"
  PayToAddrScript :: "Address \<Rightarrow> bytes option"
  ExtractPkScriptAddrs :: "bytes \<Rightarrow> (Address list \<times> int) option"

record TxStore =
  adrs :: "Address list"
  watchedScripts :: "bytes list"
  txids :: "string \<Rightarrow> i32 option"
  showEveryTx :: "nat \<Rightarrow> bool option"
  listeners :: "nat option list"
  additionalFilters :: "bytes list"

record ('s, 'k) ts_env =
  e_ds :: "'s datastore"
  e_lib :: wire_lib
  e_sl :: script_lib
  e_hd :: "'k hd_lib"
  e_km :: "'k KeyManager"
  e_order :: "KeyPurpose list"

type_synonym event = "nat \<times> TransactionCallback"

definition outPointsEqual :: "OutPoint \<Rightarrow> OutPoint \<Rightarrow> bool" where
  "outPointsEqual a b = (if op_Hash a \<noteq> op_Hash b then False else op_Index a = op_Index b)"

definition extractScriptAddress :: "script_lib \<Rightarrow> bytes \<Rightarrow> bytes go" where
  "extractScriptAddress sl script =
     (case ExtractPkScriptAddrs sl script of
        None \<Rightarrow> Err LibError
      | Some (addrs, _) \<Rightarrow>
          (case addrs of [] \<Rightarrow> Err (ErrMsg ''unknown script'') | a # _ \<Rightarrow> Ok (ScriptAddress a)))"

text \<open>\<open>scriptToAddress\<close> of \<^verbatim>\<open>src/wallet.go\<close>: the first address when one signature is required.\<close>

definition scriptToAddress :: "script_lib \<Rightarrow> bytes \<Rightarrow> Address go" where
  "scriptToAddress sl script =
     (case ExtractPkScriptAddrs sl script of
        None \<Rightarrow> Err LibError
      | Some (addr, i) \<Rightarrow>
          if i \<noteq> 1 then Err (ErrMsg ''addresses were found in this script'')
          else (case addr of [] \<Rightarrow> Panic | a # _ \<Rightarrow> Ok a))"

section \<open>Loading and filters\<close>

text \<open>Errors of the two reads are dropped; the values are then empty.\<close>

definition PopulateAdrs :: "('s, 'k) ts_env \<Rightarrow> TxStore \<Rightarrow> 's \<Rightarrow> TxStore" where
  "PopulateAdrs env ts s =
     (let ks = GetKeys (e_ds env) (e_hd env) (e_km env) s;
          ws = fst (Watched_GetAll (e_ds env) s);
          txns = fst (Txns_GetAll (e_ds env) True s)
      in ts\<lparr>adrs := List.map_filter (hd_Address (e_hd env)) ks, watchedScripts := ws,
            txids := fold (\<lambda>t m. m(txn_Txid t \<mapsto> txn_Height t)) txns (txids ts)\<rparr>)"

definition NewTxStore :: "('s, 'k) ts_env \<Rightarrow> bytes list \<Rightarrow> 's \<Rightarrow> TxStore" where
  "NewTxStore env filters s =
     PopulateAdrs env \<lparr>adrs = [], watchedScripts = [], txids = (\<lambda>_. None), showEveryTx = (\<lambda>_. None),
       listeners = [], additionalFilters = filters\<rparr> s"

text \<open>The bloom filter of the library is given by its size and the elements added to it.\<close>

datatype filter_elem = Add bytes | AddOutPoint OutPoint

fun watched_elems :: "script_lib \<Rightarrow> bytes list \<Rightarrow> filter_elem list run" where
  "watched_elems sl [] = Ret []"
| "watched_elems sl (w # ws) =
     (case ExtractPkScriptAddrs sl w of
        None \<Rightarrow> watched_elems sl ws
      | Some ([], _) \<Rightarrow> Panics
      | Some (a # _, _) \<Rightarrow> run_bind (watched_elems sl ws) (\<lambda>es. Ret (Add (ScriptAddress a) # es)))"

definition GimmeFilter ::
    "('s, 'k) ts_env \<Rightarrow> TxStore \<Rightarrow> 's \<Rightarrow> ((u32 \<times> filter_elem list) go \<times> TxStore) run" where
  "GimmeFilter env ts0 s =
     (let ts = PopulateAdrs env ts0 s in
      case Utxos_GetAll (e_ds env) s of
        (_, Some e) \<Rightarrow> Ret (Err e, ts)
      | (allUtxos, None) \<Rightarrow>
      (case Stxos_GetAll (e_ds env) s of
        (_, Some e) \<Rightarrow> Ret (Err e, ts)
      | (allStxos, None) \<Rightarrow>
          (let elem = of_nat (length (adrs ts) + length allUtxos + length allStxos) +
                 of_nat (length (watchedScripts ts))
           in run_bind (watched_elems (e_sl env) (watchedScripts ts)) (\<lambda>ws.
              Ret (Ok (elem, map (Add \<circ> ScriptAddress) (adrs ts) @ map (AddOutPoint \<circ> utxo_Op) allUtxos @
                     map (AddOutPoint \<circ> stxo_Op) allStxos @ ws @ map Add (additionalFilters ts)), ts)))))"

section \<open>Double spends and pending transactions\<close>

text \<open>The ids double spent by one stored transaction: one entry per shared input.\<close>

definition dubs_of :: "wire_lib \<Rightarrow> MsgTx \<Rightarrow> Txn \<Rightarrow> hash list" where
  "dubs_of lib argTx compTx =
     (if txn_Height compTx <s 0 then []
      else let msgTx = decodeTx lib (txn_Bytes compTx); compTxid = txHash lib msgTx in
           map (\<lambda>_. compTxid)
             (filter (\<lambda>argIn. \<exists>compIn \<in> set (tx_TxIn msgTx).
                outPointsEqual (PreviousOutPoint argIn) (PreviousOutPoint compIn) \<and>
                compTxid \<noteq> txHash lib argTx) (tx_TxIn argTx)))"

definition CheckDoubleSpends :: "('s, 'k) ts_env \<Rightarrow> MsgTx \<Rightarrow> 's \<Rightarrow> hash list \<times> error option" where
  "CheckDoubleSpends env argTx s =
     (case Txns_GetAll (e_ds env) True s of
        (_, Some e) \<Rightarrow> ([], Some e)
      | (txs, None) \<Rightarrow> (concat (map (dubs_of (e_lib env) argTx) txs), None))"

text \<open>
  \<open>perm\<close> is the order in which Go iterates over the set of ids, \<open>maxInv\<close> the number of entries the
  library allows in a message.
\<close>

definition GetPendingInv :: "('s, 'k) ts_env \<Rightarrow> (hash list \<Rightarrow> hash list) \<Rightarrow> nat \<Rightarrow> 's \<Rightarrow> hash list go" where
  "GetPendingInv env perm maxInv s =
     (case Utxos_GetAll (e_ds env) s of
        (_, Some e) \<Rightarrow> Err e
      | (utxos, None) \<Rightarrow>
      (case Stxos_GetAll (e_ds env) s of
        (_, Some e) \<Rightarrow> Err e
      | (stxos, None) \<Rightarrow>
          (let ids = map (op_Hash \<circ> utxo_Op) (filter (\<lambda>u. AtHeight u = 0) utxos) @
                 map SpendTxid (filter (\<lambda>x. SpendHeight x = 0) stxos);
               inv = perm (remdups ids)
           in if maxInv < length inv then Err LibError else Ok inv)))"

section \<open>Dead transactions\<close>

definition markStxoAsDead :: "'s datastore \<Rightarrow> go_time \<Rightarrow> Stxo \<Rightarrow> 's \<Rightarrow> error option \<times> 's" where
  "markStxoAsDead ds now x s =
     (case Stxos_Delete ds x s of
        (Some e, s1) \<Rightarrow> (Some e, s1)
      | (None, s1) \<Rightarrow> Txns_UpdateHeight ds (SpendTxid x) (-1) now s1)"

text \<open>The loop over the spent outputs; \<open>rec\<close> is the recursive call of \<open>markAsDead\<close>.\<close>

definition mark_spent :: "'s datastore \<Rightarrow> go_time \<Rightarrow> hash \<Rightarrow> Stxo \<Rightarrow> 's \<Rightarrow> error option \<times> 's" where
  "mark_spent ds now txid x s =
     (if txid = SpendTxid x
      then (case markStxoAsDead ds now x s of
              (Some e, s1) \<Rightarrow> (Some e, s1)
            | (None, s1) \<Rightarrow> Utxos_Put ds (stxo_Utxo x) s1)
      else (None, s))"

definition mark_dependent ::
    "'s datastore \<Rightarrow> go_time \<Rightarrow> (hash \<Rightarrow> 's \<Rightarrow> (error option \<times> 's) run) \<Rightarrow> hash \<Rightarrow> Stxo \<Rightarrow> 's \<Rightarrow>
     (error option \<times> 's) run" where
  "mark_dependent ds now rec txid x s =
     (if txid = op_Hash (stxo_Op x)
      then (case markStxoAsDead ds now x s of
              (Some e, s1) \<Rightarrow> Ret (Some e, s1)
            | (None, s1) \<Rightarrow> rec (SpendTxid x) s1)
      else Ret (None, s))"

fun mark_stxos ::
    "'s datastore \<Rightarrow> go_time \<Rightarrow> (hash \<Rightarrow> 's \<Rightarrow> (error option \<times> 's) run) \<Rightarrow> hash \<Rightarrow> Stxo list \<Rightarrow> 's \<Rightarrow>
     (error option \<times> 's) run" where
  "mark_stxos ds now rec txid [] s = Ret (None, s)"
| "mark_stxos ds now rec txid (x # xs) s =
     (case mark_spent ds now txid x s of
        (Some e, s1) \<Rightarrow> Ret (Some e, s1)
      | (None, s1) \<Rightarrow>
          run_bind (mark_dependent ds now rec txid x s1) (\<lambda>(err, s2).
            case err of Some e \<Rightarrow> Ret (Some e, s2) | None \<Rightarrow> mark_stxos ds now rec txid xs s2))"

fun delete_utxos :: "'s datastore \<Rightarrow> hash \<Rightarrow> Utxo list \<Rightarrow> 's \<Rightarrow> error option \<times> 's" where
  "delete_utxos ds txid [] s = (None, s)"
| "delete_utxos ds txid (u # us) s =
     (if txid = op_Hash (utxo_Op u)
      then (case Utxos_Delete ds u s of
              (Some e, s1) \<Rightarrow> (Some e, s1)
            | (None, s1) \<Rightarrow> delete_utxos ds txid us s1)
      else delete_utxos ds txid us s)"

text \<open>
  \<open>markAsDead\<close> with a bound on the depth of the recursion.  Each nested call starts with fewer
  stxos than its caller, so the number of stored stxos is enough (\<open>markAsDead_returns\<close>).
\<close>

fun markAsDead_fuel :: "nat \<Rightarrow> 's datastore \<Rightarrow> go_time \<Rightarrow> hash \<Rightarrow> 's \<Rightarrow> (error option \<times> 's) run" where
  "markAsDead_fuel 0 ds now txid s = Hangs"
| "markAsDead_fuel (Suc fuel) ds now txid s =
     (case Stxos_GetAll ds s of
        (_, Some e) \<Rightarrow> Ret (Some e, s)
      | (stxos, None) \<Rightarrow>
          run_bind (mark_stxos ds now (markAsDead_fuel fuel ds now) txid stxos s) (\<lambda>(err, s1).
            case err of
              Some e \<Rightarrow> Ret (Some e, s1)
            | None \<Rightarrow>
                (case Utxos_GetAll ds s1 of
                   (_, Some e) \<Rightarrow> Ret (Some e, s1)
                 | (utxos, None) \<Rightarrow>
                     (case delete_utxos ds txid utxos s1 of
                        (Some e, s2) \<Rightarrow> Ret (Some e, s2)
                      | (None, s2) \<Rightarrow> Ret (None, snd (Txns_UpdateHeight ds txid (-1) now s2))))))"

definition markAsDead :: "'s datastore \<Rightarrow> go_time \<Rightarrow> hash \<Rightarrow> 's \<Rightarrow> (error option \<times> 's) run" where
  "markAsDead ds now txid s = markAsDead_fuel (Suc (length (fst (Stxos_GetAll ds s)))) ds now txid s"

text \<open>The loop of \<open>processReorg\<close>, newest transaction first; a failed step is logged and skipped.\<close>

fun reorg_loop :: "('s, 'k) ts_env \<Rightarrow> go_time \<Rightarrow> u32 \<Rightarrow> Txn list \<Rightarrow> 's \<Rightarrow> 's run" where
  "reorg_loop env now lastGoodHeight [] s = Ret s"
| "reorg_loop env now lastGoodHeight (t # ts) s =
     (if lastGoodHeight <s txn_Height t
      then (case hashFromStr (e_lib env) (txn_Txid t) of
              None \<Rightarrow> reorg_loop env now lastGoodHeight ts s
            | Some txid \<Rightarrow>
                run_bind (markAsDead (e_ds env) now txid s) (\<lambda>(_, s1). reorg_loop env now lastGoodHeight ts s1))
      else reorg_loop env now lastGoodHeight ts s)"

definition processReorg :: "('s, 'k) ts_env \<Rightarrow> go_time \<Rightarrow> u32 \<Rightarrow> 's \<Rightarrow> (error option \<times> 's) run" where
  "processReorg env now lastGoodHeight s =
     (case Txns_GetAll (e_ds env) True s of
        (_, Some e) \<Rightarrow> Ret (Some e, s)
      | (txns, None) \<Rightarrow>
          run_bind (reorg_loop env now lastGoodHeight (rev txns) s) (\<lambda>s1. Ret (None, s1)))"

section \<open>Ingest\<close>

fun bytes_Contains :: "bytes \<Rightarrow> bytes \<Rightarrow> bool" where
  "bytes_Contains [] sub = (sub = [])"
| "bytes_Contains (b # bs) sub = (take (length sub) (b # bs) = sub \<or> bytes_Contains bs sub)"

text \<open>The local variables of \<open>Ingest\<close> that its loops update.\<close>

record 's ing =
  ing_value :: i64
  ing_hits :: u32
  ing_watch :: bool
  ing_outs :: "TransactionOutput list"
  ing_ins :: "TransactionInput list"
  ing_s :: 's

definition new_utxo :: "hash \<Rightarrow> nat \<Rightarrow> i32 \<Rightarrow> TxOut \<Rightarrow> bool \<Rightarrow> Utxo" where
  "new_utxo sha i height txout wo =
     \<lparr>utxo_Op = \<lparr>op_Hash = sha, op_Index = of_nat i\<rparr>, AtHeight = height, utxo_Value = txout_Value txout,
      ScriptPubkey = PkScript txout, WatchOnly = wo\<rparr>"

text \<open>An output to one of our scripts: mark the key as used (the result is dropped) and store it.\<close>

definition ingest_own ::
    "('s, 'k) ts_env \<Rightarrow> hash \<Rightarrow> i32 \<Rightarrow> nat \<Rightarrow> TxOut \<Rightarrow> 's ing \<Rightarrow> 's ing run" where
  "ingest_own env sha height i txout a =
     (let scriptAddress = (case extractScriptAddress (e_sl env) (PkScript txout) of Ok sa \<Rightarrow> sa | _ \<Rightarrow> []);
          newu = new_utxo sha i height txout False
      in case MarkKeyAsUsed (e_ds env) (e_hd env) (e_km env) (e_order env) scriptAddress (ing_s a) of
           None \<Rightarrow> Hangs
         | Some (Panic, _) \<Rightarrow> Panics
         | Some (_, s1) \<Rightarrow>
             Ret (a\<lparr>ing_value := ing_value a + utxo_Value newu, ing_hits := ing_hits a + 1,
                    ing_s := snd (Utxos_Put (e_ds env) newu s1)\<rparr>))"

definition ingest_watched ::
    "('s, 'k) ts_env \<Rightarrow> hash \<Rightarrow> i32 \<Rightarrow> nat \<Rightarrow> TxOut \<Rightarrow> bytes list \<Rightarrow> 's ing \<Rightarrow> 's ing" where
  "ingest_watched env sha height i txout ws a =
     fold (\<lambda>script a. if PkScript txout = script
             then a\<lparr>ing_s := snd (Utxos_Put (e_ds env) (new_utxo sha i height txout True) (ing_s a)),
                    ing_watch := True\<rparr>
             else a) ws a"

definition ingest_output ::
    "('s, 'k) ts_env \<Rightarrow> TxStore \<Rightarrow> bytes list \<Rightarrow> hash \<Rightarrow> i32 \<Rightarrow> nat \<Rightarrow> TxOut \<Rightarrow> 's ing \<Rightarrow> 's ing run" where
  "ingest_output env ts PKscripts sha height i txout a =
     (case scriptToAddress (e_sl env) (PkScript txout) of
        Panic \<Rightarrow> Panics
      | addr \<Rightarrow>
          (let out = \<lparr>tout_Address = (case addr of Ok x \<Rightarrow> Some x | _ \<Rightarrow> None),
                      tout_Value = txout_Value txout, tout_Index = of_nat i\<rparr>
           in run_bind (if PkScript txout \<in> set PKscripts then ingest_own env sha height i txout a else Ret a)
             (\<lambda>a1.
                let a2 = ingest_watched env sha height i txout (watchedScripts ts) a1;
                    a3 = (if list_ex (bytes_Contains (PkScript txout)) (additionalFilters ts)
                          then a2\<lparr>ing_watch := True\<rparr> else a2)
                in Ret (a3\<lparr>ing_outs := ing_outs a3 @ [out]\<rparr>))))"

fun ingest_outputs ::
    "('s, 'k) ts_env \<Rightarrow> TxStore \<Rightarrow> bytes list \<Rightarrow> hash \<Rightarrow> i32 \<Rightarrow> nat \<Rightarrow> TxOut list \<Rightarrow> 's ing \<Rightarrow> 's ing run" where
  "ingest_outputs env ts PKscripts sha height i [] a = Ret a"
| "ingest_outputs env ts PKscripts sha height i (txout # rest) a =
     run_bind (ingest_output env ts PKscripts sha height i txout a)
       (ingest_outputs env ts PKscripts sha height (Suc i) rest)"

text \<open>The first utxo an input spends, and the list without it.\<close>

fun pick_utxo :: "OutPoint \<Rightarrow> Utxo list \<Rightarrow> (Utxo \<times> Utxo list) option" where
  "pick_utxo p [] = None"
| "pick_utxo p (u # us) =
     (if outPointsEqual p (utxo_Op u) then Some (u, us)
      else map_option (\<lambda>(x, rest). (x, u # rest)) (pick_utxo p us))"

definition spend_utxo :: "('s, 'k) ts_env \<Rightarrow> hash \<Rightarrow> i32 \<Rightarrow> Utxo \<Rightarrow> 's ing \<Rightarrow> 's ing run" where
  "spend_utxo env sha height u a =
     (let st = \<lparr>stxo_Utxo = u, SpendHeight = height, SpendTxid = sha\<rparr>;
          s1 = snd (Stxos_Put (e_ds env) st (ing_s a));
          s2 = snd (Utxos_Delete (e_ds env) u s1);
          a1 = (if \<not> WatchOnly u
                then a\<lparr>ing_value := ing_value a - utxo_Value u, ing_hits := ing_hits a + 1, ing_s := s2\<rparr>
                else a\<lparr>ing_watch := True, ing_s := s2\<rparr>)
      in case scriptToAddress (e_sl env) (ScriptPubkey u) of
           Panic \<Rightarrow> Panics
         | addr \<Rightarrow>
             Ret (a1\<lparr>ing_ins := ing_ins a1 @
               [\<lparr>OutpointHash = hash_bytes (op_Hash (utxo_Op u)), OutpointIndex = op_Index (utxo_Op u),
                 LinkedAddress = (case addr of Ok x \<Rightarrow> Some x | _ \<Rightarrow> None), tin_Value = utxo_Value u\<rparr>]\<rparr>))"

fun ingest_inputs ::
    "('s, 'k) ts_env \<Rightarrow> hash \<Rightarrow> i32 \<Rightarrow> TxIn list \<Rightarrow> Utxo list \<Rightarrow> 's ing \<Rightarrow> 's ing run" where
  "ingest_inputs env sha height [] utxos a = Ret a"
| "ingest_inputs env sha height (txin # rest) utxos a =
     (case pick_utxo (PreviousOutPoint txin) utxos of
        Some (u, utxos') \<Rightarrow> run_bind (spend_utxo env sha height u a) (ingest_inputs env sha height rest utxos')
      | None \<Rightarrow>
          ingest_inputs env sha height rest utxos
            (a\<lparr>ing_ins := ing_ins a @
              [\<lparr>OutpointHash = hash_bytes (op_Hash (PreviousOutPoint txin)),
                OutpointIndex = op_Index (PreviousOutPoint txin), LinkedAddress = None, tin_Value = -1\<rparr>]\<rparr>))"

text \<open>The first stxo of this transaction gets the height of the block.\<close>

definition ingest_stxo :: "('s, 'k) ts_env \<Rightarrow> hash \<Rightarrow> i32 \<Rightarrow> 's ing \<Rightarrow> 's ing go" where
  "ingest_stxo env sha height a =
     (if 0 <s height
      then (case Stxos_GetAll (e_ds env) (ing_s a) of
              (_, Some e) \<Rightarrow> Err e
            | (stxos, None) \<Rightarrow>
                (case find (\<lambda>x. SpendTxid x = sha) stxos of
                   None \<Rightarrow> Ok a
                 | Some x \<Rightarrow>
                     (let a1 = a\<lparr>ing_s := snd (Stxos_Put (e_ds env) (x\<lparr>SpendHeight := height\<rparr>) (ing_s a))\<rparr>
                      in Ok (if \<not> WatchOnly (stxo_Utxo x) then a1\<lparr>ing_hits := ing_hits a1 + 1\<rparr>
                             else a1\<lparr>ing_watch := True\<rparr>))))
      else Ok a)"

definition notify :: "(nat \<Rightarrow> bool) \<Rightarrow> TxStore \<Rightarrow> TransactionCallback \<Rightarrow> event list" where
  "notify show_to ts cb =
     List.map_filter (\<lambda>(i, l). case l of None \<Rightarrow> None | Some f \<Rightarrow> if show_to i then Some (f, cb) else None)
       (enumerate 0 (listeners ts))"

text \<open>A relevant transaction is stored, or its height updated; the listeners are told.\<close>

definition ingest_store ::
    "('s, 'k) ts_env \<Rightarrow> MsgTx \<Rightarrow> i32 \<Rightarrow> go_time \<Rightarrow> TxStore \<Rightarrow> 's ing \<Rightarrow> TxStore \<times> 's \<times> event list" where
  "ingest_store env tx height timestamp ts a =
     (let sha = txHash (e_lib env) tx;
          id = hashString (e_lib env) sha;
          cb0 = \<lparr>cb_Txid = id, cb_Outputs = ing_outs a, cb_Inputs = ing_ins a, cb_Height = height,
                 cb_Value = 0, cb_BlockTime = timestamp\<rparr>;
          (txn, err) = Txns_Get (e_ds env) sha (ing_s a);
          (txn1, cb1, should1, s1, m1) =
            (if err \<noteq> None
             then (txn\<lparr>txn_Timestamp := timestamp\<rparr>, cb0\<lparr>cb_Value := ing_value a\<rparr>, True,
                   snd (Txns_Put (e_ds env) (encodeTx (e_lib env) tx) id (sint (ing_value a)) (sint height)
                          timestamp (ing_hits a = 0) (ing_s a)),
                   (txids ts)(id \<mapsto> height))
             else (txn, cb0, False, ing_s a, txids ts));
          (cb2, should2, s2, m2) =
            (if txn_Height txn1 \<le>s 0
             then (if 0 <s height then cb1\<lparr>cb_Value := txn_Value txn1\<rparr> else cb1,
                   should1 \<or> 0 <s height,
                   snd (Txns_UpdateHeight (e_ds env) sha (sint height) timestamp s1),
                   m1(id \<mapsto> height))
             else (cb1, should1, s1, m1));
          ts1 = ts\<lparr>txids := m2\<rparr>
      in (PopulateAdrs env ts1 s2, s2, if should2 then notify (\<lambda>_. True) ts1 cb2 else []))"

definition ingest_commit ::
    "('s, 'k) ts_env \<Rightarrow> MsgTx \<Rightarrow> i32 \<Rightarrow> go_time \<Rightarrow> TxStore \<Rightarrow> 's ing \<Rightarrow>
     (u32 \<times> error option) \<times> TxStore \<times> 's \<times> event list" where
  "ingest_commit env tx height timestamp ts a =
     (if 0 < ing_hits a \<or> ing_watch a
      then (let (ts1, s1, evs) = ingest_store env tx height timestamp ts a
            in ((ing_hits a + 1, None), ts1, s1, evs))
      else ((ing_hits a, None), ts, ing_s a,
            notify (\<lambda>i. showEveryTx ts i = Some True) ts
              \<lparr>cb_Txid = hashString (e_lib env) (txHash (e_lib env) tx), cb_Outputs = ing_outs a,
               cb_Inputs = ing_ins a, cb_Height = height, cb_Value = 0, cb_BlockTime = timestamp\<rparr>))"

text \<open>From the generated scripts on.\<close>

definition ingest_tx ::
    "('s, 'k) ts_env \<Rightarrow> MsgTx \<Rightarrow> i32 \<Rightarrow> go_time \<Rightarrow> TxStore \<Rightarrow> bytes list \<Rightarrow> 's \<Rightarrow>
     ((u32 \<times> error option) \<times> TxStore \<times> 's \<times> event list) run" where
  "ingest_tx env tx height timestamp ts PKscripts s =
     (let sha = txHash (e_lib env) tx;
          a0 = \<lparr>ing_value = 0, ing_hits = 0, ing_watch = False, ing_outs = [], ing_ins = [], ing_s = s\<rparr>
      in run_bind (ingest_outputs env ts PKscripts sha height 0 (tx_TxOut tx) a0) (\<lambda>a1.
         case Utxos_GetAll (e_ds env) (ing_s a1) of
           (_, Some e) \<Rightarrow> Ret ((0, Some e), ts, ing_s a1, [])
         | (utxos, None) \<Rightarrow>
             run_bind (ingest_inputs env sha height (tx_TxIn tx) utxos a1) (\<lambda>a2.
             case ingest_stxo env sha height a2 of
               Err e \<Rightarrow> Ret ((0, Some e), ts, ing_s a2, [])
             | Panic \<Rightarrow> Panics
             | Ok a3 \<Rightarrow> Ret (ingest_commit env tx height timestamp ts a3))))"

fun mark_doubles :: "'s datastore \<Rightarrow> go_time \<Rightarrow> hash list \<Rightarrow> 's \<Rightarrow> 's run" where
  "mark_doubles ds now [] s = Ret s"
| "mark_doubles ds now (d # rest) s =
     run_bind (markAsDead ds now d s) (\<lambda>(_, s1). mark_doubles ds now rest s1)"

definition Ingest ::
    "('s, 'k) ts_env \<Rightarrow> go_time \<Rightarrow> MsgTx \<Rightarrow> i32 \<Rightarrow> go_time \<Rightarrow> TxStore \<Rightarrow> 's \<Rightarrow>
     ((u32 \<times> error option) \<times> TxStore \<times> 's \<times> event list) run" where
  "Ingest env now tx height timestamp ts s =
     (case CheckTransactionSanity (e_sl env) tx of
        Some e \<Rightarrow> Ret ((0, Some e), ts, s, [])
      | None \<Rightarrow>
      if (case txids ts (hashString (e_lib env) (txHash (e_lib env) tx)) of
            None \<Rightarrow> False | Some sh \<Rightarrow> 0 <s sh \<or> sh = 0 \<and> height = 0)
      then Ret ((0, None), ts, s, [])
      else
      (case CheckDoubleSpends env tx s of
         (_, Some e) \<Rightarrow> Ret ((0, Some e), ts, s, [])
       | (doubleSpends, None) \<Rightarrow>
           if doubleSpends \<noteq> [] \<and> height = 0 then Ret ((0, None), ts, s, [])
           else run_bind (mark_doubles (e_ds env) now doubleSpends s) (\<lambda>s1.
             let scripts = map (PayToAddrScript (e_sl env)) (adrs ts)
             in if None \<in> set scripts then Ret ((0, Some LibError), ts, s1, [])
                else ingest_tx env tx height timestamp ts (map the scripts) s1)))"

end
