(* ===== verification/Tx_Dead.thy ===== *)
theory Tx_Dead
  imports Tx_Store
begin

text \<open>
  What \<open>markAsDead\<close> and \<open>processReorg\<close> of \<^verbatim>\<open>src/txstore.go\<close> do to the wallet's tables.  The set
  \<open>dead_set\<close> is the specification: the transaction and everything that spends its outputs.
  The lemmas relate each round of the loops to it; the recursion is shown to end within the fuel
  \<open>markAsDead\<close> gives it, because every nested call starts with fewer stored stxos.
\<close>

section \<open>The transactions that die with a transaction\<close>

text \<open>
  \<open>dead_set T xs\<close> holds \<open>T\<close> and every transaction that spends, directly or through others, an
  output of \<open>T\<close> according to the stxos \<open>xs\<close>.
\<close>

definition spend_edges :: "Stxo list \<Rightarrow> (hash \<times> hash) set" where
  "spend_edges xs = (\<lambda>x. (op_Hash (stxo_Op x), SpendTxid x)) ` set xs"

definition dead_set :: "hash \<Rightarrow> Stxo list \<Rightarrow> hash set" where
  "dead_set T xs = {U. (T, U) \<in> (spend_edges xs)\<^sup>*}"

definition dead_closed :: "hash set \<Rightarrow> wview \<Rightarrow> bool" where
  "dead_closed D v \<longleftrightarrow> (\<forall>x \<in> set (v_stxos v). op_Hash (stxo_Op x) \<in> D \<longrightarrow> SpendTxid x \<in> D)"

definition removed :: "wview \<Rightarrow> wview \<Rightarrow> Stxo set" where
  "removed v v' = set (v_stxos v) - set (v_stxos v')"

definition txid_clean :: "wview \<Rightarrow> hash \<Rightarrow> bool" where
  "txid_clean v h \<longleftrightarrow> (\<forall>x \<in> set (v_stxos v). SpendTxid x \<noteq> h \<and> op_Hash (stxo_Op x) \<noteq> h)"

definition dead_row :: "(hash \<Rightarrow> string) \<Rightarrow> wview \<Rightarrow> hash \<Rightarrow> bool" where
  "dead_row hstr v h \<longleftrightarrow> (\<forall>r \<in> set (v_txns v). txn_Txid r = hstr h \<longrightarrow> txn_Height r = -1)"

text \<open>How the transaction table changes: rows of dead transactions get the height -1.\<close>

definition txns_rel :: "(hash \<Rightarrow> string) \<Rightarrow> hash set \<Rightarrow> Txn list \<Rightarrow> Txn list \<Rightarrow> bool" where
  "txns_rel hstr D ts ts' \<longleftrightarrow>
     list_all2 (\<lambda>r r'. r' = r \<or> (\<exists>h \<in> D. txn_Txid r = hstr h) \<and>
       (\<exists>t. r' = r\<lparr>txn_Height := -1, txn_Timestamp := t\<rparr>)) ts ts'"

text \<open>How the outputs outside \<open>D\<close> change: the inputs of a removed spend are back.\<close>

definition utxos_rel :: "hash set \<Rightarrow> wview \<Rightarrow> wview \<Rightarrow> bool" where
  "utxos_rel D v v' \<longleftrightarrow> (\<forall>u. op_Hash (utxo_Op u) \<notin> D \<longrightarrow>
     (u \<in> set (v_utxos v') \<longleftrightarrow>
        (\<exists>x \<in> removed v v'. stxo_Utxo x = u) \<or>
        u \<in> set (v_utxos v) \<and> (\<forall>x \<in> removed v v'. stxo_Op x \<noteq> utxo_Op u)))"

definition dead_rel :: "(hash \<Rightarrow> string) \<Rightarrow> hash set \<Rightarrow> wview \<Rightarrow> wview \<Rightarrow> bool" where
  "dead_rel hstr D v v' \<longleftrightarrow>
     set (v_stxos v') \<subseteq> set (v_stxos v) \<and> (\<forall>x \<in> removed v v'. SpendTxid x \<in> D) \<and>
     utxos_rel D v v' \<and> txns_rel hstr D (v_txns v) (v_txns v') \<and>
     v_keys v' = v_keys v \<and> v_watched v' = v_watched v"

lemma txns_rel_refl [simp]: "txns_rel hstr D ts ts"
  by (simp add: txns_rel_def list_all2_same)

lemma txns_rel_trans:
  assumes "txns_rel hstr D a b" "txns_rel hstr D b c"
  shows "txns_rel hstr D a c"
  using assms unfolding txns_rel_def
  by (rule list_all2_trans [rotated]) (elim disjE conjE exE; force)

lemma dead_rel_refl [simp]: "dead_rel hstr D v v"
  by (simp add: dead_rel_def removed_def utxos_rel_def)

lemma removed_trans:
  "set (v_stxos b) \<subseteq> set (v_stxos a) \<Longrightarrow> set (v_stxos c) \<subseteq> set (v_stxos b) \<Longrightarrow>
   removed a c = removed a b \<union> removed b c"
  by (auto simp: removed_def)

lemma utxos_rel_trans:
  assumes "keyed stxo_Op (v_stxos a)" "set (v_stxos b) \<subseteq> set (v_stxos a)" "set (v_stxos c) \<subseteq> set (v_stxos b)"
    and "utxos_rel D a b" "utxos_rel D b c"
  shows "utxos_rel D a c"
proof -
  have "stxo_Op x \<noteq> stxo_Op y" if "x \<in> removed a b" "y \<in> removed b c" for x y
    using that keyed_eqD [OF assms(1), of x y] assms(2,3) by (auto simp: removed_def)
  then have "(\<forall>x \<in> removed b c. stxo_Op x \<noteq> utxo_Op u)" if "z \<in> removed a b" "stxo_Utxo z = u" for u z
    using that by metis
  with assms(4,5) show ?thesis
    unfolding utxos_rel_def removed_trans [OF assms(2,3)] by blast
qed

lemma dead_rel_trans:
  assumes "keyed stxo_Op (v_stxos a)" "dead_rel hstr D a b" "dead_rel hstr D b c"
  shows "dead_rel hstr D a c"
proof -
  have sub: "set (v_stxos b) \<subseteq> set (v_stxos a)" "set (v_stxos c) \<subseteq> set (v_stxos b)"
    using assms(2,3) by (simp_all add: dead_rel_def)
  have "utxos_rel D a c"
    using utxos_rel_trans [OF assms(1) sub] assms(2,3) by (simp add: dead_rel_def)
  moreover have "txns_rel hstr D (v_txns a) (v_txns c)"
    using txns_rel_trans [of hstr D "v_txns a" "v_txns b" "v_txns c"] assms(2,3) by (simp add: dead_rel_def)
  ultimately show ?thesis
    using assms(2,3) sub by (auto simp: dead_rel_def removed_trans [OF sub])
qed

lemma dead_row_stable:
  assumes "txns_rel hstr D (v_txns v) (v_txns v')" "dead_row hstr v h"
  shows "dead_row hstr v' h"
proof (unfold dead_row_def, intro ballI impI)
  fix r' assume "r' \<in> set (v_txns v')" "txn_Txid r' = hstr h"
  moreover from this(1) obtain i where i: "i < length (v_txns v')" "r' = v_txns v' ! i"
    by (auto simp: in_set_conv_nth)
  moreover have "v_txns v ! i \<in> set (v_txns v)"
    using i(1) list_all2_lengthD [OF assms(1) [unfolded txns_rel_def]] by simp
  moreover note list_all2_nthD2 [OF assms(1) [unfolded txns_rel_def] i(1)]
  ultimately show "txn_Height r' = -1" using assms(2) by (auto simp: dead_row_def)
qed

lemma txid_clean_stable: "txid_clean v h \<Longrightarrow> set (v_stxos v') \<subseteq> set (v_stxos v) \<Longrightarrow> txid_clean v' h"
  by (auto simp: txid_clean_def)

lemma dead_closed_stable: "dead_closed D v \<Longrightarrow> set (v_stxos v') \<subseteq> set (v_stxos v) \<Longrightarrow> dead_closed D v'"
  by (auto simp: dead_closed_def)

lemma dead_set_refl [simp]: "T \<in> dead_set T xs"
  by (simp add: dead_set_def)

lemma dead_set_closed: "dead_closed (dead_set T (v_stxos v)) v"
  unfolding dead_closed_def dead_set_def spend_edges_def
  by (auto intro: rtrancl_into_rtrancl)

lemma txns_rel_set_height:
  "h \<in> D \<Longrightarrow> txns_rel hstr D ts (map (set_height (hstr h) (-1) t) ts)"
  by (auto simp: txns_rel_def list_all2_conv_all_nth set_height_def)

lemma dead_row_set_height: "dead_row hstr (v\<lparr>v_txns := map (set_height (hstr h) (-1) t) ts\<rparr>) h"
  by (auto simp: dead_row_def set_height_def)

text \<open>The effect of \<open>markStxoAsDead\<close>.\<close>

definition kill_stxo :: "(hash \<Rightarrow> string) \<Rightarrow> go_time \<Rightarrow> Stxo \<Rightarrow> wview \<Rightarrow> wview" where
  "kill_stxo hstr t x v = v\<lparr>v_stxos := del_key stxo_Op (stxo_Op x) (v_stxos v),
     v_txns := map (set_height (hstr (SpendTxid x)) (-1) t) (v_txns v)\<rparr>"

text \<open>What holds between the start \<open>v0\<close> of a call for \<open>T\<close> and a round of its loop.\<close>

definition mark_loop_inv :: "(hash \<Rightarrow> string) \<Rightarrow> hash set \<Rightarrow> hash \<Rightarrow> wview \<Rightarrow> wview \<Rightarrow> bool" where
  "mark_loop_inv hstr D T v0 v \<longleftrightarrow> dead_rel hstr D v0 v \<and>
     (\<forall>x \<in> removed v0 v. dead_row hstr v (SpendTxid x) \<and> (SpendTxid x = T \<or> txid_clean v (SpendTxid x)))"

text \<open>What a finished call for \<open>T\<close> has done.\<close>

definition mark_done :: "(hash \<Rightarrow> string) \<Rightarrow> hash set \<Rightarrow> hash \<Rightarrow> wview \<Rightarrow> wview \<Rightarrow> bool" where
  "mark_done hstr D T v v' \<longleftrightarrow> dead_rel hstr D v v' \<and>
     (\<forall>x \<in> removed v v'. dead_row hstr v' (SpendTxid x) \<and> txid_clean v' (SpendTxid x)) \<and>
     txid_clean v' T \<and> dead_row hstr v' T \<and> (\<forall>u \<in> set (v_utxos v'). op_Hash (utxo_Op u) \<noteq> T)"

lemma kill_stxo_stxos:
  assumes "keyed stxo_Op (v_stxos v0)" "x \<in> set (v_stxos v0)" "set (v_stxos v) \<subseteq> set (v_stxos v0)"
  shows "set (v_stxos (kill_stxo hstr t x v)) = set (v_stxos v) - {x}"
    and "removed v0 (kill_stxo hstr t x v) = insert x (removed v0 v)"
  using assms keyed_eqD [OF assms(1)] by (auto simp: kill_stxo_def removed_def table_simps)

lemma kill_stxo_txns:
  assumes "SpendTxid x \<in> D"
  shows "txns_rel hstr D (v_txns v) (v_txns (kill_stxo hstr t x v))"
    and "dead_row hstr (kill_stxo hstr t x v) (SpendTxid x)"
  using txns_rel_set_height [OF assms] by (auto simp: kill_stxo_def dead_row_def set_height_def)

lemma loop_inv_spent:
  assumes key: "keyed stxo_Op (v_stxos v0)" and x: "x \<in> set (v_stxos v0)" and T: "SpendTxid x = T" "T \<in> D"
    and inv: "mark_loop_inv hstr D T v0 v"
    and w_def: "w = (kill_stxo hstr t x v)\<lparr>v_utxos := upsert utxo_Op (stxo_Utxo x) (v_utxos v)\<rparr>"
  shows "mark_loop_inv hstr D T v0 w"
proof -
  have rel: "dead_rel hstr D v0 v" using inv by (simp add: mark_loop_inv_def)
  then have sub: "set (v_stxos v) \<subseteq> set (v_stxos v0)" by (simp add: dead_rel_def)
  have st: "set (v_stxos w) = set (v_stxos v) - {x}" "removed v0 w = insert x (removed v0 v)"
    using kill_stxo_stxos [OF key x sub] by (simp_all add: w_def removed_def)
  have tx: "txns_rel hstr D (v_txns v) (v_txns w)" "dead_row hstr w T"
    using kill_stxo_txns [where x = x and D = D and hstr = hstr and v = v and t = t] T by (simp_all add: w_def dead_row_def)
  have uw: "set (v_utxos w) = insert (stxo_Utxo x) {u \<in> set (v_utxos v). utxo_Op u \<noteq> stxo_Op x}"
    by (simp add: w_def table_simps)
  have "stxo_Utxo y = stxo_Utxo x" if "y \<in> removed v0 v" "stxo_Op y = stxo_Op x" for y
    using that keyed_eqD [OF key, of y x] x by (auto simp: removed_def)
  then have "utxos_rel D v0 w"
    using rel by (auto simp: dead_rel_def utxos_rel_def st(2) uw)
  then have "dead_rel hstr D v0 w"
    using rel tx(1) txns_rel_trans [of hstr D "v_txns v0" "v_txns v"] T st
    by (auto simp: dead_rel_def) (simp_all add: w_def kill_stxo_def)
  moreover have "dead_row hstr w (SpendTxid y) \<and> (SpendTxid y = T \<or> txid_clean w (SpendTxid y))"
    if "y \<in> removed v0 w" for y
    using that st tx T inv dead_row_stable [OF tx(1)] txid_clean_stable [of v _ w]
    by (auto simp: mark_loop_inv_def)
  ultimately show ?thesis by (simp add: mark_loop_inv_def)
qed

lemma loop_inv_dependent:
  assumes key: "keyed stxo_Op (v_stxos v0)" and x: "x \<in> set (v_stxos v0)"
    and T: "op_Hash (stxo_Op x) = T" "T \<in> D" "SpendTxid x \<in> D"
    and inv: "mark_loop_inv hstr D T v0 v" and call: "mark_done hstr D (SpendTxid x) (kill_stxo hstr t x v) w"
  shows "mark_loop_inv hstr D T v0 w"
proof -
  let ?k = "kill_stxo hstr t x v"
  have rel: "dead_rel hstr D v0 v" using inv by (simp add: mark_loop_inv_def)
  then have sub: "set (v_stxos v) \<subseteq> set (v_stxos v0)" by (simp add: dead_rel_def)
  note st = kill_stxo_stxos [OF key x sub, of hstr t]
  note tx = kill_stxo_txns [OF T(3), where hstr = hstr and v = v and t = t]
  have "utxos_rel D v0 ?k"
    using rel T by (auto simp: dead_rel_def utxos_rel_def st(2)) (auto simp: kill_stxo_def)
  then have "dead_rel hstr D v0 ?k"
    using rel tx(1) txns_rel_trans [of hstr D "v_txns v0" "v_txns v"] T st
    by (auto simp: dead_rel_def) (simp_all add: kill_stxo_def)
  moreover have kw: "dead_rel hstr D ?k w" using call by (simp add: mark_done_def)
  ultimately have rel': "dead_rel hstr D v0 w" by (rule dead_rel_trans [OF key])
  have subw: "set (v_stxos w) \<subseteq> set (v_stxos ?k)" "set (v_stxos ?k) \<subseteq> set (v_stxos v0)"
    "set (v_stxos ?k) \<subseteq> set (v_stxos v)"
    using kw st sub by (auto simp: dead_rel_def)
  have stable: "dead_row hstr w h" if "dead_row hstr v h" for h
    using dead_row_stable [OF tx(1) that] dead_row_stable [of hstr D ?k w] kw by (simp add: dead_rel_def)
  have "dead_row hstr w (SpendTxid y) \<and> (SpendTxid y = T \<or> txid_clean w (SpendTxid y))"
    if "y \<in> removed v0 w" for y
  proof -
    from that removed_trans [OF subw(2,1)] st(2)
    consider "y = x" | "y \<in> removed v0 v" | "y \<in> removed ?k w" by auto
    then show ?thesis
    proof cases
      case 1
      then show ?thesis using call by (simp add: mark_done_def)
    next
      case 2
      then show ?thesis
        using inv stable txid_clean_stable [of v _ w] subw by (auto simp: mark_loop_inv_def)
    next
      case 3
      then show ?thesis using call by (simp add: mark_done_def)
    qed
  qed
  with rel' show ?thesis by (simp add: mark_loop_inv_def)
qed

lemma length_less_of_subset:
  assumes "keyed key a" "keyed key b" "set b \<subseteq> set a" "x \<in> set a" "x \<notin> set b"
  shows "length b < length a"
proof -
  have "distinct a" "distinct b" using assms(1,2) by (auto simp: keyed_def distinct_map)
  moreover have "set b \<subset> set a" using assms by auto
  ultimately show ?thesis by (metis List.finite_set distinct_card psubset_card_mono)
qed

lemma mark_loop_end:
  assumes inv: "mark_loop_inv hstr D T v v1" and T: "T \<in> D"
    and stxos: "set (v_stxos v1) \<subseteq> set (v_stxos v)"
      "\<forall>x \<in> set (v_stxos v). SpendTxid x = T \<or> op_Hash (stxo_Op x) = T \<longrightarrow> x \<notin> set (v_stxos v1)"
    and us: "set us = {u \<in> set (v_utxos v1). op_Hash (utxo_Op u) \<noteq> T}"
  shows "mark_done hstr D T v (v1\<lparr>v_utxos := us, v_txns := map (set_height (hstr T) (-1) t) (v_txns v1)\<rparr>)"
    (is "mark_done hstr D T v ?w")
proof -
  have rel: "dead_rel hstr D v v1" using inv by (simp add: mark_loop_inv_def)
  have tx: "txns_rel hstr D (v_txns v1) (v_txns ?w)"
    using txns_rel_set_height [OF T] by simp
  have rem: "removed v ?w = removed v v1" by (simp add: removed_def)
  have "utxos_rel D v ?w"
    using rel T by (auto simp: dead_rel_def utxos_rel_def rem us)
  then have "dead_rel hstr D v ?w"
    using rel txns_rel_trans [OF _ tx, of "v_txns v"] by (auto simp: dead_rel_def rem)
  moreover have clean: "txid_clean ?w T"
    using stxos by (auto simp: txid_clean_def)
  moreover have "dead_row hstr ?w T"
    by (auto simp: dead_row_def set_height_def)
  moreover have "dead_row hstr ?w (SpendTxid x) \<and> txid_clean ?w (SpendTxid x)" if "x \<in> removed v ?w" for x
    using that inv dead_row_stable [OF tx] clean by (auto simp: mark_loop_inv_def rem txid_clean_def)
  ultimately show ?thesis by (simp add: mark_done_def us)
qed

context datastore_laws
begin

lemma markStxoAsDead_ok:
  assumes "inv s"
  shows "\<exists>s'. markStxoAsDead ds now x s = (None, s') \<and> inv s' \<and>
    view s' = kill_stxo hstr (time_Unix (Unix now)) x (view s)"
proof -
  obtain s1 where s1: "Stxos_Delete ds x s = (None, s1)" "inv s1"
    "view s1 = (view s)\<lparr>v_stxos := del_key stxo_Op (stxo_Op x) (v_stxos (view s))\<rparr>"
    using Stxos_Delete [OF assms] by blast
  obtain s2 where "Txns_UpdateHeight ds (SpendTxid x) (-1) now s1 = (None, s2)" "inv s2"
    "view s2 = (view s1)\<lparr>v_txns := map (set_height (hstr (SpendTxid x)) (word_of_int (-1)) (time_Unix (Unix now)))
       (v_txns (view s1))\<rparr>"
    using Txns_UpdateHeight [OF s1(2)] by blast
  with s1 show ?thesis by (simp add: markStxoAsDead_def kill_stxo_def)
qed

lemma delete_utxos_ok:
  "inv s \<Longrightarrow> \<exists>s'. delete_utxos ds txid us s = (None, s') \<and> inv s' \<and>
     (\<exists>us'. view s' = (view s)\<lparr>v_utxos := us'\<rparr> \<and>
       set us' = {u \<in> set (v_utxos (view s)). \<not> (\<exists>y \<in> set us. op_Hash (utxo_Op y) = txid \<and> utxo_Op y = utxo_Op u)})"
proof (induction us arbitrary: s)
  case Nil
  then show ?case by (auto intro!: exI [of _ "v_utxos (view s)"])
next
  case (Cons u us)
  obtain s1 where s1: "Utxos_Delete ds u s = (None, s1)" "inv s1"
    "view s1 = (view s)\<lparr>v_utxos := del_key utxo_Op (utxo_Op u) (v_utxos (view s))\<rparr>"
    using Utxos_Delete [OF Cons.prems] by blast
  show ?case
  proof (cases "op_Hash (utxo_Op u) = txid")
    case True
    from Cons.IH [OF s1(2)] s1 True show ?thesis by (fastforce simp: table_simps)
  next
    case False
    from Cons.IH [OF Cons.prems] False show ?thesis by fastforce
  qed
qed

text \<open>One round of the loop, given a recursive call that does its work.\<close>

lemma mark_round:
  assumes "inv s" "mark_loop_inv hstr D T v0 (view s)" "keyed stxo_Op (v_stxos v0)" "dead_closed D v0"
    "T \<in> D" "x \<in> set (v_stxos v0)"
    and rec: "\<And>U s1. inv s1 \<Longrightarrow> U \<in> D \<Longrightarrow> set (v_stxos (view s1)) \<subseteq> set (v_stxos v0) \<Longrightarrow>
      x \<notin> set (v_stxos (view s1)) \<Longrightarrow> \<exists>s'. rec U s1 = Ret (None, s') \<and> inv s' \<and> mark_done hstr D U (view s1) (view s')"
  shows "\<exists>s1 s2. mark_spent ds now T x s = (None, s1) \<and> mark_dependent ds now rec T x s1 = Ret (None, s2) \<and>
    inv s2 \<and> mark_loop_inv hstr D T v0 (view s2) \<and> set (v_stxos (view s2)) \<subseteq> set (v_stxos (view s)) \<and>
    (SpendTxid x = T \<or> op_Hash (stxo_Op x) = T \<longrightarrow> x \<notin> set (v_stxos (view s2)))"
proof -
  let ?t = "time_Unix (Unix now)"
  have "\<exists>s1. mark_spent ds now T x s = (None, s1) \<and> inv s1 \<and> mark_loop_inv hstr D T v0 (view s1) \<and>
      set (v_stxos (view s1)) \<subseteq> set (v_stxos (view s)) \<and> (SpendTxid x = T \<longrightarrow> x \<notin> set (v_stxos (view s1)))"
  proof (cases "SpendTxid x = T")
    case True
    obtain k where k: "markStxoAsDead ds now x s = (None, k)" "inv k" "view k = kill_stxo hstr ?t x (view s)"
      using markStxoAsDead_ok [OF assms(1)] by blast
    obtain s1 where s1: "Utxos_Put ds (stxo_Utxo x) k = (None, s1)" "inv s1"
      "view s1 = (view k)\<lparr>v_utxos := upsert utxo_Op (stxo_Utxo x) (v_utxos (view k))\<rparr>"
      using Utxos_Put [OF k(2)] by blast
    have "view s1 = (kill_stxo hstr ?t x (view s))\<lparr>v_utxos := upsert utxo_Op (stxo_Utxo x) (v_utxos (view s))\<rparr>"
      using s1(3) k(3) by (simp add: kill_stxo_def)
    from loop_inv_spent [OF assms(3,6) True assms(5,2) this] True k s1 show ?thesis
      by (auto simp: mark_spent_def kill_stxo_def table_simps)
  qed (use assms(1,2) in \<open>simp add: mark_spent_def\<close>)
  then obtain s1 where s1: "mark_spent ds now T x s = (None, s1)" "inv s1" "mark_loop_inv hstr D T v0 (view s1)"
    "set (v_stxos (view s1)) \<subseteq> set (v_stxos (view s))" "SpendTxid x = T \<longrightarrow> x \<notin> set (v_stxos (view s1))" by blast
  have "\<exists>s2. mark_dependent ds now rec T x s1 = Ret (None, s2) \<and> inv s2 \<and> mark_loop_inv hstr D T v0 (view s2) \<and>
      set (v_stxos (view s2)) \<subseteq> set (v_stxos (view s1)) \<and>
      (op_Hash (stxo_Op x) = T \<longrightarrow> x \<notin> set (v_stxos (view s2)))"
  proof (cases "op_Hash (stxo_Op x) = T")
    case True
    obtain k where k: "markStxoAsDead ds now x s1 = (None, k)" "inv k" "view k = kill_stxo hstr ?t x (view s1)"
      using markStxoAsDead_ok [OF s1(2)] by blast
    have U: "SpendTxid x \<in> D" using assms(4-6) True by (auto simp: dead_closed_def)
    have sub: "set (v_stxos (view k)) \<subseteq> set (v_stxos (view s1))" "x \<notin> set (v_stxos (view k))"
      by (auto simp: k(3) kill_stxo_def table_simps)
    moreover have "set (v_stxos (view s1)) \<subseteq> set (v_stxos v0)"
      using s1(3) by (simp add: mark_loop_inv_def dead_rel_def)
    ultimately obtain s2 where s2: "rec (SpendTxid x) k = Ret (None, s2)" "inv s2"
      "mark_done hstr D (SpendTxid x) (view k) (view s2)"
      using rec [OF k(2) U] by blast
    have "mark_loop_inv hstr D T v0 (view s2)"
      using loop_inv_dependent [OF assms(3,6) True assms(5) U s1(3)] s2(3) k(3) by metis
    moreover have "set (v_stxos (view s2)) \<subseteq> set (v_stxos (view k))"
      using s2(3) by (simp add: mark_done_def dead_rel_def)
    ultimately show ?thesis using True k(1) s2 sub by (auto simp: mark_dependent_def)
  qed (use s1 in \<open>simp add: mark_dependent_def\<close>)
  with s1 show ?thesis by blast
qed

lemma mark_stxos_ok:
  assumes "keyed stxo_Op (v_stxos v0)" "dead_closed D v0" "T \<in> D"
    and rec: "\<And>x U s1. x \<in> set (v_stxos v0) \<Longrightarrow> inv s1 \<Longrightarrow> U \<in> D \<Longrightarrow>
      set (v_stxos (view s1)) \<subseteq> set (v_stxos v0) \<Longrightarrow> x \<notin> set (v_stxos (view s1)) \<Longrightarrow>
      \<exists>s'. rec U s1 = Ret (None, s') \<and> inv s' \<and> mark_done hstr D U (view s1) (view s')"
  shows "inv s \<Longrightarrow> mark_loop_inv hstr D T v0 (view s) \<Longrightarrow> set xs \<subseteq> set (v_stxos v0) \<Longrightarrow>
    \<exists>s'. mark_stxos ds now rec T xs s = Ret (None, s') \<and> inv s' \<and> mark_loop_inv hstr D T v0 (view s') \<and>
      set (v_stxos (view s')) \<subseteq> set (v_stxos (view s)) \<and>
      (\<forall>x \<in> set xs. SpendTxid x = T \<or> op_Hash (stxo_Op x) = T \<longrightarrow> x \<notin> set (v_stxos (view s')))"
proof (induction xs arbitrary: s)
  case (Cons x xs)
  then obtain s1 s2 where s2: "mark_spent ds now T x s = (None, s1)" "mark_dependent ds now rec T x s1 = Ret (None, s2)"
    "inv s2" "mark_loop_inv hstr D T v0 (view s2)" "set (v_stxos (view s2)) \<subseteq> set (v_stxos (view s))"
    "SpendTxid x = T \<or> op_Hash (stxo_Op x) = T \<longrightarrow> x \<notin> set (v_stxos (view s2))"
    using mark_round [OF Cons.prems(1,2) assms(1-3), of x rec now] rec [of x] by auto
  with Cons.IH [OF s2(3,4)] Cons.prems(3) show ?case by (fastforce simp: s2(1,2))
qed simp

lemma markAsDead_fuel_ok:
  "inv s \<Longrightarrow> dead_closed D (view s) \<Longrightarrow> T \<in> D \<Longrightarrow> length (v_stxos (view s)) < fuel \<Longrightarrow>
   \<exists>s'. markAsDead_fuel fuel ds now T s = Ret (None, s') \<and> inv s' \<and> mark_done hstr D T (view s) (view s')"
proof (induction fuel arbitrary: T s)
  case (Suc fuel)
  let ?v = "view s"
  have key: "keyed stxo_Op (v_stxos (view r))" if "inv r" for r
    using view_ok [OF that] by (simp add: view_ok_def)
  have rec: "\<exists>s'. markAsDead_fuel fuel ds now U s1 = Ret (None, s') \<and> inv s' \<and> mark_done hstr D U (view s1) (view s')"
    if "x \<in> set (v_stxos ?v)" "inv s1" "U \<in> D" "set (v_stxos (view s1)) \<subseteq> set (v_stxos ?v)"
      "x \<notin> set (v_stxos (view s1))" for x U s1
    using Suc.IH [OF that(2) dead_closed_stable [OF Suc.prems(2) that(4)] that(3)]
      length_less_of_subset [OF key [OF Suc.prems(1)] key [OF that(2)] that(4,1,5)] Suc.prems(4) by simp
  have init: "mark_loop_inv hstr D T ?v ?v" by (simp add: mark_loop_inv_def removed_def)
  have "\<exists>s'. mark_stxos ds now (markAsDead_fuel fuel ds now) T (v_stxos ?v) s = Ret (None, s') \<and> inv s' \<and>
      mark_loop_inv hstr D T ?v (view s') \<and> set (v_stxos (view s')) \<subseteq> set (v_stxos ?v) \<and>
      (\<forall>x \<in> set (v_stxos ?v). SpendTxid x = T \<or> op_Hash (stxo_Op x) = T \<longrightarrow> x \<notin> set (v_stxos (view s')))"
    by (rule mark_stxos_ok [OF key [OF Suc.prems(1)] Suc.prems(2,3) _ Suc.prems(1) init subset_refl])
      (rule rec; assumption)
  then obtain s1 where s1: "mark_stxos ds now (markAsDead_fuel fuel ds now) T (v_stxos ?v) s = Ret (None, s1)" "inv s1"
    "mark_loop_inv hstr D T ?v (view s1)" "set (v_stxos (view s1)) \<subseteq> set (v_stxos ?v)"
    "\<forall>x \<in> set (v_stxos ?v). SpendTxid x = T \<or> op_Hash (stxo_Op x) = T \<longrightarrow> x \<notin> set (v_stxos (view s1))"
    by blast
  obtain s2 us where s2: "delete_utxos ds T (v_utxos (view s1)) s1 = (None, s2)" "inv s2"
    "view s2 = (view s1)\<lparr>v_utxos := us\<rparr>" "set us = {u \<in> set (v_utxos (view s1)). op_Hash (utxo_Op u) \<noteq> T}"
    using delete_utxos_ok [OF s1(2), of T "v_utxos (view s1)"] by fastforce
  obtain s3 where s3: "Txns_UpdateHeight ds T (-1) now s2 = (None, s3)" "inv s3"
    "view s3 = (view s2)\<lparr>v_txns := map (set_height (hstr T) (-1) (time_Unix (Unix now))) (v_txns (view s2))\<rparr>"
    using Txns_UpdateHeight [OF s2(2), of T "-1" now] by auto
  have "markAsDead_fuel (Suc fuel) ds now T s = Ret (None, s3)"
    by (simp add: Stxos_GetAll Utxos_GetAll Suc.prems(1) s1(1,2) s2(1) s3(1))
  moreover have "view s3 = (view s1)\<lparr>v_utxos := us,
      v_txns := map (set_height (hstr T) (-1) (time_Unix (Unix now))) (v_txns (view s1))\<rparr>"
    by (simp add: s3(3) s2(3))
  then have "mark_done hstr D T ?v (view s3)"
    using mark_loop_end [OF s1(3) Suc.prems(3) s1(4,5) s2(4)] by simp
  ultimately show ?case using s3(2) by blast
qed simp

text \<open>The stored stxos bound the recursion: more fuel changes nothing.\<close>

lemma markAsDead_ok:
  assumes "inv s"
  shows "\<exists>s'. markAsDead ds now T s = Ret (None, s') \<and> inv s' \<and>
    mark_done hstr (dead_set T (v_stxos (view s))) T (view s) (view s')"
  using markAsDead_fuel_ok [OF assms dead_set_closed dead_set_refl]
  by (simp add: markAsDead_def Stxos_GetAll [OF assms] del: markAsDead_fuel.simps)

end

text \<open>Every descendant is cleaned: its spends are gone and its row is dead.\<close>

lemma mark_done_dead_set:
  assumes "mark_done hstr (dead_set T (v_stxos v)) T v v'" "U \<in> dead_set T (v_stxos v)"
  shows "txid_clean v' U \<and> dead_row hstr v' U"
proof -
  from assms(2) have "(T, U) \<in> (spend_edges (v_stxos v))\<^sup>*" by (simp add: dead_set_def)
  then show ?thesis
  proof induction
    case base
    then show ?case using assms(1) by (simp add: mark_done_def)
  next
    case (step y z)
    then obtain x where x: "x \<in> set (v_stxos v)" "op_Hash (stxo_Op x) = y" "SpendTxid x = z"
      by (auto simp: spend_edges_def)
    then have "x \<in> removed v v'" using step.IH by (auto simp: removed_def txid_clean_def)
    with x assms(1) show ?case by (auto simp: mark_done_def)
  qed
qed

lemma mark_done_stxos:
  assumes "mark_done hstr (dead_set T (v_stxos v)) T v v'"
  shows "set (v_stxos v') = {x \<in> set (v_stxos v). SpendTxid x \<notin> dead_set T (v_stxos v)}"
proof -
  have "dead_rel hstr (dead_set T (v_stxos v)) v v'" using assms by (simp add: mark_done_def)
  then have "set (v_stxos v') \<subseteq> set (v_stxos v)"
    "x \<in> set (v_stxos v) \<Longrightarrow> x \<notin> set (v_stxos v') \<Longrightarrow> SpendTxid x \<in> dead_set T (v_stxos v)" for x
    by (auto simp: dead_rel_def removed_def)
  then show ?thesis using mark_done_dead_set [OF assms] by (auto simp: txid_clean_def)
qed

section \<open>Reorganisations\<close>

lemma txns_rel_mono: "txns_rel hstr D a b \<Longrightarrow> txns_rel hstr UNIV a b"
  by (auto simp: txns_rel_def elim: list_all2_mono)

lemma txns_rel_row:
  assumes "txns_rel hstr D ts ts'" "r' \<in> set ts'"
  shows "\<exists>r \<in> set ts. txn_Txid r' = txn_Txid r \<and> (r' = r \<or> txn_Height r' = -1)"
proof -
  from assms(2) obtain i where i: "i < length ts'" "r' = ts' ! i" by (auto simp: in_set_conv_nth)
  have "ts ! i \<in> set ts" using i(1) list_all2_lengthD [OF assms(1) [unfolded txns_rel_def]] by simp
  with list_all2_nthD2 [OF assms(1) [unfolded txns_rel_def] i(1)] i(2) show ?thesis
    by (intro bexI [of _ "ts ! i"]) auto
qed

context datastore_laws
begin

lemma reorg_loop_ok:
  assumes "e_ds env = ds" "\<And>h. hashFromStr (e_lib env) (hstr h) = Some h"
  shows "inv s \<Longrightarrow> \<forall>t \<in> set ts. \<exists>h. txn_Txid t = hstr h \<Longrightarrow>
    \<exists>s'. reorg_loop env now lastGood ts s = Ret s' \<and> inv s' \<and> txns_rel hstr UNIV (v_txns (view s)) (v_txns (view s')) \<and>
      set (v_stxos (view s')) \<subseteq> set (v_stxos (view s)) \<and>
      (\<forall>t \<in> set ts. \<forall>h. txn_Txid t = hstr h \<and> lastGood <s txn_Height t \<longrightarrow>
         dead_row hstr (view s') h \<and> txid_clean (view s') h)"
proof (induction ts arbitrary: s)
  case (Cons t ts)
  then obtain h where h: "txn_Txid t = hstr h" by auto
  show ?case
  proof (cases "lastGood <s txn_Height t")
    case True
    obtain s1 where s1: "markAsDead ds now h s = Ret (None, s1)" "inv s1"
      "mark_done hstr (dead_set h (v_stxos (view s))) h (view s) (view s1)"
      using markAsDead_ok [OF Cons.prems(1)] by blast
    from s1(3) have rel: "txns_rel hstr UNIV (v_txns (view s)) (v_txns (view s1))"
        "set (v_stxos (view s1)) \<subseteq> set (v_stxos (view s))"
        "dead_row hstr (view s1) h" "txid_clean (view s1) h"
      by (auto simp: mark_done_def dead_rel_def dest: txns_rel_mono)
    from Cons.IH [OF s1(2)] Cons.prems(2) obtain s' where s': "reorg_loop env now lastGood ts s1 = Ret s'" "inv s'"
      "txns_rel hstr UNIV (v_txns (view s1)) (v_txns (view s'))" "set (v_stxos (view s')) \<subseteq> set (v_stxos (view s1))"
      "\<forall>t \<in> set ts. \<forall>h. txn_Txid t = hstr h \<and> lastGood <s txn_Height t \<longrightarrow>
         dead_row hstr (view s') h \<and> txid_clean (view s') h" by auto
    have "dead_row hstr (view s') h'" "txid_clean (view s') h'" if "txn_Txid t = hstr h'" for h'
      using hstr_inj [OF Cons.prems(1)] that h rel(3,4) dead_row_stable [OF s'(3)] txid_clean_stable [OF _ s'(4)]
      by metis+
    then show ?thesis
      using True h s1(1) s' rel txns_rel_trans [OF rel(1) s'(3)] assms
      by (auto intro!: exI [of _ s'])
  next
    case False
    with Cons show ?thesis by simp
  qed
qed simp

lemma processReorg_ok:
  assumes "inv s" "e_ds env = ds" "\<And>h. hashFromStr (e_lib env) (hstr h) = Some h" "0 \<le>s lastGood"
  shows "\<exists>s'. processReorg env now lastGood s = Ret (None, s') \<and> inv s' \<and>
    (\<forall>r \<in> set (v_txns (view s')). txn_Height r \<le>s lastGood) \<and>
    (\<forall>r \<in> set (v_txns (view s)). \<forall>h. txn_Txid r = hstr h \<and> lastGood <s txn_Height r \<longrightarrow>
       dead_row hstr (view s') h \<and> txid_clean (view s') h)"
proof -
  have ids: "\<forall>t \<in> set (rev (v_txns (view s))). \<exists>h. txn_Txid t = hstr h" using Txns_id [OF assms(1)] by simp
  from reorg_loop_ok [OF assms(2,3,1) ids, of now lastGood] obtain s' where
    s': "reorg_loop env now lastGood (rev (v_txns (view s))) s = Ret s'" "inv s'"
    "txns_rel hstr UNIV (v_txns (view s)) (v_txns (view s'))"
    "\<forall>t \<in> set (v_txns (view s)). \<forall>h. txn_Txid t = hstr h \<and> lastGood <s txn_Height t \<longrightarrow>
       dead_row hstr (view s') h \<and> txid_clean (view s') h" by auto
  have "txn_Height r \<le>s lastGood" if r: "r \<in> set (v_txns (view s'))" for r
  proof (rule ccontr)
    assume "\<not> txn_Height r \<le>s lastGood"
    then have gt: "lastGood <s txn_Height r" by (simp add: word_sle_eq word_sless_alt)
    moreover have "\<not> lastGood <s -1" using assms(4) by (simp add: word_sle_eq word_sless_alt)
    ultimately have "txn_Height r \<noteq> -1" by auto
    with txns_rel_row [OF s'(3) r] have "r \<in> set (v_txns (view s))" by auto
    moreover from this ids obtain h where "txn_Txid r = hstr h" by auto
    ultimately have "dead_row hstr (view s') h" using s'(4) gt by blast
    with r \<open>txn_Txid r = hstr h\<close> \<open>txn_Height r \<noteq> -1\<close> show False by (simp add: dead_row_def)
  qed
  with s' show ?thesis by (auto simp: processReorg_def assms(2) Txns_GetAll [OF assms(1)])
qed

end

section \<open>Properties over the SQLite store\<close>

text \<open>Property C6. \<open>markAsDead\<close> returns, and undoes exactly the transaction and its descendants: the spent
  outputs that remain are those no dead transaction spends, every input of a dead transaction that a
  living transaction created is back among the unspent outputs beside those already there, no output of
  the transaction itself stays unspent, the rows of dead transactions have the height -1 and all other
  rows are as before.\<close>

theorem markAsDead_correct:
  assumes "sql_inv lib db" "D = dead_set T (fst (StxoDB_GetAll lib db))"
  shows "\<exists>db'. markAsDead (SQLiteDatastore lib) now T db = Ret (None, db') \<and> sql_inv lib db' \<and>
    set (fst (StxoDB_GetAll lib db')) = {x \<in> set (fst (StxoDB_GetAll lib db)). SpendTxid x \<notin> D} \<and>
    (\<forall>u. op_Hash (utxo_Op u) \<notin> D \<longrightarrow>
      (u \<in> set (fst (UtxoDB_GetAll lib db')) \<longleftrightarrow>
        (\<exists>x \<in> set (fst (StxoDB_GetAll lib db)). SpendTxid x \<in> D \<and> stxo_Utxo x = u) \<or>
        u \<in> set (fst (UtxoDB_GetAll lib db)) \<and>
        (\<forall>x \<in> set (fst (StxoDB_GetAll lib db)). SpendTxid x \<in> D \<longrightarrow> stxo_Op x \<noteq> utxo_Op u))) \<and>
    (\<forall>u \<in> set (fst (UtxoDB_GetAll lib db')). op_Hash (utxo_Op u) \<noteq> T) \<and>
    (\<forall>h \<in> D. \<forall>r \<in> set (fst (TxnsDB_GetAll lib True db')). txn_Txid r = hashString lib h \<longrightarrow> txn_Height r = -1) \<and>
    filter (\<lambda>r. txn_Txid r \<notin> hashString lib ` D) (fst (TxnsDB_GetAll lib True db')) =
      filter (\<lambda>r. txn_Txid r \<notin> hashString lib ` D) (fst (TxnsDB_GetAll lib True db))"
proof -
  have v: "fst (StxoDB_GetAll lib d) = v_stxos (sql_view lib d)" "fst (UtxoDB_GetAll lib d) = v_utxos (sql_view lib d)"
    for d by (simp_all add: sql_view_def)
  have t: "fst (TxnsDB_GetAll lib True d) = v_txns (sql_view lib d)" if "sql_inv lib d" for d
    by (simp add: sql_Txns_GetAll [OF that])
  obtain db' where db': "markAsDead (SQLiteDatastore lib) now T db = Ret (None, db')" "sql_inv lib db'"
    and md: "mark_done (hashString lib) D T (sql_view lib db) (sql_view lib db')"
    using sqlite.markAsDead_ok [OF assms(1)] assms(2) v by metis
  note st = mark_done_stxos [OF md [unfolded assms(2) v], folded v, folded assms(2)]
  have rem: "removed (sql_view lib db) (sql_view lib db') = {x \<in> set (fst (StxoDB_GetAll lib db)). SpendTxid x \<in> D}"
    using st v by (auto simp: removed_def)
  have "txns_rel (hashString lib) D ts ts' \<Longrightarrow>
      filter (\<lambda>r. txn_Txid r \<notin> hashString lib ` D) ts' = filter (\<lambda>r. txn_Txid r \<notin> hashString lib ` D) ts" for ts ts'
    unfolding txns_rel_def by (induction rule: list_all2_induct) auto
  moreover have "txns_rel (hashString lib) D (v_txns (sql_view lib db)) (v_txns (sql_view lib db'))"
    "utxos_rel D (sql_view lib db) (sql_view lib db')"
    using md by (auto simp: mark_done_def dead_rel_def)
  moreover have "\<forall>h \<in> D. dead_row (hashString lib) (sql_view lib db') h"
    using mark_done_dead_set [OF md [unfolded assms(2) v]] by (auto simp: assms(2) v)
  ultimately show ?thesis
    using db' st md unfolding utxos_rel_def rem
    by (intro exI [of _ db']) (auto simp: v t assms(1) mark_done_def dead_row_def)
qed

definition ex_stxo :: Stxo where
  "ex_stxo = \<lparr>stxo_Utxo = ex_utxo, SpendHeight = 120, SpendTxid = 9\<rparr>"

definition ex_deaddb :: sqldb where
  "ex_deaddb = snd (StxoDB_Put ex_lib ex_stxo (initDatabaseTables (\<lambda>n. 7)))"

lemma ex_deaddb_inv: "sql_inv ex_lib ex_deaddb"
  using writeD [OF sql_Stxos_Put [OF sql_inv_init [OF ex_lib_ok]]] by (simp add: ex_deaddb_def)

lemma ex_deaddb_stxos: "fst (StxoDB_GetAll ex_lib ex_deaddb) = [ex_stxo]"
  using sql_Stxos_Put [OF sql_inv_init [OF ex_lib_ok], of ex_stxo "\<lambda>n. 7"]
  by (auto simp: ex_deaddb_def sql_view_def initDatabaseTables_def StxoDB_GetAll_def upsert_def
      List.map_filter_simps)

theorem markAsDead_correct_witness:
  "\<exists>db'. markAsDead (SQLiteDatastore ex_lib) 0 9 ex_deaddb = Ret (None, db') \<and>
     set (fst (StxoDB_GetAll ex_lib db')) = {} \<and> ex_utxo \<in> set (fst (UtxoDB_GetAll ex_lib db'))"
proof -
  have "(9 :: hash, U) \<in> {(5, 9)}\<^sup>* \<Longrightarrow> U = 9" for U :: hash
    by (erule converse_rtranclE) simp_all
  then have D: "dead_set 9 (fst (StxoDB_GetAll ex_lib ex_deaddb)) = {9}"
    by (auto simp: dead_set_def spend_edges_def ex_deaddb_stxos ex_stxo_def ex_utxo_def)
  have "SpendTxid ex_stxo = 9" "stxo_Utxo ex_stxo = ex_utxo" "op_Hash (utxo_Op ex_utxo) \<notin> {9}"
    by (simp_all add: ex_stxo_def ex_utxo_def)
  moreover obtain db' where "markAsDead (SQLiteDatastore ex_lib) 0 9 ex_deaddb = Ret (None, db')"
    "set (fst (StxoDB_GetAll ex_lib db')) = {x \<in> set [ex_stxo]. SpendTxid x \<notin> {9}}"
    "\<forall>u. op_Hash (utxo_Op u) \<notin> {9} \<longrightarrow>
      (u \<in> set (fst (UtxoDB_GetAll ex_lib db')) \<longleftrightarrow>
        (\<exists>x \<in> set [ex_stxo]. SpendTxid x \<in> {9} \<and> stxo_Utxo x = u) \<or>
        u \<in> set (fst (UtxoDB_GetAll ex_lib ex_deaddb)) \<and>
        (\<forall>x \<in> set [ex_stxo]. SpendTxid x \<in> {9} \<longrightarrow> stxo_Op x \<noteq> utxo_Op u))"
    using markAsDead_correct [OF ex_deaddb_inv D [symmetric], of 0, unfolded ex_deaddb_stxos] by blast
  ultimately show ?thesis by (intro exI [of _ db']) simp
qed

text \<open>Property C21. After a reorganisation to the height \<open>lastGood\<close> no stored transaction is above that height,
  and every transaction that was above it is dead with all its spends undone.\<close>

theorem processReorg_correct:
  assumes "sql_inv lib db" "e_ds env = SQLiteDatastore lib" "e_lib env = lib" "0 \<le>s lastGood"
  shows "\<exists>db'. processReorg env now lastGood db = Ret (None, db') \<and> sql_inv lib db' \<and>
    (\<forall>r \<in> set (fst (TxnsDB_GetAll lib True db')). txn_Height r \<le>s lastGood) \<and>
    (\<forall>r \<in> set (fst (TxnsDB_GetAll lib True db)). \<forall>h. txn_Txid r = hashString lib h \<and> lastGood <s txn_Height r \<longrightarrow>
       (\<forall>r' \<in> set (fst (TxnsDB_GetAll lib True db')). txn_Txid r' = txn_Txid r \<longrightarrow> txn_Height r' = -1) \<and>
       (\<forall>x \<in> set (fst (StxoDB_GetAll lib db')). SpendTxid x \<noteq> h \<and> op_Hash (stxo_Op x) \<noteq> h))"
proof -
  have t: "fst (TxnsDB_GetAll lib True d) = v_txns (sql_view lib d)" if "sql_inv lib d" for d
    by (simp add: sql_Txns_GetAll [OF that])
  have v: "fst (StxoDB_GetAll lib d) = v_stxos (sql_view lib d)" for d by (simp add: sql_view_def)
  have "hashFromStr (e_lib env) (hashString lib h) = Some h" for h
    using sql_invD(1) [OF assms(1)] assms(3) by (simp add: wire_ok_def)
  from sqlite.processReorg_ok [OF assms(1,2) this assms(4), of now] obtain db' where
    "processReorg env now lastGood db = Ret (None, db')" "sql_inv lib db'"
    "\<forall>r \<in> set (v_txns (sql_view lib db')). txn_Height r \<le>s lastGood"
    "\<forall>r \<in> set (v_txns (sql_view lib db)). \<forall>h. txn_Txid r = hashString lib h \<and> lastGood <s txn_Height r \<longrightarrow>
       dead_row (hashString lib) (sql_view lib db') h \<and> txid_clean (sql_view lib db') h" by blast
  then show ?thesis
    by (intro exI [of _ db']) (auto simp: v t assms(1) dead_row_def txid_clean_def)
qed

definition ex_sl :: script_lib where
  "ex_sl = \<lparr>CheckTransactionSanity = (\<lambda>_. None), PayToAddrScript = (\<lambda>a. Some (118 # ScriptAddress a)),
     ExtractPkScriptAddrs = (\<lambda>b. case b of
         [] \<Rightarrow> None | c # rest \<Rightarrow> if c = 118 then Some ([\<lparr>ScriptAddress = rest, EncodeAddress = []\<rparr>], 1) else Some ([], 0))\<rparr>"

definition ex_env :: "(sqldb, u32 list) ts_env" where
  "ex_env = \<lparr>e_ds = SQLiteDatastore ex_lib, e_lib = ex_lib, e_sl = ex_sl, e_hd = ex_hd, e_km = ex_km, e_order = [0, 1]\<rparr>"

theorem processReorg_correct_witness:
  "\<exists>db'. processReorg ex_env 0 100 ex_deaddb = Ret (None, db') \<and> sql_inv ex_lib db' \<and>
    (\<forall>r \<in> set (fst (TxnsDB_GetAll ex_lib True db')). txn_Height r \<le>s 100)"
proof -
  have "(0 :: u32) \<le>s 100" by (simp add: word_sle_eq)
  from processReorg_correct [OF ex_deaddb_inv _ _ this, of ex_env 0] show ?thesis
    by (auto simp: ex_env_def)
qed

text \<open>The in-memory ids keep the height from before a reorganisation: when the block chain comes back to
  a transaction that was confirmed, \<open>Ingest\<close> takes it for one already processed and leaves it dead.\<close>

theorem reorg_then_Ingest_ignored:
  assumes "sql_inv lib db" "e_ds env = SQLiteDatastore lib" "e_lib env = lib" "0 \<le>s lastGood"
    and "CheckTransactionSanity (e_sl env) tx = None"
    and "txids ts (hashString lib (txHash lib tx)) = Some h" "lastGood <s h"
    and "row \<in> set (fst (TxnsDB_GetAll lib True db))" "txn_Txid row = hashString lib (txHash lib tx)" "txn_Height row = h"
  shows "\<exists>db'. processReorg env now lastGood db = Ret (None, db') \<and>
    Ingest env now' tx height t ts db' = Ret ((0, None), ts, db', []) \<and>
    (\<forall>r \<in> set (fst (TxnsDB_GetAll lib True db')). txn_Txid r = hashString lib (txHash lib tx) \<longrightarrow> txn_Height r = -1)"
proof -
  obtain db' where db': "processReorg env now lastGood db = Ret (None, db')"
    "\<forall>r \<in> set (v_txns (sql_view lib db)). \<forall>h. txn_Txid r = hashString lib h \<and> lastGood <s txn_Height r \<longrightarrow>
       dead_row (hashString lib) (sql_view lib db') h \<and> txid_clean (sql_view lib db') h" "sql_inv lib db'"
    using sqlite.processReorg_ok [OF assms(1,2) _ assms(4), of now] sql_invD(1) [OF assms(1)] assms(3)
    by (auto simp: wire_ok_def)
  have "0 <s h" using assms(4,7) by (simp add: word_sle_eq word_sless_alt)
  then have "Ingest env now' tx height t ts db' = Ret ((0, None), ts, db', [])"
    by (simp add: Ingest_def assms(3,5,6))
  moreover have "dead_row (hashString lib) (sql_view lib db') (txHash lib tx)"
    using db'(2) assms(7-10) by (auto simp: sql_Txns_GetAll [OF assms(1)])
  ultimately show ?thesis using db' by (auto simp: sql_Txns_GetAll [OF db'(3)] dead_row_def)
qed

definition ex_txdb :: sqldb where
  "ex_txdb = snd (TxnsDB_Put (encodeTx ex_lib ex_tx) (txid_of ex_lib (encodeTx ex_lib ex_tx)) 10 120 30 False
     (initDatabaseTables (\<lambda>n. 7)))"

definition ex_row :: Txn where
  "ex_row = new_txn (txid_of ex_lib (encodeTx ex_lib ex_tx)) (encodeTx ex_lib ex_tx) 10 120 30 False"

lemma ex_txdb: "sql_inv ex_lib ex_txdb" "ex_row \<in> set (fst (TxnsDB_GetAll ex_lib True ex_txdb))"
proof -
  note put = sql_Txns_Put [OF sql_inv_init [OF ex_lib_ok], of "encodeTx ex_lib ex_tx" 10 120 30 False "\<lambda>n. 7",
      folded ex_row_def]
  show inv: "sql_inv ex_lib ex_txdb" using put by (auto simp: ex_txdb_def)
  show "ex_row \<in> set (fst (TxnsDB_GetAll ex_lib True ex_txdb))"
    using put by (auto simp: sql_Txns_GetAll [OF inv] ex_txdb_def [symmetric] table_simps)
      (auto simp: ex_txdb_def upsert_def)
qed

definition ex_ts :: TxStore where
  "ex_ts = \<lparr>adrs = [], watchedScripts = [], txids = [hashString ex_lib (txHash ex_lib ex_tx) \<mapsto> 120],
     showEveryTx = (\<lambda>_. None), listeners = [], additionalFilters = []\<rparr>"

theorem reorg_then_Ingest_ignored_witness:
  "\<exists>db'. processReorg ex_env 0 100 ex_txdb = Ret (None, db') \<and>
    Ingest ex_env 0 ex_tx 130 50 ex_ts db' = Ret ((0, None), ex_ts, db', []) \<and>
    (\<forall>r \<in> set (fst (TxnsDB_GetAll ex_lib True db')).
      txn_Txid r = hashString ex_lib (txHash ex_lib ex_tx) \<longrightarrow> txn_Height r = -1)"
proof (rule reorg_then_Ingest_ignored [OF ex_txdb(1), where h = 120, OF _ _ _ _ _ _ ex_txdb(2)])
  show "txn_Txid ex_row = hashString ex_lib (txHash ex_lib ex_tx)"
    using txid_of_encode [OF ex_lib_ok] by (simp add: ex_row_def new_txn_def)
qed (simp_all add: ex_env_def ex_sl_def ex_ts_def ex_row_def new_txn_def word_sle_eq word_sless_alt)

end
