(* ===== verification/Tx_Ingest.thy ===== *)
theory Tx_Ingest
  imports Tx_Dead
begin

text \<open>
  What \<open>Ingest\<close> of \<^verbatim>\<open>src/txstore.go\<close> does to the wallet's tables.  The specification is given by the
  outputs a transaction adds (\<open>output_puts\<close>) and the inputs it removes; the lemmas follow the loops
  of the code over any datastore that satisfies the contract.
\<close>

section \<open>Specification\<close>

definition own_puts :: "bytes list \<Rightarrow> hash \<Rightarrow> i32 \<Rightarrow> nat \<times> TxOut \<Rightarrow> Utxo list" where
  "own_puts scripts sha height = (\<lambda>(i, o1).
     if PkScript o1 \<in> set scripts then [new_utxo sha i height o1 False] else [])"

definition watched_puts :: "bytes list \<Rightarrow> hash \<Rightarrow> i32 \<Rightarrow> nat \<times> TxOut \<Rightarrow> Utxo list" where
  "watched_puts ws sha height = (\<lambda>(i, o1).
     map (\<lambda>_. new_utxo sha i height o1 True) (filter (\<lambda>w. PkScript o1 = w) ws))"

definition output_puts :: "bytes list \<Rightarrow> bytes list \<Rightarrow> hash \<Rightarrow> i32 \<Rightarrow> (nat \<times> TxOut) list \<Rightarrow> Utxo list" where
  "output_puts scripts ws sha height outs =
     concat (map (\<lambda>p. own_puts scripts sha height p @ watched_puts ws sha height p) outs)"

text \<open>The spendable balance, as the sum of 64-bit values.\<close>

definition balance :: "Utxo list \<Rightarrow> i64" where
  "balance us = sum_list (map utxo_Value (filter (\<lambda>u. \<not> WatchOnly u) us))"

definition input_ops :: "MsgTx \<Rightarrow> OutPoint set" where
  "input_ops tx = PreviousOutPoint ` set (tx_TxIn tx)"

section \<open>Keys are the only other change\<close>

text \<open>Two states with the same tables except for the keys.\<close>

definition same_but_keys :: "wview \<Rightarrow> wview \<Rightarrow> bool" where
  "same_but_keys v v' \<longleftrightarrow> v_utxos v' = v_utxos v \<and> v_stxos v' = v_stxos v \<and> v_txns v' = v_txns v \<and>
     v_watched v' = v_watched v"

lemma same_but_keys_refl [simp]: "same_but_keys v v"
  by (simp add: same_but_keys_def)

lemma same_but_keys_trans: "same_but_keys a b \<Longrightarrow> same_but_keys b c \<Longrightarrow> same_but_keys a c"
  by (simp add: same_but_keys_def)

context datastore_laws
begin

lemma put_key_frame:
  assumes "inv s" "put_key ds kl p i k s = (r, s')"
  shows "inv s' \<and> same_but_keys (view s) (view s')"
proof (cases "hd_Address kl k")
  case None
  with assms show ?thesis by (simp add: put_key_def)
next
  case (Some addr)
  show ?thesis
  proof (cases "ScriptAddress addr \<in> kr_script ` set (v_keys (view s))")
    case True
    with assms Some show ?thesis by (simp add: put_key_def Keys_Put_dup)
  next
    case False
    from put_key_new [OF assms(1) Some False, of p i] assms(2) show ?thesis
      by (auto simp: same_but_keys_def)
  qed
qed

lemma GetFreshKey_frame:
  "inv s \<Longrightarrow> GetFreshKey ds kl km p s = Some (r, s') \<Longrightarrow> inv s' \<and> same_but_keys (view s) (view s')"
  using put_key_frame by (fastforce simp: GetFreshKey_def split: prod.splits option.splits)

lemma fresh_keys_frame:
  "inv s \<Longrightarrow> fresh_keys ds kl km p n s = Some (r, s') \<Longrightarrow> inv s' \<and> same_but_keys (view s) (view s')"
proof (induction n arbitrary: s)
  case (Suc n)
  then show ?case
    using GetFreshKey_frame [OF Suc.prems(1), of kl km p]
    by (auto split: option.splits prod.splits go.splits intro: same_but_keys_trans)
qed simp

lemma lookahead_loop_frame:
  "inv s \<Longrightarrow> lookahead_loop ds kl km w order s = Some (r, s') \<Longrightarrow> inv s' \<and> same_but_keys (view s) (view s')"
proof (induction order arbitrary: s)
  case (Cons p order)
  from Cons.prems(2) consider "lookahead_loop ds kl km w order s = Some (r, s')"
    | n s1 where "fresh_keys ds kl km p n s = Some (Ok (), s1)" "lookahead_loop ds kl km w order s1 = Some (r, s')"
    | n where "fresh_keys ds kl km p n s = Some (r, s')"
    by (auto split: option.splits if_splits prod.splits go.splits)
  then show ?case
  proof cases
    case 1
    then show ?thesis using Cons.IH [OF Cons.prems(1)] by blast
  next
    case (2 n s1)
    then show ?thesis
      using fresh_keys_frame [OF Cons.prems(1) 2(1)] Cons.IH [of s1] same_but_keys_trans by blast
  next
    case (3 n)
    then show ?thesis using fresh_keys_frame [OF Cons.prems(1)] by blast
  qed
qed simp

lemma MarkKeyAsUsed_frame:
  assumes "inv s" "MarkKeyAsUsed ds kl km order sa s = Some (r, s')"
  shows "inv s' \<and> same_but_keys (view s) (view s')"
proof -
  obtain s1 where s1: "Keys_MarkKeyAsUsed ds sa s = (None, s1)" "inv s1"
    "view s1 = (view s)\<lparr>v_keys := map (mark_used sa) (v_keys (view s))\<rparr>"
    using Keys_MarkKeyAsUsed [OF assms(1)] by blast
  then have "same_but_keys (view s) (view s1)" by (simp add: same_but_keys_def)
  moreover have "lookahead_loop ds kl km (Keys_GetLookaheadWindows ds s1) order s1 = Some (r, s')"
    using assms(2) by (simp add: MarkKeyAsUsed_def lookahead_def s1(1))
  ultimately show ?thesis using lookahead_loop_frame [OF s1(2)] same_but_keys_trans by blast
qed

section \<open>The loop over the outputs\<close>

lemma ingest_own_ok:
  assumes "e_ds env = ds" "inv (ing_s a)" "ingest_own env sha height i txout a = Ret a'"
  shows "inv (ing_s a') \<and> ing_value a' = ing_value a + txout_Value txout \<and>
    same_but_keys ((view (ing_s a))\<lparr>v_utxos :=
      upsert utxo_Op (new_utxo sha i height txout False) (v_utxos (view (ing_s a)))\<rparr>) (view (ing_s a'))"
proof -
  let ?u = "new_utxo sha i height txout False"
  from assms obtain sa r s1 where s1: "MarkKeyAsUsed ds (e_hd env) (e_km env) (e_order env) sa (ing_s a) = Some (r, s1)"
    "a' = a\<lparr>ing_value := ing_value a + utxo_Value ?u, ing_hits := ing_hits a + 1, ing_s := snd (Utxos_Put ds ?u s1)\<rparr>"
    by (auto simp: ingest_own_def Let_def split: option.splits prod.splits go.splits)
  from MarkKeyAsUsed_frame [OF assms(2) s1(1)] have f: "inv s1" "same_but_keys (view (ing_s a)) (view s1)" by auto
  with s1(2) show ?thesis
    by (simp add: same_but_keys_def) (simp add: new_utxo_def)
qed

lemma ingest_watched_ok:
  assumes "e_ds env = ds"
  shows "inv (ing_s a) \<Longrightarrow> a' = ingest_watched env sha height i txout ws a \<Longrightarrow>
    inv (ing_s a') \<and> ing_value a' = ing_value a \<and>
    view (ing_s a') = (view (ing_s a))\<lparr>v_utxos :=
      fold (upsert utxo_Op) (watched_puts ws sha height (i, txout)) (v_utxos (view (ing_s a)))\<rparr>"
proof (induction ws arbitrary: a a')
  case (Cons w ws)
  let ?a = "if PkScript txout = w
    then a\<lparr>ing_s := snd (Utxos_Put (e_ds env) (new_utxo sha i height txout True) (ing_s a)), ing_watch := True\<rparr> else a"
  have "a' = ingest_watched env sha height i txout ws ?a"
    using Cons.prems(2) by (simp add: ingest_watched_def)
  moreover have "inv (ing_s ?a)" using Cons.prems(1) assms by simp
  ultimately show ?case
    using Cons.IH [of ?a a'] Cons.prems(1) assms by (auto simp: watched_puts_def)
qed (simp add: ingest_watched_def watched_puts_def)

lemma ingest_output_ok:
  assumes "e_ds env = ds" "inv (ing_s a)" "ingest_output env ts scripts sha height i txout a = Ret a'"
  shows "inv (ing_s a') \<and>
    ing_value a' = ing_value a + (if PkScript txout \<in> set scripts then txout_Value txout else 0) \<and>
    same_but_keys ((view (ing_s a))\<lparr>v_utxos := fold (upsert utxo_Op)
      (own_puts scripts sha height (i, txout) @ watched_puts (watchedScripts ts) sha height (i, txout))
      (v_utxos (view (ing_s a)))\<rparr>) (view (ing_s a'))"
proof -
  from assms(3) obtain a1 where a1:
    "(if PkScript txout \<in> set scripts then ingest_own env sha height i txout a else Ret a) = Ret a1"
    "ing_s a' = ing_s (ingest_watched env sha height i txout (watchedScripts ts) a1)"
    "ing_value a' = ing_value (ingest_watched env sha height i txout (watchedScripts ts) a1)"
    by (auto simp: ingest_output_def run_bind_Ret Let_def split: go.splits)
  have own: "inv (ing_s a1) \<and> ing_value a1 = ing_value a + (if PkScript txout \<in> set scripts then txout_Value txout else 0) \<and>
      same_but_keys ((view (ing_s a))\<lparr>v_utxos := fold (upsert utxo_Op) (own_puts scripts sha height (i, txout))
        (v_utxos (view (ing_s a)))\<rparr>) (view (ing_s a1))"
    using ingest_own_ok [OF assms(1,2)] a1(1) assms(2) by (auto simp: own_puts_def split: if_splits)
  from ingest_watched_ok [OF assms(1) _ refl] own
  have w: "inv (ing_s a')" "ing_value a' = ing_value a1"
    "view (ing_s a') = (view (ing_s a1))\<lparr>v_utxos :=
      fold (upsert utxo_Op) (watched_puts (watchedScripts ts) sha height (i, txout)) (v_utxos (view (ing_s a1)))\<rparr>"
    using a1(2,3) by auto
  with own show ?thesis by (simp add: same_but_keys_def)
qed

lemma ingest_outputs_ok:
  assumes "e_ds env = ds"
  shows "inv (ing_s a) \<Longrightarrow> ingest_outputs env ts scripts sha height i outs a = Ret a' \<Longrightarrow>
    inv (ing_s a') \<and>
    ing_value a' = ing_value a + sum_list (map txout_Value (filter (\<lambda>o1. PkScript o1 \<in> set scripts) outs)) \<and>
    same_but_keys ((view (ing_s a))\<lparr>v_utxos := fold (upsert utxo_Op)
      (output_puts scripts (watchedScripts ts) sha height (enumerate i outs)) (v_utxos (view (ing_s a)))\<rparr>)
      (view (ing_s a'))"
proof (induction outs arbitrary: i a)
  case (Cons txout outs)
  then obtain a1 where a1: "ingest_output env ts scripts sha height i txout a = Ret a1"
    "ingest_outputs env ts scripts sha height (Suc i) outs a1 = Ret a'"
    by (auto simp: run_bind_Ret)
  note one = ingest_output_ok [OF assms Cons.prems(1) a1(1)]
  note rest = Cons.IH [OF _ a1(2)]
  from one rest show ?case
    by (simp add: same_but_keys_def output_puts_def algebra_simps)
qed (simp add: output_puts_def)

end

section \<open>Balances\<close>

lemma outPointsEqual_iff [simp]: "outPointsEqual a b \<longleftrightarrow> a = b"
  by (simp add: outPointsEqual_def OutPoint_eq_iff)

lemma balance_Nil [simp]: "balance [] = 0"
  by (simp add: balance_def)

lemma balance_Cons [simp]: "balance (u # us) = (if WatchOnly u then 0 else utxo_Value u) + balance us"
  by (simp add: balance_def)

lemma balance_append [simp]: "balance (us @ vs) = balance us + balance vs"
  by (simp add: balance_def)

lemma balance_del_key:
  assumes "keyed utxo_Op us" "u \<in> set us"
  shows "balance (del_key utxo_Op (utxo_Op u) us) = balance us - (if WatchOnly u then 0 else utxo_Value u)"
  using assms
proof (induction us)
  case (Cons x us)
  show ?case
  proof (cases "x = u")
    case True
    with Cons.prems have "utxo_Op u \<notin> utxo_Op ` set us" by (auto simp: keyed_def)
    then have "del_key utxo_Op (utxo_Op u) (x # us) = us"
      using True by (auto simp: del_key_def filter_id_conv) (metis image_eqI)
    with True show ?thesis by simp
  next
    case False
    with Cons.prems have "utxo_Op x \<noteq> utxo_Op u" by (auto simp: keyed_def image_iff)
    with False Cons show ?thesis by (simp add: del_key_def keyed_def)
  qed
qed simp

lemma balance_upsert_new:
  "utxo_Op u \<notin> utxo_Op ` set us \<Longrightarrow>
   balance (upsert utxo_Op u us) = balance us + (if WatchOnly u then 0 else utxo_Value u)"
proof -
  assume "utxo_Op u \<notin> utxo_Op ` set us"
  then have "filter (\<lambda>y. utxo_Op y \<noteq> utxo_Op u) us = us" by (auto simp: filter_id_conv) (metis image_eqI)
  then show ?thesis by (simp add: upsert_def)
qed

lemma balance_upsert_watch:
  assumes "keyed utxo_Op us" "WatchOnly u" "\<And>x. x \<in> set us \<Longrightarrow> utxo_Op x = utxo_Op u \<Longrightarrow> WatchOnly x"
  shows "balance (upsert utxo_Op u us) = balance us"
proof -
  have "balance (filter (\<lambda>y. utxo_Op y \<noteq> utxo_Op u) us) = balance us"
    using assms(3) by (induction us) auto
  with assms(2) show ?thesis by (simp add: upsert_def)
qed

lemma pick_utxo_None: "pick_utxo p us = None \<longleftrightarrow> p \<notin> utxo_Op ` set us"
  by (induction us) auto

lemma pick_utxo_Some:
  "pick_utxo p us = Some (u, rest) \<Longrightarrow> keyed utxo_Op us \<Longrightarrow>
   u \<in> set us \<and> utxo_Op u = p \<and> rest = del_key utxo_Op p us"
proof (induction us arbitrary: rest)
  case (Cons x us)
  show ?case
  proof (cases "p = utxo_Op x")
    case True
    with Cons.prems have "p \<notin> utxo_Op ` set us" by (auto simp: keyed_def)
    then have "del_key utxo_Op p us = us" by simp
    with True Cons.prems show ?thesis by (simp add: del_key_def)
  next
    case False
    with Cons.prems obtain r where r: "pick_utxo p us = Some (u, r)" "rest = x # r" by auto
    then show ?thesis using Cons.IH [OF r(1)] Cons.prems(2) False by (auto simp: keyed_def del_key_def)
  qed
qed simp

text \<open>New outputs at outpoints the table does not hold add their values.\<close>

lemma balance_watched_puts:
  "keyed utxo_Op us \<Longrightarrow> (\<And>x. x \<in> set us \<Longrightarrow> utxo_Op x = \<lparr>op_Hash = sha, op_Index = of_nat i\<rparr> \<Longrightarrow> WatchOnly x) \<Longrightarrow>
   balance (fold (upsert utxo_Op) (watched_puts ws sha height (i, o1)) us) = balance us"
proof (induction ws arbitrary: us)
  case (Cons w ws)
  let ?u = "new_utxo sha i height o1 True"
  show ?case
  proof (cases "PkScript o1 = w")
    case True
    then have "watched_puts (w # ws) sha height (i, o1) = ?u # watched_puts ws sha height (i, o1)"
      by (simp add: watched_puts_def)
    moreover have "balance (upsert utxo_Op ?u us) = balance us"
      using Cons.prems by (intro balance_upsert_watch) (auto simp: new_utxo_def)
    moreover have "\<And>x. x \<in> set (upsert utxo_Op ?u us) \<Longrightarrow> utxo_Op x = \<lparr>op_Hash = sha, op_Index = of_nat i\<rparr> \<Longrightarrow> WatchOnly x"
      using Cons.prems(2) by (auto simp: table_simps new_utxo_def)
    ultimately show ?thesis using Cons.IH [of "upsert utxo_Op ?u us"] Cons.prems(1) by simp
  next
    case False
    then show ?thesis using Cons by (simp add: watched_puts_def)
  qed
qed (simp add: watched_puts_def)

lemma keyed_fold_upsert [simp]: "keyed key us \<Longrightarrow> keyed key (fold (upsert key) ps us)"
  by (induction ps arbitrary: us) simp_all

lemma set_fold_upsert_ops: "key ` set (fold (upsert key) ps us) = key ` set us \<union> key ` set ps"
  by (induction ps arbitrary: us) (auto simp: table_simps image_iff)

lemma puts_ops:
  "x \<in> set (own_puts scripts sha height (i, o1) @ watched_puts ws sha height (i, o1)) \<Longrightarrow>
   utxo_Op x = \<lparr>op_Hash = sha, op_Index = of_nat i\<rparr>"
  by (auto simp: own_puts_def watched_puts_def new_utxo_def split: if_splits)

lemma balance_output:
  assumes "keyed utxo_Op us" "\<lparr>op_Hash = sha, op_Index = of_nat i\<rparr> \<notin> utxo_Op ` set us"
    and "set scripts \<inter> set ws = {}"
  shows "balance (fold (upsert utxo_Op) (own_puts scripts sha height (i, o1) @ watched_puts ws sha height (i, o1)) us) =
    balance us + (if PkScript o1 \<in> set scripts then txout_Value o1 else 0)"
proof (cases "PkScript o1 \<in> set scripts")
  case True
  with assms(3) have "watched_puts ws sha height (i, o1) = []" by (auto simp: watched_puts_def filter_empty_conv)
  with True assms(2) show ?thesis
    by (simp add: own_puts_def balance_upsert_new new_utxo_def)
next
  case False
  have "balance (fold (upsert utxo_Op) (watched_puts ws sha height (i, o1)) us) = balance us"
    using assms(1,2) by (intro balance_watched_puts) (auto, metis image_eqI)
  with False show ?thesis by (simp add: own_puts_def)
qed

lemma balance_outputs:
  assumes "set scripts \<inter> set ws = {}"
  shows "keyed utxo_Op us \<Longrightarrow> (\<And>j. i \<le> j \<Longrightarrow> j < i + length outs \<Longrightarrow>
      \<lparr>op_Hash = sha, op_Index = of_nat j\<rparr> \<notin> utxo_Op ` set us) \<Longrightarrow> i + length outs \<le> 2 ^ 32 \<Longrightarrow>
    balance (fold (upsert utxo_Op) (output_puts scripts ws sha height (enumerate i outs)) us) =
    balance us + sum_list (map txout_Value (filter (\<lambda>o1. PkScript o1 \<in> set scripts) outs))"
proof (induction outs arbitrary: i us)
  case (Cons o1 outs)
  let ?ps = "own_puts scripts sha height (i, o1) @ watched_puts ws sha height (i, o1)"
  let ?us = "fold (upsert utxo_Op) ?ps us"
  have "\<lparr>op_Hash = sha, op_Index = of_nat j\<rparr> \<notin> utxo_Op ` set ?us" if j: "Suc i \<le> j" "j < Suc i + length outs" for j
  proof -
    have "unat (of_nat j :: u32) = j" "unat (of_nat i :: u32) = i"
      using j Cons.prems(3) by (simp_all add: unat_of_nat)
    then have "(of_nat j :: u32) \<noteq> of_nat i" using j(1) by (metis Suc_n_not_le_n)
    then show ?thesis
      using Cons.prems(2) [of j] j puts_ops [of _ scripts sha height i o1 ws]
      unfolding set_fold_upsert_ops by fastforce
  qed
  then have "balance (fold (upsert utxo_Op) (output_puts scripts ws sha height (enumerate (Suc i) outs)) ?us) =
      balance ?us + sum_list (map txout_Value (filter (\<lambda>o1. PkScript o1 \<in> set scripts) outs))"
    using Cons.prems(1,3) by (intro Cons.IH) (simp_all add: keyed_fold_upsert)
  moreover have "balance ?us = balance us + (if PkScript o1 \<in> set scripts then txout_Value o1 else 0)"
    using Cons.prems by (intro balance_output assms) auto
  ultimately show ?case by (simp add: output_puts_def algebra_simps)
qed (simp add: output_puts_def)

section \<open>The loop over the inputs and the transaction row\<close>

text \<open>The stxos of a transaction, without the height of the spend.\<close>

definition spent_by :: "hash \<Rightarrow> Stxo list \<Rightarrow> Utxo set" where
  "spent_by sha xs = stxo_Utxo ` {x \<in> set xs. SpendTxid x = sha}"

text \<open>The rows of the other transactions.\<close>

definition other_rows :: "string \<Rightarrow> wview \<Rightarrow> Txn list" where
  "other_rows tid v = filter (\<lambda>r. txn_Txid r \<noteq> tid) (v_txns v)"

lemma other_rows_simps:
  "other_rows tid (v\<lparr>v_txns := map (set_height tid h t) ts\<rparr>) = filter (\<lambda>r. txn_Txid r \<noteq> tid) ts"
  "other_rows tid (v\<lparr>v_txns := upsert txn_Txid (new_txn tid raw val hh t wo) ts\<rparr>) = filter (\<lambda>r. txn_Txid r \<noteq> tid) ts"
  "filter (\<lambda>r. txn_Txid r \<noteq> tid) (upsert txn_Txid (new_txn tid raw val hh t wo) ts) = filter (\<lambda>r. txn_Txid r \<noteq> tid) ts"
  "filter (\<lambda>r. txn_Txid r \<noteq> tid) (v_txns v) = other_rows tid v"
proof -
  show "other_rows tid (v\<lparr>v_txns := map (set_height tid h t) ts\<rparr>) = filter (\<lambda>r. txn_Txid r \<noteq> tid) ts"
    by (induction ts) (auto simp: other_rows_def set_height_def)
qed (simp_all add: other_rows_def upsert_def new_txn_def)

text \<open>A utxo that is picked, and the ones that remain.\<close>

lemma picked_filter:
  assumes "pick_utxo p utxos = Some (u, rest)" "keyed utxo_Op utxos"
  shows "filter (\<lambda>w. utxo_Op w \<notin> insert p P) utxos = filter (\<lambda>w. utxo_Op w \<notin> P) rest"
  using pick_utxo_Some [OF assms] by (auto simp: del_key_def intro!: filter_cong)

lemma picked_balance:
  assumes "pick_utxo p utxos = Some (u, rest)" "keyed utxo_Op utxos"
  shows "balance rest = balance utxos - (if WatchOnly u then 0 else utxo_Value u)"
  using balance_del_key [OF assms(2)] pick_utxo_Some [OF assms] by metis

lemma picked_all:
  assumes "pick_utxo p utxos = Some (u, rest)" "keyed utxo_Op utxos"
    and "u \<in> S" "\<forall>w \<in> set rest. utxo_Op w \<in> P \<longrightarrow> w \<in> S"
  shows "\<forall>w \<in> set utxos. utxo_Op w \<in> insert p P \<longrightarrow> w \<in> S"
proof (intro ballI impI)
  fix w assume w: "w \<in> set utxos" "utxo_Op w \<in> insert p P"
  note u = pick_utxo_Some [OF assms(1,2)]
  show "w \<in> S"
  proof (cases "w = u")
    case False
    then have "utxo_Op w \<noteq> p" using keyed_eqD [OF assms(2) w(1), of u] u by auto
    with w u have "w \<in> set rest" "utxo_Op w \<in> P" by (auto simp: table_simps)
    with assms(4) show ?thesis by blast
  qed (use assms(3) in simp)
qed

context datastore_laws
begin

lemma spend_utxo_ok:
  assumes "e_ds env = ds" "inv (ing_s a)" "spend_utxo env sha height u a = Ret a'"
  shows "inv (ing_s a') \<and> ing_value a' = ing_value a - (if WatchOnly u then 0 else utxo_Value u) \<and>
    view (ing_s a') = (view (ing_s a))\<lparr>
      v_stxos := upsert stxo_Op \<lparr>stxo_Utxo = u, SpendHeight = height, SpendTxid = sha\<rparr> (v_stxos (view (ing_s a))),
      v_utxos := del_key utxo_Op (utxo_Op u) (v_utxos (view (ing_s a)))\<rparr>"
  using assms(3,2) unfolding spend_utxo_def Let_def assms(1)
  by (auto split: go.splits if_splits)

lemma ingest_inputs_ok:
  assumes "e_ds env = ds"
  shows "inv (ing_s a) \<Longrightarrow> v_utxos (view (ing_s a)) = utxos \<Longrightarrow>
    ingest_inputs env sha height ins utxos a = Ret a' \<Longrightarrow>
    inv (ing_s a') \<and>
    v_utxos (view (ing_s a')) = filter (\<lambda>u. utxo_Op u \<notin> PreviousOutPoint ` set ins) utxos \<and>
    v_txns (view (ing_s a')) = v_txns (view (ing_s a)) \<and>
    ing_value a' - balance (v_utxos (view (ing_s a'))) = ing_value a - balance utxos \<and>
    (\<forall>u \<in> set utxos. utxo_Op u \<in> PreviousOutPoint ` set ins \<longrightarrow> u \<in> spent_by sha (v_stxos (view (ing_s a')))) \<and>
    (\<forall>x \<in> set (v_stxos (view (ing_s a))). stxo_Op x \<notin> utxo_Op ` set utxos \<longrightarrow> x \<in> set (v_stxos (view (ing_s a'))))"
proof (induction ins arbitrary: utxos a)
  case (Cons txin ins)
  let ?p = "PreviousOutPoint txin"
  have key: "keyed utxo_Op utxos" "keyed stxo_Op (v_stxos (view (ing_s a)))"
    using view_ok [OF Cons.prems(1)] Cons.prems(2) by (auto simp: view_ok_def)
  show ?case
  proof (cases "pick_utxo ?p utxos")
    case None
    let ?a = "a\<lparr>ing_ins := ing_ins a @ [\<lparr>OutpointHash = hash_bytes (op_Hash ?p), OutpointIndex = op_Index ?p,
      LinkedAddress = None, tin_Value = -1\<rparr>]\<rparr>"
    from None have p: "?p \<notin> utxo_Op ` set utxos" by (simp add: pick_utxo_None)
    then have np: "utxo_Op x \<noteq> ?p" if "x \<in> set utxos" for x using that by (metis image_eqI)
    then have "filter (\<lambda>u. utxo_Op u \<notin> PreviousOutPoint ` set (txin # ins)) utxos =
        filter (\<lambda>u. utxo_Op u \<notin> PreviousOutPoint ` set ins) utxos"
      by (intro filter_cong) auto
    moreover have "ingest_inputs env sha height ins utxos ?a = Ret a'" using Cons.prems(3) None by simp
    ultimately show ?thesis
      using Cons.IH [of ?a utxos] Cons.prems(1,2) np by auto
  next
    case (Some r)
    then obtain u rest where pick: "pick_utxo ?p utxos = Some (u, rest)" by (cases r) auto
    note u = pick_utxo_Some [OF pick key(1)]
    then have pin: "?p \<in> utxo_Op ` set utxos" by (metis image_eqI)
    from Cons.prems(3) pick obtain a1 where a1: "spend_utxo env sha height u a = Ret a1"
      "ingest_inputs env sha height ins rest a1 = Ret a'" by (auto simp: run_bind_Ret)
    note sp = spend_utxo_ok [OF assms Cons.prems(1) a1(1)]
    then have rest: "v_utxos (view (ing_s a1)) = rest" using u Cons.prems(2) by auto
    note ih = Cons.IH [OF conjunct1 [OF sp] rest a1(2)]
    have "\<lparr>stxo_Utxo = u, SpendHeight = height, SpendTxid = sha\<rparr> \<in> set (v_stxos (view (ing_s a')))"
      using ih sp u by (auto simp: table_simps)
    then have "u \<in> spent_by sha (v_stxos (view (ing_s a')))" by (force simp: spent_by_def)
    then have "\<forall>w \<in> set utxos. utxo_Op w \<in> PreviousOutPoint ` set (txin # ins) \<longrightarrow> w \<in> spent_by sha (v_stxos (view (ing_s a')))"
      using picked_all [OF pick key(1), of _ "PreviousOutPoint ` set ins"] ih by (metis image_insert list.simps(15))
    moreover have "x \<in> set (v_stxos (view (ing_s a')))"
      if x: "x \<in> set (v_stxos (view (ing_s a)))" "stxo_Op x \<notin> utxo_Op ` set utxos" for x
    proof -
      have "x \<in> set (v_stxos (view (ing_s a1)))" "stxo_Op x \<notin> utxo_Op ` set rest"
        using x sp u pin by (auto simp: table_simps)
      with ih show ?thesis by blast
    qed
    moreover note picked_filter [OF pick key(1), of "PreviousOutPoint ` set ins"] picked_balance [OF pick key(1)]
    ultimately show ?thesis using ih sp by auto
  qed
qed (simp add: spent_by_def)

lemma ingest_stxo_ok:
  assumes "e_ds env = ds" "inv (ing_s a)"
  shows "\<exists>a'. ingest_stxo env sha height a = Ok a' \<and> inv (ing_s a') \<and> ing_value a' = ing_value a \<and>
    v_utxos (view (ing_s a')) = v_utxos (view (ing_s a)) \<and> v_txns (view (ing_s a')) = v_txns (view (ing_s a)) \<and>
    spent_by sha (v_stxos (view (ing_s a))) \<subseteq> spent_by sha (v_stxos (view (ing_s a')))"
proof (cases "0 <s height \<and> (\<exists>x \<in> set (v_stxos (view (ing_s a))). SpendTxid x = sha)")
  case True
  then obtain x where x: "find (\<lambda>x. SpendTxid x = sha) (v_stxos (view (ing_s a))) = Some x"
    by (cases "find (\<lambda>x. SpendTxid x = sha) (v_stxos (view (ing_s a)))") (auto simp: find_None_iff)
  then have mem: "x \<in> set (v_stxos (view (ing_s a)))" "SpendTxid x = sha" by (auto simp: find_Some_iff)
  have key: "keyed stxo_Op (v_stxos (view (ing_s a)))" using view_ok [OF assms(2)] by (simp add: view_ok_def)
  have "y \<in> spent_by sha (upsert stxo_Op (x\<lparr>SpendHeight := height\<rparr>) (v_stxos (view (ing_s a))))"
    if "y \<in> spent_by sha (v_stxos (view (ing_s a)))" for y
  proof -
    from that obtain z where z: "z \<in> set (v_stxos (view (ing_s a)))" "SpendTxid z = sha" "y = stxo_Utxo z"
      by (auto simp: spent_by_def)
    show ?thesis
    proof (cases "z = x")
      case True
      then show ?thesis using z mem
        by (auto simp: spent_by_def table_simps intro!: image_eqI [of _ _ "x\<lparr>SpendHeight := height\<rparr>"])
    next
      case False
      then have "stxo_Op z \<noteq> stxo_Op x" using keyed_eqD [OF key z(1) mem(1)] by auto
      with z show ?thesis by (auto simp: spent_by_def table_simps)
    qed
  qed
  with True x assms show ?thesis by (auto simp: ingest_stxo_def Stxos_GetAll Let_def)
next
  case False
  then have "0 <s height \<Longrightarrow> find (\<lambda>x. SpendTxid x = sha) (v_stxos (view (ing_s a))) = None"
    by (auto simp: find_None_iff)
  then show ?thesis using assms by (auto simp: ingest_stxo_def Stxos_GetAll)
qed

lemma ingest_store_ok:
  assumes "e_ds env = ds" "hashString (e_lib env) = hstr"
    "txidOf (encodeTx (e_lib env) tx) = hstr (txHash (e_lib env) tx)"
    "inv (ing_s a)" "ingest_store env tx height t ts a = (ts', s', evs)"
  shows "inv s' \<and> v_utxos (view s') = v_utxos (view (ing_s a)) \<and> v_stxos (view s') = v_stxos (view (ing_s a)) \<and>
    (hstr (txHash (e_lib env) tx) \<notin> txn_Txid ` set (v_txns (view (ing_s a))) \<longrightarrow>
      (\<exists>r \<in> set (v_txns (view s')). txn_Txid r = hstr (txHash (e_lib env) tx) \<and>
         txn_Value r = ing_value a \<and> txn_Height r = height)) \<and>
    other_rows (hstr (txHash (e_lib env) tx)) (view s') = other_rows (hstr (txHash (e_lib env) tx)) (view (ing_s a)) \<and>
    (0 <s height \<and> hstr (txHash (e_lib env) tx) \<notin> txn_Txid ` set (v_txns (view (ing_s a))) \<longrightarrow>
      (\<forall>e \<in> set evs. cb_Value (snd e) = 0))"
proof -
  let ?sha = "txHash (e_lib env) tx"
  let ?f = "find (\<lambda>t. txn_Txid t = hstr ?sha) (v_txns (view (ing_s a)))"
  let ?put = "snd (Txns_Put ds (encodeTx (e_lib env) tx) (hstr ?sha) (sint (ing_value a)) (sint height) t
    (ing_hits a = 0) (ing_s a))"
  let ?upd = "\<lambda>s. snd (Txns_UpdateHeight ds ?sha (sint height) t s)"
  have s': "s' = (case ?f of None \<Rightarrow> ?upd ?put | Some r \<Rightarrow> if txn_Height r \<le>s 0 then ?upd (ing_s a) else ing_s a)"
    using assms(5) by (auto simp: ingest_store_def Let_def assms(1,2) Txns_Get [OF assms(4)] zero_Txn_def
        split: option.splits if_splits)
  have cb: "e \<in> set evs \<Longrightarrow> ?f = None \<Longrightarrow> 0 <s height \<Longrightarrow> cb_Value (snd e) = 0" for e
    using assms(5) by (auto simp: ingest_store_def Let_def assms(1,2) Txns_Get [OF assms(4)] zero_Txn_def notify_def
        List.map_filter_def split: option.splits if_splits)
  note put = Txns_Put_snd [OF assms(4) assms(3) [symmetric], of "sint (ing_value a)" "sint height" t "ing_hits a = 0"]
  show ?thesis
  proof (cases ?f)
    case None
    let ?row = "new_txn (hstr ?sha) (encodeTx (e_lib env) tx) (sint (ing_value a)) (sint height) t (ing_hits a = 0)"
    have "set_height (hstr ?sha) (word_of_int (sint height)) (time_Unix (Unix t)) ?row \<in> set (v_txns (view s'))"
      using None put by (auto simp: s' table_simps)
    moreover have "txn_Txid (set_height (hstr ?sha) (word_of_int (sint height)) (time_Unix (Unix t)) ?row) = hstr ?sha"
      "txn_Value (set_height (hstr ?sha) (word_of_int (sint height)) (time_Unix (Unix t)) ?row) = ing_value a"
      "txn_Height (set_height (hstr ?sha) (word_of_int (sint height)) (time_Unix (Unix t)) ?row) = height"
      by (simp_all add: set_height_def new_txn_def)
    ultimately show ?thesis using None put cb by (auto simp: s' other_rows_simps)
  next
    case (Some r)
    then have "hstr ?sha \<in> txn_Txid ` set (v_txns (view (ing_s a)))"
      by (auto simp: find_Some_iff) (metis image_eqI nth_mem)
    with Some assms(4) show ?thesis by (auto simp: s' other_rows_simps)
  qed
qed

lemma ingest_commit_ok:
  assumes "e_ds env = ds" "hashString (e_lib env) = hstr"
    "txidOf (encodeTx (e_lib env) tx) = hstr (txHash (e_lib env) tx)"
    "inv (ing_s a)" "ingest_commit env tx height t ts a = (res, ts', s', evs)"
  shows "inv s' \<and> v_utxos (view s') = v_utxos (view (ing_s a)) \<and> v_stxos (view s') = v_stxos (view (ing_s a)) \<and>
    snd res = None \<and>
    (fst res \<noteq> 0 \<and> hstr (txHash (e_lib env) tx) \<notin> txn_Txid ` set (v_txns (view (ing_s a))) \<longrightarrow>
      (\<exists>r \<in> set (v_txns (view s')). txn_Txid r = hstr (txHash (e_lib env) tx) \<and>
         txn_Value r = ing_value a \<and> txn_Height r = height)) \<and>
    other_rows (hstr (txHash (e_lib env) tx)) (view s') = other_rows (hstr (txHash (e_lib env) tx)) (view (ing_s a)) \<and>
    (0 <s height \<and> hstr (txHash (e_lib env) tx) \<notin> txn_Txid ` set (v_txns (view (ing_s a))) \<longrightarrow>
      (\<forall>e \<in> set evs. cb_Value (snd e) = 0))"
proof (cases "0 < ing_hits a \<or> ing_watch a")
  case True
  obtain ts1 s1 ev1 where st: "ingest_store env tx height t ts a = (ts1, s1, ev1)" by (cases "ingest_store env tx height t ts a")
  from ingest_store_ok [OF assms(1-4) st] True assms(5) show ?thesis
    by (auto simp: ingest_commit_def st)
next
  case False
  then have "ing_hits a = 0" by (simp add: word_gt_0)
  with False assms show ?thesis
    by (auto simp: ingest_commit_def notify_def List.map_filter_def split: option.splits if_splits)
qed

text \<open>The whole of \<open>Ingest\<close> from the generated scripts on.\<close>

lemma ingest_tx_ok:
  assumes "e_ds env = ds" "hashString (e_lib env) = hstr"
    "txidOf (encodeTx (e_lib env) tx) = hstr (txHash (e_lib env) tx)" "inv s"
    "ingest_tx env tx height t ts scripts s = Ret (res, ts', s', evs)"
  defines "sha \<equiv> txHash (e_lib env) tx"
  defines "added \<equiv> fold (upsert utxo_Op) (output_puts scripts (watchedScripts ts) (txHash (e_lib env) tx) height
    (enumerate 0 (tx_TxOut tx))) (v_utxos (view s))"
  shows "inv s' \<and> snd res = None \<and> v_utxos (view s') = filter (\<lambda>u. utxo_Op u \<notin> input_ops tx) added \<and>
    (\<forall>u \<in> set added. utxo_Op u \<in> input_ops tx \<longrightarrow> u \<in> spent_by sha (v_stxos (view s'))) \<and>
    (fst res \<noteq> 0 \<and> hstr sha \<notin> txn_Txid ` set (v_txns (view s)) \<longrightarrow>
      (\<exists>r \<in> set (v_txns (view s')). txn_Txid r = hstr sha \<and> txn_Height r = height \<and>
        txn_Value r = sum_list (map txout_Value (filter (\<lambda>o1. PkScript o1 \<in> set scripts) (tx_TxOut tx))) -
          balance added + balance (v_utxos (view s')))) \<and>
    other_rows (hstr sha) (view s') = other_rows (hstr sha) (view s) \<and>
    (0 <s height \<and> hstr sha \<notin> txn_Txid ` set (v_txns (view s)) \<longrightarrow> (\<forall>e \<in> set evs. cb_Value (snd e) = 0))"
proof -
  let ?a0 = "\<lparr>ing_value = 0, ing_hits = 0, ing_watch = False, ing_outs = [], ing_ins = [], ing_s = s\<rparr>"
  from assms(5) obtain a1 where a1: "ingest_outputs env ts scripts sha height 0 (tx_TxOut tx) ?a0 = Ret a1"
    "(case Utxos_GetAll ds (ing_s a1) of
           (_, Some e) \<Rightarrow> Ret ((0, Some e), ts, ing_s a1, [])
         | (utxos, None) \<Rightarrow>
             run_bind (ingest_inputs env sha height (tx_TxIn tx) utxos a1) (\<lambda>a2.
             case ingest_stxo env sha height a2 of
               Err e \<Rightarrow> Ret ((0, Some e), ts, ing_s a2, [])
             | Panic \<Rightarrow> Panics
             | Ok a3 \<Rightarrow> Ret (ingest_commit env tx height t ts a3))) = Ret (res, ts', s', evs)"
    by (auto simp: ingest_tx_def Let_def run_bind_Ret sha_def assms(1))
  have out: "inv (ing_s a1)"
    "ing_value a1 = sum_list (map txout_Value (filter (\<lambda>o1. PkScript o1 \<in> set scripts) (tx_TxOut tx)))"
    "v_utxos (view (ing_s a1)) = added" "v_txns (view (ing_s a1)) = v_txns (view s)"
    using ingest_outputs_ok [OF assms(1) _ a1(1)] assms(4)
    by (auto simp: same_but_keys_def added_def sha_def)
  from a1(2) obtain a2 where a2: "ingest_inputs env sha height (tx_TxIn tx) added a1 = Ret a2"
    "(case ingest_stxo env sha height a2 of
               Err e \<Rightarrow> Ret ((0, Some e), ts, ing_s a2, [])
             | Panic \<Rightarrow> Panics
             | Ok a3 \<Rightarrow> Ret (ingest_commit env tx height t ts a3)) = Ret (res, ts', s', evs)"
    by (auto simp: Utxos_GetAll [OF out(1)] out(3) run_bind_Ret)
  note inp = ingest_inputs_ok [OF assms(1) out(1,3) a2(1)]
  from ingest_stxo_ok [OF assms(1), of a2 sha height] inp obtain a3 where a3: "ingest_stxo env sha height a2 = Ok a3"
    "inv (ing_s a3)" "ing_value a3 = ing_value a2" "v_utxos (view (ing_s a3)) = v_utxos (view (ing_s a2))"
    "v_txns (view (ing_s a3)) = v_txns (view (ing_s a2))"
    "spent_by sha (v_stxos (view (ing_s a2))) \<subseteq> spent_by sha (v_stxos (view (ing_s a3)))" by blast
  from a2(2) a3(1) have "ingest_commit env tx height t ts a3 = (res, ts', s', evs)" by simp
  note com = ingest_commit_ok [OF assms(1-3) a3(2) this, folded sha_def]
  have val: "ing_value a3 = ing_value a1 - balance added + balance (v_utxos (view (ing_s a2)))"
    using inp a3(3) by (simp add: algebra_simps)
  have "v_utxos (view s') = v_utxos (view (ing_s a2))" using com a3(4) by simp
  moreover have txns: "v_txns (view (ing_s a3)) = v_txns (view s)" using a3(5) inp out(4) by simp
  moreover have "other_rows (hstr sha) (view s') = other_rows (hstr sha) (view s)"
    using com txns by (simp add: other_rows_def)
  ultimately show ?thesis
    using com inp a3(6) out(2) val by (auto simp: input_ops_def)
qed

lemma mark_doubles_ok:
  "inv s \<Longrightarrow> \<exists>s'. mark_doubles ds now dubs s = Ret s' \<and> inv s' \<and> v_keys (view s') = v_keys (view s) \<and>
    txns_rel hstr UNIV (v_txns (view s)) (v_txns (view s')) \<and> (\<forall>d \<in> set dubs. dead_row hstr (view s') d)"
proof (induction dubs arbitrary: s)
  case (Cons d dubs)
  obtain s1 where s1: "markAsDead ds now d s = Ret (None, s1)" "inv s1"
    "mark_done hstr (dead_set d (v_stxos (view s))) d (view s) (view s1)"
    using markAsDead_ok [OF Cons.prems] by blast
  then have rel: "v_keys (view s1) = v_keys (view s)" "txns_rel hstr UNIV (v_txns (view s)) (v_txns (view s1))"
    "dead_row hstr (view s1) d"
    by (auto simp: mark_done_def dead_rel_def dest: txns_rel_mono)
  obtain s' where s': "mark_doubles ds now dubs s1 = Ret s'" "inv s'" "v_keys (view s') = v_keys (view s1)"
    "txns_rel hstr UNIV (v_txns (view s1)) (v_txns (view s'))" "\<forall>d \<in> set dubs. dead_row hstr (view s') d"
    using Cons.IH [OF s1(2)] by blast
  moreover have "dead_row hstr (view s') d" by (rule dead_row_stable [OF s'(4) rel(3)])
  ultimately show ?case using s1(1) rel txns_rel_trans [OF rel(2) s'(4)] by auto
qed simp

end

section \<open>Ingest returns\<close>

text \<open>No script makes \<open>scriptToAddress\<close> index an empty list.\<close>

definition scripts_total :: "script_lib \<Rightarrow> bool" where
  "scripts_total sl \<longleftrightarrow> (\<forall>script. scriptToAddress sl script \<noteq> Panic)"

text \<open>The key table has room for \<open>n\<close> more look-ahead rounds.\<close>

definition keys_room :: "('s, 'k) ts_env \<Rightarrow> int \<Rightarrow> nat \<Rightarrow> krow list \<Rightarrow> bool" where
  "keys_room env N n ks \<longleftrightarrow> key_supply (e_hd env) (e_km env) N \<and> keys_ok (e_hd env) (e_km env) N ks \<and>
     (e_order env = [EXTERNAL, INTERNAL] \<or> e_order env = [INTERNAL, EXTERNAL]) \<and>
     (\<forall>p. hd_purpose p \<longrightarrow> next_index p ks + 1000 * int n \<le> N)"

lemma keys_room_mono: "keys_room env N n ks \<Longrightarrow> m \<le> n \<Longrightarrow> keys_room env N m ks"
  by (force simp: keys_room_def)

context datastore_laws
begin

lemma ingest_own_returns:
  assumes "e_ds env = ds" "inv (ing_s a)" "keys_room env N (Suc n) (v_keys (view (ing_s a)))"
  shows "\<exists>a'. ingest_own env sha height i txout a = Ret a' \<and> keys_room env N n (v_keys (view (ing_s a')))"
proof -
  let ?sa = "case extractScriptAddress (e_sl env) (PkScript txout) of Ok sa \<Rightarrow> sa | _ \<Rightarrow> []"
  have order: "distinct (e_order env)" "set (e_order env) = {EXTERNAL, INTERNAL}"
    using assms(3) by (auto simp: keys_room_def)
  have room: "next_index p (v_keys (view (ing_s a))) + LOOKAHEADWINDOW \<le> N" if "hd_purpose p" for p
    using assms(3) that by (force simp: keys_room_def LOOKAHEADWINDOW_def)
  obtain s1 where s1: "MarkKeyAsUsed ds (e_hd env) (e_km env) (e_order env) ?sa (ing_s a) = Some (Ok (), s1)"
    "inv s1" "keys_ok (e_hd env) (e_km env) N (v_keys (view s1))"
    "\<And>p. hd_purpose p \<Longrightarrow> next_index p (v_keys (view s1)) \<le> next_index p (v_keys (view (ing_s a))) + 1000"
    using MarkKeyAsUsed_ok [OF _ assms(2) _ order room, of "e_hd env" "e_km env" ?sa] assms(3)
    unfolding keys_room_def by blast
  have "keys_room env N n (v_keys (view s1))"
    using assms(3) s1(3,4) by (force simp: keys_room_def)
  then show ?thesis using s1(1,2) assms(1) by (simp add: ingest_own_def Let_def)
qed

lemma ingest_output_returns:
  assumes "e_ds env = ds" "inv (ing_s a)" "keys_room env N (Suc n) (v_keys (view (ing_s a)))"
    "scripts_total (e_sl env)"
  shows "\<exists>a'. ingest_output env ts scripts sha height i txout a = Ret a' \<and> keys_room env N n (v_keys (view (ing_s a')))"
proof -
  obtain a1 where a1:
    "(if PkScript txout \<in> set scripts then ingest_own env sha height i txout a else Ret a) = Ret a1"
    "keys_room env N n (v_keys (view (ing_s a1)))" "inv (ing_s a1)"
  proof (cases "PkScript txout \<in> set scripts")
    case True
    with ingest_own_returns [OF assms(1-3), of sha height i txout] ingest_own_ok [OF assms(1,2)] that show ?thesis
      by (metis (full_types))
  next
    case False
    with that assms(2) keys_room_mono [OF assms(3), of n] show ?thesis by simp
  qed
  have "scriptToAddress (e_sl env) (PkScript txout) \<noteq> Panic" using assms(4) by (simp add: scripts_total_def)
  moreover note ingest_watched_ok [OF assms(1) a1(3) refl, of sha height i txout "watchedScripts ts"]
  ultimately show ?thesis
    using a1 by (auto simp: ingest_output_def Let_def split: go.splits)
qed

lemma ingest_outputs_returns:
  assumes "e_ds env = ds" "scripts_total (e_sl env)"
  shows "inv (ing_s a) \<Longrightarrow> keys_room env N (length outs) (v_keys (view (ing_s a))) \<Longrightarrow>
    \<exists>a'. ingest_outputs env ts scripts sha height i outs a = Ret a'"
proof (induction outs arbitrary: i a)
  case (Cons txout outs)
  then obtain a1 where "ingest_output env ts scripts sha height i txout a = Ret a1"
    "keys_room env N (length outs) (v_keys (view (ing_s a1)))"
    using ingest_output_returns [OF assms(1) Cons.prems(1) _ assms(2)] by fastforce
  with Cons.IH [of a1] ingest_output_ok [OF assms(1) Cons.prems(1)] show ?case by fastforce
qed simp

lemma ingest_inputs_returns:
  assumes "scripts_total (e_sl env)"
  shows "\<exists>a'. ingest_inputs env sha height ins utxos a = Ret a'"
proof (induction ins arbitrary: utxos a)
  case (Cons txin ins)
  have "\<exists>a1. spend_utxo env sha height u a = Ret a1" for u
    using assms by (auto simp: spend_utxo_def Let_def scripts_total_def split: go.split)
  with Cons.IH show ?case by (auto split: option.split) (metis run_bind.simps(1))
qed simp

lemma ingest_tx_returns:
  assumes "e_ds env = ds" "scripts_total (e_sl env)" "inv s"
    "keys_room env N (length (tx_TxOut tx)) (v_keys (view s))"
  shows "\<exists>r. ingest_tx env tx height t ts scripts s = Ret r"
proof -
  let ?a0 = "\<lparr>ing_value = 0, ing_hits = 0, ing_watch = False, ing_outs = [], ing_ins = [], ing_s = s\<rparr>"
  let ?sha = "txHash (e_lib env) tx"
  obtain a1 where a1: "ingest_outputs env ts scripts ?sha height 0 (tx_TxOut tx) ?a0 = Ret a1"
    using ingest_outputs_returns [OF assms(1,2), of ?a0 N "tx_TxOut tx"] assms(3,4) by fastforce
  then have inv1: "inv (ing_s a1)" using ingest_outputs_ok [OF assms(1), of ?a0] assms(3) by simp
  obtain a2 where a2: "ingest_inputs env ?sha height (tx_TxIn tx) (v_utxos (view (ing_s a1))) a1 = Ret a2"
    using ingest_inputs_returns [OF assms(2)] by blast
  then have "inv (ing_s a2)" using ingest_inputs_ok [OF assms(1) inv1 refl] by blast
  then obtain a3 where "ingest_stxo env ?sha height a2 = Ok a3"
    using ingest_stxo_ok [OF assms(1), of a2 ?sha height] by blast
  with a1 a2 have "ingest_tx env tx height t ts scripts s = Ret (ingest_commit env tx height t ts a3)"
    by (simp add: ingest_tx_def Let_def assms(1) Utxos_GetAll [OF inv1])
  then show ?thesis by blast
qed

end

section \<open>Properties over the SQLite store\<close>

text \<open>The transaction is not one \<open>Ingest\<close> has processed at this height.\<close>

definition unprocessed :: "TxStore \<Rightarrow> string \<Rightarrow> i32 \<Rightarrow> bool" where
  "unprocessed ts tid height \<longleftrightarrow>
     (case txids ts tid of None \<Rightarrow> True | Some sh \<Rightarrow> \<not> (0 <s sh \<or> sh = 0 \<and> height = 0))"

text \<open>What \<open>Ingest\<close> needs to go through: a sane transaction, scripts and keys that can be derived.\<close>

definition ingest_ready ::
    "wire_lib \<Rightarrow> (sqldb, 'k) ts_env \<Rightarrow> int \<Rightarrow> MsgTx \<Rightarrow> TxStore \<Rightarrow> bytes list \<Rightarrow> sqldb \<Rightarrow> bool" where
  "ingest_ready lib env N tx ts scripts db \<longleftrightarrow>
     sql_inv lib db \<and> e_ds env = SQLiteDatastore lib \<and> e_lib env = lib \<and>
     CheckTransactionSanity (e_sl env) tx = None \<and> scripts_total (e_sl env) \<and>
     keys_room env N (length (tx_TxOut tx)) (v_keys (sql_view lib db)) \<and>
     map (PayToAddrScript (e_sl env)) (adrs ts) = map Some scripts"

lemma CheckDoubleSpends_sql:
  assumes "sql_inv lib db" "e_ds env = SQLiteDatastore lib" "e_lib env = lib"
  shows "CheckDoubleSpends env tx db = (concat (map (dubs_of lib tx) (v_txns (sql_view lib db))), None)"
  by (simp add: CheckDoubleSpends_def assms sqlite.Txns_GetAll [OF assms(1)])

lemma Ingest_tx:
  assumes "ingest_ready lib env N tx ts scripts db"
    and "unprocessed ts (hashString lib (txHash lib tx)) height"
    and "height \<noteq> 0 \<or> fst (CheckDoubleSpends env tx db) = []"
  shows "\<exists>db1. mark_doubles (SQLiteDatastore lib) now (fst (CheckDoubleSpends env tx db)) db = Ret db1 \<and>
    sql_inv lib db1 \<and> v_keys (sql_view lib db1) = v_keys (sql_view lib db) \<and>
    txns_rel (hashString lib) UNIV (v_txns (sql_view lib db)) (v_txns (sql_view lib db1)) \<and>
    (\<forall>d \<in> set (fst (CheckDoubleSpends env tx db)). dead_row (hashString lib) (sql_view lib db1) d) \<and>
    Ingest env now tx height t ts db = ingest_tx env tx height t ts scripts db1"
proof -
  have r: "sql_inv lib db" "e_ds env = SQLiteDatastore lib" "e_lib env = lib"
    "CheckTransactionSanity (e_sl env) tx = None" "map (PayToAddrScript (e_sl env)) (adrs ts) = map Some scripts"
    using assms(1) by (simp_all add: ingest_ready_def)
  obtain dubs where d: "CheckDoubleSpends env tx db = (dubs, None)" by (simp add: CheckDoubleSpends_sql [OF r(1-3)])
  obtain db1 where db1: "mark_doubles (SQLiteDatastore lib) now dubs db = Ret db1" "sql_inv lib db1"
    "v_keys (sql_view lib db1) = v_keys (sql_view lib db)"
    "txns_rel (hashString lib) UNIV (v_txns (sql_view lib db)) (v_txns (sql_view lib db1))"
    "\<forall>d \<in> set dubs. dead_row (hashString lib) (sql_view lib db1) d"
    using sqlite.mark_doubles_ok [OF r(1)] by blast
  have "None \<notin> Some ` set scripts" "map (the \<circ> Some) scripts = scripts" by (auto simp: comp_def)
  then have "Ingest env now tx height t ts db = ingest_tx env tx height t ts scripts db1"
    using assms(2,3) by (auto simp: Ingest_def r d db1(1) Let_def unprocessed_def split: option.splits)
  with d db1 show ?thesis by simp
qed

lemma ready_tx:
  assumes "ingest_ready lib env N tx ts scripts db" "sql_inv lib db1"
    and "v_keys (sql_view lib db1) = v_keys (sql_view lib db)"
  shows "\<exists>r. ingest_tx env tx height t ts scripts db1 = Ret r"
    and "e_ds env = SQLiteDatastore lib" "e_lib env = lib"
    and "txid_of lib (encodeTx lib tx) = hashString lib (txHash lib tx)"
proof -
  have r: "e_ds env = SQLiteDatastore lib" "scripts_total (e_sl env)"
    "keys_room env N (length (tx_TxOut tx)) (v_keys (sql_view lib db1))"
    using assms by (simp_all add: ingest_ready_def)
  show "\<exists>r. ingest_tx env tx height t ts scripts db1 = Ret r"
    by (rule sqlite.ingest_tx_returns [OF r(1,2) assms(2) r(3)])
  show "e_ds env = SQLiteDatastore lib" "e_lib env = lib" using assms(1) by (simp_all add: ingest_ready_def)
  show "txid_of lib (encodeTx lib tx) = hashString lib (txHash lib tx)"
    by (rule txid_of_encode [OF sql_invD(1) [OF assms(2)]])
qed

text \<open>The tables after a transaction was taken in.\<close>

lemma Ingest_utxos:
  assumes "ingest_ready lib env N tx ts scripts db"
    and "unprocessed ts (hashString lib (txHash lib tx)) height"
    and "height \<noteq> 0 \<or> fst (CheckDoubleSpends env tx db) = []"
  shows "\<exists>n ts' db1 db' evs added. Ingest env now tx height t ts db = Ret ((n, None), ts', db', evs) \<and>
    sql_inv lib db' \<and>
    mark_doubles (SQLiteDatastore lib) now (fst (CheckDoubleSpends env tx db)) db = Ret db1 \<and>
    added = fold (upsert utxo_Op) (output_puts scripts (watchedScripts ts) (txHash lib tx) height
      (enumerate 0 (tx_TxOut tx))) (fst (UtxoDB_GetAll lib db1)) \<and>
    fst (UtxoDB_GetAll lib db') = filter (\<lambda>u. utxo_Op u \<notin> input_ops tx) added \<and>
    (\<forall>u \<in> set added. utxo_Op u \<in> input_ops tx \<longrightarrow>
      (\<exists>x \<in> set (fst (StxoDB_GetAll lib db')). stxo_Utxo x = u \<and> SpendTxid x = txHash lib tx))"
proof -
  have v: "fst (StxoDB_GetAll lib d) = v_stxos (sql_view lib d)" "fst (UtxoDB_GetAll lib d) = v_utxos (sql_view lib d)"
    for d by (simp_all add: sql_view_def)
  obtain db1 where db1: "mark_doubles (SQLiteDatastore lib) now (fst (CheckDoubleSpends env tx db)) db = Ret db1"
    "sql_inv lib db1" "v_keys (sql_view lib db1) = v_keys (sql_view lib db)"
    "Ingest env now tx height t ts db = ingest_tx env tx height t ts scripts db1"
    using Ingest_tx [OF assms] by blast
  note r = ready_tx [OF assms(1) db1(2,3)]
  then obtain n err ts' db' evs where i: "ingest_tx env tx height t ts scripts db1 = Ret ((n, err), ts', db', evs)"
    by (metis surj_pair)
  from sqlite.ingest_tx_ok [OF r(2) _ _ db1(2) i] r(3,4) show ?thesis
    using db1(1,4) i by (intro exI [of _ n] exI [of _ ts'] exI [of _ db1] exI [of _ db'] exI [of _ evs])
      (auto simp: v spent_by_def)
qed



text \<open>An example: a payment of 5000 to our first external address.\<close>

definition ex_pay :: MsgTx where
  "ex_pay = \<lparr>tx_Version = 1,
     tx_TxIn = [\<lparr>PreviousOutPoint = \<lparr>op_Hash = 3, op_Index = 0\<rparr>, SignatureScript = [], Sequence = 0\<rparr>],
     tx_TxOut = [\<lparr>txout_Value = 5000, PkScript = [118, 0]\<rparr>], tx_LockTime = 9\<rparr>"

definition ex_ts0 :: TxStore where
  "ex_ts0 = \<lparr>adrs = [\<lparr>ScriptAddress = [0], EncodeAddress = []\<rparr>], watchedScripts = [], txids = (\<lambda>_. None),
     showEveryTx = (\<lambda>_. None), listeners = [Some 4], additionalFilters = []\<rparr>"

abbreviation ex_db0 :: sqldb where
  "ex_db0 \<equiv> initDatabaseTables (\<lambda>n. 7)"

lemma ex_scripts_total: "scripts_total ex_sl"
  by (auto simp: scripts_total_def scriptToAddress_def ex_sl_def split: list.split)

lemma ex_keys_room: "n \<le> 1000 \<Longrightarrow> keys_room ex_env (2 ^ 32) n []"
  using ex_supply by (simp add: keys_room_def ex_env_def)

lemma ex_ready: "ingest_ready ex_lib ex_env (2 ^ 32) ex_pay ex_ts0 [[118, 0]] ex_db0"
  using sql_inv_init [OF ex_lib_ok] ex_scripts_total ex_keys_room [of "Suc 0"]
  by (simp add: ingest_ready_def ex_pay_def ex_ts0_def) (simp add: ex_env_def ex_sl_def)

lemma ex_unprocessed: "unprocessed ex_ts0 tid h"
  by (simp add: unprocessed_def ex_ts0_def)

lemma ex_no_doubles: "fst (CheckDoubleSpends ex_env tx ex_db0) = []"
  by (simp add: CheckDoubleSpends_def ex_env_def SQLiteDatastore_def TxnsDB_GetAll_def initDatabaseTables_def)


lemma ex_db0_empty: "fst (UtxoDB_GetAll lib ex_db0) = []" "fst (TxnsDB_GetAll lib True ex_db0) = []"
  by (simp_all add: UtxoDB_GetAll_def TxnsDB_GetAll_def initDatabaseTables_def List.map_filter_simps)


text \<open>Property C25. First-seen rule: an unconfirmed transaction that spends an output some stored, living
  transaction already spends is dropped; the store, its tables and the listeners see nothing.\<close>

theorem Ingest_first_seen:
  assumes "sql_inv lib db" "e_ds env = SQLiteDatastore lib" "e_lib env = lib"
    and "CheckTransactionSanity (e_sl env) tx = None"
    and "row \<in> set (fst (TxnsDB_GetAll lib True db))" "0 \<le>s txn_Height row"
    and "other = decodeTx lib (txn_Bytes row)" "txHash lib other \<noteq> txHash lib tx"
    and "a \<in> set (tx_TxIn tx)" "b \<in> set (tx_TxIn other)" "PreviousOutPoint a = PreviousOutPoint b"
  shows "Ingest env now tx 0 t ts db = Ret ((0, None), ts, db, [])"
proof -
  have "txHash lib other \<in> set (dubs_of lib tx row)"
    using assms(6-11) by (auto simp: dubs_of_def Let_def word_sle_eq word_sless_alt)
  then have "\<exists>row \<in> set (v_txns (sql_view lib db)). dubs_of lib tx row \<noteq> []"
    using assms(5) by (auto simp: sql_Txns_GetAll [OF assms(1)] intro!: bexI [of _ row])
  then show ?thesis
    by (auto simp: Ingest_def assms(2-4) CheckDoubleSpends_sql [OF assms(1-3)] split: option.split)
qed

definition ex_conflict :: MsgTx where
  "ex_conflict = ex_pay\<lparr>tx_LockTime := 8\<rparr>"

lemma ex_conflict:
  "txHash ex_lib (decodeTx ex_lib (txn_Bytes ex_row)) \<noteq> txHash ex_lib ex_conflict"
  "tx_TxIn (decodeTx ex_lib (txn_Bytes ex_row)) = tx_TxIn ex_pay"
  by (simp_all add: ex_conflict_def ex_row_def new_txn_def ex_lib_def ex_tx_def ex_pay_def)

theorem Ingest_first_seen_witness:
  "Ingest ex_env 0 ex_conflict 0 50 ex_ts0 ex_txdb = Ret ((0, None), ex_ts0, ex_txdb, [])"
  by (rule Ingest_first_seen [OF ex_txdb(1) _ _ _ ex_txdb(2) _ refl ex_conflict(1), unfolded ex_conflict(2),
        where a = "hd (tx_TxIn ex_pay)" and b = "hd (tx_TxIn ex_pay)"])
    (simp_all add: ex_env_def ex_sl_def ex_row_def new_txn_def word_sle_eq ex_pay_def ex_conflict_def)


lemma ex_conflict_ready: "ingest_ready ex_lib ex_env (2 ^ 32) ex_conflict ex_ts0 [[118, 0]] ex_txdb"
proof -
  have "v_keys (sql_view ex_lib ex_txdb) = []"
    by (simp add: sql_view_def ex_txdb_def TxnsDB_Put_def Let_def initDatabaseTables_def)
  then show ?thesis
    using ex_txdb(1) ex_scripts_total ex_keys_room [of "Suc 0"]
    by (simp add: ingest_ready_def ex_conflict_def ex_pay_def ex_ts0_def) (simp add: ex_env_def ex_sl_def)
qed


text \<open>When a transaction first seen unconfirmed is taken in again at its block height, its outputs to our
  scripts are put back among the unspent ones even when the wallet has already spent them.\<close>

theorem Ingest_revives_spent:
  assumes "ingest_ready lib env N tx ts scripts db"
    and "txids ts (hashString lib (txHash lib tx)) = Some 0" "0 <s height"
    and "fst (CheckDoubleSpends env tx db) = []"
    and "i < length (tx_TxOut tx)" "PkScript (tx_TxOut tx ! i) \<in> set scripts"
    and "x \<in> set (fst (StxoDB_GetAll lib db))" "stxo_Op x = \<lparr>op_Hash = txHash lib tx, op_Index = of_nat i\<rparr>"
    and "stxo_Op x \<notin> input_ops tx"
  shows "\<exists>n ts' db' evs. Ingest env now tx height t ts db = Ret ((n, None), ts', db', evs) \<and>
    (\<exists>u \<in> set (fst (UtxoDB_GetAll lib db')). utxo_Op u = stxo_Op x)"
proof -
  have v: "fst (UtxoDB_GetAll lib d) = v_utxos (sql_view lib d)" for d by (simp add: sql_view_def)
  have "height \<noteq> 0" using assms(3) by auto
  then have "unprocessed ts (hashString lib (txHash lib tx)) height"
    using assms(2) by (simp add: unprocessed_def)
  from Ingest_tx [OF assms(1) this] assms(4) obtain db1 where db1:
    "sql_inv lib db1" "v_keys (sql_view lib db1) = v_keys (sql_view lib db)"
    "Ingest env now tx height t ts db = ingest_tx env tx height t ts scripts db1" by blast
  note r = ready_tx [OF assms(1) db1(1,2)]
  then obtain n err ts' db' evs where j: "ingest_tx env tx height t ts scripts db1 = Ret ((n, err), ts', db', evs)"
    by (metis surj_pair)
  let ?puts = "output_puts scripts (watchedScripts ts) (txHash lib tx) height (enumerate 0 (tx_TxOut tx))"
  let ?u = "new_utxo (txHash lib tx) i height (tx_TxOut tx ! i) False"
  have "(i, tx_TxOut tx ! i) \<in> set (enumerate 0 (tx_TxOut tx))"
    using assms(5) by (simp add: in_set_enumerate_eq)
  moreover have "?u \<in> set (own_puts scripts (txHash lib tx) height (i, tx_TxOut tx ! i))"
    using assms(6) by (simp add: own_puts_def)
  ultimately have "?u \<in> set ?puts" by (auto simp: output_puts_def intro!: bexI [of _ "(i, tx_TxOut tx ! i)"])
  then have "stxo_Op x \<in> utxo_Op ` set ?puts"
    using assms(8) by (auto simp: new_utxo_def intro!: image_eqI [of _ _ ?u])
  then have "stxo_Op x \<in> utxo_Op ` set (fold (upsert utxo_Op) ?puts (v_utxos (sql_view lib db1)))"
    by (simp add: set_fold_upsert_ops)
  with sqlite.ingest_tx_ok [OF r(2) _ _ db1(1) j] r(3,4) assms(9) db1(3) j show ?thesis
    by (auto simp: v)
qed

definition ex_revdb :: sqldb where
  "ex_revdb = snd (StxoDB_Put ex_lib \<lparr>stxo_Utxo = new_utxo 9 0 0 (hd (tx_TxOut ex_pay)) False,
     SpendHeight = 0, SpendTxid = 77\<rparr> ex_db0)"

lemma ex_revdb:
  "sql_inv ex_lib ex_revdb" "v_keys (sql_view ex_lib ex_revdb) = []" "fst (CheckDoubleSpends ex_env ex_pay ex_revdb) = []"
  "fst (StxoDB_GetAll ex_lib ex_revdb) =
     [\<lparr>stxo_Utxo = new_utxo 9 0 0 (hd (tx_TxOut ex_pay)) False, SpendHeight = 0, SpendTxid = 77\<rparr>]"
proof -
  note put = sql_Stxos_Put [OF sql_inv_init [OF ex_lib_ok], of "\<lparr>stxo_Utxo = new_utxo 9 0 0 (hd (tx_TxOut ex_pay)) False,
     SpendHeight = 0, SpendTxid = 77\<rparr>" "\<lambda>n. 7"]
  show inv: "sql_inv ex_lib ex_revdb" using put by (auto simp: ex_revdb_def)
  show "v_keys (sql_view ex_lib ex_revdb) = []" using put by (auto simp: ex_revdb_def)
  show "fst (CheckDoubleSpends ex_env ex_pay ex_revdb) = []"
    by (simp add: CheckDoubleSpends_def ex_env_def SQLiteDatastore_def TxnsDB_GetAll_def ex_revdb_def StxoDB_Put_def
        Let_def initDatabaseTables_def)
  show "fst (StxoDB_GetAll ex_lib ex_revdb) =
     [\<lparr>stxo_Utxo = new_utxo 9 0 0 (hd (tx_TxOut ex_pay)) False, SpendHeight = 0, SpendTxid = 77\<rparr>]"
    using put by (auto simp: ex_revdb_def sql_view_def initDatabaseTables_def StxoDB_GetAll_def upsert_def
        List.map_filter_simps)
qed

definition ex_ts1 :: TxStore where
  "ex_ts1 = ex_ts0\<lparr>txids := [hashString ex_lib (txHash ex_lib ex_pay) \<mapsto> 0]\<rparr>"

lemma ex_rev_ready: "ingest_ready ex_lib ex_env (2 ^ 32) ex_pay ex_ts1 [[118, 0]] ex_revdb"
  using ex_revdb(1,2) ex_scripts_total ex_keys_room [of "Suc 0"]
  by (simp add: ingest_ready_def ex_pay_def ex_ts0_def ex_ts1_def) (simp add: ex_env_def ex_sl_def)

theorem Ingest_revives_spent_witness:
  "\<exists>n ts' db' evs. Ingest ex_env 0 ex_pay 100 50 ex_ts1 ex_revdb = Ret ((n, None), ts', db', evs) \<and>
    (\<exists>u \<in> set (fst (UtxoDB_GetAll ex_lib db')). utxo_Op u = \<lparr>op_Hash = 9, op_Index = 0\<rparr>)"
proof -
  let ?x = "\<lparr>stxo_Utxo = new_utxo 9 0 0 (hd (tx_TxOut ex_pay)) False, SpendHeight = 0, SpendTxid = 77\<rparr>"
  have h: "txHash ex_lib ex_pay = 9" "txHash ex_lib (ex_pay\<lparr>tx_LockTime := 9\<rparr>) = 9"
    by (simp_all add: ex_lib_def ex_pay_def)
  have "\<exists>n ts' db' evs. Ingest ex_env 0 ex_pay 100 50 ex_ts1 ex_revdb = Ret ((n, None), ts', db', evs) \<and>
    (\<exists>u \<in> set (fst (UtxoDB_GetAll ex_lib db')). utxo_Op u = stxo_Op ?x)"
    by (rule Ingest_revives_spent [OF ex_rev_ready _ _ ex_revdb(3), where i = 0])
      (simp_all add: ex_ts1_def ex_revdb(4) h new_utxo_def input_ops_def word_sless_alt, simp_all add: ex_pay_def)
  then show ?thesis by (simp add: new_utxo_def)
qed

text \<open>The listeners of a transaction first seen in a block are told the value 0, whatever the value the
  wallet stores with it: the callback's value is overwritten with that of the row that does not exist yet.\<close>

theorem Ingest_callback_zero:
  assumes "ingest_ready lib env N tx ts scripts db"
    and "unprocessed ts (hashString lib (txHash lib tx)) height" "0 <s height"
    and "\<forall>r \<in> set (fst (TxnsDB_GetAll lib True db)). txn_Txid r \<noteq> hashString lib (txHash lib tx)"
  shows "\<exists>n ts' db' evs. Ingest env now tx height t ts db = Ret ((n, None), ts', db', evs) \<and>
    (\<forall>e \<in> set evs. cb_Value (snd e) = 0)"
proof -
  have r: "sql_inv lib db" using assms(1) by (simp add: ingest_ready_def)
  have "height \<noteq> 0" using assms(3) by auto
  then obtain db1 where db1: "sql_inv lib db1" "v_keys (sql_view lib db1) = v_keys (sql_view lib db)"
    "txns_rel (hashString lib) UNIV (v_txns (sql_view lib db)) (v_txns (sql_view lib db1))"
    "Ingest env now tx height t ts db = ingest_tx env tx height t ts scripts db1"
    using Ingest_tx [OF assms(1,2)] by blast
  note rt = ready_tx [OF assms(1) db1(1,2)]
  then obtain n err ts' db' evs where j: "ingest_tx env tx height t ts scripts db1 = Ret ((n, err), ts', db', evs)"
    by (metis surj_pair)
  have "hashString lib (txHash lib tx) \<notin> txn_Txid ` set (v_txns (sql_view lib db1))"
    using assms(4) txns_rel_row [OF db1(3)] by (auto simp: sql_Txns_GetAll [OF r]) metis
  with sqlite.ingest_tx_ok [OF rt(2) _ _ db1(1) j] rt(3,4) assms(3) db1(4) j show ?thesis by auto
qed

theorem Ingest_callback_zero_witness:
  "\<exists>n ts' db' evs. Ingest ex_env 0 ex_pay 100 50 ex_ts0 ex_db0 = Ret ((n, None), ts', db', evs) \<and>
    (\<forall>e \<in> set evs. cb_Value (snd e) = 0)"
  by (rule Ingest_callback_zero [OF ex_ready ex_unprocessed]) (simp_all add: ex_db0_empty word_sless_alt)

end
