(* ===== verification/Header_Store.thy ===== *)
theory Header_Store
  imports Go_Lib "HOL-Library.DAList"
begin

text \<open>
  The header database, \<^verbatim>\<open>src/headers.go\<close>: the serialisation of stored headers, the cache of recent
  headers, the two buckets of the database file and the operations of the \<open>Headers\<close> interface.
  The ordered map behind the cache, the buckets of the database file and the header functions of the
  wire library are parameters (\<open>omap_lib\<close>, \<open>bolt_lib\<close>, \<open>header_lib\<close>); \<open>omap_ok\<close> and \<open>bolt_ok\<close> state their
  documented behaviour.  \<open>Put\<close> starts a goroutine that writes to the file: \<open>pending\<close> holds the writes
  not done yet, and \<open>hdb_step\<close> lets any of them happen at any time.
\<close>

section \<open>Libraries\<close>

record StoredHeader =
  sh_header :: BlockHeader
  sh_height :: u32
  totalWork :: int

record header_lib =
  BlockHash :: "BlockHeader \<Rightarrow> hash"
  hdr_Serialize :: "BlockHeader \<Rightarrow> bytes"
  hdr_Deserialize :: "bytes \<Rightarrow> (BlockHeader \<times> bytes) option"
  hl_String :: "hash \<Rightarrow> string"

record 'm omap_lib =
  om_New :: 'm
  om_Set :: "string \<Rightarrow> StoredHeader \<Rightarrow> 'm \<Rightarrow> 'm"
  om_Get :: "string \<Rightarrow> 'm \<Rightarrow> StoredHeader option"
  om_Delete :: "string \<Rightarrow> 'm \<Rightarrow> 'm"
  om_Len :: "'m \<Rightarrow> nat"
  om_First :: "'m \<Rightarrow> string option"

record 'b bolt_lib =
  bk_New :: 'b
  bk_Put :: "bytes \<Rightarrow> bytes \<Rightarrow> 'b \<Rightarrow> 'b"
  bk_Get :: "bytes \<Rightarrow> 'b \<Rightarrow> bytes option"
  bk_Delete :: "bytes \<Rightarrow> 'b \<Rightarrow> 'b"
  bk_Items :: "'b \<Rightarrow> (bytes \<times> bytes) list"

text \<open>An insertion-ordered map: a map, its size, and some key first unless it is empty.\<close>

definition omap_ok :: "'m omap_lib \<Rightarrow> bool" where
  "omap_ok ol \<longleftrightarrow>
     (\<forall>k. om_Get ol k (om_New ol) = None) \<and> om_Len ol (om_New ol) = 0 \<and>
     (\<forall>k v m k'. om_Get ol k' (om_Set ol k v m) = (if k' = k then Some v else om_Get ol k' m)) \<and>
     (\<forall>k m k'. om_Get ol k' (om_Delete ol k m) = (if k' = k then None else om_Get ol k' m)) \<and>
     (\<forall>k v m. om_Len ol (om_Set ol k v m) = (if om_Get ol k m = None then Suc (om_Len ol m) else om_Len ol m)) \<and>
     (\<forall>k m. om_Len ol (om_Delete ol k m) = (if om_Get ol k m = None then om_Len ol m else om_Len ol m - 1)) \<and>
     (\<forall>m. om_Len ol m > 0 \<longrightarrow> (\<exists>k. om_First ol m = Some k \<and> om_Get ol k m \<noteq> None)) \<and>
     (\<forall>m. om_Len ol m = 0 \<longrightarrow> om_First ol m = None)"

text \<open>A bucket: a map from keys to values, enumerated without repetition.\<close>

definition bolt_ok :: "'b bolt_lib \<Rightarrow> bool" where
  "bolt_ok bl \<longleftrightarrow>
     bk_Items bl (bk_New bl) = [] \<and>
     (\<forall>b. distinct (map fst (bk_Items bl b))) \<and>
     (\<forall>b k v. (k, v) \<in> set (bk_Items bl b) \<longleftrightarrow> bk_Get bl k b = Some v) \<and>
     (\<forall>k v b k'. bk_Get bl k' (bk_Put bl k v b) = (if k' = k then Some v else bk_Get bl k' b)) \<and>
     (\<forall>k b k'. bk_Get bl k' (bk_Delete bl k b) = (if k' = k then None else bk_Get bl k' b))"

section \<open>Serialisation\<close>

definition be32 :: "u32 \<Rightarrow> bytes" where
  "be32 w = [ucast (drop_bit 24 w), ucast (drop_bit 16 w), ucast (drop_bit 8 w), ucast w]"

fun be_val :: "int \<Rightarrow> bytes \<Rightarrow> int" where
  "be_val acc [] = acc"
| "be_val acc (b # bs) = be_val (256 * acc + uint b) bs"

text \<open>\<open>big.Int.Bytes\<close>: the absolute value, most significant byte first, no leading zero.\<close>

fun nat_bytes :: "nat \<Rightarrow> bytes" where
  "nat_bytes n = (if n = 0 then [] else nat_bytes (n div 256) @ [of_nat (n mod 256)])"

declare nat_bytes.simps [simp del]

definition big_Bytes :: "int \<Rightarrow> bytes" where
  "big_Bytes i = nat_bytes (nat \<bar>i\<bar>)"

text \<open>The padding has a negative length, and \<open>make\<close> panics, when the work needs more than 32 bytes.\<close>

definition serializeHeader :: "header_lib \<Rightarrow> StoredHeader \<Rightarrow> bytes go" where
  "serializeHeader hl sh =
     (let biBytes = big_Bytes (totalWork sh) in
      if 32 < length biBytes then Panic
      else Ok (hdr_Serialize hl (sh_header sh) @ be32 (sh_height sh) @ replicate (32 - length biBytes) 0 @ biBytes))"

text \<open>\<open>Read\<close> fills what is there and leaves the rest of the buffer zero.\<close>

definition deserializeHeader :: "header_lib \<Rightarrow> bytes \<Rightarrow> StoredHeader go" where
  "deserializeHeader hl b =
     (case hdr_Deserialize hl b of
        None \<Rightarrow> Err LibError
      | Some (hdr, r) \<Rightarrow>
          if length r < 4 then Err LibError
          else if length r = 4 then Err LibError
          else let got = take 32 (drop 4 r) in
               Ok \<lparr>sh_header = hdr, sh_height = word_of_int (be_val 0 (take 4 r)),
                   totalWork = be_val 0 (got @ replicate (32 - length got) 0)\<rparr>)"

section \<open>The cache\<close>

definition CACHE_SIZE :: nat where
  "CACHE_SIZE = 200"

definition MAX_HEADERS :: nat where
  "MAX_HEADERS = 2000"

definition cache_pop :: "'m omap_lib \<Rightarrow> 'm \<Rightarrow> 'm" where
  "cache_pop ol m = (case om_First ol m of None \<Rightarrow> m | Some k \<Rightarrow> om_Delete ol k m)"

definition cache_Set :: "header_lib \<Rightarrow> 'm omap_lib \<Rightarrow> StoredHeader \<Rightarrow> 'm \<Rightarrow> 'm" where
  "cache_Set hl ol sh m =
     (let m1 = (if om_Len ol m > CACHE_SIZE then cache_pop ol m else m)
      in om_Set ol (hl_String hl (BlockHash hl (sh_header sh))) sh m1)"

definition cache_Get :: "header_lib \<Rightarrow> 'm omap_lib \<Rightarrow> hash \<Rightarrow> 'm \<Rightarrow> StoredHeader option" where
  "cache_Get hl ol h m = om_Get ol (hl_String hl h) m"

section \<open>The database\<close>

record ('m, 'b) HeaderDB =
  bestCache :: "StoredHeader option"
  cache :: 'm
  bkt_headers :: 'b
  bkt_tip :: 'b
  pending :: "(StoredHeader \<times> bool) list"

text \<open>The key is the text \<open>ChainTip\<close>.\<close>

definition KEYChainTip :: bytes where
  "KEYChainTip = [67, 104, 97, 105, 110, 84, 105, 112]"

definition HeaderDB_Put ::
    "header_lib \<Rightarrow> 'm omap_lib \<Rightarrow> StoredHeader \<Rightarrow> bool \<Rightarrow> ('m, 'b) HeaderDB \<Rightarrow> ('m, 'b) HeaderDB" where
  "HeaderDB_Put hl ol sh newBestHeader h =
     h\<lparr>cache := cache_Set hl ol sh (cache h),
       bestCache := (if newBestHeader then Some sh else bestCache h),
       pending := pending h @ [(sh, newBestHeader)]\<rparr>"

text \<open>\<open>putToDB\<close>: one transaction on the file; a panic of the serialisation ends the program.\<close>

definition putToDB ::
    "header_lib \<Rightarrow> 'b bolt_lib \<Rightarrow> StoredHeader \<Rightarrow> bool \<Rightarrow> ('m, 'b) HeaderDB \<Rightarrow> ('m, 'b) HeaderDB go" where
  "putToDB hl bl sh newBestHeader h =
     (case serializeHeader hl sh of
        Ok ser \<Rightarrow>
          Ok (h\<lparr>bkt_headers := bk_Put bl (hash_bytes (BlockHash hl (sh_header sh))) ser (bkt_headers h),
                bkt_tip := (if newBestHeader then bk_Put bl KEYChainTip ser (bkt_tip h) else bkt_tip h)\<rparr>)
      | Err e \<Rightarrow> Err e
      | Panic \<Rightarrow> Panic)"

text \<open>\<open>put\<close>: the variant that writes before it returns.\<close>

definition HeaderDB_put ::
    "header_lib \<Rightarrow> 'm omap_lib \<Rightarrow> 'b bolt_lib \<Rightarrow> StoredHeader \<Rightarrow> bool \<Rightarrow> ('m, 'b) HeaderDB \<Rightarrow>
     ('m, 'b) HeaderDB go" where
  "HeaderDB_put hl ol bl sh newBestHeader h =
     (let h1 = h\<lparr>cache := cache_Set hl ol sh (cache h),
                 bestCache := (if newBestHeader then Some sh else bestCache h)\<rparr>
      in case putToDB hl bl sh newBestHeader h1 of Ok h2 \<Rightarrow> Ok h2 | Err _ \<Rightarrow> Ok h1 | Panic \<Rightarrow> Panic)"

text \<open>A goroutine started by \<open>Put\<close> does its write; its error is only logged.\<close>

definition run_pending :: "header_lib \<Rightarrow> 'b bolt_lib \<Rightarrow> nat \<Rightarrow> ('m, 'b) HeaderDB \<Rightarrow> ('m, 'b) HeaderDB go" where
  "run_pending hl bl i h =
     (if i < length (pending h)
      then let (sh, best) = pending h ! i;
               h1 = h\<lparr>pending := take i (pending h) @ drop (Suc i) (pending h)\<rparr>
           in case putToDB hl bl sh best h1 of Ok h2 \<Rightarrow> Ok h2 | Err _ \<Rightarrow> Ok h1 | Panic \<Rightarrow> Panic
      else Ok h)"

text \<open>The keys a \<open>ForEach\<close> selects; it stops at the first entry that does not decode.\<close>

fun collect_keys :: "header_lib \<Rightarrow> (u32 \<Rightarrow> bool) \<Rightarrow> (bytes \<times> bytes) list \<Rightarrow> bytes list go" where
  "collect_keys hl p [] = Ok []"
| "collect_keys hl p ((k, v) # rest) =
     (case deserializeHeader hl v of
        Ok sh \<Rightarrow> go_bind (collect_keys hl p rest) (\<lambda>ks. Ok (if p (sh_height sh) then k # ks else ks))
      | Err e \<Rightarrow> Err e
      | Panic \<Rightarrow> Panic)"

definition delete_keys :: "'b bolt_lib \<Rightarrow> bytes list \<Rightarrow> 'b \<Rightarrow> 'b" where
  "delete_keys bl ks b = fold (bk_Delete bl) ks b"

definition HeaderDB_Prune ::
    "header_lib \<Rightarrow> 'b bolt_lib \<Rightarrow> ('m, 'b) HeaderDB \<Rightarrow> error option \<times> ('m, 'b) HeaderDB" where
  "HeaderDB_Prune hl bl h =
     (case bk_Get bl KEYChainTip (bkt_tip h) of
        None \<Rightarrow> (Some (ErrMsg ''ChainTip not set''), h)
      | Some b \<Rightarrow>
          (case deserializeHeader hl b of
             Ok sh \<Rightarrow>
               if MAX_HEADERS < length (bk_Items bl (bkt_headers h))
               then (case collect_keys hl (\<lambda>height. height \<le> sh_height sh - 2000) (bk_Items bl (bkt_headers h)) of
                       Ok ks \<Rightarrow> (None, h\<lparr>bkt_headers := delete_keys bl ks (bkt_headers h)\<rparr>)
                     | Err e \<Rightarrow> (Some e, h)
                     | Panic \<Rightarrow> (Some LibError, h))
               else (None, h)
           | Err e \<Rightarrow> (Some e, h)
           | Panic \<Rightarrow> (Some LibError, h)))"

definition HeaderDB_DeleteAfter ::
    "header_lib \<Rightarrow> 'b bolt_lib \<Rightarrow> u32 \<Rightarrow> ('m, 'b) HeaderDB \<Rightarrow> error option \<times> ('m, 'b) HeaderDB" where
  "HeaderDB_DeleteAfter hl bl height h =
     (case collect_keys hl (\<lambda>x. height < x) (bk_Items bl (bkt_headers h)) of
        Ok ks \<Rightarrow> (None, h\<lparr>bkt_headers := delete_keys bl ks (bkt_headers h)\<rparr>)
      | Err e \<Rightarrow> (Some e, h)
      | Panic \<Rightarrow> (Some LibError, h))"

definition HeaderDB_GetHeader ::
    "header_lib \<Rightarrow> 'm omap_lib \<Rightarrow> 'b bolt_lib \<Rightarrow> hash \<Rightarrow> ('m, 'b) HeaderDB \<Rightarrow> StoredHeader go" where
  "HeaderDB_GetHeader hl ol bl hash1 h =
     (case cache_Get hl ol hash1 (cache h) of
        Some sh \<Rightarrow> Ok sh
      | None \<Rightarrow>
          (case bk_Get bl (hash_bytes hash1) (bkt_headers h) of
             None \<Rightarrow> Err (ErrMsg (''No header found: '' @ hl_String hl hash1))
           | Some b \<Rightarrow> deserializeHeader hl b))"

definition HeaderDB_GetPreviousHeader ::
    "header_lib \<Rightarrow> 'm omap_lib \<Rightarrow> 'b bolt_lib \<Rightarrow> BlockHeader \<Rightarrow> ('m, 'b) HeaderDB \<Rightarrow> StoredHeader go" where
  "HeaderDB_GetPreviousHeader hl ol bl hdr h = HeaderDB_GetHeader hl ol bl (PrevBlock hdr) h"

definition HeaderDB_GetBestHeader :: "header_lib \<Rightarrow> 'b bolt_lib \<Rightarrow> ('m, 'b) HeaderDB \<Rightarrow> StoredHeader go" where
  "HeaderDB_GetBestHeader hl bl h =
     (case bestCache h of
        Some best \<Rightarrow> Ok best
      | None \<Rightarrow>
          (case bk_Get bl KEYChainTip (bkt_tip h) of
             None \<Rightarrow> Err (ErrMsg ''ChainTip not set'')
           | Some b \<Rightarrow> deserializeHeader hl b))"

definition HeaderDB_Height :: "header_lib \<Rightarrow> 'b bolt_lib \<Rightarrow> ('m, 'b) HeaderDB \<Rightarrow> u32 go" where
  "HeaderDB_Height hl bl h =
     (case bestCache h of
        Some best \<Rightarrow> Ok (sh_height best)
      | None \<Rightarrow>
          go_bind (deserializeHeader hl (case bk_Get bl KEYChainTip (bkt_tip h) of None \<Rightarrow> [] | Some b \<Rightarrow> b))
            (\<lambda>sh. Ok (sh_height sh)))"

text \<open>The loop of \<open>initializeCache\<close>: it asks for the parent of the tip in every round.\<close>

fun init_headers ::
    "header_lib \<Rightarrow> 'm omap_lib \<Rightarrow> 'b bolt_lib \<Rightarrow> nat \<Rightarrow> BlockHeader \<Rightarrow> ('m, 'b) HeaderDB \<Rightarrow> StoredHeader list" where
  "init_headers hl ol bl 0 best h = []"
| "init_headers hl ol bl (Suc n) best h =
     (case HeaderDB_GetPreviousHeader hl ol bl best h of
        Ok sh \<Rightarrow> sh # init_headers hl ol bl n best h
      | _ \<Rightarrow> [])"

definition initializeCache ::
    "header_lib \<Rightarrow> 'm omap_lib \<Rightarrow> 'b bolt_lib \<Rightarrow> ('m, 'b) HeaderDB \<Rightarrow> ('m, 'b) HeaderDB" where
  "initializeCache hl ol bl h =
     (case HeaderDB_GetBestHeader hl bl h of
        Ok best \<Rightarrow>
          (let headers = best # init_headers hl ol bl 99 (sh_header best) (h\<lparr>bestCache := Some best\<rparr>)
           in h\<lparr>bestCache := Some best, cache := fold (cache_Set hl ol) (rev headers) (cache h)\<rparr>)
      | _ \<Rightarrow> h)"

text \<open>Opening the file with the given buckets (empty ones when it is new).\<close>

definition NewHeaderDB :: "header_lib \<Rightarrow> 'm omap_lib \<Rightarrow> 'b bolt_lib \<Rightarrow> 'b \<Rightarrow> 'b \<Rightarrow> ('m, 'b) HeaderDB" where
  "NewHeaderDB hl ol bl hdrs tip =
     initializeCache hl ol bl
       \<lparr>bestCache = None, cache = om_New ol, bkt_headers = hdrs, bkt_tip = tip, pending = []\<rparr>"

section \<open>Round trip of the serialisation\<close>

lemma be_val_append: "be_val acc (xs @ ys) = be_val (be_val acc xs) ys"
  by (induction xs arbitrary: acc) simp_all

lemma be_val_zeros: "be_val 0 (replicate k 0) = 0"
  by (induction k) simp_all

lemma be_val_nat_bytes: "be_val 0 (nat_bytes n) = int n"
proof (induction n rule: nat_bytes.induct)
  case (1 n)
  have "uint (of_nat (n mod 256) :: u8) = int (n mod 256)"
    by (simp add: unsigned_of_nat take_bit_nat_def flip: zmod_int)
  moreover have "256 * int (n div 256) + int (n mod 256) = int n"
    by (metis mult_div_mod_eq of_nat_add of_nat_mult of_nat_numeral)
  ultimately show ?case using 1 by (subst nat_bytes.simps) (auto simp: be_val_append)
qed

lemma length_nat_bytes: "length (nat_bytes n) \<le> k \<longleftrightarrow> n < 256 ^ k"
proof (induction n arbitrary: k rule: nat_bytes.induct)
  case (1 n)
  show ?case
  proof (cases k)
    case 0
    then show ?thesis by (subst nat_bytes.simps) simp
  next
    case (Suc k')
    have "n div 256 < 256 ^ k' \<longleftrightarrow> n < 256 ^ Suc k'"
      by (simp add: less_mult_imp_div_less div_less_iff_less_mult mult.commute)
    with 1 Suc show ?thesis by (subst nat_bytes.simps) auto
  qed
qed

lemma byte_of_u32: "uint (ucast (drop_bit n (w :: u32)) :: u8) = uint w div 2 ^ n mod 256"
proof -
  have "take_bit 32 (uint w) = uint w" using uint_bounded [of w] by (simp add: take_bit_int_eq_self)
  then have "uint (ucast (drop_bit n w) :: u8) = take_bit 8 (drop_bit n (uint w))"
    by (simp add: unsigned_ucast_eq unsigned_drop_bit_eq)
  then show ?thesis by (simp add: take_bit_eq_mod drop_bit_eq_div)
qed

lemma length_be32: "length (be32 w) = 4"
  by (simp add: be32_def)

lemma be_val_be32: "word_of_int (be_val 0 (be32 w)) = w"
proof -
  have b: "uint w < 2 ^ 32" "0 \<le> uint w" using uint_bounded [of w] by auto
  define x where "x = uint w"
  have top: "x div 2 ^ 24 mod 256 = x div 2 ^ 24" 
  proof (rule mod_pos_pos_trivial)
    have "0 \<le> x" "x < 4294967296" using b by (simp_all add: x_def)
    then show "0 \<le> x div 2 ^ 24" "x div 2 ^ 24 < 256" by simp_all
  qed
  have s1: "256 * (x div 2 ^ 24) + x div 2 ^ 16 mod 256 = x div 2 ^ 16"
    using mult_div_mod_eq [of 256 "x div 2 ^ 16"] by (simp flip: zdiv_zmult2_eq)
  have s2: "256 * (x div 2 ^ 16) + x div 2 ^ 8 mod 256 = x div 2 ^ 8"
    using mult_div_mod_eq [of 256 "x div 2 ^ 8"] by (simp flip: zdiv_zmult2_eq)
  have s3: "256 * (x div 2 ^ 8) + x mod 256 = x"
    using mult_div_mod_eq [of 256 x] by simp
  have b0: "uint (ucast w :: u8) = x mod 256" using byte_of_u32 [of 0 w] by (simp add: x_def)
  have "be_val 0 (be32 w) = 256 * (256 * (256 * (x div 2 ^ 24 mod 256) + x div 2 ^ 16 mod 256) + x div 2 ^ 8 mod 256) + x mod 256"
    by (simp only: be32_def be_val.simps byte_of_u32 b0 x_def [symmetric] mult_zero_right add_0)
  also have "\<dots> = x" by (simp only: top s1 s2 s3)
  finally show ?thesis by (simp add: x_def)
qed

definition header_ok :: "header_lib \<Rightarrow> BlockHeader \<Rightarrow> bool" where
  "header_ok hl hdr \<longleftrightarrow> (\<forall>rest. hdr_Deserialize hl (hdr_Serialize hl hdr @ rest) = Some (hdr, rest))"

lemma deserialize_ser:
  assumes "header_ok hl hdr" "length z = 32"
  shows "deserializeHeader hl (hdr_Serialize hl hdr @ be32 w @ z) =
    Ok \<lparr>sh_header = hdr, sh_height = w, totalWork = be_val 0 z\<rparr>"
proof -
  from assms show ?thesis by (simp add: deserializeHeader_def header_ok_def be_val_be32 length_be32)
qed

text \<open>Property C30. Stored headers survive the file: a header whose wire form decodes to itself and whose total work
  fits in 256 bits is serialised without error, and reading the bytes gives the same header, height
  and work; a larger work makes the serialisation panic.\<close>

theorem serializeHeader_roundtrip:
  assumes "header_ok hl (sh_header sh)" "0 \<le> totalWork sh"
  shows "if totalWork sh < 2 ^ 256 then \<exists>b. serializeHeader hl sh = Ok b \<and> deserializeHeader hl b = Ok sh
    else serializeHeader hl sh = Panic"
proof -
  let ?bi = "big_Bytes (totalWork sh)"
  have "length ?bi \<le> 32 \<longleftrightarrow> nat (totalWork sh) < 256 ^ 32"
    using assms(2) by (simp add: big_Bytes_def length_nat_bytes)
  also have "\<dots> \<longleftrightarrow> totalWork sh < 2 ^ 256"
    using assms(2) by (simp add: nat_less_iff)
  finally have len: "length ?bi \<le> 32 \<longleftrightarrow> totalWork sh < 2 ^ 256" .
  show ?thesis
  proof (cases "totalWork sh < 2 ^ 256")
    case True
    let ?b = "hdr_Serialize hl (sh_header sh) @ be32 (sh_height sh) @ replicate (32 - length ?bi) 0 @ ?bi"
    have "be_val 0 ?bi = totalWork sh" using assms(2) by (simp add: big_Bytes_def be_val_nat_bytes)
    then have work: "be_val 0 (replicate (32 - length ?bi) 0 @ ?bi) = totalWork sh"
      by (simp add: be_val_append be_val_zeros)
    have "length (replicate (32 - length ?bi) (0 :: u8) @ ?bi) = 32" using len True by simp
    from deserialize_ser [OF assms(1) this] work have "deserializeHeader hl ?b = Ok sh" by simp
    moreover have "serializeHeader hl sh = Ok ?b" using len True by (simp add: serializeHeader_def Let_def)
    ultimately show ?thesis using True by auto
  next
    case False
    with len show ?thesis by (simp add: serializeHeader_def Let_def)
  qed
qed

section \<open>Reachable databases\<close>

definition storable :: "header_lib \<Rightarrow> StoredHeader \<Rightarrow> bool" where
  "storable hl sh \<longleftrightarrow> header_ok hl (sh_header sh) \<and> 0 \<le> totalWork sh \<and> totalWork sh < 2 ^ 256"

text \<open>
  The states of the database: opened on a new file, or opened again on what the file holds; a
  storable header put; a goroutine of an earlier \<open>Put\<close> done; headers pruned or deleted.
\<close>

inductive hdb_reach :: "header_lib \<Rightarrow> 'm omap_lib \<Rightarrow> 'b bolt_lib \<Rightarrow> ('m, 'b) HeaderDB \<Rightarrow> bool"
  for hl ol bl where
  hdb_new: "hdb_reach hl ol bl (NewHeaderDB hl ol bl (bk_New bl) (bk_New bl))"
| hdb_reopen: "hdb_reach hl ol bl h \<Longrightarrow> hdb_reach hl ol bl (NewHeaderDB hl ol bl (bkt_headers h) (bkt_tip h))"
| hdb_put: "hdb_reach hl ol bl h \<Longrightarrow> storable hl sh \<Longrightarrow> hdb_reach hl ol bl (HeaderDB_Put hl ol sh best h)"
| hdb_write: "hdb_reach hl ol bl h \<Longrightarrow> run_pending hl bl i h = Ok h' \<Longrightarrow> hdb_reach hl ol bl h'"
| hdb_prune: "hdb_reach hl ol bl h \<Longrightarrow> hdb_reach hl ol bl (snd (HeaderDB_Prune hl bl h))"
| hdb_delete: "hdb_reach hl ol bl h \<Longrightarrow> hdb_reach hl ol bl (snd (HeaderDB_DeleteAfter hl bl height h))"

text \<open>Names of hashes are told apart.\<close>

definition hl_ok :: "header_lib \<Rightarrow> bool" where
  "hl_ok hl \<longleftrightarrow> inj (hl_String hl)"

definition cache_ok :: "header_lib \<Rightarrow> 'm omap_lib \<Rightarrow> 'm \<Rightarrow> bool" where
  "cache_ok hl ol m \<longleftrightarrow> om_Len ol m \<le> Suc CACHE_SIZE \<and>
     (\<forall>k sh. om_Get ol k m = Some sh \<longrightarrow> storable hl sh \<and> k = hl_String hl (BlockHash hl (sh_header sh)))"

definition file_ok :: "header_lib \<Rightarrow> 'b bolt_lib \<Rightarrow> 'b \<Rightarrow> 'b \<Rightarrow> bool" where
  "file_ok hl bl hdrs tip \<longleftrightarrow>
     (\<forall>k b. bk_Get bl k hdrs = Some b \<longrightarrow>
        (\<exists>sh. storable hl sh \<and> deserializeHeader hl b = Ok sh \<and> k = hash_bytes (BlockHash hl (sh_header sh)))) \<and>
     (\<forall>b. bk_Get bl KEYChainTip tip = Some b \<longrightarrow> (\<exists>sh. storable hl sh \<and> deserializeHeader hl b = Ok sh))"

definition hdb_inv :: "header_lib \<Rightarrow> 'm omap_lib \<Rightarrow> 'b bolt_lib \<Rightarrow> ('m, 'b) HeaderDB \<Rightarrow> bool" where
  "hdb_inv hl ol bl h \<longleftrightarrow> cache_ok hl ol (cache h) \<and> file_ok hl bl (bkt_headers h) (bkt_tip h) \<and>
     (\<forall>p \<in> set (pending h). storable hl (fst p)) \<and> (\<forall>sh. bestCache h = Some sh \<longrightarrow> storable hl sh)"

lemma hash_bytes_inj: "hash_bytes a = hash_bytes b \<longleftrightarrow> a = b"
proof
  assume eq: "hash_bytes a = hash_bytes b"
  show "a = b"
  proof (rule bit_word_eqI)
    fix n :: nat assume "n < LENGTH(256)"
    then have n: "n div 8 < 32" by simp
    from eq have "(ucast (drop_bit (8 * (n div 8)) a) :: u8) = ucast (drop_bit (8 * (n div 8)) b)"
      using n by (auto simp: hash_bytes_def)
    then have "bit (ucast (drop_bit (8 * (n div 8)) a) :: u8) (n mod 8) = bit (ucast (drop_bit (8 * (n div 8)) b) :: u8) (n mod 8)"
      by simp
    then show "bit a n = bit b n" by (simp add: bit_simps)
  qed
qed simp

lemma cache_ok_Set:
  assumes "omap_ok ol" "cache_ok hl ol m" "storable hl sh"
  shows "cache_ok hl ol (cache_Set hl ol sh m)"
proof -
  let ?k = "hl_String hl (BlockHash hl (sh_header sh))"
  have pop: "om_Len ol (cache_pop ol m) = om_Len ol m - 1 \<and>
      (\<forall>k x. om_Get ol k (cache_pop ol m) = Some x \<longrightarrow> om_Get ol k m = Some x)"
  proof (cases "om_Len ol m = 0")
    case True
    then show ?thesis using assms(1) by (simp add: omap_ok_def cache_pop_def)
  next
    case False
    then obtain k where "om_First ol m = Some k" "om_Get ol k m \<noteq> None"
      using assms(1) unfolding omap_ok_def by (metis gr0I)
    then show ?thesis using assms(1) by (auto simp: omap_ok_def cache_pop_def)
  qed
  define m1 where "m1 = (if om_Len ol m > CACHE_SIZE then cache_pop ol m else m)"
  have "om_Len ol m1 \<le> CACHE_SIZE" using pop assms(2) by (auto simp: m1_def cache_ok_def)
  moreover have "om_Len ol (om_Set ol ?k sh m1) \<le> Suc (om_Len ol m1)"
    using assms(1) by (simp add: omap_ok_def)
  moreover have "om_Get ol k (om_Set ol ?k sh m1) = Some x \<Longrightarrow> (k = ?k \<and> x = sh) \<or> om_Get ol k m = Some x" for k x
    using assms(1) pop by (auto simp: omap_ok_def m1_def split: if_splits)
  ultimately show ?thesis
    using assms(2,3) by (fastforce simp: cache_ok_def cache_Set_def Let_def m1_def)
qed

lemma cache_ok_New: "omap_ok ol \<Longrightarrow> cache_ok hl ol (om_New ol)"
  by (simp add: cache_ok_def omap_ok_def)

lemma cache_ok_fold:
  "omap_ok ol \<Longrightarrow> cache_ok hl ol m \<Longrightarrow> (\<And>sh. sh \<in> set shs \<Longrightarrow> storable hl sh) \<Longrightarrow>
   cache_ok hl ol (fold (cache_Set hl ol) shs m)"
  by (induction shs arbitrary: m) (simp_all add: cache_ok_Set)

lemma serialize_storable:
  assumes "storable hl sh"
  shows "\<exists>b. serializeHeader hl sh = Ok b \<and> deserializeHeader hl b = Ok sh"
proof -
  let ?bi = "big_Bytes (totalWork sh)"
  have "nat (totalWork sh) < 256 ^ 32" using assms by (simp add: storable_def nat_less_iff)
  then have len: "length ?bi \<le> 32" using assms by (simp add: storable_def big_Bytes_def length_nat_bytes)
  then have z: "length (replicate (32 - length ?bi) (0 :: u8) @ ?bi) = 32" by simp
  have "be_val 0 (replicate (32 - length ?bi) 0 @ ?bi) = totalWork sh"
    using assms by (simp add: storable_def big_Bytes_def be_val_nat_bytes be_val_append be_val_zeros)
  with deserialize_ser [OF _ z, of hl "sh_header sh" "sh_height sh"] assms len show ?thesis
    by (simp add: serializeHeader_def storable_def Let_def)
qed

lemma file_ok_put:
  assumes "bolt_ok bl" "file_ok hl bl hdrs tip" "storable hl sh" "serializeHeader hl sh = Ok b" "deserializeHeader hl b = Ok sh"
  shows "file_ok hl bl (bk_Put bl (hash_bytes (BlockHash hl (sh_header sh))) b hdrs)
    (if best then bk_Put bl KEYChainTip b tip else tip)"
  using assms by (auto simp: file_ok_def bolt_ok_def)

lemma bk_Get_delete_keys:
  assumes "bolt_ok bl"
  shows "bk_Get bl k (delete_keys bl ks b) = (if k \<in> set ks then None else bk_Get bl k b)"
proof -
  have "bk_Get bl k (bk_Delete bl k' b) = (if k = k' then None else bk_Get bl k b)" for k k' b
    using assms by (simp add: bolt_ok_def)
  then show ?thesis by (induction ks arbitrary: b) (simp_all add: delete_keys_def)
qed

lemma file_ok_delete:
  assumes "bolt_ok bl" "file_ok hl bl hdrs tip"
  shows "file_ok hl bl (delete_keys bl ks hdrs) tip"
  using assms(2) by (auto simp: file_ok_def bk_Get_delete_keys [OF assms(1)])

lemma GetHeader_cases:
  assumes "hdb_inv hl ol bl h" "hl_ok hl" "HeaderDB_GetHeader hl ol bl x h = Ok sh"
  shows "storable hl sh \<and> BlockHash hl (sh_header sh) = x"
proof (cases "cache_Get hl ol x (cache h)")
  case None
  with assms(3) obtain b where b: "bk_Get bl (hash_bytes x) (bkt_headers h) = Some b" "deserializeHeader hl b = Ok sh"
    by (auto simp: HeaderDB_GetHeader_def split: option.splits)
  from assms(1) b obtain sh' where "storable hl sh'" "deserializeHeader hl b = Ok sh'"
    "hash_bytes x = hash_bytes (BlockHash hl (sh_header sh'))"
    unfolding hdb_inv_def file_ok_def by blast
  with b(2) show ?thesis by (simp add: hash_bytes_inj)
next
  case (Some y)
  with assms show ?thesis
    by (auto simp: HeaderDB_GetHeader_def hdb_inv_def cache_ok_def cache_Get_def hl_ok_def inj_def)
qed

lemma GetBestHeader_storable:
  assumes "hdb_inv hl ol bl h" "HeaderDB_GetBestHeader hl bl h = Ok sh"
  shows "storable hl sh"
  using assms by (auto simp: HeaderDB_GetBestHeader_def hdb_inv_def file_ok_def split: option.splits)

lemma init_headers_storable:
  assumes "hdb_inv hl ol bl h" "hl_ok hl"
  shows "sh \<in> set (init_headers hl ol bl n hdr h) \<Longrightarrow> storable hl sh"
  by (induction n) (auto simp: HeaderDB_GetPreviousHeader_def split: go.splits dest: GetHeader_cases [OF assms] GetHeader_cases [OF assms sym])

lemma NewHeaderDB_inv:
  assumes "omap_ok ol" "bolt_ok bl" "hl_ok hl" "file_ok hl bl hdrs tip"
  shows "hdb_inv hl ol bl (NewHeaderDB hl ol bl hdrs tip)"
proof -
  let ?h = "\<lparr>bestCache = None, cache = om_New ol, bkt_headers = hdrs, bkt_tip = tip, pending = []\<rparr>"
  have inv: "hdb_inv hl ol bl ?h" using assms by (simp add: hdb_inv_def cache_ok_New)
  show ?thesis
  proof (cases "HeaderDB_GetBestHeader hl bl ?h")
    case (Ok best)
    then have best: "storable hl best" by (rule GetBestHeader_storable [OF inv])
    with inv have inv': "hdb_inv hl ol bl (?h\<lparr>bestCache := Some best\<rparr>)" by (simp add: hdb_inv_def)
    let ?hs = "best # init_headers hl ol bl 99 (sh_header best) (?h\<lparr>bestCache := Some best\<rparr>)"
    have "cache_ok hl ol (fold (cache_Set hl ol) (rev ?hs) (om_New ol))"
      using best init_headers_storable [OF inv' assms(3)]
      by (intro cache_ok_fold [OF assms(1) cache_ok_New [OF assms(1)]]) auto
    with Ok best assms(4) show ?thesis by (simp add: NewHeaderDB_def initializeCache_def hdb_inv_def)
  qed (use inv in \<open>simp_all add: NewHeaderDB_def initializeCache_def\<close>)
qed

lemma hdb_reach_inv:
  assumes "omap_ok ol" "bolt_ok bl" "hl_ok hl"
  shows "hdb_reach hl ol bl h \<Longrightarrow> hdb_inv hl ol bl h"
proof (induction rule: hdb_reach.induct)
  case hdb_new
  have "bk_Get bl k (bk_New bl) = None" for k
    using assms(2) unfolding bolt_ok_def by (metis list.set(1) empty_iff not_Some_eq)
  then show ?case by (intro NewHeaderDB_inv assms) (simp add: file_ok_def)
next
  case (hdb_reopen h)
  then show ?case by (intro NewHeaderDB_inv assms) (simp add: hdb_inv_def)
next
  case (hdb_put h sh best)
  then show ?case using cache_ok_Set [OF assms(1)] by (auto simp: HeaderDB_Put_def hdb_inv_def)
next
  case (hdb_write h i h')
  show ?case
  proof (cases "i < length (pending h)")
    case True
    obtain sh best where p: "pending h ! i = (sh, best)" by fastforce
    then have st: "storable hl sh" using hdb_write.IH True nth_mem [OF True] by (force simp: hdb_inv_def)
    from serialize_storable [OF st] obtain b where b: "serializeHeader hl sh = Ok b" "deserializeHeader hl b = Ok sh"
      by blast
    have "h' = h\<lparr>pending := take i (pending h) @ drop (Suc i) (pending h),
        bkt_headers := bk_Put bl (hash_bytes (BlockHash hl (sh_header sh))) b (bkt_headers h),
        bkt_tip := (if best then bk_Put bl KEYChainTip b (bkt_tip h) else bkt_tip h)\<rparr>"
      using hdb_write.hyps(2) True p b(1) by (cases best) (auto simp: run_pending_def putToDB_def Let_def)
    moreover have "\<forall>q \<in> set (take i (pending h) @ drop (Suc i) (pending h)). storable hl (fst q)"
      using hdb_write.IH by (auto simp: hdb_inv_def dest: in_set_takeD in_set_dropD)
    ultimately show ?thesis
      using hdb_write.IH file_ok_put [OF assms(2) _ st b, of "bkt_headers h" "bkt_tip h" best]
      by (simp add: hdb_inv_def)
  next
    case False
    then show ?thesis using hdb_write by (simp add: run_pending_def)
  qed
next
  case (hdb_prune h)
  then show ?case
    using file_ok_delete [OF assms(2)]
    by (auto simp: HeaderDB_Prune_def hdb_inv_def split: option.split go.split if_splits)
next
  case (hdb_delete h height)
  then show ?case
    using file_ok_delete [OF assms(2)] by (auto simp: HeaderDB_DeleteAfter_def hdb_inv_def split: go.split)
qed

section \<open>Concrete libraries for examples\<close>

definition ex_ol :: "(string, StoredHeader) alist omap_lib" where
  "ex_ol = \<lparr>om_New = DAList.empty, om_Set = DAList.update, om_Get = (\<lambda>k m. DAList.lookup m k),
     om_Delete = DAList.delete, om_Len = (\<lambda>m. length (DAList.impl_of m)),
     om_First = (\<lambda>m. case DAList.impl_of m of [] \<Rightarrow> None | p # _ \<Rightarrow> Some (fst p))\<rparr>"

definition ex_bl :: "(bytes, bytes) alist bolt_lib" where
  "ex_bl = \<lparr>bk_New = DAList.empty, bk_Put = DAList.update, bk_Get = (\<lambda>k b. DAList.lookup b k),
     bk_Delete = DAList.delete, bk_Items = DAList.impl_of\<rparr>"

lemma alist_lookup_iff: "DAList.lookup m k = Some v \<longleftrightarrow> (k, v) \<in> set (DAList.impl_of m)"
  using DAList.impl_of [of m] by (simp add: DAList.lookup.rep_eq)

lemma alist_lookup_None: "DAList.lookup m k = None \<longleftrightarrow> k \<notin> fst ` set (DAList.impl_of m)"
  by (simp add: DAList.lookup.rep_eq map_of_eq_None_iff)

lemma length_alist_delete:
  "distinct (map fst xs) \<Longrightarrow> length (AList.delete k xs) = (if k \<in> fst ` set xs then length xs - 1 else length xs)"
proof (induction xs)
  case (Cons p xs)
  then show ?case
    by (cases xs) (auto simp: AList.delete_eq)
qed simp

lemma length_alist_update:
  "length (AList.update k v xs) = (if k \<in> fst ` set xs then length xs else Suc (length xs))"
  by (induction xs) auto

lemma ex_ol_ok: "omap_ok ex_ol"
  unfolding omap_ok_def
proof (intro conjI allI impI)
  fix k m
  show "om_Len ex_ol (om_Delete ex_ol k m) = (if om_Get ex_ol k m = None then om_Len ex_ol m else om_Len ex_ol m - 1)"
    using length_alist_delete [of "DAList.impl_of m" k] DAList.impl_of [of m]
    by (simp add: ex_ol_def DAList.delete.rep_eq alist_lookup_None)
next
  fix m assume "0 < om_Len ex_ol m"
  then obtain p ps where "DAList.impl_of m = p # ps" by (cases "DAList.impl_of m") (auto simp: ex_ol_def)
  then show "\<exists>k. om_First ex_ol m = Some k \<and> om_Get ex_ol k m \<noteq> None"
    by (simp add: ex_ol_def DAList.lookup.rep_eq)
qed (auto simp: ex_ol_def DAList.lookup_update DAList.lookup_delete DAList.update.rep_eq DAList.empty.rep_eq
    alist_lookup_None length_alist_update split: list.split)

lemma ex_bl_ok: "bolt_ok ex_bl"
  by (auto simp: bolt_ok_def ex_bl_def DAList.lookup_update DAList.empty.rep_eq alist_lookup_iff)

text \<open>Headers that differ in the nonce only.\<close>

definition ex_header :: "u32 \<Rightarrow> hash \<Rightarrow> BlockHeader" where
  "ex_header n prev = \<lparr>hdr_Version = 1, PrevBlock = prev, MerkleRoot = 0, hdr_Timestamp = 0, Bits = 0, Nonce = n\<rparr>"

definition ex_hl :: header_lib where
  "ex_hl = \<lparr>BlockHash = (\<lambda>h. ucast (Nonce h)), hdr_Serialize = (\<lambda>h. be32 (Nonce h) @ hash_bytes (PrevBlock h)),
     hdr_Deserialize = (\<lambda>b. if length b < 36 then None
        else Some (ex_header (word_of_int (be_val 0 (take 4 b))) (word_of_int (be_val 0 (rev (take 32 (drop 4 b))))), drop 36 b)),
     hl_String = bit_string\<rparr>"

lemma ex_hl_ok: "hl_ok ex_hl"
proof -
  have "a = b" if "bit_string a = bit_string b" for a b using arg_cong [OF that, of bit_parse] by simp
  then show ?thesis by (simp add: hl_ok_def ex_hl_def inj_def)
qed

lemma ex_header_ok: "header_ok ex_hl (ex_header n 0)"
proof -
  have "hash_bytes 0 = replicate 32 0" by code_simp
  then show ?thesis
    by (simp add: header_ok_def ex_hl_def ex_header_def be_val_be32 be_val_zeros length_be32)
qed

definition ex_sh :: "u32 \<Rightarrow> int \<Rightarrow> StoredHeader" where
  "ex_sh n w = \<lparr>sh_header = ex_header n 0, sh_height = n, totalWork = w\<rparr>"

lemma ex_sh_storable: "0 \<le> w \<Longrightarrow> w < 2 ^ 256 \<Longrightarrow> storable ex_hl (ex_sh n w)"
  by (simp add: storable_def ex_sh_def ex_header_ok)

theorem serializeHeader_roundtrip_witness:
  "\<exists>b. serializeHeader ex_hl (ex_sh 7 1000) = Ok b \<and> deserializeHeader ex_hl b = Ok (ex_sh 7 1000)"
  using serializeHeader_roundtrip [of ex_hl "ex_sh 7 1000"] ex_header_ok by (simp add: ex_sh_def)

section \<open>Properties of the database\<close>

text \<open>Property C22. Integrity of every reachable database, whatever the order in which the goroutines of \<open>Put\<close>
  write: a header returned for a hash has that hash, and the cache never holds more than 201 headers.\<close>

theorem HeaderDB_integrity:
  assumes "omap_ok ol" "bolt_ok bl" "hl_ok hl" "hdb_reach hl ol bl h"
  shows "om_Len ol (cache h) \<le> 201 \<and>
    (\<forall>x sh. HeaderDB_GetHeader hl ol bl x h = Ok sh \<longrightarrow> BlockHash hl (sh_header sh) = x)"
proof -
  note inv = hdb_reach_inv [OF assms]
  then show ?thesis
    using GetHeader_cases [OF inv assms(3)] by (auto simp: hdb_inv_def cache_ok_def CACHE_SIZE_def)
qed

abbreviation ex_hdb :: "((string, StoredHeader) alist, (bytes, bytes) alist) HeaderDB" where
  "ex_hdb \<equiv> HeaderDB_Put ex_hl ex_ol (ex_sh 7 1000) True (NewHeaderDB ex_hl ex_ol ex_bl (bk_New ex_bl) (bk_New ex_bl))"

lemma ex_hdb_reach: "hdb_reach ex_hl ex_ol ex_bl ex_hdb"
  by (rule hdb_put [OF hdb_new ex_sh_storable]) simp_all

theorem HeaderDB_integrity_witness:
  "om_Len ex_ol (cache ex_hdb) \<le> 201 \<and>
   HeaderDB_GetHeader ex_hl ex_ol ex_bl 7 ex_hdb = Ok (ex_sh 7 1000) \<and> BlockHash ex_hl (sh_header (ex_sh 7 1000)) = 7"
proof -
  have "cache_Get ex_hl ex_ol 7 (cache ex_hdb) = Some (ex_sh 7 1000)"
    using ex_ol_ok by (simp add: HeaderDB_Put_def cache_Get_def cache_Set_def Let_def omap_ok_def)
      (simp add: ex_sh_def ex_hl_def ex_header_def)
  then have "HeaderDB_GetHeader ex_hl ex_ol ex_bl 7 ex_hdb = Ok (ex_sh 7 1000)" by (simp add: HeaderDB_GetHeader_def)
  with HeaderDB_integrity [OF ex_ol_ok ex_bl_ok ex_hl_ok ex_hdb_reach] show ?thesis by blast
qed

text \<open>A header that was put is found under its hash at once, before its write to the file is done, and
  it is the best header when it was put as such.\<close>

theorem Put_then_Get:
  assumes "omap_ok ol"
  shows "HeaderDB_GetHeader hl ol bl (BlockHash hl (sh_header sh)) (HeaderDB_Put hl ol sh best h) = Ok sh \<and>
    HeaderDB_GetBestHeader hl bl (HeaderDB_Put hl ol sh best h) =
      (if best then Ok sh else HeaderDB_GetBestHeader hl bl h)"
proof -
  have "om_Get ol k (om_Set ol k v m) = Some v" for k v m using assms by (simp add: omap_ok_def)
  then show ?thesis
    by (simp add: HeaderDB_GetHeader_def HeaderDB_Put_def cache_Get_def cache_Set_def Let_def HeaderDB_GetBestHeader_def
        split: option.split)
qed

theorem Put_then_Get_witness:
  "HeaderDB_GetHeader ex_hl ex_ol ex_bl 7 ex_hdb = Ok (ex_sh 7 1000) \<and>
   HeaderDB_GetBestHeader ex_hl ex_bl ex_hdb = Ok (ex_sh 7 1000)"
  using Put_then_Get [OF ex_ol_ok, of ex_hl ex_bl "ex_sh 7 1000" True
      "NewHeaderDB ex_hl ex_ol ex_bl (bk_New ex_bl) (bk_New ex_bl)"]
  by (simp add: ex_sh_def ex_hl_def ex_header_def)

lemma collect_keys_ok:
  "\<forall>k b. (k, b) \<in> set items \<longrightarrow> (\<exists>sh. deserializeHeader hl b = Ok sh) \<Longrightarrow>
   \<exists>ks. collect_keys hl p items = Ok ks \<and>
     set ks = {k. \<exists>b sh. (k, b) \<in> set items \<and> deserializeHeader hl b = Ok sh \<and> p (sh_height sh)}"
proof (induction items)
  case (Cons item items)
  obtain k b where item: "item = (k, b)" by fastforce
  then obtain sh where sh: "deserializeHeader hl b = Ok sh" using Cons.prems by (meson list.set_intros(1))
  obtain ks where ks: "collect_keys hl p items = Ok ks"
    "set ks = {k. \<exists>b sh. (k, b) \<in> set items \<and> deserializeHeader hl b = Ok sh \<and> p (sh_height sh)}"
    using Cons.IH Cons.prems by (meson list.set_intros(2))
  have "{k'. \<exists>b' sh'. (k', b') \<in> set (item # items) \<and> deserializeHeader hl b' = Ok sh' \<and> p (sh_height sh')} =
      (if p (sh_height sh) then {k} else {}) \<union> set ks"
    using sh by (auto simp: item ks(2))
  then show ?case by (simp add: item sh ks(1))
qed simp

text \<open>The headers of the file after the keys of a \<open>ForEach\<close> are deleted.\<close>

lemma delete_collected:
  assumes "bolt_ok bl" "file_ok hl bl hdrs tip"
  shows "\<exists>ks. collect_keys hl p (bk_Items bl hdrs) = Ok ks \<and>
    (\<forall>k. bk_Get bl k (delete_keys bl ks hdrs) =
      (case bk_Get bl k hdrs of
         None \<Rightarrow> None
       | Some b \<Rightarrow> (case deserializeHeader hl b of Ok sh \<Rightarrow> if p (sh_height sh) then None else Some b | _ \<Rightarrow> Some b)))"
proof -
  have items: "(k, b) \<in> set (bk_Items bl hdrs) \<longleftrightarrow> bk_Get bl k hdrs = Some b" for k b
    using assms(1) by (simp add: bolt_ok_def)
  have dec: "\<forall>k b. (k, b) \<in> set (bk_Items bl hdrs) \<longrightarrow> (\<exists>sh. deserializeHeader hl b = Ok sh)"
    using assms(2) unfolding items file_ok_def by blast
  from collect_keys_ok [OF dec, where p = p] obtain ks where ks: "collect_keys hl p (bk_Items bl hdrs) = Ok ks"
    "set ks = {k. \<exists>b sh. (k, b) \<in> set (bk_Items bl hdrs) \<and> deserializeHeader hl b = Ok sh \<and> p (sh_height sh)}"
    by blast
  then show ?thesis
    by (auto simp: bk_Get_delete_keys [OF assms(1)] items split: option.split go.split)
qed

text \<open>\<open>DeleteAfter\<close> removes from the file exactly the headers above the height; but a header still in
  the cache is found as before, whatever its height.\<close>

theorem DeleteAfter_file_and_cache:
  assumes "omap_ok ol" "bolt_ok bl" "hl_ok hl" "hdb_reach hl ol bl h"
  shows "\<exists>h'. HeaderDB_DeleteAfter hl bl height h = (None, h') \<and>
    (\<forall>k b sh. bk_Get bl k (bkt_headers h') = Some b \<and> deserializeHeader hl b = Ok sh \<longrightarrow> sh_height sh \<le> height) \<and>
    (\<forall>k b sh. bk_Get bl k (bkt_headers h) = Some b \<and> deserializeHeader hl b = Ok sh \<and> sh_height sh \<le> height \<longrightarrow>
       bk_Get bl k (bkt_headers h') = Some b) \<and>
    (\<forall>x sh. cache_Get hl ol x (cache h) = Some sh \<longrightarrow> HeaderDB_GetHeader hl ol bl x h' = Ok sh)"
proof -
  have "file_ok hl bl (bkt_headers h) (bkt_tip h)" using hdb_reach_inv [OF assms] by (simp add: hdb_inv_def)
  from delete_collected [OF assms(2) this, of "\<lambda>x. height < x"] obtain ks where
    ks: "collect_keys hl (\<lambda>x. height < x) (bk_Items bl (bkt_headers h)) = Ok ks"
    "\<And>k. bk_Get bl k (delete_keys bl ks (bkt_headers h)) =
      (case bk_Get bl k (bkt_headers h) of
         None \<Rightarrow> None
       | Some b \<Rightarrow> (case deserializeHeader hl b of Ok sh \<Rightarrow> if height < sh_height sh then None else Some b | _ \<Rightarrow> Some b))"
    by blast
  show ?thesis
  proof (intro exI conjI allI impI)
    show "HeaderDB_DeleteAfter hl bl height h = (None, h\<lparr>bkt_headers := delete_keys bl ks (bkt_headers h)\<rparr>)"
      by (simp add: HeaderDB_DeleteAfter_def ks(1))
  qed (auto simp: ks(2) HeaderDB_GetHeader_def not_less split: option.splits go.splits if_splits)
qed

theorem DeleteAfter_file_and_cache_witness:
  "\<exists>h'. HeaderDB_DeleteAfter ex_hl ex_bl 3 ex_hdb = (None, h') \<and>
    HeaderDB_GetHeader ex_hl ex_ol ex_bl 7 h' = Ok (ex_sh 7 1000)"
proof -
  have "cache_Get ex_hl ex_ol 7 (cache ex_hdb) = Some (ex_sh 7 1000)"
    using ex_ol_ok by (simp add: HeaderDB_Put_def cache_Get_def cache_Set_def Let_def omap_ok_def)
      (simp add: ex_sh_def ex_hl_def ex_header_def)
  with DeleteAfter_file_and_cache [OF ex_ol_ok ex_bl_ok ex_hl_ok ex_hdb_reach, of 3] show ?thesis by blast
qed

text \<open>Two best headers put one after the other: when their goroutines write in the other order, the file
  is left with the older one as the chain tip, and that is what a restart finds.\<close>

theorem Put_tip_race:
  assumes "omap_ok ol" "bolt_ok bl" "pending h = []" "storable hl a" "storable hl b"
  shows "\<exists>h1 h2. run_pending hl bl 1 (HeaderDB_Put hl ol b True (HeaderDB_Put hl ol a True h)) = Ok h1 \<and>
    run_pending hl bl 0 h1 = Ok h2 \<and> pending h2 = [] \<and> HeaderDB_GetBestHeader hl bl h2 = Ok b \<and>
    HeaderDB_GetBestHeader hl bl (NewHeaderDB hl ol bl (bkt_headers h2) (bkt_tip h2)) = Ok a"
proof -
  obtain ba bb where s: "serializeHeader hl a = Ok ba" "deserializeHeader hl ba = Ok a" "serializeHeader hl b = Ok bb"
    using serialize_storable [OF assms(4)] serialize_storable [OF assms(5)] by blast
  have get: "bk_Get bl k (bk_Put bl k v t) = Some v" for k v t using assms(2) by (simp add: bolt_ok_def)
  have best: "HeaderDB_GetBestHeader hl bl (NewHeaderDB hl ol bl hs (bk_Put bl KEYChainTip ba t)) = Ok a" for hs t
    by (simp add: NewHeaderDB_def initializeCache_def HeaderDB_GetBestHeader_def get s(2))
  show ?thesis
    by (simp add: run_pending_def HeaderDB_Put_def putToDB_def assms(3) s(1,3) best)
      (simp add: HeaderDB_GetBestHeader_def)
qed

theorem Put_tip_race_witness:
  "\<exists>h1 h2. run_pending ex_hl ex_bl 1 (HeaderDB_Put ex_hl ex_ol (ex_sh 8 2000) True
      (HeaderDB_Put ex_hl ex_ol (ex_sh 7 1000) True (NewHeaderDB ex_hl ex_ol ex_bl (bk_New ex_bl) (bk_New ex_bl)))) = Ok h1 \<and>
    run_pending ex_hl ex_bl 0 h1 = Ok h2 \<and> pending h2 = [] \<and> HeaderDB_GetBestHeader ex_hl ex_bl h2 = Ok (ex_sh 8 2000) \<and>
    HeaderDB_GetBestHeader ex_hl ex_bl (NewHeaderDB ex_hl ex_ol ex_bl (bkt_headers h2) (bkt_tip h2)) = Ok (ex_sh 7 1000)"
  by (rule Put_tip_race [OF ex_ol_ok ex_bl_ok _ ex_sh_storable ex_sh_storable])
    (simp_all add: NewHeaderDB_def initializeCache_def HeaderDB_GetBestHeader_def ex_bl_def)

lemma init_headers_same:
  "set (init_headers hl ol bl n hdr h) \<subseteq> {sh. HeaderDB_GetHeader hl ol bl (PrevBlock hdr) h = Ok sh}"
  by (induction n) (auto simp: HeaderDB_GetPreviousHeader_def split: go.splits)

lemma fold_cache_Set_keys:
  assumes "omap_ok ol"
  shows "om_Get ol k (fold (cache_Set hl ol) shs m) = Some x \<Longrightarrow>
    om_Get ol k m = Some x \<or> (\<exists>sh \<in> set shs. k = hl_String hl (BlockHash hl (sh_header sh)))"
proof (induction shs arbitrary: m)
  case (Cons sh shs)
  have "om_Get ol k (cache_pop ol m) = Some x \<Longrightarrow> om_Get ol k m = Some x" for m
    using assms by (auto simp: cache_pop_def omap_ok_def split: option.splits if_splits)
  then have "om_Get ol k (cache_Set hl ol sh m) = Some x \<Longrightarrow>
      om_Get ol k m = Some x \<or> k = hl_String hl (BlockHash hl (sh_header sh))"
    using assms by (auto simp: cache_Set_def Let_def omap_ok_def split: if_splits)
  then show ?case using Cons by auto
qed simp

text \<open>Opening the database fills the cache with at most two headers, the chain tip and its parent: the
  loop that is to load a hundred asks for the parent of the tip in every round.\<close>

theorem NewHeaderDB_caches_two:
  assumes "omap_ok ol" "bolt_ok bl" "hl_ok hl" "hdb_reach hl ol bl h"
    and "h' = NewHeaderDB hl ol bl (bkt_headers h) (bkt_tip h)" "cache_Get hl ol x (cache h') = Some sh"
  shows "\<exists>best. HeaderDB_GetBestHeader hl bl h' = Ok best \<and>
    (x = BlockHash hl (sh_header best) \<or> x = PrevBlock (sh_header best))"
proof -
  let ?h = "\<lparr>bestCache = None, cache = om_New ol, bkt_headers = bkt_headers h, bkt_tip = bkt_tip h, pending = []\<rparr>"
  have none: "om_Get ol k (om_New ol) = None" for k using assms(1) by (simp add: omap_ok_def)
  have "hdb_inv hl ol bl ?h"
    using hdb_reach_inv [OF assms(1-4)] by (simp add: hdb_inv_def cache_ok_New [OF assms(1)])
  show ?thesis
  proof (cases "HeaderDB_GetBestHeader hl bl ?h")
    case (Ok best)
    let ?b = "?h\<lparr>bestCache := Some best\<rparr>"
    have inv: "hdb_inv hl ol bl ?b"
      using \<open>hdb_inv hl ol bl ?h\<close> GetBestHeader_storable [OF \<open>hdb_inv hl ol bl ?h\<close> Ok] by (simp add: hdb_inv_def)
    define hs where "hs = best # init_headers hl ol bl 99 (sh_header best) ?b"
    have h': "h' = ?h\<lparr>bestCache := Some best, cache := fold (cache_Set hl ol) (rev hs) (om_New ol)\<rparr>"
      using Ok assms(5) by (simp add: NewHeaderDB_def initializeCache_def hs_def)
    then have "om_Get ol (hl_String hl x) (fold (cache_Set hl ol) (rev hs) (om_New ol)) = Some sh"
      using assms(6) by (simp add: cache_Get_def)
    from fold_cache_Set_keys [OF assms(1) this] none obtain y where y: "y \<in> set hs"
      "hl_String hl x = hl_String hl (BlockHash hl (sh_header y))" by auto
    then have "x = BlockHash hl (sh_header y)" using assms(3) by (simp add: hl_ok_def inj_def)
    moreover have "y = best \<or> BlockHash hl (sh_header y) = PrevBlock (sh_header best)"
      using y(1) init_headers_same [of hl ol bl 99 "sh_header best" ?b] GetHeader_cases [OF inv assms(3)]
      by (auto simp: hs_def)
    ultimately show ?thesis using h' by (auto simp: HeaderDB_GetBestHeader_def)
  qed (use assms(5,6) none in \<open>simp_all add: NewHeaderDB_def initializeCache_def cache_Get_def\<close>)
qed

theorem NewHeaderDB_caches_two_witness:
  "\<exists>h1 best. run_pending ex_hl ex_bl 0 ex_hdb = Ok h1 \<and>
    cache_Get ex_hl ex_ol 7 (cache (NewHeaderDB ex_hl ex_ol ex_bl (bkt_headers h1) (bkt_tip h1))) = Some (ex_sh 7 1000) \<and>
    HeaderDB_GetBestHeader ex_hl ex_bl (NewHeaderDB ex_hl ex_ol ex_bl (bkt_headers h1) (bkt_tip h1)) = Ok best \<and>
    (7 = BlockHash ex_hl (sh_header best) \<or> 7 = PrevBlock (sh_header best))"
proof -
  obtain b where b: "serializeHeader ex_hl (ex_sh 7 1000) = Ok b" "deserializeHeader ex_hl b = Ok (ex_sh 7 1000)"
    using serialize_storable [OF ex_sh_storable, of 1000 7] by auto
  have p: "pending ex_hdb = [(ex_sh 7 1000, True)]"
    by (simp add: HeaderDB_Put_def NewHeaderDB_def initializeCache_def HeaderDB_GetBestHeader_def ex_bl_def)
  obtain h1 where h1: "run_pending ex_hl ex_bl 0 ex_hdb = Ok h1"
    "bkt_tip h1 = bk_Put ex_bl KEYChainTip b (bkt_tip ex_hdb)"
    using b(1) by (simp add: run_pending_def p putToDB_def)
  let ?n = "NewHeaderDB ex_hl ex_ol ex_bl (bkt_headers h1) (bkt_tip h1)"
  have get: "bk_Get ex_bl k (bk_Put ex_bl k v t) = Some v" for k v t using ex_bl_ok by (simp add: bolt_ok_def)
  have set_get: "om_Get ex_ol k (cache_Set ex_hl ex_ol sh m) = Some sh"
    if "k = bit_string (BlockHash ex_hl (sh_header sh))" for k sh m
    using ex_ol_ok that by (simp add: cache_Set_def Let_def omap_ok_def) (simp add: ex_hl_def)
  have "cache_Get ex_hl ex_ol 7 (cache ?n) = Some (ex_sh 7 1000)"
    by (simp add: NewHeaderDB_def initializeCache_def HeaderDB_GetBestHeader_def h1(2) get b(2) cache_Get_def)
      (rule set_get, simp add: ex_hl_def ex_sh_def ex_header_def)
  with NewHeaderDB_caches_two [OF ex_ol_ok ex_bl_ok ex_hl_ok hdb_write [OF ex_hdb_reach h1(1)] refl, of 7 "ex_sh 7 1000"] h1(1)
  show ?thesis by blast
qed

end
