(* ===== verification/Block_Chain.thy ===== *)
theory Block_Chain
  imports Header_Store
begin

text \<open>
  The block chain, \<^verbatim>\<open>src/blockchain.go\<close> with \<^verbatim>\<open>src/checkpoints.go\<close> and \<^verbatim>\<open>src/timesorter.go\<close>: committing and
  checking headers, the difficulty calculation, block locators, common ancestors and rollbacks.
  The code works on the \<open>Headers\<close> interface, here a method table (\<open>headers_if\<close>) over a state \<open>'h\<close>;
  the contract is the locale \<open>headers_laws\<close>, interpreted for the header database.  The
  proof-of-work functions of the library are the record \<open>pow_lib\<close>; total work is an \<open>int\<close>, as \<open>big.Int\<close>.
  The search for a common ancestor is a loop without a bound and may not return.
\<close>

section \<open>The interface to the header store\<close>

record 'h headers_if =
  H_Put :: "StoredHeader \<Rightarrow> bool \<Rightarrow> 'h \<Rightarrow> error option \<times> 'h"
  H_DeleteAfter :: "u32 \<Rightarrow> 'h \<Rightarrow> error option \<times> 'h"
  H_GetPreviousHeader :: "BlockHeader \<Rightarrow> 'h \<Rightarrow> StoredHeader go"
  H_GetHeader :: "hash \<Rightarrow> 'h \<Rightarrow> StoredHeader go"
  H_GetBestHeader :: "'h \<Rightarrow> StoredHeader go"
  H_Height :: "'h \<Rightarrow> u32 go"

section \<open>Parameters and checkpoints\<close>

text \<open>The networks the code tells apart by name.\<close>

datatype net = MainNet | TestNet3 | RegressionNet | OtherNet

record chain_params =
  p_Net :: net
  PowLimit :: int
  PowLimitBits :: u32
  ReduceMinDifficulty :: bool

record pow_lib =
  CalcWork :: "u32 \<Rightarrow> int"
  CompactToBig :: "u32 \<Rightarrow> int"
  BigToCompact :: "int \<Rightarrow> u32"
  HashToBig :: "hash \<Rightarrow> int"

record Checkpoint =
  cp_Height :: u32
  cp_Header :: BlockHeader
  Check2 :: "hash option"

definition mainnetCheckpoints :: "Checkpoint list" where
  "mainnetCheckpoints = [\<lparr>cp_Height = 504032,
     cp_Header = \<lparr>hdr_Version = 536870912,
       PrevBlock = 0x0000000000000000011ebf65b60d0a3de80b8175be709d653b4c1a1beeb6ab9c,
       MerkleRoot = 0x8ebf2179d8b1ba0aaf5f15357f963b56f53a8c6207e0156b4b6def119be61bee,
       hdr_Timestamp = time_Unix 1510606995, Bits = 403026987, Nonce = 273755974\<rparr>,
     Check2 = Some 0x000000000000000001250f09f253d22d6ef14e924eccb7c1bbaa0695269cef59\<rparr>]"

definition testnet3Checkpoints :: "Checkpoint list" where
  "testnet3Checkpoints = [\<lparr>cp_Height = 1189213,
     cp_Header = \<lparr>hdr_Version = 536870912,
       PrevBlock = 0x00000000824633a21bc41dccbd7a6d159a4deebaece6f6dcf2093301aea040a5,
       MerkleRoot = 0xd69264d97d77da1b9bf0ae031512a89e0607e8200be29a74163a39b8558f5714,
       hdr_Timestamp = time_Unix 1510739152, Bits = 486604799, Nonce = 2325788686\<rparr>,
     Check2 = Some 0x00000000000044040acf28b1bab8706f09f7862275b65a03580b6db136ad2dbd\<rparr>]"

text \<open>\<open>genesis\<close> is the genesis header of the regression-test network, from the library.\<close>

definition regtestCheckpoint :: "BlockHeader \<Rightarrow> Checkpoint" where
  "regtestCheckpoint genesis = \<lparr>cp_Height = 0, cp_Header = genesis, Check2 = None\<rparr>"

definition last_before :: "go_time \<Rightarrow> Checkpoint list \<Rightarrow> Checkpoint" where
  "last_before t cps =
     (case find (\<lambda>c. hdr_Timestamp (cp_Header c) < t) (rev cps) of Some c \<Rightarrow> c | None \<Rightarrow> cps ! 0)"

definition GetCheckpoint :: "BlockHeader \<Rightarrow> go_time \<Rightarrow> chain_params \<Rightarrow> Checkpoint" where
  "GetCheckpoint genesis walletCreationDate params =
     (case p_Net params of
        MainNet \<Rightarrow> last_before walletCreationDate mainnetCheckpoints
      | TestNet3 \<Rightarrow> last_before walletCreationDate testnet3Checkpoints
      | _ \<Rightarrow> regtestCheckpoint genesis)"

text \<open>The fields of \<open>Blockchain\<close> other than the store, with the libraries its methods call.\<close>

record Blockchain =
  b_params :: chain_params
  b_checkpoint :: Checkpoint
  crationDate :: go_time
  b_genesis :: BlockHeader
  b_hl :: header_lib
  b_pow :: pow_lib

definition targetSpacing :: int where
  "targetSpacing = 600"

definition medianTimeBlocks :: nat where
  "medianTimeBlocks = 11"

definition NewBlockchain ::
    "'h headers_if \<Rightarrow> header_lib \<Rightarrow> pow_lib \<Rightarrow> BlockHeader \<Rightarrow> go_time \<Rightarrow> chain_params \<Rightarrow> 'h \<Rightarrow>
     Blockchain go \<times> 'h" where
  "NewBlockchain hs hl pow genesis walletCreationDate params h =
     (let cp = GetCheckpoint genesis walletCreationDate params;
          b = \<lparr>b_params = params, b_checkpoint = cp, crationDate = walletCreationDate, b_genesis = genesis,
               b_hl = hl, b_pow = pow\<rparr>;
          fresh = (case H_Height hs h of Ok n \<Rightarrow> n = 0 | _ \<Rightarrow> True)
      in if fresh
         then (case H_Put hs \<lparr>sh_header = cp_Header cp, sh_height = cp_Height cp, totalWork = 0\<rparr> True h of
                 (Some e, h1) \<Rightarrow> (Err e, h1)
               | (None, h1) \<Rightarrow> (Ok b, h1))
         else (Ok b, h))"

section \<open>Sorting by time\<close>

text \<open>\<open>sort.Sort\<close> on a short slice is insertion sort: the new element moves left while it is less.\<close>

fun ins_back :: "('a \<Rightarrow> 'a \<Rightarrow> bool) \<Rightarrow> 'a \<Rightarrow> 'a list \<Rightarrow> 'a list" where
  "ins_back lt x [] = [x]"
| "ins_back lt x (y # ys) = (if lt x y then y # ins_back lt x ys else x # y # ys)"

definition sort_Sort :: "('a \<Rightarrow> 'a \<Rightarrow> bool) \<Rightarrow> 'a list \<Rightarrow> 'a list" where
  "sort_Sort lt xs = rev (fold (ins_back lt) xs [])"

definition timeSorter_Less :: "int \<Rightarrow> int \<Rightarrow> bool" where
  "timeSorter_Less a b \<longleftrightarrow> a < b"

definition blockSorter_Less :: "StoredHeader \<Rightarrow> StoredHeader \<Rightarrow> bool" where
  "blockSorter_Less a b \<longleftrightarrow>
     hdr_Timestamp (sh_header a) < hdr_Timestamp (sh_header b) \<or>
     hdr_Timestamp (sh_header a) = hdr_Timestamp (sh_header b)"

section \<open>Walking back\<close>

text \<open>The \<open>rollback\<close> closures: \<open>n\<close> parents back.\<close>

fun go_back :: "'h headers_if \<Rightarrow> 'h \<Rightarrow> nat \<Rightarrow> StoredHeader \<Rightarrow> StoredHeader go" where
  "go_back hs h 0 parent = Ok parent"
| "go_back hs h (Suc n) parent =
     (case H_GetPreviousHeader hs (sh_header parent) h of
        Ok p \<Rightarrow> go_back hs h n p
      | Err e \<Rightarrow> Err e
      | Panic \<Rightarrow> Panic)"

definition bare :: "BlockHeader \<Rightarrow> StoredHeader" where
  "bare hdr = \<lparr>sh_header = hdr, sh_height = 0, totalWork = 0\<rparr>"

definition GetEpoch :: "'h headers_if \<Rightarrow> BlockHeader \<Rightarrow> 'h \<Rightarrow> StoredHeader go" where
  "GetEpoch hs hdr h =
     go_bind (go_back hs h 144 (bare hdr)) (\<lambda>oneFourtyFour.
     go_bind (H_GetPreviousHeader hs (sh_header oneFourtyFour) h) (\<lambda>oneFourtyFive.
     go_bind (H_GetPreviousHeader hs (sh_header oneFourtyFive) h) (\<lambda>oneFourtySix.
     Ok (sort_Sort blockSorter_Less [oneFourtyFour, oneFourtyFive, oneFourtySix] ! 1))))"

definition GetSuitableBlock :: "'h headers_if \<Rightarrow> StoredHeader \<Rightarrow> 'h \<Rightarrow> StoredHeader go" where
  "GetSuitableBlock hs n h =
     go_bind (H_GetPreviousHeader hs (sh_header n) h) (\<lambda>n1.
     go_bind (H_GetPreviousHeader hs (sh_header n1) h) (\<lambda>n2.
     Ok (sort_Sort blockSorter_Less [n, n1, n2] ! 1)))"

text \<open>\<open>CalcMedianTimePast\<close> reads the parent in every round, the last one included.\<close>

fun median_times :: "'h headers_if \<Rightarrow> 'h \<Rightarrow> nat \<Rightarrow> BlockHeader \<Rightarrow> int list go" where
  "median_times hs h 0 hdr = Ok []"
| "median_times hs h (Suc n) hdr =
     go_bind (H_GetPreviousHeader hs hdr h) (\<lambda>p.
     go_bind (median_times hs h n (sh_header p)) (\<lambda>ts. Ok (Unix (hdr_Timestamp hdr) # ts)))"

definition CalcMedianTimePast :: "'h headers_if \<Rightarrow> BlockHeader \<Rightarrow> 'h \<Rightarrow> go_time go" where
  "CalcMedianTimePast hs hdr h =
     go_bind (median_times hs h medianTimeBlocks hdr) (\<lambda>timestamps.
     Ok (time_Unix (sort_Sort timeSorter_Less timestamps ! (length timestamps div 2))))"

section \<open>Proof of work\<close>

text \<open>\<open>big.Int.Div\<close> is Euclidean and panics on a zero divisor.\<close>

definition big_Div :: "int \<Rightarrow> int \<Rightarrow> int go" where
  "big_Div x y = (if y = 0 then Panic else if 0 < y then Ok (x div y) else Ok (- (x div (- y))))"

definition calcDiffAdjust :: "pow_lib \<Rightarrow> StoredHeader \<Rightarrow> StoredHeader \<Rightarrow> chain_params \<Rightarrow> u32 go" where
  "calcDiffAdjust pow start end1 p =
     (let work = totalWork end1 - totalWork start;
          duration0 = wrap64 (Unix (hdr_Timestamp (sh_header end1)) - Unix (hdr_Timestamp (sh_header start)));
          duration = (if duration0 > 288 * targetSpacing then 288 * targetSpacing
                      else if duration0 < 72 * targetSpacing then 72 * targetSpacing else duration0);
          projectedWork = work * targetSpacing
      in go_bind (big_Div projectedWork duration) (\<lambda>pw.
         go_bind (big_Div (2 ^ 256 - pw) pw) (\<lambda>newTarget.
         Ok (BigToCompact pow (if newTarget > PowLimit p then PowLimit p else newTarget)))))"

definition calcRequiredWork ::
    "'h headers_if \<Rightarrow> Blockchain \<Rightarrow> BlockHeader \<Rightarrow> StoredHeader \<Rightarrow> 'h \<Rightarrow> u32 go" where
  "calcRequiredWork hs b hdr prevHeader h =
     (if ReduceMinDifficulty (b_params b) \<and> hdr_Timestamp (sh_header prevHeader) + targetSpacing * 2 < hdr_Timestamp hdr
      then Ok (PowLimitBits (b_params b))
      else go_bind (GetSuitableBlock hs prevHeader h) (\<lambda>suitableHeader.
           go_bind (GetEpoch hs (sh_header prevHeader) h) (\<lambda>epoch.
           calcDiffAdjust (b_pow b) epoch suitableHeader (b_params b))))"

definition checkProofOfWork :: "Blockchain \<Rightarrow> BlockHeader \<Rightarrow> bool" where
  "checkProofOfWork b hdr =
     (let target = CompactToBig (b_pow b) (Bits hdr) in
      if target \<le> 0 then False
      else if target > PowLimit (b_params b) then False
      else if HashToBig (b_pow b) (BlockHash (b_hl b) hdr) > target then False
      else True)"

definition CheckHeader :: "'h headers_if \<Rightarrow> Blockchain \<Rightarrow> BlockHeader \<Rightarrow> StoredHeader \<Rightarrow> 'h \<Rightarrow> bool go" where
  "CheckHeader hs b hdr prevHeader h =
     (let height = sh_height prevHeader; cp = b_checkpoint b; net = p_Net (b_params b) in
      if height + 1 \<le> cp_Height cp + 147
      then Ok (\<not> (Check2 cp \<noteq> None \<and> height + 1 = cp_Height cp + 147 \<and> Check2 cp \<noteq> Some (BlockHash (b_hl b) hdr)))
      else if BlockHash (b_hl b) (sh_header prevHeader) \<noteq> PrevBlock hdr then Ok False
      else if net = RegressionNet then Ok (checkProofOfWork b hdr)
      else (case calcRequiredWork hs b hdr prevHeader h of
              Panic \<Rightarrow> Panic
            | Err _ \<Rightarrow> Ok False
            | Ok diffTarget \<Rightarrow>
                if Bits hdr \<noteq> diffTarget \<and> net = MainNet then Ok False
                else if diffTarget = PowLimitBits (b_params b) \<and> Bits hdr > diffTarget \<and> net = TestNet3 then Ok False
                else Ok (checkProofOfWork b hdr)))"

section \<open>Committing a header\<close>

partial_function (option) ancestor_loop ::
    "'h headers_if \<Rightarrow> header_lib \<Rightarrow> 'h \<Rightarrow> StoredHeader \<Rightarrow> StoredHeader \<Rightarrow> StoredHeader go option" where
  "ancestor_loop hs hl h majority minority =
     (if BlockHash hl (sh_header majority) = BlockHash hl (sh_header minority) then Some (Ok majority)
      else case H_GetPreviousHeader hs (sh_header majority) h of
             Err e \<Rightarrow> Some (Err e)
           | Panic \<Rightarrow> Some Panic
           | Ok majority' \<Rightarrow>
               (case H_GetPreviousHeader hs (sh_header minority) h of
                  Err e \<Rightarrow> Some (Err e)
                | Panic \<Rightarrow> Some Panic
                | Ok minority' \<Rightarrow> ancestor_loop hs hl h majority' minority'))"

declare ancestor_loop.simps [code]

definition GetCommonAncestor ::
    "'h headers_if \<Rightarrow> header_lib \<Rightarrow> StoredHeader \<Rightarrow> StoredHeader \<Rightarrow> 'h \<Rightarrow> StoredHeader go option" where
  "GetCommonAncestor hs hl bestHeader prevBestHeader h =
     (let hb = sh_height bestHeader; hp = sh_height prevBestHeader;
          majority = (if hp < hb then go_back hs h (unat (hb - hp)) bestHeader else Ok bestHeader);
          minority = (if hp < hb then Ok prevBestHeader
                      else if hb < hp then go_back hs h (unat (hp - hb)) prevBestHeader else Ok prevBestHeader)
      in case (majority, minority) of
           (Ok ma, Ok mi) \<Rightarrow> ancestor_loop hs hl h ma mi
         | (Err e, _) \<Rightarrow> Some (Err e)
         | (Panic, _) \<Rightarrow> Some Panic
         | (Ok _, Err e) \<Rightarrow> Some (Err e)
         | (Ok _, Panic) \<Rightarrow> Some Panic)"

type_synonym commit_result = "bool \<times> StoredHeader option \<times> u32 \<times> error option"

text \<open>From the new cumulative work on: find the reorganisation point and store the header.\<close>

definition commit_put ::
    "'h headers_if \<Rightarrow> BlockHeader \<Rightarrow> StoredHeader \<Rightarrow> int \<Rightarrow> bool \<Rightarrow> StoredHeader option \<Rightarrow> 'h \<Rightarrow> commit_result \<times> 'h" where
  "commit_put hs hdr parentHeader cumulativeWork newTip commonAncestor h =
     (let newHeight = sh_height parentHeader + 1 in
      case H_Put hs \<lparr>sh_header = hdr, sh_height = newHeight, totalWork = cumulativeWork\<rparr> newTip h of
        (Some e, h1) \<Rightarrow> ((newTip, commonAncestor, 0, Some e), h1)
      | (None, h1) \<Rightarrow> ((newTip, commonAncestor, newHeight, None), h1))"

definition commit_checked ::
    "'h headers_if \<Rightarrow> Blockchain \<Rightarrow> BlockHeader \<Rightarrow> StoredHeader \<Rightarrow> StoredHeader \<Rightarrow> 'h \<Rightarrow> (commit_result \<times> 'h) run" where
  "commit_checked hs b hdr bestHeader parentHeader h =
     (let hl = b_hl b;
          tipHash = BlockHash hl (sh_header bestHeader);
          cumulativeWork = totalWork parentHeader + CalcWork (b_pow b) (Bits hdr)
      in if tipHash = BlockHash hl hdr then Ret ((False, None, 0, None), h)
         else if totalWork bestHeader < cumulativeWork
         then if tipHash \<noteq> BlockHash hl (sh_header parentHeader)
              then (case GetCommonAncestor hs hl \<lparr>sh_header = hdr, sh_height = sh_height parentHeader + 1, totalWork = 0\<rparr>
                           bestHeader h of
                      None \<Rightarrow> Hangs
                    | Some Panic \<Rightarrow> Panics
                    | Some (Err e) \<Rightarrow> Ret ((True, None, 0, Some e), h)
                    | Some (Ok anc) \<Rightarrow> Ret (commit_put hs hdr parentHeader cumulativeWork True (Some anc) h))
              else Ret (commit_put hs hdr parentHeader cumulativeWork True None h)
         else Ret (commit_put hs hdr parentHeader cumulativeWork False None h))"

definition CommitHeader ::
    "'h headers_if \<Rightarrow> Blockchain \<Rightarrow> BlockHeader \<Rightarrow> 'h \<Rightarrow> (commit_result \<times> 'h) run" where
  "CommitHeader hs b hdr h =
     (case H_GetBestHeader hs h of
        Panic \<Rightarrow> Panics
      | Err e \<Rightarrow> Ret ((False, None, 0, Some e), h)
      | Ok bestHeader \<Rightarrow>
          (let hl = b_hl b;
               parent = (if PrevBlock hdr = BlockHash hl (sh_header bestHeader) then Ok bestHeader
                         else H_GetPreviousHeader hs hdr h)
           in case parent of
                Panic \<Rightarrow> Panics
              | Err _ \<Rightarrow>
                  Ret ((False, None, 0, Some (ErrMsg (''Header '' @ hl_String hl (BlockHash hl hdr) @
                     '' does not extend any known headers''))), h)
              | Ok parentHeader \<Rightarrow>
                  (case CheckHeader hs b hdr parentHeader h of
                     Panic \<Rightarrow> Panics
                   | Err e \<Rightarrow> Ret ((False, None, 0, Some e), h)
                   | Ok False \<Rightarrow> Ret ((False, None, 0, None), h)
                   | Ok True \<Rightarrow> commit_checked hs b hdr bestHeader parentHeader h)))"

section \<open>Locators\<close>

fun prev_hashes :: "'h headers_if \<Rightarrow> header_lib \<Rightarrow> 'h \<Rightarrow> nat \<Rightarrow> StoredHeader \<Rightarrow> hash list" where
  "prev_hashes hs hl h 0 sh = []"
| "prev_hashes hs hl h (Suc n) sh =
     (case H_GetPreviousHeader hs (sh_header sh) h of
        Ok p \<Rightarrow> BlockHash hl (sh_header p) # prev_hashes hs hl h n p
      | _ \<Rightarrow> [])"

definition GetNPrevBlockHashes :: "'h headers_if \<Rightarrow> header_lib \<Rightarrow> int \<Rightarrow> 'h \<Rightarrow> hash list" where
  "GetNPrevBlockHashes hs hl n h =
     (case H_GetBestHeader hs h of
        Ok hdr \<Rightarrow> BlockHash hl (sh_header hdr) # prev_hashes hs hl h (nat (n - 1)) hdr
      | _ \<Rightarrow> [])"

text \<open>\<open>room\<close> is the number of entries still allowed, 500 at the start.\<close>

fun locator_loop :: "'h headers_if \<Rightarrow> header_lib \<Rightarrow> 'h \<Rightarrow> nat \<Rightarrow> nat \<Rightarrow> nat \<Rightarrow> StoredHeader \<Rightarrow> hash list" where
  "locator_loop hs hl h 0 step start parent = []"
| "locator_loop hs hl h (Suc room) step start parent =
     (let step' = (if 9 \<le> start then step * 2 else step);
          start' = (if 9 \<le> start then 0 else start)
      in BlockHash hl (sh_header parent) #
         (if room = 0 then []
          else case go_back hs h step' parent of
                 Ok p \<Rightarrow> locator_loop hs hl h room step' (start' + 1) p
               | _ \<Rightarrow> []))"

definition GetBlockLocator :: "'h headers_if \<Rightarrow> header_lib \<Rightarrow> 'h \<Rightarrow> hash list" where
  "GetBlockLocator hs hl h =
     (case H_GetBestHeader hs h of Ok parent \<Rightarrow> locator_loop hs hl h 500 1 0 parent | _ \<Rightarrow> [])"

section \<open>Rollback\<close>

text \<open>The loop of \<open>Rollback\<close>: the header it stops at and the height to keep.\<close>

fun rollback_loop ::
    "'h headers_if \<Rightarrow> header_lib \<Rightarrow> 'h \<Rightarrow> Checkpoint \<Rightarrow> go_time \<Rightarrow> nat \<Rightarrow> StoredHeader \<Rightarrow> (StoredHeader \<times> u32) go" where
  "rollback_loop hs hl h cp t 0 sh = Ok (sh, 0)"
| "rollback_loop hs hl h cp t (Suc n) sh =
     (case H_GetPreviousHeader hs (sh_header sh) h of
        Err e \<Rightarrow> Err e
      | Panic \<Rightarrow> Panic
      | Ok p \<Rightarrow>
          if BlockHash hl (sh_header p) = BlockHash hl (cp_Header cp) then Ok (p, cp_Height cp)
          else if hdr_Timestamp (sh_header p) < t then Ok (p, sh_height p)
          else rollback_loop hs hl h cp t n p)"

definition Rollback :: "'h headers_if \<Rightarrow> Blockchain \<Rightarrow> go_time \<Rightarrow> 'h \<Rightarrow> (error option \<times> 'h) run" where
  "Rollback hs b t h =
     (let cp = GetCheckpoint (b_genesis b) (crationDate b) (b_params b); hl = b_hl b in
      case H_GetBestHeader hs h of
        Err e \<Rightarrow> Ret (Some e, h)
      | Panic \<Rightarrow> Panics
      | Ok sh \<Rightarrow>
          if hdr_Timestamp (sh_header sh) < t then Ret (None, h)
          else if BlockHash hl (sh_header sh) = BlockHash hl (cp_Header cp) then Ret (None, h)
          else (case rollback_loop hs hl h cp t 1000000000 sh of
                  Err e \<Rightarrow> Ret (Some e, h)
                | Panic \<Rightarrow> Panics
                | Ok (p, rollbackHeight) \<Rightarrow>
                    (case H_DeleteAfter hs rollbackHeight h of
                       (Some e, h1) \<Rightarrow> Ret (Some e, h1)
                     | (None, h1) \<Rightarrow> Ret (H_Put hs p True h1))))"

definition RollbackToHeight :: "'h headers_if \<Rightarrow> Blockchain \<Rightarrow> u32 \<Rightarrow> 'h \<Rightarrow> (error option \<times> 'h) run" where
  "RollbackToHeight hs b rollbackHeight h =
     (let cp = GetCheckpoint (b_genesis b) (crationDate b) (b_params b); hl = b_hl b in
      case H_GetBestHeader hs h of
        Err e \<Rightarrow> Ret (Some e, h)
      | Panic \<Rightarrow> Panics
      | Ok sh \<Rightarrow>
          if sh_height sh < rollbackHeight then Ret (None, h)
          else if BlockHash hl (sh_header sh) = BlockHash hl (cp_Header cp) then Ret (None, h)
          else (case H_DeleteAfter hs (rollbackHeight - 1) h of
                  (Some e, h1) \<Rightarrow> Ret (Some e, h1)
                | (None, h1) \<Rightarrow> Ret (H_Put hs sh True h1)))"

definition BestBlock :: "'h headers_if \<Rightarrow> 'h \<Rightarrow> StoredHeader go" where
  "BestBlock hs h = H_GetBestHeader hs h"

definition Blockchain_GetHeader :: "'h headers_if \<Rightarrow> hash \<Rightarrow> 'h \<Rightarrow> StoredHeader go" where
  "Blockchain_GetHeader hs x h = H_GetHeader hs x h"

section \<open>What the chain is\<close>

text \<open>The stored headers as a map from hashes, and the walk from a header towards the root.\<close>

type_synonym header_map = "hash \<rightharpoonup> StoredHeader"

fun walk :: "header_map \<Rightarrow> nat \<Rightarrow> StoredHeader \<Rightarrow> StoredHeader option" where
  "walk look 0 sh = Some sh"
| "walk look (Suc n) sh =
     (case look (PrevBlock (sh_header sh)) of None \<Rightarrow> None | Some p \<Rightarrow> walk look n p)"

text \<open>
  A well-formed store: the root is stored and its parent is not, the tip is stored and no header has
  more work, and every other header extends a stored one by one block and by its own work.
\<close>

definition child_of :: "pow_lib \<Rightarrow> header_map \<Rightarrow> StoredHeader \<Rightarrow> bool" where
  "child_of pow look sh \<longleftrightarrow>
     (\<exists>p. look (PrevBlock (sh_header sh)) = Some p \<and> unat (sh_height sh) = Suc (unat (sh_height p)) \<and>
        totalWork sh = totalWork p + CalcWork pow (Bits (sh_header sh)))"

definition chain_ok :: "header_lib \<Rightarrow> pow_lib \<Rightarrow> header_map \<Rightarrow> StoredHeader \<Rightarrow> StoredHeader \<Rightarrow> bool" where
  "chain_ok hl pow look root tip \<longleftrightarrow>
     look (BlockHash hl (sh_header root)) = Some root \<and> look (PrevBlock (sh_header root)) = None \<and>
     look (BlockHash hl (sh_header tip)) = Some tip \<and>
     (\<forall>x sh. look x = Some sh \<longrightarrow>
        BlockHash hl (sh_header sh) = x \<and> totalWork sh \<le> totalWork tip \<and> (sh = root \<or> child_of pow look sh))"

lemma chain_okD:
  assumes "chain_ok hl pow look root tip" "look x = Some sh"
  shows "BlockHash hl (sh_header sh) = x" "totalWork sh \<le> totalWork tip" "sh = root \<or> child_of pow look sh"
  using assms by (auto simp: chain_ok_def)

lemma walk_add: "walk look (m + n) sh = Option.bind (walk look m sh) (walk look n)"
  by (induction m arbitrary: sh) (auto split: option.split)

lemma walk_stored: "walk look n sh = Some a \<Longrightarrow> look x = Some sh \<Longrightarrow> \<exists>y. look y = Some a"
  by (induction n arbitrary: sh x) (auto split: option.splits)

text \<open>Every stored header reaches the root, in as many steps as the heights differ by.\<close>

lemma reaches_root:
  assumes "chain_ok hl pow look root tip" "look x = Some sh"
  shows "unat (sh_height root) \<le> unat (sh_height sh) \<and>
    walk look (unat (sh_height sh) - unat (sh_height root)) sh = Some root"
  using assms(2)
proof (induction "unat (sh_height sh)" arbitrary: x sh rule: less_induct)
  case less
  show ?case
  proof (cases "sh = root")
    case False
    then obtain p where p: "look (PrevBlock (sh_header sh)) = Some p" "unat (sh_height sh) = Suc (unat (sh_height p))"
      using chain_okD(3) [OF assms(1) less.prems] by (auto simp: child_of_def)
    with less.hyps [of p "PrevBlock (sh_header sh)"] show ?thesis by (simp add: Suc_diff_le)
  qed simp
qed

lemma walk_height:
  assumes "chain_ok hl pow look root tip"
  shows "look x = Some sh \<Longrightarrow> walk look n sh = Some a \<Longrightarrow> unat (sh_height sh) = n + unat (sh_height a)"
proof (induction n arbitrary: x sh)
  case (Suc n)
  then obtain p where p: "look (PrevBlock (sh_header sh)) = Some p" "walk look n p = Some a" by (auto split: option.splits)
  then have "sh \<noteq> root" using assms by (auto simp: chain_ok_def)
  then have "unat (sh_height sh) = Suc (unat (sh_height p))"
    using chain_okD(3) [OF assms Suc.prems(1)] p(1) by (auto simp: child_of_def)
  with Suc.IH [OF p] show ?case by simp
qed simp

section \<open>The contract of the header store\<close>

locale headers_laws =
  fixes hs :: "'h headers_if" and hl :: header_lib
    and ok :: "'h \<Rightarrow> bool" and look :: "'h \<Rightarrow> header_map" and best :: "'h \<Rightarrow> StoredHeader option"
  assumes look_storable: "ok h \<Longrightarrow> look h x = Some sh \<Longrightarrow> storable hl sh"
    and GetHeader_Some: "ok h \<Longrightarrow> look h x = Some sh \<Longrightarrow> H_GetHeader hs x h = Ok sh"
    and GetHeader_None: "ok h \<Longrightarrow> look h x = None \<Longrightarrow> \<exists>e. H_GetHeader hs x h = Err e"
    and GetPreviousHeader: "ok h \<Longrightarrow> H_GetPreviousHeader hs hdr h = H_GetHeader hs (PrevBlock hdr) h"
    and GetBestHeader: "ok h \<Longrightarrow> best h = Some sh \<Longrightarrow> H_GetBestHeader hs h = Ok sh"
    and Put: "ok h \<Longrightarrow> storable hl sh \<Longrightarrow>
      \<exists>h'. H_Put hs sh b h = (None, h') \<and> ok h' \<and> look h' = (look h)(BlockHash hl (sh_header sh) \<mapsto> sh) \<and>
        best h' = (if b then Some sh else best h)"
begin

lemma go_back_some: "ok h \<Longrightarrow> walk (look h) n sh = Some a \<Longrightarrow> go_back hs h n sh = Ok a"
  by (induction n arbitrary: sh) (auto simp: GetPreviousHeader GetHeader_Some split: option.splits)

lemma go_back_none: "ok h \<Longrightarrow> walk (look h) n sh = None \<Longrightarrow> \<exists>e. go_back hs h n sh = Err e"
proof (induction n arbitrary: sh)
  case (Suc n)
  then show ?case
    using GetHeader_None [of h "PrevBlock (sh_header sh)"]
    by (cases "look h (PrevBlock (sh_header sh))") (auto simp: GetPreviousHeader GetHeader_Some)
qed simp

text \<open>Two headers that reach the root in the same number of steps: the walk ends at their first meeting.\<close>

lemma ancestor_loop_meets:
  assumes "ok h" and inj: "\<And>x a. look h x = Some a \<Longrightarrow> BlockHash hl (sh_header a) = x"
  shows "walk (look h) n ma = Some r \<Longrightarrow> walk (look h) n mi = Some r \<Longrightarrow>
    BlockHash hl (sh_header ma) \<noteq> BlockHash hl (sh_header mi) \<Longrightarrow>
    \<exists>k a. ancestor_loop hs hl h ma mi = Some (Ok a) \<and> 0 < k \<and> k \<le> n \<and>
      walk (look h) k ma = Some a \<and> walk (look h) k mi = Some a \<and>
      (\<forall>j < k. walk (look h) j ma \<noteq> walk (look h) j mi)"
proof (induction n arbitrary: ma mi)
  case (Suc n)
  then obtain pa pi where p: "look h (PrevBlock (sh_header ma)) = Some pa" "walk (look h) n pa = Some r"
    "look h (PrevBlock (sh_header mi)) = Some pi" "walk (look h) n pi = Some r"
    by (auto split: option.splits)
  have step: "ancestor_loop hs hl h ma mi = ancestor_loop hs hl h pa pi"
    using Suc.prems(3) by (subst ancestor_loop.simps) (simp add: GetPreviousHeader GetHeader_Some assms(1) p)
  show ?case
  proof (cases "BlockHash hl (sh_header pa) = BlockHash hl (sh_header pi)")
    case True
    then have "pa = pi" using p inj [OF p(1)] inj [OF p(3)] by simp
    moreover from True have "ancestor_loop hs hl h pa pi = Some (Ok pa)" by (subst ancestor_loop.simps) simp
    moreover have "ma \<noteq> mi" using Suc.prems(3) by auto
    ultimately show ?thesis using p step by (intro exI [of _ "Suc 0"] exI [of _ pa]) auto
  next
    case False
    from Suc.IH [OF p(2,4) False] obtain k a where k: "ancestor_loop hs hl h pa pi = Some (Ok a)" "0 < k" "k \<le> n"
      "walk (look h) k pa = Some a" "walk (look h) k pi = Some a" "\<forall>j < k. walk (look h) j pa \<noteq> walk (look h) j pi"
      by blast
    have "\<forall>j < Suc k. walk (look h) j ma \<noteq> walk (look h) j mi"
    proof (intro allI impI)
      fix j assume "j < Suc k"
      then show "walk (look h) j ma \<noteq> walk (look h) j mi"
        using k(6) p Suc.prems(3) by (cases j) auto
    qed
    with k step p show ?thesis by (intro exI [of _ "Suc k"] exI [of _ a]) auto
  qed
qed simp

text \<open>The walk on a header that is not stored yet but extends a stored one.\<close>

lemma ancestor_loop_spec:
  assumes "ok h" and "\<And>x a. look h x = Some a \<Longrightarrow> BlockHash hl (sh_header a) = x"
    and "walk (look h) n ma = Some r" "walk (look h) n mi = Some r"
    and "BlockHash hl (sh_header ma) = BlockHash hl (sh_header mi) \<Longrightarrow> ma = mi"
  shows "\<exists>k a. ancestor_loop hs hl h ma mi = Some (Ok a) \<and> k \<le> n \<and>
    walk (look h) k ma = Some a \<and> walk (look h) k mi = Some a \<and> (\<forall>j < k. walk (look h) j ma \<noteq> walk (look h) j mi)"
proof (cases "BlockHash hl (sh_header ma) = BlockHash hl (sh_header mi)")
  case True
  then have "ancestor_loop hs hl h ma mi = Some (Ok ma)" by (subst ancestor_loop.simps) simp
  with assms(5) True show ?thesis by (intro exI [of _ 0] exI [of _ ma]) auto
next
  case False
  from ancestor_loop_meets [OF assms(1-4) False] show ?thesis by blast
qed

end

text \<open>The reorganisation point of two headers: their highest common ancestor.\<close>

definition reorg_point :: "header_map \<Rightarrow> StoredHeader \<Rightarrow> StoredHeader \<Rightarrow> StoredHeader \<Rightarrow> bool" where
  "reorg_point look a c anc \<longleftrightarrow>
     (\<exists>i. walk look i a = Some anc) \<and> (\<exists>j. walk look j c = Some anc) \<and>
     (\<forall>i j s. walk look i a = Some s \<and> walk look j c = Some s \<longrightarrow> unat (sh_height s) \<le> unat (sh_height anc))"

text \<open>A header not stored yet, on top of a stored one.\<close>

definition extends :: "header_lib \<Rightarrow> header_map \<Rightarrow> StoredHeader \<Rightarrow> StoredHeader \<Rightarrow> bool" where
  "extends hl look a p \<longleftrightarrow> look (BlockHash hl (sh_header a)) = None \<and> look (PrevBlock (sh_header a)) = Some p \<and>
     unat (sh_height a) = Suc (unat (sh_height p))"

lemma extends_walk:
  assumes "chain_ok hl pow look root tip" "extends hl look a p"
  shows "unat (sh_height root) < unat (sh_height a)"
    and "walk look (unat (sh_height a) - unat (sh_height root)) a = Some root"
    and "walk look n a = Some s \<Longrightarrow> unat (sh_height a) = n + unat (sh_height s)"
proof -
  have p: "look (PrevBlock (sh_header a)) = Some p" "unat (sh_height a) = Suc (unat (sh_height p))"
    using assms(2) by (simp_all add: extends_def)
  show "unat (sh_height root) < unat (sh_height a)"
    "walk look (unat (sh_height a) - unat (sh_height root)) a = Some root"
    using reaches_root [OF assms(1) p(1)] p by (simp_all add: Suc_diff_le)
  show "walk look n a = Some s \<Longrightarrow> unat (sh_height a) = n + unat (sh_height s)"
    using walk_height [OF assms(1) p(1)] p by (cases n) auto
qed

lemma walk_split:
  assumes "walk look (m + n) sh = Some a"
  shows "\<exists>b. walk look m sh = Some b \<and> walk look n b = Some a"
  using assms by (simp add: walk_add bind_eq_Some_conv)

text \<open>
  Two walks brought to the same level meet first at the reorganisation point.
\<close>

lemma meets_reorg_point:
  assumes "chain_ok hl pow look root tip" "extends hl look a p" "look x = Some c"
    and "walk look (unat (sh_height a) - unat (sh_height c)) a = Some ma"
    and "walk look (unat (sh_height c) - unat (sh_height a)) c = Some mi"
    and "walk look k ma = Some anc" "walk look k mi = Some anc" "\<forall>j < k. walk look j ma \<noteq> walk look j mi"
  shows "reorg_point look a c anc"
proof -
  let ?ha = "unat (sh_height a)" and ?hc = "unat (sh_height c)"
  have up: "walk look (?ha - ?hc + n) a = walk look n ma" "walk look (?hc - ?ha + n) c = walk look n mi" for n
    using assms(4,5) by (simp_all add: walk_add)
  have anc: "?ha = ?ha - ?hc + k + unat (sh_height anc)"
    using extends_walk(3) [OF assms(1,2), of "?ha - ?hc + k" anc] up(1) assms(6) by simp
  show ?thesis unfolding reorg_point_def
  proof (intro conjI allI impI)
    show "\<exists>i. walk look i a = Some anc" "\<exists>j. walk look j c = Some anc"
      using up [of k] assms(6,7) by metis+
  next
    fix i j s assume s: "walk look i a = Some s \<and> walk look j c = Some s"
    then have h: "?ha = i + unat (sh_height s)" "?hc = j + unat (sh_height s)"
      using extends_walk(3) [OF assms(1,2)] walk_height [OF assms(1,3)] by blast+
    show "unat (sh_height s) \<le> unat (sh_height anc)"
    proof (rule ccontr)
      assume gt: "\<not> unat (sh_height s) \<le> unat (sh_height anc)"
      define l where "l = min ?ha ?hc - unat (sh_height s)"
      have "i = ?ha - ?hc + l" "j = ?hc - ?ha + l" "l < k" using h anc gt by (auto simp: l_def min_def)
      with s up assms(8) show False by metis
    qed
  qed
qed

context headers_laws
begin

lemma GetCommonAncestor_spec:
  assumes "ok h" and c: "chain_ok hl pow (look h) root tip" and e: "extends hl (look h) a p" and st: "look h x = Some c"
  shows "\<exists>anc. GetCommonAncestor hs hl a c h = Some (Ok anc) \<and> reorg_point (look h) a c anc"
proof -
  let ?ha = "unat (sh_height a)" and ?hc = "unat (sh_height c)" and ?r = "unat (sh_height root)"
  define n where "n = min ?ha ?hc - ?r"
  have r: "?r < ?ha" "walk (look h) (?ha - ?r) a = Some root" by (rule extends_walk [OF c e])+
  have rc: "?r \<le> ?hc" "walk (look h) (?hc - ?r) c = Some root" using reaches_root [OF c st] by auto
  have "?ha - ?r = (?ha - ?hc) + n" "?hc - ?r = (?hc - ?ha) + n" using r(1) rc(1) by (auto simp: n_def min_def)
  with r(2) rc(2) obtain ma mi where m: "walk (look h) (?ha - ?hc) a = Some ma" "walk (look h) n ma = Some root"
    "walk (look h) (?hc - ?ha) c = Some mi" "walk (look h) n mi = Some root"
    by (metis walk_split)
  have stored: "BlockHash hl (sh_header y) = x'" if "look h x' = Some y" for x' y using chain_okD(1) [OF c that] .
  obtain z where z: "look h z = Some mi" using walk_stored [OF m(3) st] by blast
  have eq: "ma = mi" if "BlockHash hl (sh_header ma) = BlockHash hl (sh_header mi)"
  proof (cases "?ha - ?hc")
    case 0
    then have "look h (BlockHash hl (sh_header mi)) = None" using m(1) e that by (auto simp: extends_def)
    then show ?thesis using z stored [OF z] by simp
  next
    case (Suc k)
    then obtain y where "look h y = Some ma"
      using m(1) e walk_stored [of "look h" k p ma "PrevBlock (sh_header a)"] by (auto simp: extends_def)
    then show ?thesis using stored z that by (metis option.inject)
  qed
  from ancestor_loop_spec [OF assms(1) stored m(2,4) eq] obtain k anc where
    k: "ancestor_loop hs hl h ma mi = Some (Ok anc)" "walk (look h) k ma = Some anc" "walk (look h) k mi = Some anc"
      "\<forall>j < k. walk (look h) j ma \<noteq> walk (look h) j mi"
    by blast
  have gb: "go_back hs h (?ha - ?hc) a = Ok ma" "go_back hs h (?hc - ?ha) c = Ok mi"
    using go_back_some [OF assms(1)] m(1,3) by blast+
  have sub: "unat (v - w) = unat v - unat w" if "w < v" for v w :: u32 using that by (simp add: unat_sub)
  have "GetCommonAncestor hs hl a c h = ancestor_loop hs hl h ma mi"
    using gb by (cases "sh_height a" "sh_height c" rule: linorder_cases)
      (simp_all add: GetCommonAncestor_def Let_def sub, simp_all add: word_less_nat_alt)
  with k(1) meets_reorg_point [OF c e st m(1,3) k(2-4)] show ?thesis by auto
qed

end

text \<open>The record stored for a header on top of a parent.\<close>

definition new_header :: "pow_lib \<Rightarrow> BlockHeader \<Rightarrow> StoredHeader \<Rightarrow> StoredHeader" where
  "new_header pow hdr p =
     \<lparr>sh_header = hdr, sh_height = sh_height p + 1, totalWork = totalWork p + CalcWork pow (Bits hdr)\<rparr>"

text \<open>Work is never negative.\<close>

definition pow_ok :: "pow_lib \<Rightarrow> bool" where
  "pow_ok pow \<longleftrightarrow> (\<forall>bits. 0 \<le> CalcWork pow bits)"

text \<open>No stored header has the hash of another header, or already names an unknown header as its parent.\<close>

definition no_clash :: "header_lib \<Rightarrow> header_map \<Rightarrow> BlockHeader \<Rightarrow> bool" where
  "no_clash hl look hdr \<longleftrightarrow>
     (\<forall>x sh. look x = Some sh \<longrightarrow>
        (BlockHash hl (sh_header sh) = BlockHash hl hdr \<longrightarrow> sh_header sh = hdr) \<and>
        (PrevBlock (sh_header sh) = BlockHash hl hdr \<longrightarrow> look (BlockHash hl hdr) \<noteq> None))"

text \<open>The record of the new header fits in the file.\<close>

definition fits :: "header_lib \<Rightarrow> pow_lib \<Rightarrow> BlockHeader \<Rightarrow> StoredHeader \<Rightarrow> bool" where
  "fits hl pow hdr p \<longleftrightarrow> header_ok hl hdr \<and> unat (sh_height p) + 1 < 2 ^ 32 \<and>
     totalWork p + CalcWork pow (Bits hdr) < 2 ^ 256"

definition heavier :: "StoredHeader \<Rightarrow> StoredHeader \<Rightarrow> StoredHeader" where
  "heavier tip sh = (if totalWork tip < totalWork sh then sh else tip)"

lemma unat_height_Suc: "unat (w :: u32) + 1 < 2 ^ 32 \<Longrightarrow> unat (w + 1) = Suc (unat w)"
  by (simp add: unat_word_ariths)

lemma new_header_known:
  assumes "chain_ok hl pow look root tip" "no_clash hl look hdr" "fits hl pow hdr p"
    and "look (PrevBlock hdr) = Some p" "look (BlockHash hl hdr) = Some sh"
  shows "sh = new_header pow hdr p"
proof -
  have hdr: "sh_header sh = hdr"
    using assms(2,5) chain_okD(1) [OF assms(1,5)] unfolding no_clash_def by blast
  then have "sh \<noteq> root" using assms(1,4) by (auto simp: chain_ok_def)
  then have "unat (sh_height sh) = Suc (unat (sh_height p))" "totalWork sh = totalWork p + CalcWork pow (Bits hdr)"
    using chain_okD(3) [OF assms(1,5)] hdr assms(4) by (auto simp: child_of_def)
  moreover from this(1) assms(3) have "sh_height sh = sh_height p + 1"
    by (metis fits_def unat_height_Suc word_unat_eq_iff)
  ultimately show ?thesis using hdr by (simp add: new_header_def)
qed

text \<open>Storing the new header keeps the chain well formed, with the heavier of the two as the tip.\<close>

lemma chain_ok_put:
  assumes c: "chain_ok hl pow look root tip" and n: "no_clash hl look hdr" and f: "fits hl pow hdr p"
    and p: "look (PrevBlock hdr) = Some p"
  shows "chain_ok hl pow (look(BlockHash hl hdr \<mapsto> new_header pow hdr p)) root (heavier tip (new_header pow hdr p))"
proof (cases "look (BlockHash hl hdr)")
  case (Some sh)
  then have sh: "look (BlockHash hl hdr) = Some (new_header pow hdr p)" using new_header_known [OF c n f p] by simp
  then have "\<not> totalWork tip < totalWork (new_header pow hdr p)" using chain_okD(2) [OF c sh] by simp
  with c sh show ?thesis by (simp add: fun_upd_idem heavier_def)
next
  case None
  let ?n = "new_header pow hdr p" and ?look = "look(BlockHash hl hdr \<mapsto> new_header pow hdr p)"
  have prev: "PrevBlock (sh_header sh) \<noteq> BlockHash hl hdr" if "look x = Some sh" for x sh
    using n None that by (auto simp: no_clash_def)
  have old: "child_of pow ?look sh" if "child_of pow look sh" "look x = Some sh" for x sh
    using that prev [OF that(2)] by (simp add: child_of_def)
  have "PrevBlock hdr \<noteq> BlockHash hl hdr" using p None by auto
  then have new: "child_of pow ?look ?n"
    using p f unat_height_Suc [of "sh_height p"] by (simp add: child_of_def new_header_def fits_def)
  have hash: "BlockHash hl (sh_header ?n) = BlockHash hl hdr" by (simp add: new_header_def)
  have root: "look (BlockHash hl (sh_header root)) = Some root" "look (PrevBlock (sh_header root)) = None"
    and tip: "look (BlockHash hl (sh_header tip)) = Some tip" using c by (simp_all add: chain_ok_def)
  show ?thesis unfolding chain_ok_def
  proof (intro conjI allI impI)
    show "?look (BlockHash hl (sh_header root)) = Some root" using root None by auto
    show "?look (PrevBlock (sh_header root)) = None" using root(2) prev [OF root(1)] by simp
    show "?look (BlockHash hl (sh_header (heavier tip ?n))) = Some (heavier tip ?n)"
      using tip None hash by (auto simp: heavier_def)
  next
    fix x sh assume "?look x = Some sh"
    then have cases: "(x = BlockHash hl hdr \<and> sh = ?n) \<or> look x = Some sh" by (cases "x = BlockHash hl hdr") simp_all
    show "BlockHash hl (sh_header sh) = x" using cases chain_okD(1) [OF c] hash by auto
    show "totalWork sh \<le> totalWork (heavier tip ?n)" using cases by (auto simp: heavier_def dest: chain_okD(2) [OF c])
    show "sh = root \<or> child_of pow ?look sh"
      using cases
    proof
      assume "look x = Some sh"
      with old [OF _ this] chain_okD(3) [OF c this] show ?thesis by blast
    qed (use new in simp)
  qed
qed

lemma reorg_point_parent:
  assumes "chain_ok hl pow look root tip" "extends hl look a p" "look x = Some c" "reorg_point look a c anc"
  shows "reorg_point look p c anc"
proof -
  have p: "look (PrevBlock (sh_header a)) = Some p" "look (BlockHash hl (sh_header a)) = None"
    using assms(2) by (simp_all add: extends_def)
  obtain i j where ij: "walk look i a = Some anc" "walk look j c = Some anc" using assms(4) by (auto simp: reorg_point_def)
  then obtain y where "look y = Some anc" using walk_stored assms(3) by blast
  then have "anc \<noteq> a" using chain_okD(1) [OF assms(1)] p(2) by fastforce
  with ij obtain k where "i = Suc k" by (cases i) auto
  with ij p have "walk look k p = Some anc" by simp
  moreover have "walk look (Suc k) a = walk look k p" for k using p by simp
  ultimately show ?thesis using assms(4) ij(2) unfolding reorg_point_def by metis
qed

text \<open>What \<open>CommitHeader\<close> returns for a header it accepts.\<close>

definition commit_answer :: "header_lib \<Rightarrow> pow_lib \<Rightarrow> header_map \<Rightarrow> BlockHeader \<Rightarrow> StoredHeader \<Rightarrow> StoredHeader \<Rightarrow>
    commit_result \<Rightarrow> bool" where
  "commit_answer hl pow look hdr p tip r \<longleftrightarrow>
     (if BlockHash hl (sh_header tip) = BlockHash hl hdr then r = (False, None, 0, None)
      else \<exists>anc. r = (totalWork tip < totalWork (new_header pow hdr p), anc, sh_height p + 1, None) \<and>
        (if totalWork tip < totalWork (new_header pow hdr p) \<and> p \<noteq> tip
         then \<exists>a. anc = Some a \<and> reorg_point look p tip a else anc = None))"

context headers_laws
begin

lemma commit_put_spec:
  assumes "ok h" "pow_ok pow" "fits hl pow hdr p" "look h y = Some p"
  shows "\<exists>h'. commit_put hs hdr p (totalWork p + CalcWork pow (Bits hdr)) nt anc h =
      ((nt, anc, sh_height p + 1, None), h') \<and>
    ok h' \<and> look h' = (look h)(BlockHash hl hdr \<mapsto> new_header pow hdr p) \<and>
    best h' = (if nt then Some (new_header pow hdr p) else best h)"
proof -
  have "storable hl (new_header pow hdr p)"
    using look_storable [OF assms(1,4)] assms(2,3) by (simp add: storable_def new_header_def fits_def pow_ok_def)
  from Put [OF assms(1) this, of nt] obtain h' where h': "H_Put hs (new_header pow hdr p) nt h = (None, h')" "ok h'"
    "look h' = (look h)(BlockHash hl hdr \<mapsto> new_header pow hdr p)"
    "best h' = (if nt then Some (new_header pow hdr p) else best h)"
    by (auto simp: new_header_def)
  from h'(1) have "commit_put hs hdr p (totalWork p + CalcWork pow (Bits hdr)) nt anc h =
      ((nt, anc, sh_height p + 1, None), h')"
    by (simp add: commit_put_def new_header_def)
  with h' show ?thesis by blast
qed

lemma CommitHeader_spec:
  assumes "ok h" and c: "chain_ok hl (b_pow b) (look h) root tip" and best: "best h = Some tip" and hl: "b_hl b = hl"
    and pow: "pow_ok (b_pow b)" and n: "no_clash hl (look h) hdr" and f: "fits hl (b_pow b) hdr p"
    and p: "look h (PrevBlock hdr) = Some p" and chk: "CheckHeader hs b hdr p h = Ok True"
  shows "\<exists>h' r. CommitHeader hs b hdr h = Ret (r, h') \<and> commit_answer hl (b_pow b) (look h) hdr p tip r \<and> ok h' \<and>
    look h' = (look h)(BlockHash hl hdr \<mapsto> new_header (b_pow b) hdr p) \<and>
    best h' = Some (heavier tip (new_header (b_pow b) hdr p))"
proof -
  let ?n = "new_header (b_pow b) hdr p"
  have tip: "look h (BlockHash hl (sh_header tip)) = Some tip" using c by (simp add: chain_ok_def)
  have commit: "CommitHeader hs b hdr h = commit_checked hs b hdr tip p h"
    using tip p chk by (auto simp add: CommitHeader_def GetBestHeader [OF assms(1) best] hl Let_def
        GetPreviousHeader [OF assms(1)] GetHeader_Some [OF assms(1)])
  have work: "totalWork ?n = totalWork p + CalcWork (b_pow b) (Bits hdr)" by (simp add: new_header_def)
  have peq: "BlockHash hl (sh_header tip) = BlockHash hl (sh_header p) \<longleftrightarrow> p = tip"
    using tip p chain_okD(1) [OF c] by (metis option.inject)
  note put = commit_put_spec [OF assms(1) pow f p]
  show ?thesis
  proof (cases "BlockHash hl (sh_header tip) = BlockHash hl hdr")
    case True
    then have "?n = tip" using new_header_known [OF c n f p] tip by simp
    then have "(look h)(BlockHash hl hdr \<mapsto> ?n) = look h" "heavier tip ?n = tip"
      using tip True by (auto simp: fun_upd_idem heavier_def)
    with True assms(1) best show ?thesis
      by (simp add: commit commit_checked_def hl commit_answer_def)
  next
    case tip_ne: False
    show ?thesis
    proof (cases "totalWork tip < totalWork ?n \<and> p \<noteq> tip")
      case True
      let ?a = "\<lparr>sh_header = hdr, sh_height = sh_height p + 1, totalWork = 0\<rparr>"
      have "look h (BlockHash hl hdr) = None"
        using True new_header_known [OF c n f p] chain_okD(2) [OF c] by (metis linorder_not_less not_Some_eq)
      then have e: "extends hl (look h) ?a p"
        using p f unat_height_Suc [of "sh_height p"] by (simp add: extends_def fits_def)
      from GetCommonAncestor_spec [OF assms(1) c e tip] obtain anc where
        anc: "GetCommonAncestor hs hl ?a tip h = Some (Ok anc)" "reorg_point (look h) ?a tip anc" by blast
      have "reorg_point (look h) p tip anc" by (rule reorg_point_parent [OF c e tip anc(2)])
      with True tip_ne peq work anc(1) put [of True "Some anc"] show ?thesis
        by (fastforce simp: commit commit_checked_def hl commit_answer_def heavier_def Let_def)
    next
      case False
      with tip_ne peq work best put [of "totalWork tip < totalWork ?n" None] show ?thesis
        by (fastforce simp: commit commit_checked_def hl commit_answer_def heavier_def Let_def)
    qed
  qed
qed

end

section \<open>The header database keeps the contract\<close>

text \<open>
  The method table of the database when the goroutine that \<open>Put\<close> starts has done its write before the
  next call: the order in which the tip race of the header store does not arise.
\<close>

definition HeaderDB_if :: "header_lib \<Rightarrow> 'm omap_lib \<Rightarrow> 'b bolt_lib \<Rightarrow> ('m, 'b) HeaderDB headers_if" where
  "HeaderDB_if hl ol bl =
     \<lparr>H_Put = (\<lambda>sh best h. case run_pending hl bl (length (pending h)) (HeaderDB_Put hl ol sh best h) of
                 Ok h' \<Rightarrow> (None, h') | _ \<Rightarrow> (None, HeaderDB_Put hl ol sh best h)),
      H_DeleteAfter = HeaderDB_DeleteAfter hl bl,
      H_GetPreviousHeader = HeaderDB_GetPreviousHeader hl ol bl,
      H_GetHeader = HeaderDB_GetHeader hl ol bl,
      H_GetBestHeader = HeaderDB_GetBestHeader hl bl,
      H_Height = HeaderDB_Height hl bl\<rparr>"

definition go_opt :: "'a go \<Rightarrow> 'a option" where
  "go_opt r = (case r of Ok a \<Rightarrow> Some a | _ \<Rightarrow> None)"

definition hdb_look :: "header_lib \<Rightarrow> 'm omap_lib \<Rightarrow> 'b bolt_lib \<Rightarrow> ('m, 'b) HeaderDB \<Rightarrow> header_map" where
  "hdb_look hl ol bl h x = go_opt (HeaderDB_GetHeader hl ol bl x h)"

definition hdb_best :: "header_lib \<Rightarrow> 'b bolt_lib \<Rightarrow> ('m, 'b) HeaderDB \<Rightarrow> StoredHeader option" where
  "hdb_best hl bl h = go_opt (HeaderDB_GetBestHeader hl bl h)"

text \<open>A reachable database whose writes are done and whose cached headers are all in the file.\<close>

definition cached_on_file :: "header_lib \<Rightarrow> 'm omap_lib \<Rightarrow> 'b bolt_lib \<Rightarrow> ('m, 'b) HeaderDB \<Rightarrow> bool" where
  "cached_on_file hl ol bl h \<longleftrightarrow>
     (\<forall>x sh. cache_Get hl ol x (cache h) = Some sh \<longrightarrow>
        (\<exists>b. bk_Get bl (hash_bytes x) (bkt_headers h) = Some b \<and> deserializeHeader hl b = Ok sh))"

definition hdb_ok :: "header_lib \<Rightarrow> 'm omap_lib \<Rightarrow> 'b bolt_lib \<Rightarrow> ('m, 'b) HeaderDB \<Rightarrow> bool" where
  "hdb_ok hl ol bl h \<longleftrightarrow> omap_ok ol \<and> bolt_ok bl \<and> hl_ok hl \<and> hdb_reach hl ol bl h \<and> pending h = [] \<and>
     cached_on_file hl ol bl h"

lemma go_opt_Some [simp]: "go_opt r = Some a \<longleftrightarrow> r = Ok a"
  by (cases r) (simp_all add: go_opt_def)

lemma deserialize_no_panic: "deserializeHeader hl b \<noteq> Panic"
  by (simp add: deserializeHeader_def Let_def split: option.split)

lemma cache_Get_Set:
  assumes "omap_ok ol" "hl_ok hl"
  shows "cache_Get hl ol x (cache_Set hl ol sh m) = Some y \<Longrightarrow>
      x = BlockHash hl (sh_header sh) \<and> y = sh \<or> x \<noteq> BlockHash hl (sh_header sh) \<and> cache_Get hl ol x m = Some y"
    and "cache_Get hl ol (BlockHash hl (sh_header sh)) (cache_Set hl ol sh m) = Some sh"
proof -
  have pop: "om_Get ol k (cache_pop ol m) = Some y \<Longrightarrow> om_Get ol k m = Some y" for k
    using assms(1) by (auto simp: cache_pop_def omap_ok_def split: option.splits if_splits)
  have set_get: "om_Get ol k' (om_Set ol k v m') = (if k' = k then Some v else om_Get ol k' m')" for k' k v m'
    using assms(1) by (simp add: omap_ok_def)
  show "cache_Get hl ol (BlockHash hl (sh_header sh)) (cache_Set hl ol sh m) = Some sh"
    by (simp add: cache_Get_def cache_Set_def Let_def set_get)
  show "x = BlockHash hl (sh_header sh) \<and> y = sh \<or> x \<noteq> BlockHash hl (sh_header sh) \<and> cache_Get hl ol x m = Some y"
    if "cache_Get hl ol x (cache_Set hl ol sh m) = Some y"
    using that pop assms(2) by (auto simp: cache_Get_def cache_Set_def Let_def set_get hl_ok_def inj_def split: if_splits)
qed

text \<open>One \<open>Put\<close> with its write done.\<close>

lemma HeaderDB_if_Put:
  assumes "hdb_reach hl ol bl h" "pending h = []" "storable hl sh"
  shows "\<exists>h' ser. H_Put (HeaderDB_if hl ol bl) sh best h = (None, h') \<and> deserializeHeader hl ser = Ok sh \<and>
    hdb_reach hl ol bl h' \<and> pending h' = [] \<and> cache h' = cache_Set hl ol sh (cache h) \<and>
    bestCache h' = (if best then Some sh else bestCache h) \<and>
    bkt_headers h' = bk_Put bl (hash_bytes (BlockHash hl (sh_header sh))) ser (bkt_headers h) \<and>
    (best \<or> bkt_tip h' = bkt_tip h)"
proof -
  obtain ser where ser: "serializeHeader hl sh = Ok ser" "deserializeHeader hl ser = Ok sh"
    using serialize_storable [OF assms(3)] by blast
  note p = assms(2)
  have r: "hdb_reach hl ol bl (HeaderDB_Put hl ol sh best h)" by (rule hdb_put [OF assms(1,3)])
  obtain h' where h': "run_pending hl bl 0 (HeaderDB_Put hl ol sh best h) = Ok h'" "pending h' = []"
    "cache h' = cache_Set hl ol sh (cache h)" "bestCache h' = (if best then Some sh else bestCache h)"
    "bkt_headers h' = bk_Put bl (hash_bytes (BlockHash hl (sh_header sh))) ser (bkt_headers h)"
    "best \<or> bkt_tip h' = bkt_tip h"
    using p ser(1) by (simp add: run_pending_def HeaderDB_Put_def putToDB_def Let_def)
  then have "H_Put (HeaderDB_if hl ol bl) sh best h = (None, h')" using p by (simp add: HeaderDB_if_def)
  with h' ser(2) hdb_write [OF r h'(1)] show ?thesis by blast
qed

lemma HeaderDB_Put_look:
  assumes "hdb_ok hl ol bl h" and ser: "deserializeHeader hl ser = Ok sh"
    and h': "cache h' = cache_Set hl ol sh (cache h)"
      "bkt_headers h' = bk_Put bl (hash_bytes (BlockHash hl (sh_header sh))) ser (bkt_headers h)"
  shows "hdb_look hl ol bl h' = (hdb_look hl ol bl h)(BlockHash hl (sh_header sh) \<mapsto> sh)"
    and "cached_on_file hl ol bl h'"
proof -
  let ?k = "BlockHash hl (sh_header sh)"
  have ol: "omap_ok ol" and hl: "hl_ok hl" and cof: "cached_on_file hl ol bl h" using assms(1) by (simp_all add: hdb_ok_def)
  have bk: "bk_Get bl k' (bk_Put bl k v b) = (if k' = k then Some v else bk_Get bl k' b)" for k k' v b
    using assms(1) by (simp add: hdb_ok_def bolt_ok_def)
  note set = cache_Get_Set [OF ol hl, where sh = sh and m = "cache h"]
  show "cached_on_file hl ol bl h'"
    unfolding cached_on_file_def
  proof (intro allI impI)
    fix x y assume "cache_Get hl ol x (cache h') = Some y"
    then have "x = ?k \<and> y = sh \<or> x \<noteq> ?k \<and> cache_Get hl ol x (cache h) = Some y" using set(1) h'(1) by simp
    then show "\<exists>b. bk_Get bl (hash_bytes x) (bkt_headers h') = Some b \<and> deserializeHeader hl b = Ok y"
      using cof ser by (auto simp: h'(2) bk hash_bytes_inj cached_on_file_def)
  qed
  show "hdb_look hl ol bl h' = (hdb_look hl ol bl h)(?k \<mapsto> sh)"
  proof
    fix x
    show "hdb_look hl ol bl h' x = ((hdb_look hl ol bl h)(?k \<mapsto> sh)) x"
    proof (cases "x = ?k")
      case True
      then show ?thesis using set(2) h'(1) by (simp add: hdb_look_def HeaderDB_GetHeader_def go_opt_def)
    next
      case False
      have "HeaderDB_GetHeader hl ol bl x h' = HeaderDB_GetHeader hl ol bl x h"
      proof (cases "cache_Get hl ol x (cache h')")
        case None
        have "cache_Get hl ol x (cache h) = Some y \<Longrightarrow>
            \<exists>b. bk_Get bl (hash_bytes x) (bkt_headers h) = Some b \<and> deserializeHeader hl b = Ok y" for y
          using cof by (simp add: cached_on_file_def)
        with None False show ?thesis
          by (cases "cache_Get hl ol x (cache h)") (auto simp: HeaderDB_GetHeader_def h'(2) bk hash_bytes_inj)
      next
        case (Some y)
        with set(1) [of x y] h'(1) False show ?thesis by (simp add: HeaderDB_GetHeader_def)
      qed
      with False show ?thesis by (simp add: hdb_look_def)
    qed
  qed
qed

interpretation hdbi: headers_laws "HeaderDB_if hl ol bl" hl "hdb_ok hl ol bl" "hdb_look hl ol bl" "hdb_best hl bl"
proof
  fix h x sh assume h: "hdb_ok hl ol bl h" and sh: "hdb_look hl ol bl h x = Some sh"
  then show "H_GetHeader (HeaderDB_if hl ol bl) x h = Ok sh" by (simp add: hdb_look_def HeaderDB_if_def)
  show "storable hl sh"
    using h sh GetHeader_cases hdb_reach_inv by (fastforce simp: hdb_ok_def hdb_look_def)
next
  fix h x assume "hdb_ok hl ol bl h" "hdb_look hl ol bl h x = None"
  then show "\<exists>e. H_GetHeader (HeaderDB_if hl ol bl) x h = Err e"
    using deserialize_no_panic [of hl]
    by (auto simp: hdb_look_def HeaderDB_if_def HeaderDB_GetHeader_def go_opt_def split: option.splits go.splits)
next
  fix h sh b assume h: "hdb_ok hl ol bl h" and sh: "storable hl sh"
  from h have r: "hdb_reach hl ol bl h" "pending h = []" by (simp_all add: hdb_ok_def)
  from HeaderDB_if_Put [OF r sh, of b] obtain h' ser where h': "H_Put (HeaderDB_if hl ol bl) sh b h = (None, h')"
    "deserializeHeader hl ser = Ok sh" "hdb_reach hl ol bl h'" "pending h' = []" "cache h' = cache_Set hl ol sh (cache h)"
    "bestCache h' = (if b then Some sh else bestCache h)"
    "bkt_headers h' = bk_Put bl (hash_bytes (BlockHash hl (sh_header sh))) ser (bkt_headers h)"
    "b \<or> bkt_tip h' = bkt_tip h" by blast
  note look = HeaderDB_Put_look [OF h h'(2,5,7)]
  have "hdb_ok hl ol bl h'" using h h'(3,4) look(2) by (simp add: hdb_ok_def)
  moreover have "hdb_best hl bl h' = (if b then Some sh else hdb_best hl bl h)"
    using h'(6,8) by (auto simp: hdb_best_def HeaderDB_GetBestHeader_def go_opt_def split: option.split)
  ultimately show "\<exists>h'. H_Put (HeaderDB_if hl ol bl) sh b h = (None, h') \<and> hdb_ok hl ol bl h' \<and>
      hdb_look hl ol bl h' = (hdb_look hl ol bl h)(BlockHash hl (sh_header sh) \<mapsto> sh) \<and>
      hdb_best hl bl h' = (if b then Some sh else hdb_best hl bl h)"
    using h'(1) look(1) by blast
qed (auto simp: HeaderDB_if_def HeaderDB_GetPreviousHeader_def hdb_best_def)

end
