(* ===== verification/Chain_Commit.thy ===== *)
theory Chain_Commit
  imports Block_Chain
begin

text \<open>
  Committing headers to the chain: a new chain, the states reachable from it by committing headers in
  any order, what \<open>CommitHeader\<close> does to the stored headers and to the tip, and the search for the
  reorganisation point.
\<close>

section \<open>A new chain\<close>

lemma new_hdb:
  assumes "omap_ok ol" "bolt_ok bl" "hl_ok hl"
  shows "hdb_ok hl ol bl (NewHeaderDB hl ol bl (bk_New bl) (bk_New bl))"
    and "hdb_look hl ol bl (NewHeaderDB hl ol bl (bk_New bl) (bk_New bl)) = Map.empty"
    and "HeaderDB_GetBestHeader hl bl (NewHeaderDB hl ol bl (bk_New bl) (bk_New bl)) = Err (ErrMsg ''ChainTip not set'')"
    and "bestCache (NewHeaderDB hl ol bl (bk_New bl) (bk_New bl)) = None"
    and "bkt_tip (NewHeaderDB hl ol bl (bk_New bl) (bk_New bl)) = bk_New bl"
proof -
  have none: "bk_Get bl k (bk_New bl) = None" for k
    using assms(2) unfolding bolt_ok_def by (metis list.set(1) empty_iff not_Some_eq)
  have empty: "om_Get ol k (om_New ol) = None" for k using assms(1) by (simp add: omap_ok_def)
  have h: "NewHeaderDB hl ol bl (bk_New bl) (bk_New bl) =
      \<lparr>bestCache = None, cache = om_New ol, bkt_headers = bk_New bl, bkt_tip = bk_New bl, pending = []\<rparr>"
    by (simp add: NewHeaderDB_def initializeCache_def HeaderDB_GetBestHeader_def none)
  have "cached_on_file hl ol bl (NewHeaderDB hl ol bl (bk_New bl) (bk_New bl))"
    by (simp add: h cached_on_file_def cache_Get_def empty)
  then show "hdb_ok hl ol bl (NewHeaderDB hl ol bl (bk_New bl) (bk_New bl))"
    using hdb_new [of hl ol bl] assms by (simp add: hdb_ok_def h)
  show "hdb_look hl ol bl (NewHeaderDB hl ol bl (bk_New bl) (bk_New bl)) = Map.empty"
    by (rule ext) (simp add: h hdb_look_def HeaderDB_GetHeader_def cache_Get_def empty none go_opt_def)
  show "HeaderDB_GetBestHeader hl bl (NewHeaderDB hl ol bl (bk_New bl) (bk_New bl)) = Err (ErrMsg ''ChainTip not set'')"
    "bestCache (NewHeaderDB hl ol bl (bk_New bl) (bk_New bl)) = None"
    "bkt_tip (NewHeaderDB hl ol bl (bk_New bl) (bk_New bl)) = bk_New bl"
    by (simp_all add: h HeaderDB_GetBestHeader_def none)
qed

text \<open>The first header of a new chain.\<close>

definition first_header :: "Checkpoint \<Rightarrow> StoredHeader" where
  "first_header cp = \<lparr>sh_header = cp_Header cp, sh_height = cp_Height cp, totalWork = 0\<rparr>"

definition checkpoint_ok :: "header_lib \<Rightarrow> Checkpoint \<Rightarrow> bool" where
  "checkpoint_ok hl cp \<longleftrightarrow> header_ok hl (cp_Header cp) \<and> PrevBlock (cp_Header cp) \<noteq> BlockHash hl (cp_Header cp) \<and>
     hdr_Deserialize hl [] = None"

lemma NewBlockchain_spec:
  fixes hl :: header_lib and ol :: "'m omap_lib" and bl :: "'b bolt_lib"
  assumes "omap_ok ol" "bolt_ok bl" "hl_ok hl" and cp: "cp = GetCheckpoint genesis t params" "checkpoint_ok hl cp"
  defines "h0 \<equiv> NewHeaderDB hl ol bl (bk_New bl) (bk_New bl)"
  shows "\<exists>b h. NewBlockchain (HeaderDB_if hl ol bl) hl pow genesis t params h0 = (Ok b, h) \<and>
    b_hl b = hl \<and> b_pow b = pow \<and> b_checkpoint b = cp \<and> b_params b = params \<and>
    hdb_ok hl ol bl h \<and> hdb_best hl bl h = Some (first_header cp) \<and>
    hdb_look hl ol bl h = [BlockHash hl (cp_Header cp) \<mapsto> first_header cp] \<and>
    chain_ok hl pow (hdb_look hl ol bl h) (first_header cp) (first_header cp)"
proof -
  note new = new_hdb [OF assms(1-3), folded h0_def]
  have none: "bk_Get bl k (bk_New bl) = None" for k
    using assms(2) unfolding bolt_ok_def by (metis list.set(1) empty_iff not_Some_eq)
  have "storable hl (first_header cp)" using cp(2) by (simp add: storable_def first_header_def checkpoint_ok_def)
  from hdbi.Put [OF new(1) this, of True] obtain h where h: "H_Put (HeaderDB_if hl ol bl) (first_header cp) True h0 = (None, h)"
    "hdb_ok hl ol bl h" "hdb_look hl ol bl h = [BlockHash hl (cp_Header cp) \<mapsto> first_header cp]"
    "hdb_best hl bl h = Some (first_header cp)"
    by (auto simp: new(2) first_header_def)
  have "H_Height (HeaderDB_if hl ol bl) h0 = Err LibError"
    using cp(2) by (simp add: HeaderDB_if_def HeaderDB_Height_def new(4,5) none deserializeHeader_def checkpoint_ok_def)
  then have "NewBlockchain (HeaderDB_if hl ol bl) hl pow genesis t params h0 =
      (Ok \<lparr>b_params = params, b_checkpoint = cp, crationDate = t, b_genesis = genesis, b_hl = hl, b_pow = pow\<rparr>, h)"
    using h(1) by (simp add: NewBlockchain_def cp(1) [symmetric] first_header_def Let_def)
  moreover have "chain_ok hl pow (hdb_look hl ol bl h) (first_header cp) (first_header cp)"
    using cp(2) by (auto simp: chain_ok_def h(3) first_header_def checkpoint_ok_def split: if_splits)
  ultimately show ?thesis using h by auto
qed

section \<open>Reachable chains\<close>

text \<open>
  The chain of a wallet: opened on a new file, then headers committed in any order.  The headers
  that arrive hash without collisions and stay within the widths of the file format.
\<close>

definition sane_header :: "header_lib \<Rightarrow> pow_lib \<Rightarrow> header_map \<Rightarrow> BlockHeader \<Rightarrow> bool" where
  "sane_header hl pow look hdr \<longleftrightarrow> no_clash hl look hdr \<and> (\<forall>p. look (PrevBlock hdr) = Some p \<longrightarrow> fits hl pow hdr p)"

inductive chain_reach :: "header_lib \<Rightarrow> 'm omap_lib \<Rightarrow> 'b bolt_lib \<Rightarrow> Blockchain \<Rightarrow> ('m, 'b) HeaderDB \<Rightarrow> bool"
  for hl ol bl b where
  chain_new: "NewBlockchain (HeaderDB_if hl ol bl) hl pow genesis t params (NewHeaderDB hl ol bl (bk_New bl) (bk_New bl)) = (Ok b, h)
    \<Longrightarrow> chain_reach hl ol bl b h"
| chain_commit: "chain_reach hl ol bl b h \<Longrightarrow> sane_header hl (b_pow b) (hdb_look hl ol bl h) hdr \<Longrightarrow>
    CommitHeader (HeaderDB_if hl ol bl) b hdr h = Ret (r, h') \<Longrightarrow> chain_reach hl ol bl b h'"

text \<open>A header that is refused changes nothing.\<close>

lemma CommitHeader_refused:
  assumes "hdb_ok hl ol bl h" "hdb_best hl bl h = Some tip" "b_hl b = hl"
    and "hdb_look hl ol bl h (BlockHash hl (sh_header tip)) = Some tip"
    and "CommitHeader (HeaderDB_if hl ol bl) b hdr h = Ret (r, h')"
  shows "h' = h \<or> (\<exists>p. hdb_look hl ol bl h (PrevBlock hdr) = Some p \<and> CheckHeader (HeaderDB_if hl ol bl) b hdr p h = Ok True)"
proof (cases "hdb_look hl ol bl h (PrevBlock hdr)")
  case None
  from hdbi.GetHeader_None [OF assms(1) None] obtain e where "H_GetHeader (HeaderDB_if hl ol bl) (PrevBlock hdr) h = Err e" ..
  moreover have "PrevBlock hdr \<noteq> BlockHash hl (sh_header tip)" using None assms(4) by auto
  ultimately have "CommitHeader (HeaderDB_if hl ol bl) b hdr h = Ret ((False, None, 0, Some (ErrMsg (''Header '' @
      hl_String hl (BlockHash hl hdr) @ '' does not extend any known headers''))), h)"
    by (simp add: CommitHeader_def hdbi.GetBestHeader [OF assms(1,2)] assms(3) hdbi.GetPreviousHeader [OF assms(1)] Let_def)
  with assms(5) show ?thesis by simp
next
  case (Some p)
  have parent: "(if PrevBlock hdr = BlockHash hl (sh_header tip) then Ok tip
      else H_GetPreviousHeader (HeaderDB_if hl ol bl) hdr h) = Ok p"
    using Some assms(4) by (auto simp: hdbi.GetPreviousHeader [OF assms(1)] hdbi.GetHeader_Some [OF assms(1)])
  show ?thesis
    using assms(5) Some
    by (auto simp: CommitHeader_def hdbi.GetBestHeader [OF assms(1,2)] assms(3) parent Let_def
        split: go.splits bool.splits)
qed

lemma CommitHeader_step:
  assumes "hdb_ok hl ol bl h" "chain_ok hl (b_pow b) (hdb_look hl ol bl h) root tip" "hdb_best hl bl h = Some tip"
    "b_hl b = hl" "pow_ok (b_pow b)" "sane_header hl (b_pow b) (hdb_look hl ol bl h) hdr"
    and c: "CommitHeader (HeaderDB_if hl ol bl) b hdr h = Ret (r, h')"
  shows "\<exists>tip'. hdb_ok hl ol bl h' \<and> chain_ok hl (b_pow b) (hdb_look hl ol bl h') root tip' \<and>
    hdb_best hl bl h' = Some tip' \<and> totalWork tip \<le> totalWork tip'"
proof -
  have tip: "hdb_look hl ol bl h (BlockHash hl (sh_header tip)) = Some tip" using assms(2) by (simp add: chain_ok_def)
  from CommitHeader_refused [OF assms(1,3,4) tip c] show ?thesis
  proof
    assume "h' = h"
    with assms show ?thesis by auto
  next
    assume "\<exists>p. hdb_look hl ol bl h (PrevBlock hdr) = Some p \<and> CheckHeader (HeaderDB_if hl ol bl) b hdr p h = Ok True"
    then obtain p where p: "hdb_look hl ol bl h (PrevBlock hdr) = Some p"
      "CheckHeader (HeaderDB_if hl ol bl) b hdr p h = Ok True" by blast
    with assms(6) have n: "no_clash hl (hdb_look hl ol bl h) hdr" "fits hl (b_pow b) hdr p" by (auto simp: sane_header_def)
    from hdbi.CommitHeader_spec [OF assms(1-5) n p] c chain_ok_put [OF assms(2) n p(1)] show ?thesis
      by (auto simp: heavier_def)
  qed
qed


section \<open>Example chain\<close>

definition ex_pow :: pow_lib where
  "ex_pow = \<lparr>CalcWork = (\<lambda>_. 1), CompactToBig = uint, BigToCompact = word_of_int, HashToBig = uint\<rparr>"

definition ex_params :: chain_params where
  "ex_params = \<lparr>p_Net = RegressionNet, PowLimit = 100, PowLimitBits = 100, ReduceMinDifficulty = False\<rparr>"

abbreviation ex_cp :: Checkpoint where
  "ex_cp \<equiv> regtestCheckpoint (ex_header 7 0)"

definition ex_chain :: Blockchain where
  "ex_chain = \<lparr>b_params = ex_params, b_checkpoint = ex_cp, crationDate = 0, b_genesis = ex_header 7 0,
     b_hl = ex_hl, b_pow = ex_pow\<rparr>"

abbreviation ex_if :: "((string, StoredHeader) alist, (bytes, bytes) alist) HeaderDB headers_if" where
  "ex_if \<equiv> HeaderDB_if ex_hl ex_ol ex_bl"

definition ex_chain0 :: "((string, StoredHeader) alist, (bytes, bytes) alist) HeaderDB" where
  "ex_chain0 = snd (NewBlockchain ex_if ex_hl ex_pow (ex_header 7 0) 0 ex_params (NewHeaderDB ex_hl ex_ol ex_bl (bk_New ex_bl) (bk_New ex_bl)))"

lemma ex_header_prev_ok: "header_ok ex_hl (ex_header n 7)"
proof -
  have "hash_bytes 7 = 7 # replicate 31 0" by code_simp
  then have "length (hash_bytes 7) = 32" "be_val 0 (rev (hash_bytes 7)) = 7"
    by (simp_all add: be_val_append be_val_zeros)
  then show ?thesis by (simp add: header_ok_def ex_hl_def ex_header_def be_val_be32 length_be32)
qed

lemma ex_hash: "BlockHash ex_hl (ex_header n p) = ucast n" "PrevBlock (ex_header n p) = p" "Bits (ex_header n p) = 0"
  by (simp_all add: ex_hl_def ex_header_def)

lemma ex_cp_ok: "checkpoint_ok ex_hl ex_cp"
  using ex_header_ok [of 7] by (simp add: checkpoint_ok_def regtestCheckpoint_def ex_hash) (simp add: ex_hl_def)

lemma ex_chain0:
  "NewBlockchain ex_if ex_hl ex_pow (ex_header 7 0) 0 ex_params (NewHeaderDB ex_hl ex_ol ex_bl (bk_New ex_bl) (bk_New ex_bl)) =
     (Ok ex_chain, ex_chain0) \<and>
   hdb_ok ex_hl ex_ol ex_bl ex_chain0 \<and> hdb_best ex_hl ex_bl ex_chain0 = Some (first_header ex_cp) \<and>
   hdb_look ex_hl ex_ol ex_bl ex_chain0 = [7 \<mapsto> first_header ex_cp] \<and>
   chain_ok ex_hl ex_pow (hdb_look ex_hl ex_ol ex_bl ex_chain0) (first_header ex_cp) (first_header ex_cp)"
proof -
  have cp: "ex_cp = GetCheckpoint (ex_header 7 0) 0 ex_params" by (simp add: GetCheckpoint_def ex_params_def)
  from NewBlockchain_spec [OF ex_ol_ok ex_bl_ok ex_hl_ok cp ex_cp_ok, where pow = ex_pow] obtain b h where
    b: "NewBlockchain ex_if ex_hl ex_pow (ex_header 7 0) 0 ex_params
      (NewHeaderDB ex_hl ex_ol ex_bl (bk_New ex_bl) (bk_New ex_bl)) = (Ok b, h)"
    "hdb_ok ex_hl ex_ol ex_bl h" "hdb_best ex_hl ex_bl h = Some (first_header ex_cp)"
    "hdb_look ex_hl ex_ol ex_bl h = [BlockHash ex_hl (cp_Header ex_cp) \<mapsto> first_header ex_cp]"
    "chain_ok ex_hl ex_pow (hdb_look ex_hl ex_ol ex_bl h) (first_header ex_cp) (first_header ex_cp)" by blast
  have "h = ex_chain0" using b(1) by (simp add: ex_chain0_def)
  moreover have "b = ex_chain"
    using b(1) cp by (auto simp: NewBlockchain_def Let_def ex_chain_def split: if_splits prod.splits option.splits)
  moreover have "BlockHash ex_hl (cp_Header ex_cp) = 7" by (simp add: regtestCheckpoint_def ex_hash)
  ultimately show ?thesis using b by simp
qed

lemmas ex_chain0_facts = ex_chain0 [THEN conjunct1] ex_chain0 [THEN conjunct2, THEN conjunct1]
  ex_chain0 [THEN conjunct2, THEN conjunct2, THEN conjunct1]
  ex_chain0 [THEN conjunct2, THEN conjunct2, THEN conjunct2, THEN conjunct1]
  ex_chain0 [THEN conjunct2, THEN conjunct2, THEN conjunct2, THEN conjunct2]

lemma ex_pow_ok: "pow_ok ex_pow"
  by (simp add: pow_ok_def ex_pow_def)


section \<open>Committing a header\<close>

text \<open>Property C8. \<open>CommitHeader\<close> on a header that extends a stored one and passes the check: it returns, the header is
  stored with the height of its parent plus one and the work of its parent plus its own, the tip is
  the new header exactly when its chain has strictly more work, and when that chain does not contain
  the old tip the answer names the reorganisation point, the highest common ancestor of the two.
  Committing a header that is already known changes nothing, and the chain stays well formed.\<close>

theorem CommitHeader_correct:
  assumes "hdb_ok hl ol bl h" "chain_ok hl (b_pow b) (hdb_look hl ol bl h) root tip" "hdb_best hl bl h = Some tip"
    and "b_hl b = hl" "pow_ok (b_pow b)" "no_clash hl (hdb_look hl ol bl h) hdr" "fits hl (b_pow b) hdr p"
    and "hdb_look hl ol bl h (PrevBlock hdr) = Some p" "CheckHeader (HeaderDB_if hl ol bl) b hdr p h = Ok True"
  shows "\<exists>h' r. CommitHeader (HeaderDB_if hl ol bl) b hdr h = Ret (r, h') \<and>
    commit_answer hl (b_pow b) (hdb_look hl ol bl h) hdr p tip r \<and>
    hdb_ok hl ol bl h' \<and>
    hdb_look hl ol bl h' = (hdb_look hl ol bl h)(BlockHash hl hdr \<mapsto> new_header (b_pow b) hdr p) \<and>
    hdb_best hl bl h' = Some (heavier tip (new_header (b_pow b) hdr p)) \<and>
    chain_ok hl (b_pow b) (hdb_look hl ol bl h') root (heavier tip (new_header (b_pow b) hdr p))"
  using hdbi.CommitHeader_spec [OF assms] chain_ok_put [OF assms(2,6-8)] by fastforce

lemma ex_commit_pre:
  "no_clash ex_hl (hdb_look ex_hl ex_ol ex_bl ex_chain0) (ex_header 8 7)"
  "fits ex_hl ex_pow (ex_header 8 7) (first_header ex_cp)"
  "hdb_look ex_hl ex_ol ex_bl ex_chain0 (PrevBlock (ex_header 8 7)) = Some (first_header ex_cp)"
  "CheckHeader ex_if ex_chain (ex_header 8 7) (first_header ex_cp) ex_chain0 = Ok True"
  using ex_header_prev_ok [of 8]
  by (simp_all add: ex_chain0_facts(4) no_clash_def ex_hash first_header_def regtestCheckpoint_def fits_def ex_pow_def
      CheckHeader_def ex_chain_def)

theorem CommitHeader_correct_witness:
  "\<exists>h' r. CommitHeader ex_if ex_chain (ex_header 8 7) ex_chain0 = Ret (r, h') \<and>
    hdb_best ex_hl ex_bl h' = Some \<lparr>sh_header = ex_header 8 7, sh_height = 1, totalWork = 1\<rparr>"
proof -
  have "b_hl ex_chain = ex_hl" "b_pow ex_chain = ex_pow" by (simp_all add: ex_chain_def)
  with CommitHeader_correct [of ex_hl ex_ol ex_bl ex_chain0 ex_chain "first_header ex_cp" "first_header ex_cp" "ex_header 8 7"
      "first_header ex_cp"] ex_chain0_facts(2,3,5) ex_commit_pre ex_pow_ok
  show ?thesis by (auto simp: heavier_def new_header_def first_header_def regtestCheckpoint_def ex_pow_def)
qed

text \<open>Property C27. The search for a common ancestor ends: for a new header on top of a stored one and a stored header
  \<open>c\<close>, \<open>GetCommonAncestor\<close> returns their reorganisation point.\<close>

theorem GetCommonAncestor_correct:
  assumes "hdb_ok hl ol bl h" "chain_ok hl pow (hdb_look hl ol bl h) root tip"
    and "extends hl (hdb_look hl ol bl h) a p" "hdb_look hl ol bl h x = Some c"
  shows "\<exists>anc. GetCommonAncestor (HeaderDB_if hl ol bl) hl a c h = Some (Ok anc) \<and>
    reorg_point (hdb_look hl ol bl h) a c anc"
  by (rule hdbi.GetCommonAncestor_spec [OF assms])

theorem GetCommonAncestor_correct_witness:
  "\<exists>anc. GetCommonAncestor ex_if ex_hl \<lparr>sh_header = ex_header 9 7, sh_height = 1, totalWork = 0\<rparr> (first_header ex_cp) ex_chain0 =
      Some (Ok anc) \<and>
    reorg_point (hdb_look ex_hl ex_ol ex_bl ex_chain0) \<lparr>sh_header = ex_header 9 7, sh_height = 1, totalWork = 0\<rparr> (first_header ex_cp) anc"
  by (rule GetCommonAncestor_correct [OF ex_chain0_facts(2,5), of _ "first_header ex_cp" 7])
    (simp_all add: extends_def ex_chain0_facts(4) ex_hash first_header_def regtestCheckpoint_def)

end
