(* ===== verification/Chain_Rules.thy ===== *)
theory Chain_Rules
  imports Chain_Commit "HOL-Library.Multiset"
begin

text \<open>
  The rules of the chain: which headers \<open>CheckHeader\<close> accepts, the bounds of the difficulty
  adjustment, the medians by time, block locators and rollbacks.
\<close>

section \<open>Checking a header\<close>

text \<open>Property C20. A header the check accepts beyond the checkpoint window is linked to its parent and has a valid proof
  of work: a positive target within the limit and a hash not above it; on the main network its
  target is exactly the required one.\<close>

theorem CheckHeader_sound:
  assumes "\<not> sh_height prev + 1 \<le> cp_Height (b_checkpoint b) + 147" "CheckHeader hs b hdr prev h = Ok True"
  shows "PrevBlock hdr = BlockHash (b_hl b) (sh_header prev) \<and>
    0 < CompactToBig (b_pow b) (Bits hdr) \<and> CompactToBig (b_pow b) (Bits hdr) \<le> PowLimit (b_params b) \<and>
    HashToBig (b_pow b) (BlockHash (b_hl b) hdr) \<le> CompactToBig (b_pow b) (Bits hdr) \<and>
    (p_Net (b_params b) = MainNet \<longrightarrow> calcRequiredWork hs b hdr prev h = Ok (Bits hdr))"
proof -
  have link: "BlockHash (b_hl b) (sh_header prev) = PrevBlock hdr" and work: "checkProofOfWork b hdr"
    and net: "p_Net (b_params b) = MainNet \<longrightarrow> calcRequiredWork hs b hdr prev h = Ok (Bits hdr)"
    using assms by (auto simp: CheckHeader_def Let_def split: if_splits go.splits)
  from work have "0 < CompactToBig (b_pow b) (Bits hdr) \<and> CompactToBig (b_pow b) (Bits hdr) \<le> PowLimit (b_params b) \<and>
    HashToBig (b_pow b) (BlockHash (b_hl b) hdr) \<le> CompactToBig (b_pow b) (Bits hdr)"
    by (simp add: checkProofOfWork_def Let_def not_le split: if_splits)
  with link net show ?thesis by simp
qed

definition ex_mined :: BlockHeader where
  "ex_mined = (ex_header 9 8)\<lparr>Bits := 50\<rparr>"

theorem CheckHeader_sound_witness:
  "CheckHeader ex_if ex_chain ex_mined \<lparr>sh_header = ex_header 8 7, sh_height = 200, totalWork = 5\<rparr> ex_chain0 = Ok True \<and>
   PrevBlock ex_mined = BlockHash (b_hl ex_chain) (ex_header 8 7) \<and> 0 < CompactToBig (b_pow ex_chain) (Bits ex_mined) \<and>
   HashToBig (b_pow ex_chain) (BlockHash (b_hl ex_chain) ex_mined) \<le> CompactToBig (b_pow ex_chain) (Bits ex_mined)"
proof -
  let ?p = "\<lparr>sh_header = ex_header 8 7, sh_height = 200, totalWork = 5\<rparr>"
  have hash: "BlockHash ex_hl ex_mined = 9" by (simp add: ex_mined_def ex_header_def ex_hl_def)
  have prev: "PrevBlock ex_mined = 8" "Bits ex_mined = 50" by (simp_all add: ex_mined_def ex_header_def)
  have c: "CheckHeader ex_if ex_chain ex_mined ?p ex_chain0 = Ok True"
    by (simp add: CheckHeader_def ex_chain_def ex_params_def regtestCheckpoint_def hash prev ex_hash checkProofOfWork_def ex_pow_def)
  from CheckHeader_sound [OF _ c] c show ?thesis by (simp add: ex_chain_def regtestCheckpoint_def)
qed

text \<open>The difficulty adjustment is bounded: the work projected to one block is between a 288th and a 72nd
  of the work of the interval whatever the timestamps say, and the new target is the one for that
  work, at most the limit.  An interval with less than 72 units of work makes the division panic.\<close>

theorem calcDiffAdjust_bounds:
  assumes "work = totalWork end1 - totalWork start" "0 \<le> work"
  shows "(288 \<le> work \<longrightarrow> (\<exists>pw. work div 288 \<le> pw \<and> pw \<le> work div 72 \<and>
      calcDiffAdjust pow start end1 p = Ok (BigToCompact pow (min (PowLimit p) ((2 ^ 256 - pw) div pw))))) \<and>
    (work < 72 \<longrightarrow> calcDiffAdjust pow start end1 p = Panic)"
proof -
  define d0 where "d0 = wrap64 (Unix (hdr_Timestamp (sh_header end1)) - Unix (hdr_Timestamp (sh_header start)))"
  define d where "d = (if d0 > 172800 then 172800 else if d0 < 43200 then 43200 else d0)"
  define pw where "pw = work * 600 div d"
  have d: "43200 \<le> d" "d \<le> 172800" by (auto simp: d_def)
  have clamp: "(if d0 > 288 * targetSpacing then 288 * targetSpacing
      else if d0 < 72 * targetSpacing then 72 * targetSpacing else d0) = d"
    by (simp add: d_def targetSpacing_def)
  have div: "big_Div (work * targetSpacing) d = Ok pw" using d by (simp add: big_Div_def pw_def targetSpacing_def)
  have calc: "calcDiffAdjust pow start end1 p =
      go_bind (big_Div (2 ^ 256 - pw) pw) (\<lambda>newTarget. Ok (BigToCompact pow (if newTarget > PowLimit p then PowLimit p else newTarget)))"
    unfolding calcDiffAdjust_def Let_def assms(1) [symmetric] d0_def [symmetric] clamp div go_bind.simps ..
  have lo: "work div 288 \<le> pw"
  proof -
    have "work div 288 = work * 600 div 172800" using div_mult_mult2 [of 600 work 288] by simp
    also have "\<dots> \<le> work * 600 div d" using d assms(2) by (intro zdiv_mono2) auto
    finally show ?thesis by (simp add: pw_def)
  qed
  have hi: "pw \<le> work div 72"
  proof -
    have "work * 600 div d \<le> work * 600 div 43200" using d assms(2) by (intro zdiv_mono2) auto
    also have "\<dots> = work div 72" using div_mult_mult2 [of 600 work 72] by simp
    finally show ?thesis by (simp add: pw_def)
  qed
  show ?thesis
  proof (intro conjI impI)
    assume "288 \<le> work"
    then have "1 \<le> work div 288" using zdiv_mono1 [of 288 work 288] by simp
    with lo have "0 < pw" by simp
    then have "calcDiffAdjust pow start end1 p = Ok (BigToCompact pow (min (PowLimit p) ((2 ^ 256 - pw) div pw)))"
      by (simp add: calc big_Div_def min_def)
    with lo hi show "\<exists>pw. work div 288 \<le> pw \<and> pw \<le> work div 72 \<and>
      calcDiffAdjust pow start end1 p = Ok (BigToCompact pow (min (PowLimit p) ((2 ^ 256 - pw) div pw)))" by blast
  next
    assume "work < 72"
    then have "work div 72 = 0" using assms(2) by simp
    moreover have "0 \<le> pw" using d assms(2) by (simp add: pw_def pos_imp_zdiv_nonneg_iff)
    ultimately have "pw = 0" using hi by simp
    then show "calcDiffAdjust pow start end1 p = Panic" by (simp add: calc big_Div_def)
  qed
qed

theorem calcDiffAdjust_bounds_witness:
  "\<exists>pw. 10 \<le> pw \<and> pw \<le> 40 \<and>
    calcDiffAdjust ex_pow (ex_sh 7 0) (ex_sh 8 2880) ex_params = Ok (BigToCompact ex_pow (min (PowLimit ex_params) ((2 ^ 256 - pw) div pw)))"
  using calcDiffAdjust_bounds [of 2880 "ex_sh 8 2880" "ex_sh 7 0" ex_pow ex_params] by (simp add: ex_sh_def)

text \<open>The twenty minutes after which the test network allows the minimal difficulty are added as
  nanoseconds: with times in whole seconds any later timestamp qualifies.\<close>

theorem calcRequiredWork_testnet:
  assumes "ReduceMinDifficulty (b_params b)" "hdr_Timestamp hdr = time_Unix s" "hdr_Timestamp (sh_header prev) = time_Unix s'"
  shows "s' < s \<longrightarrow> calcRequiredWork hs b hdr prev h = Ok (PowLimitBits (b_params b))"
proof
  assume "s' < s"
  then have "s' * nano + 1200 < s * nano" by (simp add: nano_def)
  then show "calcRequiredWork hs b hdr prev h = Ok (PowLimitBits (b_params b))"
    using assms by (simp add: calcRequiredWork_def targetSpacing_def time_Unix_def)
qed

theorem calcRequiredWork_testnet_witness:
  "calcRequiredWork ex_if (ex_chain\<lparr>b_params := ex_params\<lparr>ReduceMinDifficulty := True\<rparr>\<rparr>) ((ex_header 8 7)\<lparr>hdr_Timestamp := time_Unix 101\<rparr>)
     \<lparr>sh_header = (ex_header 7 0)\<lparr>hdr_Timestamp := time_Unix 100\<rparr>, sh_height = 0, totalWork = 0\<rparr> ex_chain0 = Ok 100"
  using calcRequiredWork_testnet [of "ex_chain\<lparr>b_params := ex_params\<lparr>ReduceMinDifficulty := True\<rparr>\<rparr>"
      "(ex_header 8 7)\<lparr>hdr_Timestamp := time_Unix 101\<rparr>" 101
      "\<lparr>sh_header = (ex_header 7 0)\<lparr>hdr_Timestamp := time_Unix 100\<rparr>, sh_height = 0, totalWork = 0\<rparr>" 100 ex_if ex_chain0]
  by (simp add: ex_params_def)

text \<open>A header whose parent is unknown is refused with an error, the store is unchanged; the error is a new
  one and never the value \<open>OrphanHeaderError\<close> that the callers compare with.\<close>

theorem CommitHeader_unknown_parent:
  assumes "hdb_ok hl ol bl h" "hdb_best hl bl h = Some tip" "b_hl b = hl"
    and "hdb_look hl ol bl h (PrevBlock hdr) = None" "PrevBlock hdr \<noteq> BlockHash hl (sh_header tip)"
  shows "\<exists>e. CommitHeader (HeaderDB_if hl ol bl) b hdr h = Ret ((False, None, 0, Some e), h) \<and> e \<noteq> OrphanHeaderError"
proof -
  from hdbi.GetHeader_None [OF assms(1,4)] obtain e where "H_GetHeader (HeaderDB_if hl ol bl) (PrevBlock hdr) h = Err e" ..
  with assms(5) show ?thesis
    by (simp add: CommitHeader_def hdbi.GetBestHeader [OF assms(1,2)] assms(3) hdbi.GetPreviousHeader [OF assms(1)] Let_def)
qed

theorem CommitHeader_unknown_parent_witness:
  "\<exists>e. CommitHeader ex_if ex_chain (ex_header 9 8) ex_chain0 = Ret ((False, None, 0, Some e), ex_chain0) \<and> e \<noteq> OrphanHeaderError"
  by (rule CommitHeader_unknown_parent [OF ex_chain0_facts(2,3)])
    (simp_all add: ex_chain_def ex_chain0_facts(4) ex_hash first_header_def regtestCheckpoint_def)

section \<open>Medians by time\<close>

lemma mset_ins_back: "mset (ins_back lt x ys) = add_mset x (mset ys)"
  by (induction ys) auto

lemma mset_fold_ins_back: "mset (fold (ins_back lt) xs acc) = mset xs + mset acc"
  by (induction xs arbitrary: acc) (auto simp: mset_ins_back)

text \<open>A comparison that agrees with the order of a key, strict or not, sorts by the key.\<close>

definition by_key :: "('a \<Rightarrow> int) \<Rightarrow> ('a \<Rightarrow> 'a \<Rightarrow> bool) \<Rightarrow> bool" where
  "by_key key lt \<longleftrightarrow> (\<forall>x y. (lt x y \<longrightarrow> key x \<le> key y) \<and> (\<not> lt x y \<longrightarrow> key y \<le> key x))"

lemma ins_back_sorted:
  assumes "by_key key lt"
  shows "sorted_wrt (\<lambda>a b. key b \<le> key a) ys \<Longrightarrow> sorted_wrt (\<lambda>a b. key b \<le> key a) (ins_back lt x ys)"
proof (induction ys)
  case (Cons y ys)
  have "set (ins_back lt x ys) = insert x (set ys)" using mset_ins_back [of lt x ys] by (metis set_mset_add_mset_insert set_mset_mset)
  moreover have "lt x y \<Longrightarrow> key x \<le> key y" "\<not> lt x y \<Longrightarrow> key y \<le> key x" using assms by (auto simp: by_key_def)
  ultimately show ?case using Cons by (auto intro: order_trans)
qed simp

lemma sort_Sort_by_key:
  assumes "by_key key lt"
  shows "mset (sort_Sort lt xs) = mset xs" "map key (sort_Sort lt xs) = sort (map key xs)"
proof -
  show m: "mset (sort_Sort lt xs) = mset xs" by (simp add: sort_Sort_def mset_fold_ins_back)
  have "sorted_wrt (\<lambda>a b. key b \<le> key a) acc \<Longrightarrow> sorted_wrt (\<lambda>a b. key b \<le> key a) (fold (ins_back lt) xs acc)" for acc
    by (induction xs arbitrary: acc) (auto simp: ins_back_sorted [OF assms])
  then have "sorted_wrt (\<lambda>a b. key a \<le> key b) (sort_Sort lt xs)" by (simp add: sort_Sort_def sorted_wrt_rev)
  then have "sorted (map key (sort_Sort lt xs))" by (simp add: sorted_wrt_map)
  moreover have "mset (map key (sort_Sort lt xs)) = mset (map key xs)" using m by simp
  ultimately show "map key (sort_Sort lt xs) = sort (map key xs)" by (metis properties_for_sort)
qed

lemma by_key_time: "by_key (\<lambda>t. t) timeSorter_Less"
  by (auto simp: by_key_def timeSorter_Less_def)

lemma by_key_block: "by_key (\<lambda>sh. hdr_Timestamp (sh_header sh)) blockSorter_Less"
  by (auto simp: by_key_def blockSorter_Less_def)

text \<open>The middle one of three headers.\<close>

lemma middle_block:
  shows "sort_Sort blockSorter_Less [a, b, c] ! 1 \<in> {a, b, c}"
    and "hdr_Timestamp (sh_header (sort_Sort blockSorter_Less [a, b, c] ! 1)) =
      sort (map (\<lambda>sh. hdr_Timestamp (sh_header sh)) [a, b, c]) ! 1"
proof -
  let ?s = "sort_Sort blockSorter_Less [a, b, c]"
  have m: "mset ?s = mset [a, b, c]" by (rule sort_Sort_by_key(1) [OF by_key_block])
  then have len: "length ?s = 3" by (metis length_Cons list.size(3) mset_eq_length numeral_3_eq_3)
  then have "?s ! 1 \<in> set ?s" by simp
  also have "set ?s = {a, b, c}" using m by (metis list.set(1,2) set_mset_mset)
  finally show "?s ! 1 \<in> {a, b, c}" .
  show "hdr_Timestamp (sh_header (?s ! 1)) = sort (map (\<lambda>sh. hdr_Timestamp (sh_header sh)) [a, b, c]) ! 1"
    unfolding sort_Sort_by_key(2) [OF by_key_block, symmetric] using len by (subst nth_map) auto
qed

context headers_laws
begin

lemma previous_walk:
  assumes "ok h" "walk (look h) (Suc n) sh = Some a"
  shows "\<exists>p. walk (look h) n sh = Some p \<and> H_GetPreviousHeader hs (sh_header p) h = Ok a"
  using walk_split [of "look h" n 1 sh a] assms
  by (auto simp: GetPreviousHeader GetHeader_Some split: option.splits)

lemma GetSuitableBlock_spec:
  assumes "ok h" "walk (look h) 1 n = Some n1" "walk (look h) 2 n = Some n2"
  shows "GetSuitableBlock hs n h = Ok (sort_Sort blockSorter_Less [n, n1, n2] ! 1)"
  using assms by (auto simp: GetSuitableBlock_def GetPreviousHeader GetHeader_Some numeral_2_eq_2 split: option.splits)

lemma GetEpoch_spec:
  assumes "ok h" "walk (look h) 144 (bare hdr) = Some n0" "walk (look h) 145 (bare hdr) = Some n1"
    "walk (look h) 146 (bare hdr) = Some n2"
  shows "GetEpoch hs hdr h = Ok (sort_Sort blockSorter_Less [n0, n1, n2] ! 1)"
proof -
  have "walk (look h) 1 n0 = Some n1" using walk_split [of "look h" 144 1 "bare hdr" n1] assms(2,3) by auto
  moreover have "walk (look h) 1 n1 = Some n2" using walk_split [of "look h" 145 1 "bare hdr" n2] assms(3,4) by auto
  ultimately show ?thesis
    using go_back_some [OF assms(1,2)] assms(1)
    by (auto simp: GetEpoch_def GetPreviousHeader GetHeader_Some split: option.splits)
qed

lemma median_times_spec:
  assumes "ok h"
  shows "walk (look h) n sh = Some a \<Longrightarrow>
    median_times hs h n (sh_header sh) = Ok (map (\<lambda>i. Unix (hdr_Timestamp (sh_header (the (walk (look h) i sh))))) [0..<n])"
proof (induction n arbitrary: sh)
  case (Suc n)
  then obtain p where p: "look h (PrevBlock (sh_header sh)) = Some p" "walk (look h) n p = Some a"
    by (auto split: option.splits)
  have "map (\<lambda>i. Unix (hdr_Timestamp (sh_header (the (walk (look h) i sh))))) [0..<Suc n] =
      Unix (hdr_Timestamp (sh_header sh)) # map (\<lambda>i. Unix (hdr_Timestamp (sh_header (the (walk (look h) i p))))) [0..<n]"
    unfolding upt_conv_Cons [OF zero_less_Suc] map_Suc_upt [symmetric] by (simp add: p(1))
  with Suc.IH [OF p(2)] p show ?case by (simp add: GetPreviousHeader [OF assms] GetHeader_Some [OF assms])
qed simp

lemma CalcMedianTimePast_spec:
  assumes "ok h" "walk (look h) 11 (bare hdr) = Some a"
  shows "CalcMedianTimePast hs hdr h =
    Ok (time_Unix (sort (map (\<lambda>i. Unix (hdr_Timestamp (sh_header (the (walk (look h) i (bare hdr)))))) [0..<11]) ! 5))"
  using median_times_spec [OF assms] sort_Sort_by_key(2) [OF by_key_time]
  by (simp add: CalcMedianTimePast_def medianTimeBlocks_def bare_def)

end

text \<open>The two reference blocks of the difficulty calculation are medians by time: \<open>GetSuitableBlock\<close>
  gives one of the header and its two predecessors, \<open>GetEpoch\<close> one of the blocks 144, 145 and 146
  back, in each case one whose timestamp is the middle one of the three.\<close>

theorem reference_blocks_median:
  assumes "hdb_ok hl ol bl h" and "look = hdb_look hl ol bl h"
    and "walk look 1 n = Some n1" "walk look 2 n = Some n2"
    and "walk look 144 (bare hdr) = Some e0" "walk look 145 (bare hdr) = Some e1" "walk look 146 (bare hdr) = Some e2"
  shows "\<exists>s e. GetSuitableBlock (HeaderDB_if hl ol bl) n h = Ok s \<and> GetEpoch (HeaderDB_if hl ol bl) hdr h = Ok e \<and>
    s \<in> {n, n1, n2} \<and> hdr_Timestamp (sh_header s) = sort (map (\<lambda>sh. hdr_Timestamp (sh_header sh)) [n, n1, n2]) ! 1 \<and>
    e \<in> {e0, e1, e2} \<and> hdr_Timestamp (sh_header e) = sort (map (\<lambda>sh. hdr_Timestamp (sh_header sh)) [e0, e1, e2]) ! 1"
  using hdbi.GetSuitableBlock_spec [OF assms(1) assms(3,4) [unfolded assms(2)]]
    hdbi.GetEpoch_spec [OF assms(1) assms(5-7) [unfolded assms(2)]] middle_block
  by (intro exI conjI)

text \<open>A database with one header, its own parent.\<close>

definition ex_loop :: StoredHeader where
  "ex_loop = \<lparr>sh_header = (ex_header 7 7), sh_height = 5, totalWork = 0\<rparr>"

definition ex_loopdb :: "((string, StoredHeader) alist, (bytes, bytes) alist) HeaderDB" where
  "ex_loopdb = snd (H_Put ex_if ex_loop True (NewHeaderDB ex_hl ex_ol ex_bl (bk_New ex_bl) (bk_New ex_bl)))"

lemma ex_loopdb:
  "hdb_ok ex_hl ex_ol ex_bl ex_loopdb" "hdb_best ex_hl ex_bl ex_loopdb = Some ex_loop"
  "walk (hdb_look ex_hl ex_ol ex_bl ex_loopdb) n ex_loop = Some ex_loop"
proof -
  note new = new_hdb [OF ex_ol_ok ex_bl_ok ex_hl_ok]
  have "storable ex_hl ex_loop" using ex_header_prev_ok by (simp add: storable_def ex_loop_def)
  from hdbi.Put [OF new(1) this, of True] have h: "hdb_ok ex_hl ex_ol ex_bl ex_loopdb \<and>
      hdb_look ex_hl ex_ol ex_bl ex_loopdb = [7 \<mapsto> ex_loop] \<and> hdb_best ex_hl ex_bl ex_loopdb = Some ex_loop"
    by (auto simp: new(2) ex_loopdb_def ex_loop_def ex_hash)
  then show "hdb_ok ex_hl ex_ol ex_bl ex_loopdb" "hdb_best ex_hl ex_bl ex_loopdb = Some ex_loop" by simp_all
  have "PrevBlock (sh_header ex_loop) = 7" by (simp add: ex_loop_def ex_hash)
  with h show "walk (hdb_look ex_hl ex_ol ex_bl ex_loopdb) n ex_loop = Some ex_loop" by (induction n) simp_all
qed

lemma ex_loop_bare: "walk (hdb_look ex_hl ex_ol ex_bl ex_loopdb) (Suc n) (bare (ex_header 7 7)) = Some ex_loop"
  using ex_loopdb(3) [of "Suc n"] by (simp add: bare_def ex_loop_def)

theorem reference_blocks_median_witness:
  "\<exists>s e. GetSuitableBlock ex_if ex_loop ex_loopdb = Ok s \<and> GetEpoch ex_if (ex_header 7 7) ex_loopdb = Ok e \<and>
    s \<in> {ex_loop, ex_loop, ex_loop} \<and> e \<in> {ex_loop, ex_loop, ex_loop}"
  using reference_blocks_median [OF ex_loopdb(1) refl ex_loopdb(3) ex_loopdb(3), of "ex_header 7 7" ex_loop ex_loop ex_loop]
    ex_loop_bare [of 143] ex_loop_bare [of 144] ex_loop_bare [of 145]
  by auto

text \<open>\<open>CalcMedianTimePast\<close> is the median of the times of the header and its ten predecessors, provided the
  eleventh predecessor is stored.\<close>

theorem CalcMedianTimePast_correct:
  assumes "hdb_ok hl ol bl h" "walk (hdb_look hl ol bl h) 11 (bare hdr) = Some a"
  shows "CalcMedianTimePast (HeaderDB_if hl ol bl) hdr h =
    Ok (time_Unix (sort (map (\<lambda>i. Unix (hdr_Timestamp (sh_header (the (walk (hdb_look hl ol bl h) i (bare hdr)))))) [0..<11]) ! 5))"
  by (rule hdbi.CalcMedianTimePast_spec [OF assms])

theorem CalcMedianTimePast_correct_witness:
  "CalcMedianTimePast ex_if (ex_header 7 7) ex_loopdb =
    Ok (time_Unix (sort (map (\<lambda>i. Unix (hdr_Timestamp (sh_header (the (walk (hdb_look ex_hl ex_ol ex_bl ex_loopdb) i (bare (ex_header 7 7))))))) [0..<11]) ! 5))"
  using CalcMedianTimePast_correct [OF ex_loopdb(1), of "ex_header 7 7" ex_loop] ex_loop_bare [of 10] by simp

section \<open>Locators\<close>

context headers_laws
begin

lemma locator_loop_spec:
  assumes "ok h"
  shows "0 < step \<Longrightarrow> \<exists>ds. locator_loop hs hl h room step start parent =
      map (\<lambda>i. BlockHash hl (sh_header (the (walk (look h) i parent)))) ds \<and> length ds \<le> room \<and>
      (\<forall>i \<in> set ds. walk (look h) i parent \<noteq> None) \<and> sorted_wrt (<) ds \<and> (room > 0 \<longrightarrow> ds \<noteq> [] \<and> ds ! 0 = 0)"
proof (induction room arbitrary: step start parent)
  case (Suc room)
  define step' where "step' = (if 9 \<le> start then step * 2 else step)"
  define start' where "start' = (if 9 \<le> start then 0 else start) + 1"
  have pos: "0 < step'" using Suc.prems by (simp add: step'_def)
  have loop: "locator_loop hs hl h (Suc room) step start parent = BlockHash hl (sh_header parent) #
      (if room = 0 then [] else case go_back hs h step' parent of Ok p \<Rightarrow> locator_loop hs hl h room step' start' p | _ \<Rightarrow> [])"
    unfolding locator_loop.simps Let_def step'_def start'_def ..
  show ?case
  proof (cases "room = 0 \<or> walk (look h) step' parent = None")
    case True
    then have "locator_loop hs hl h (Suc room) step start parent = [BlockHash hl (sh_header parent)]"
      using go_back_none [OF assms, of step' parent] by (auto simp: loop simp del: locator_loop.simps)
    then show ?thesis by (intro exI [of _ "[0]"]) auto
  next
    case False
    then obtain p where p: "walk (look h) step' parent = Some p" by auto
    from Suc.IH [OF pos, of start' p] obtain ds where ds:
      "locator_loop hs hl h room step' start' p = map (\<lambda>i. BlockHash hl (sh_header (the (walk (look h) i p)))) ds"
      "length ds \<le> room" "\<forall>i \<in> set ds. walk (look h) i p \<noteq> None" "sorted_wrt (<) ds" by blast
    have up: "walk (look h) (step' + i) parent = walk (look h) i p" for i by (simp add: walk_add p)
    have "sorted_wrt (<) (0 # map ((+) step') ds)" using ds(4) pos by (auto simp: sorted_wrt_map)
    with ds go_back_some [OF assms p] False show ?thesis
      by (intro exI [of _ "0 # map ((+) step') ds"]) (auto simp: loop up comp_def simp del: locator_loop.simps)
  qed
qed simp

end

text \<open>Property C35. The block locator has at most 500 entries: it starts with the hash of the tip and goes on with the
  hashes of ever farther ancestors of the tip.\<close>

theorem GetBlockLocator_correct:
  assumes "hdb_ok hl ol bl h" "hdb_best hl bl h = Some tip"
  shows "\<exists>ds. GetBlockLocator (HeaderDB_if hl ol bl) hl h =
      map (\<lambda>i. BlockHash hl (sh_header (the (walk (hdb_look hl ol bl h) i tip)))) ds \<and> length ds \<le> 500 \<and>
    (\<forall>i \<in> set ds. walk (hdb_look hl ol bl h) i tip \<noteq> None) \<and> sorted_wrt (<) ds \<and> ds \<noteq> [] \<and> ds ! 0 = 0"
  using hdbi.locator_loop_spec [OF assms(1), of 1 500 0 tip]
  by (simp add: GetBlockLocator_def hdbi.GetBestHeader [OF assms])

theorem GetBlockLocator_correct_witness:
  "\<exists>ds. GetBlockLocator ex_if ex_hl ex_chain0 =
      map (\<lambda>i. BlockHash ex_hl (sh_header (the (walk (hdb_look ex_hl ex_ol ex_bl ex_chain0) i (first_header ex_cp))))) ds \<and>
    length ds \<le> 500 \<and> sorted_wrt (<) ds \<and> ds \<noteq> [] \<and> ds ! 0 = 0"
  using GetBlockLocator_correct [OF ex_chain0_facts(2,3)] by blast

section \<open>Rollback\<close>

lemma DeleteAfter_file:
  assumes "bolt_ok bl" "file_ok hl bl (bkt_headers h) (bkt_tip h)"
  shows "\<exists>hdrs. HeaderDB_DeleteAfter hl bl height h = (None, h\<lparr>bkt_headers := hdrs\<rparr>) \<and>
    (\<forall>k b sh. bk_Get bl k hdrs = Some b \<and> deserializeHeader hl b = Ok sh \<longrightarrow> sh_height sh \<le> height)"
proof -
  from delete_collected [OF assms, of "\<lambda>x. height < x"] obtain ks where
    ks: "collect_keys hl (\<lambda>x. height < x) (bk_Items bl (bkt_headers h)) = Ok ks"
    "\<And>k. bk_Get bl k (delete_keys bl ks (bkt_headers h)) =
      (case bk_Get bl k (bkt_headers h) of
         None \<Rightarrow> None
       | Some b \<Rightarrow> (case deserializeHeader hl b of Ok sh \<Rightarrow> if height < sh_height sh then None else Some b | _ \<Rightarrow> Some b))"
    by blast
  then show ?thesis
    by (intro exI [of _ "delete_keys bl ks (bkt_headers h)"])
      (auto simp: HeaderDB_DeleteAfter_def not_less split: option.splits go.splits if_splits)
qed

text \<open>The two calls at the end of a rollback: delete above a height, then put a header as the tip.\<close>

lemma delete_then_put:
  assumes "hdb_ok hl ol bl h" "storable hl sh"
  shows "\<exists>h1 h'. H_DeleteAfter (HeaderDB_if hl ol bl) height h = (None, h1) \<and>
    H_Put (HeaderDB_if hl ol bl) sh True h1 = (None, h') \<and> HeaderDB_GetBestHeader hl bl h' = Ok sh \<and>
    (\<forall>k b s. bk_Get bl k (bkt_headers h') = Some b \<and> deserializeHeader hl b = Ok s \<longrightarrow> sh_height s \<le> height \<or> s = sh)"
proof -
  have bl: "bolt_ok bl" "hdb_reach hl ol bl h" "pending h = []" using assms(1) by (simp_all add: hdb_ok_def)
  have "hdb_inv hl ol bl h" using assms(1) hdb_reach_inv by (auto simp: hdb_ok_def)
  then have "file_ok hl bl (bkt_headers h) (bkt_tip h)" by (simp add: hdb_inv_def)
  from DeleteAfter_file [OF bl(1) this, of height] obtain hdrs where
    d: "HeaderDB_DeleteAfter hl bl height h = (None, h\<lparr>bkt_headers := hdrs\<rparr>)"
    "\<forall>k b s. bk_Get bl k hdrs = Some b \<and> deserializeHeader hl b = Ok s \<longrightarrow> sh_height s \<le> height" by blast
  let ?h1 = "h\<lparr>bkt_headers := hdrs\<rparr>"
  have "hdb_reach hl ol bl ?h1" "pending ?h1 = []" using hdb_delete [OF bl(2), of height] d(1) bl(3) by simp_all
  from HeaderDB_if_Put [OF this assms(2), of True] obtain h' ser where h':
    "H_Put (HeaderDB_if hl ol bl) sh True ?h1 = (None, h')" "deserializeHeader hl ser = Ok sh" "bestCache h' = Some sh"
    "bkt_headers h' = bk_Put bl (hash_bytes (BlockHash hl (sh_header sh))) ser hdrs" by auto
  have get: "bk_Get bl k' (bk_Put bl k v b) = (if k' = k then Some v else bk_Get bl k' b)" for k k' v b
    using bl(1) by (simp add: bolt_ok_def)
  have "\<forall>k b s. bk_Get bl k (bkt_headers h') = Some b \<and> deserializeHeader hl b = Ok s \<longrightarrow> sh_height s \<le> height \<or> s = sh"
    using d(2) h'(2) by (auto simp: h'(4) get split: if_splits)
  moreover have "HeaderDB_GetBestHeader hl bl h' = Ok sh" by (simp add: HeaderDB_GetBestHeader_def h'(3))
  moreover have "H_DeleteAfter (HeaderDB_if hl ol bl) height h = (None, ?h1)" using d(1) by (simp add: HeaderDB_if_def)
  ultimately show ?thesis using h'(1) by blast
qed

text \<open>Where a rollback to the time \<open>t\<close> stops: at the checkpoint or at a header created before \<open>t\<close>.\<close>

definition rollback_stop :: "header_lib \<Rightarrow> Checkpoint \<Rightarrow> go_time \<Rightarrow> StoredHeader \<Rightarrow> bool" where
  "rollback_stop hl cp t sh \<longleftrightarrow>
     BlockHash hl (sh_header sh) = BlockHash hl (cp_Header cp) \<or> hdr_Timestamp (sh_header sh) < t"

context headers_laws
begin

lemma rollback_loop_spec:
  assumes "ok h"
  shows "walk (look h) (Suc k) sh = Some a \<Longrightarrow> rollback_stop hl cp t a \<Longrightarrow>
    (\<forall>j \<le> k. 0 < j \<longrightarrow> \<not> rollback_stop hl cp t (the (walk (look h) j sh))) \<Longrightarrow> k < n \<Longrightarrow>
    rollback_loop hs hl h cp t n sh =
      Ok (a, if BlockHash hl (sh_header a) = BlockHash hl (cp_Header cp) then cp_Height cp else sh_height a)"
proof (induction k arbitrary: n sh)
  case 0
  then obtain m where "n = Suc m" by (cases n) auto
  with 0 assms show ?case
    by (auto simp: GetPreviousHeader GetHeader_Some rollback_stop_def split: option.splits)
next
  case (Suc k)
  then obtain p where p: "look h (PrevBlock (sh_header sh)) = Some p" "walk (look h) (Suc k) p = Some a"
    by (auto split: option.splits)
  obtain m where n: "n = Suc m" using Suc.prems(4) by (cases n) auto
  have "\<not> rollback_stop hl cp t p" using Suc.prems(3) [rule_format, of 1] p by simp
  moreover have "\<forall>j \<le> k. 0 < j \<longrightarrow> \<not> rollback_stop hl cp t (the (walk (look h) j p))"
  proof (intro allI impI)
    fix j assume "j \<le> k" "0 < j"
    with Suc.prems(3) [rule_format, of "Suc j"] p show "\<not> rollback_stop hl cp t (the (walk (look h) j p))" by simp
  qed
  ultimately show ?case
    using Suc.IH [OF p(2) Suc.prems(2), of m] Suc.prems(4) n assms(1) p(1)
    by (simp add: GetPreviousHeader GetHeader_Some rollback_stop_def)
qed

end


text \<open>\<open>RollbackToHeight\<close> does not move the tip: below the tip it deletes the headers of the file from the
  height on, and then puts the old tip back as the best header.\<close>

theorem RollbackToHeight_keeps_tip:
  assumes "hdb_ok hl ol bl h" "hdb_best hl bl h = Some tip" "hdb_look hl ol bl h x = Some tip" "b_hl b = hl"
    and "height \<le> sh_height tip"
    and "BlockHash hl (sh_header tip) \<noteq> BlockHash hl (cp_Header (GetCheckpoint (b_genesis b) (crationDate b) (b_params b)))"
  shows "\<exists>h'. RollbackToHeight (HeaderDB_if hl ol bl) b height h = Ret (None, h') \<and> HeaderDB_GetBestHeader hl bl h' = Ok tip \<and>
    (\<forall>k ser s. bk_Get bl k (bkt_headers h') = Some ser \<and> deserializeHeader hl ser = Ok s \<longrightarrow> sh_height s \<le> height - 1 \<or> s = tip)"
proof -
  have "storable hl tip" by (rule hdbi.look_storable [OF assms(1,3)])
  from delete_then_put [OF assms(1) this, of "height - 1"] obtain h1 h' where
    d: "H_DeleteAfter (HeaderDB_if hl ol bl) (height - 1) h = (None, h1)" "H_Put (HeaderDB_if hl ol bl) tip True h1 = (None, h')"
    "HeaderDB_GetBestHeader hl bl h' = Ok tip"
    "\<forall>k ser s. bk_Get bl k (bkt_headers h') = Some ser \<and> deserializeHeader hl ser = Ok s \<longrightarrow> sh_height s \<le> height - 1 \<or> s = tip"
    by blast
  moreover have "\<not> sh_height tip < height" using assms(5) by (simp add: not_less)
  ultimately show ?thesis
    using assms(4,6) by (simp add: RollbackToHeight_def Let_def hdbi.GetBestHeader [OF assms(1,2)])
qed

text \<open>The example chain with a second header.\<close>

definition ex_chain1 :: "((string, StoredHeader) alist, (bytes, bytes) alist) HeaderDB" where
  "ex_chain1 = snd (H_Put ex_if (new_header ex_pow (ex_header 8 7) (first_header ex_cp)) True ex_chain0)"

lemma ex_chain1:
  "hdb_ok ex_hl ex_ol ex_bl ex_chain1" "hdb_best ex_hl ex_bl ex_chain1 = Some (new_header ex_pow (ex_header 8 7) (first_header ex_cp))"
  "hdb_look ex_hl ex_ol ex_bl ex_chain1 8 = Some (new_header ex_pow (ex_header 8 7) (first_header ex_cp))"
  "chain_ok ex_hl ex_pow (hdb_look ex_hl ex_ol ex_bl ex_chain1) (first_header ex_cp) (new_header ex_pow (ex_header 8 7) (first_header ex_cp))"
proof -
  let ?n = "new_header ex_pow (ex_header 8 7) (first_header ex_cp)"
  have "storable ex_hl ?n"
    using ex_header_prev_ok by (simp add: storable_def new_header_def first_header_def ex_pow_def)
  from hdbi.Put [OF ex_chain0_facts(2) this, of True] have h: "hdb_ok ex_hl ex_ol ex_bl ex_chain1 \<and>
      hdb_look ex_hl ex_ol ex_bl ex_chain1 = (hdb_look ex_hl ex_ol ex_bl ex_chain0)(8 \<mapsto> ?n) \<and> hdb_best ex_hl ex_bl ex_chain1 = Some ?n"
    by (auto simp: ex_chain1_def new_header_def ex_hash)
  then show "hdb_ok ex_hl ex_ol ex_bl ex_chain1" "hdb_best ex_hl ex_bl ex_chain1 = Some ?n"
    "hdb_look ex_hl ex_ol ex_bl ex_chain1 8 = Some ?n" by simp_all
  have "heavier (first_header ex_cp) ?n = ?n" by (simp add: heavier_def first_header_def new_header_def ex_pow_def)
  then show "chain_ok ex_hl ex_pow (hdb_look ex_hl ex_ol ex_bl ex_chain1) (first_header ex_cp) ?n"
    using chain_ok_put [OF ex_chain0_facts(5) ex_commit_pre(1-3)] h by (simp add: ex_hash)
qed

lemma ex_chain_cp: "ex_cp = GetCheckpoint (b_genesis ex_chain) (crationDate ex_chain) (b_params ex_chain)"
  by (simp add: GetCheckpoint_def ex_chain_def ex_params_def)

lemma ex_tip:
  "\<not> hdr_Timestamp (sh_header (new_header ex_pow (ex_header 8 7) (first_header ex_cp))) < 0"
  "new_header ex_pow (ex_header 8 7) (first_header ex_cp) \<noteq> first_header ex_cp"
  "sh_height (new_header ex_pow (ex_header 8 7) (first_header ex_cp)) = 1" "sh_height (first_header ex_cp) = 0"
  "BlockHash ex_hl (sh_header (new_header ex_pow (ex_header 8 7) (first_header ex_cp))) \<noteq>
    BlockHash ex_hl (cp_Header (GetCheckpoint (b_genesis ex_chain) (crationDate ex_chain) (b_params ex_chain)))"
  unfolding ex_chain_cp [symmetric]
  by (simp_all add: new_header_def first_header_def regtestCheckpoint_def ex_header_def ex_hl_def)


theorem RollbackToHeight_keeps_tip_witness:
  "\<exists>h'. RollbackToHeight ex_if ex_chain 1 ex_chain1 = Ret (None, h') \<and>
    HeaderDB_GetBestHeader ex_hl ex_bl h' = Ok (new_header ex_pow (ex_header 8 7) (first_header ex_cp))"
proof -
  have "b_hl ex_chain = ex_hl" by (simp add: ex_chain_def)
  from RollbackToHeight_keeps_tip [OF ex_chain1(1-3) this _ ex_tip(5), of 1] show ?thesis by (simp only: ex_tip(3)) auto
qed

end
