(* ===== verification/Tx_Sizes.thy ===== *)
theory Tx_Sizes
  imports Go_Lib
begin

text \<open>
  Sizes and fees: \<^verbatim>\<open>src/txsizes.go\<close>, \<^verbatim>\<open>src/fees.go\<close>, and from \<^verbatim>\<open>src/sortsignsend.go\<close> the function that reads
  the lock time of a redeem script.  The size functions of the wire library are the record
  \<open>size_lib\<close>; \<open>size_ok\<close> states the documented encoding.  A Go \<open>int\<close> is \<open>int\<close>, with the wrap-around
  written at the end of a sum (addition and multiplication commute with it).
\<close>

section \<open>Size constants\<close>

definition RedeemP2PKHSigScriptSize :: int where
  "RedeemP2PKHSigScriptSize = 1 + 73 + 1 + 33"

definition RedeemP2SH2of3MultisigSigScriptSize :: int where
  "RedeemP2SH2of3MultisigSigScriptSize = 1 + 1 + 72 + 1 + 72 + 1 + 1 + 1 + 33 + 1 + 33 + 1 + 33 + 1 + 1"

definition RedeemP2SH1of2MultisigSigScriptSize :: int where
  "RedeemP2SH1of2MultisigSigScriptSize = 1 + 1 + 72 + 1 + 1 + 1 + 33 + 1 + 33 + 1 + 1"

definition RedeemP2SHMultisigTimelock1SigScriptSize :: int where
  "RedeemP2SHMultisigTimelock1SigScriptSize =
     1 + 72 + 1 + 1 + 1 + 1 + 1 + 33 + 1 + 33 + 1 + 33 + 1 + 1 + 1 + 1 + 2 + 1 + 1 + 1 + 33 + 1 + 1"

definition RedeemP2SHMultisigTimelock2SigScriptSize :: int where
  "RedeemP2SHMultisigTimelock2SigScriptSize =
     1 + 1 + 72 + 1 + 72 + 1 + 1 + 1 + 1 + 1 + 33 + 1 + 33 + 1 + 33 + 1 + 1 + 1 + 1 + 2 + 1 + 1 + 1 + 33 + 1 + 1"

definition P2PKHPkScriptSize :: int where
  "P2PKHPkScriptSize = 1 + 1 + 1 + 20 + 1 + 1"

definition RedeemP2PKHInputSize :: int where
  "RedeemP2PKHInputSize = 32 + 4 + 1 + RedeemP2PKHSigScriptSize + 4"

definition RedeemP2SH2of3MultisigInputSize :: int where
  "RedeemP2SH2of3MultisigInputSize = 32 + 4 + 1 + 4 + RedeemP2SH2of3MultisigSigScriptSize div 4"

definition RedeemP2SH1of2MultisigInputSize :: int where
  "RedeemP2SH1of2MultisigInputSize = 32 + 4 + 1 + 4 + RedeemP2SH1of2MultisigSigScriptSize div 4"

definition RedeemP2SHMultisigTimelock1InputSize :: int where
  "RedeemP2SHMultisigTimelock1InputSize = 32 + 4 + 1 + 4 + RedeemP2SHMultisigTimelock1SigScriptSize div 4"

definition RedeemP2SHMultisigTimelock2InputSize :: int where
  "RedeemP2SHMultisigTimelock2InputSize = 32 + 4 + 1 + 4 + RedeemP2SHMultisigTimelock2SigScriptSize div 4"

definition P2PKHOutputSize :: int where
  "P2PKHOutputSize = 8 + 1 + P2PKHPkScriptSize"

lemmas size_defs = RedeemP2PKHSigScriptSize_def RedeemP2SH2of3MultisigSigScriptSize_def
  RedeemP2SH1of2MultisigSigScriptSize_def RedeemP2SHMultisigTimelock1SigScriptSize_def
  RedeemP2SHMultisigTimelock2SigScriptSize_def P2PKHPkScriptSize_def RedeemP2PKHInputSize_def
  RedeemP2SH2of3MultisigInputSize_def RedeemP2SH1of2MultisigInputSize_def
  RedeemP2SHMultisigTimelock1InputSize_def RedeemP2SHMultisigTimelock2InputSize_def P2PKHOutputSize_def

section \<open>Estimates\<close>

datatype InputType =
    P2PKH
  | P2SH_1of2_Multisig
  | P2SH_2of3_Multisig
  | P2SH_Multisig_Timelock_1Sig
  | P2SH_Multisig_Timelock_2Sigs

record size_lib =
  VarIntSerializeSize :: "u64 \<Rightarrow> int"
  TxOut_SerializeSize :: "TxOut \<Rightarrow> int"
  MsgTx_SerializeSize :: "MsgTx \<Rightarrow> int"

definition SumOutputSerializeSizes :: "size_lib \<Rightarrow> TxOut list \<Rightarrow> int" where
  "SumOutputSerializeSizes sz outputs = wrap64 (sum_list (map (TxOut_SerializeSize sz) outputs))"

definition redeem_size :: "InputType \<Rightarrow> int" where
  "redeem_size t =
     (case t of
        P2PKH \<Rightarrow> RedeemP2PKHInputSize
      | P2SH_1of2_Multisig \<Rightarrow> RedeemP2SH1of2MultisigInputSize
      | P2SH_2of3_Multisig \<Rightarrow> RedeemP2SH2of3MultisigInputSize
      | P2SH_Multisig_Timelock_1Sig \<Rightarrow> RedeemP2SHMultisigTimelock1InputSize
      | P2SH_Multisig_Timelock_2Sigs \<Rightarrow> RedeemP2SHMultisigTimelock2InputSize)"

definition EstimateSerializeSize :: "size_lib \<Rightarrow> int \<Rightarrow> TxOut list \<Rightarrow> bool \<Rightarrow> InputType \<Rightarrow> int" where
  "EstimateSerializeSize sz inputCount txOuts addChangeOutput inputType =
     (let changeSize = (if addChangeOutput then P2PKHOutputSize else 0);
          outputCount = int (length txOuts) + (if addChangeOutput then 1 else 0);
          redeemScriptSize = redeem_size inputType
      in wrap64 (VarIntSerializeSize sz (word_of_int inputCount) + VarIntSerializeSize sz (word_of_int outputCount) +
           inputCount * redeemScriptSize + SumOutputSerializeSizes sz txOuts + changeSize))"

section \<open>Fees\<close>

record FeeProvider =
  maxFee :: u64
  priorityFee :: u64
  normalFee :: u64
  economicFee :: u64

text \<open>The exchange rates and the cache of a provider are stored and never read.\<close>

definition NewFeeProvider :: "u64 \<Rightarrow> u64 \<Rightarrow> u64 \<Rightarrow> u64 \<Rightarrow> FeeProvider" where
  "NewFeeProvider mx p n e = \<lparr>maxFee = mx, priorityFee = p, normalFee = n, economicFee = e\<rparr>"

definition GetFeePerByte :: "FeeProvider \<Rightarrow> FeeLevel \<Rightarrow> u64" where
  "GetFeePerByte fp feeLevel =
     (if feeLevel = PRIOIRTY then priorityFee fp
      else if feeLevel = NORMAL then normalFee fp
      else if feeLevel = ECONOMIC then economicFee fp
      else if feeLevel = FEE_BUMP then priorityFee fp * 2
      else normalFee fp)"

section \<open>Lock times\<close>

text \<open>A slice index out of range panics.\<close>

definition go_index :: "'a list \<Rightarrow> nat \<Rightarrow> 'a go" where
  "go_index xs i = (if i < length xs then Ok (xs ! i) else Panic)"

fun le_val :: "nat \<Rightarrow> bytes \<Rightarrow> u64" where
  "le_val i [] = 0"
| "le_val i (b # bs) = push_bit (unat ((of_nat (8 * i)) :: u8)) (ucast b) OR le_val (Suc i) bs"

definition LockTimeFromRedeemScript :: "bytes \<Rightarrow> u32 go" where
  "LockTimeFromRedeemScript redeemScript =
     (if length redeemScript < 113 then Err (ErrMsg ''Redeem script invalid length'')
      else if redeemScript ! 106 \<noteq> 103 then Err (ErrMsg ''Invalid redeem script'')
      else if redeemScript ! 107 = 0 then Ok 0
      else if 81 \<le> redeemScript ! 107 \<and> redeemScript ! 107 \<le> 96 then Ok (ucast (redeemScript ! 107 - 81 + 1))
      else let op = redeemScript ! 107 in
           if 1 \<le> op \<and> op \<le> 75
           then if 108 + unat op \<le> length redeemScript
                then Ok (ucast (le_val 0 (take (unat op) (drop 108 redeemScript))))
                else Panic
           else Err (ErrMsg ''Too many bytes pushed for sequence''))"

section \<open>The estimate and the real size\<close>

text \<open>
  The documented encoding: a count takes at most nine bytes and more inputs never need fewer; an
  output is its value, the length of its script and the script; a transaction is its version, its
  lock time, the two counts, the inputs and the outputs.
\<close>

definition size_ok :: "size_lib \<Rightarrow> bool" where
  "size_ok sz \<longleftrightarrow>
     (\<forall>n. 1 \<le> VarIntSerializeSize sz n \<and> VarIntSerializeSize sz n \<le> 9) \<and>
     (\<forall>m n. m \<le> n \<longrightarrow> VarIntSerializeSize sz m \<le> VarIntSerializeSize sz n) \<and>
     (\<forall>n. n < 253 \<longrightarrow> VarIntSerializeSize sz n = 1) \<and>
     (\<forall>out. TxOut_SerializeSize sz out =
        8 + VarIntSerializeSize sz (of_nat (length (PkScript out))) + int (length (PkScript out))) \<and>
     (\<forall>tx. MsgTx_SerializeSize sz tx =
        8 + VarIntSerializeSize sz (of_nat (length (tx_TxIn tx))) + VarIntSerializeSize sz (of_nat (length (tx_TxOut tx))) +
        sum_list (map (\<lambda>i. 40 + VarIntSerializeSize sz (of_nat (length (SignatureScript i))) + int (length (SignatureScript i)))
          (tx_TxIn tx)) +
        sum_list (map (TxOut_SerializeSize sz) (tx_TxOut tx)))"

text \<open>The size estimate is not the worst case it is documented to be: a transaction whose inputs have the
  largest signature scripts is eight bytes longer than the estimate, the version and the lock time
  that the comment mentions and the sum leaves out.\<close>

theorem EstimateSerializeSize_short:
  assumes "size_ok sz" "\<forall>i \<in> set (tx_TxIn tx). int (length (SignatureScript i)) = RedeemP2PKHSigScriptSize"
    and "int (length (tx_TxIn tx)) < 2 ^ 32" "int (length (tx_TxOut tx)) < 2 ^ 32"
    and "sum_list (map (TxOut_SerializeSize sz) (tx_TxOut tx)) < 2 ^ 62"
  shows "MsgTx_SerializeSize sz tx =
    EstimateSerializeSize sz (int (length (tx_TxIn tx))) (tx_TxOut tx) False P2PKH + 8"
proof -
  let ?n = "int (length (tx_TxIn tx))" and ?o = "sum_list (map (TxOut_SerializeSize sz) (tx_TxOut tx))"
  let ?vi = "VarIntSerializeSize sz (of_nat (length (tx_TxIn tx)))" and ?vo = "VarIntSerializeSize sz (of_nat (length (tx_TxOut tx)))"
  have v: "1 \<le> VarIntSerializeSize sz n \<and> VarIntSerializeSize sz n \<le> 9" "n < 253 \<Longrightarrow> VarIntSerializeSize sz n = 1" for n
    using assms(1) by (simp_all add: size_ok_def)
  have ins: "map (\<lambda>i. 40 + VarIntSerializeSize sz (of_nat (length (SignatureScript i))) + int (length (SignatureScript i))) (tx_TxIn tx) =
      map (\<lambda>i. 149) (tx_TxIn tx)"
  proof (rule map_cong [OF refl])
    fix i assume "i \<in> set (tx_TxIn tx)"
    then have l: "length (SignatureScript i) = 108" using assms(2) by (force simp: RedeemP2PKHSigScriptSize_def)
    have "VarIntSerializeSize sz (of_nat 108) = 1" by (rule v(2)) (simp add: word_less_nat_alt)
    with l show "40 + VarIntSerializeSize sz (of_nat (length (SignatureScript i))) + int (length (SignatureScript i)) = 149" by simp
  qed
  have pos: "0 \<le> TxOut_SerializeSize sz out" for out
  proof -
    have "TxOut_SerializeSize sz out = 8 + VarIntSerializeSize sz (of_nat (length (PkScript out))) + int (length (PkScript out))"
      using assms(1) by (simp add: size_ok_def)
    with v(1) [of "of_nat (length (PkScript out))"] show ?thesis by linarith
  qed
  then have o: "0 \<le> ?o" by (intro sum_list_nonneg) auto
  have "MsgTx_SerializeSize sz tx = 8 + ?vi + ?vo + 149 * ?n + ?o"
    using assms(1) unfolding size_ok_def by (simp add: ins sum_list_triv)
  moreover have "wrap64 ?o = ?o" using o assms(5) by (simp add: wrap64_id)
  moreover have "wrap64 (?vi + ?vo + 149 * ?n + ?o) = ?vi + ?vo + 149 * ?n + ?o"
    using o assms(3-5) v(1) [of "of_nat (length (tx_TxIn tx))"] v(1) [of "of_nat (length (tx_TxOut tx))"]
    by (intro wrap64_id) auto
  ultimately show ?thesis
    by (simp add: EstimateSerializeSize_def SumOutputSerializeSizes_def redeem_size_def size_defs algebra_simps)
qed

text \<open>The encoding of counts as the wire format has it.\<close>

definition ex_varint :: "u64 \<Rightarrow> int" where
  "ex_varint n = (if n < 0xfd then 1 else if n \<le> 0xffff then 3 else if n \<le> 0xffffffff then 5 else 9)"

definition ex_size :: size_lib where
  "ex_size = \<lparr>VarIntSerializeSize = ex_varint,
     TxOut_SerializeSize = (\<lambda>out. 8 + ex_varint (of_nat (length (PkScript out))) + int (length (PkScript out))),
     MsgTx_SerializeSize = (\<lambda>tx. 8 + ex_varint (of_nat (length (tx_TxIn tx))) + ex_varint (of_nat (length (tx_TxOut tx))) +
       sum_list (map (\<lambda>i. 40 + ex_varint (of_nat (length (SignatureScript i))) + int (length (SignatureScript i))) (tx_TxIn tx)) +
       sum_list (map (\<lambda>out. 8 + ex_varint (of_nat (length (PkScript out))) + int (length (PkScript out))) (tx_TxOut tx)))\<rparr>"

lemma ex_varint_mono: "m \<le> n \<Longrightarrow> ex_varint m \<le> ex_varint n"
  by (auto simp: ex_varint_def)

lemma ex_size_ok: "size_ok ex_size"
  by (auto simp: size_ok_def ex_size_def ex_varint_mono, auto simp: ex_varint_def)

theorem EstimateSerializeSize_short_witness:
  "MsgTx_SerializeSize ex_size \<lparr>tx_Version = 1, tx_TxIn = [\<lparr>PreviousOutPoint = \<lparr>op_Hash = 1, op_Index = 0\<rparr>,
       SignatureScript = replicate 108 0, Sequence = 0\<rparr>], tx_TxOut = [\<lparr>txout_Value = 5, PkScript = replicate 25 0\<rparr>], tx_LockTime = 0\<rparr> =
   EstimateSerializeSize ex_size 1 [\<lparr>txout_Value = 5, PkScript = replicate 25 0\<rparr>] False P2PKH + 8"
  using EstimateSerializeSize_short [OF ex_size_ok, of "\<lparr>tx_Version = 1, tx_TxIn = [\<lparr>PreviousOutPoint = \<lparr>op_Hash = 1, op_Index = 0\<rparr>,
       SignatureScript = replicate 108 0, Sequence = 0\<rparr>], tx_TxOut = [\<lparr>txout_Value = 5, PkScript = replicate 25 0\<rparr>], tx_LockTime = 0\<rparr>"]
  by (simp add: RedeemP2PKHSigScriptSize_def ex_size_def ex_varint_def)

text \<open>The lock time of a redeem script: for a script of at least 113 bytes that has the \<open>OP_ELSE\<close> in place
  the function returns the pushed number unless the push runs past the end of the script, where it
  panics; the guard on the length covers pushes of up to five bytes only.\<close>

theorem LockTimeFromRedeemScript_panics:
  assumes "113 \<le> length rs" "rs ! 106 = 103" "1 \<le> rs ! 107" "rs ! 107 \<le> 75"
  shows "LockTimeFromRedeemScript rs =
    (if length rs < 108 + unat (rs ! 107) then Panic else Ok (ucast (le_val 0 (take (unat (rs ! 107)) (drop 108 rs))))) \<and>
    (rs ! 107 \<le> 5 \<longrightarrow> LockTimeFromRedeemScript rs \<noteq> Panic)"
proof -
  have op: "rs ! 107 \<noteq> 0" "\<not> (81 \<le> rs ! 107)" using assms(3,4) by (auto simp: word_le_nat_alt)
  moreover have "rs ! 107 \<le> 5 \<Longrightarrow> 108 + unat (rs ! 107) \<le> length rs" using assms(1) by (simp add: word_le_nat_alt)
  ultimately show ?thesis using assms by (auto simp: LockTimeFromRedeemScript_def Let_def)
qed

theorem LockTimeFromRedeemScript_panics_witness:
  "LockTimeFromRedeemScript (replicate 106 0 @ [103, 6] @ replicate 5 1) = Panic"
  using LockTimeFromRedeemScript_panics [of "replicate 106 0 @ [103, 6] @ replicate 5 1"]
  by (simp add: nth_append)

end
