(* ===== verification/Tx_Build.thy ===== *)
theory Tx_Build
  imports Tx_Sizes Tx_Ingest "HOL-Library.Signed_Division"
begin

text \<open>
  Building, signing and sending transactions, \<^verbatim>\<open>src/sortsignsend.go\<close>.  The functions of the script,
  coin-selection, sorting and fee libraries are the record \<open>build_lib\<close> over the type of extended keys
  and the type of private keys; a closure handed to the library is a function.  The wallet is the
  record \<open>spv\<close> with the parts these functions use.  Messages to the peers and to the wire service
  are returned as a list.  Amounts are \<open>int\<close> with the wrap-around of \<open>int64\<close> written out.
\<close>

section \<open>Libraries and state\<close>

datatype script_op = AddOp u8 | AddData bytes | AddInt64 int

record Coin =
  TxHash :: hash
  TxIndex :: u32
  TxValue :: int
  TxNumConfs :: int
  c_ScriptPubKey :: bytes

definition ValueAge :: "Coin \<Rightarrow> int" where
  "ValueAge c = wrap64 (TxValue c * TxNumConfs c)"

definition coin_op :: "Coin \<Rightarrow> OutPoint" where
  "coin_op c = \<lparr>op_Hash = TxHash c, op_Index = TxIndex c\<rparr>"

record ('k, 'p) build_lib =
  FeeForSerializeSize :: "int \<Rightarrow> int \<Rightarrow> int"
  IsDustAmount :: "int \<Rightarrow> int \<Rightarrow> bool"
  CoinSelect :: "int \<Rightarrow> Coin list \<Rightarrow> Coin list option"
  InPlaceSort :: "MsgTx \<Rightarrow> MsgTx"
  ECPrivKey :: "'k \<Rightarrow> 'p option"
  ECPubKey :: "'k \<Rightarrow> bytes option"
  PubKeyAddress :: "'p \<Rightarrow> Address option"
  SignTxOutput :: "MsgTx \<Rightarrow> nat \<Rightarrow> int \<Rightarrow> bytes \<Rightarrow> (Address \<Rightarrow> 'p go) \<Rightarrow> (Address \<Rightarrow> bytes) \<Rightarrow> bytes \<Rightarrow> bytes go"
  SignatureScript_lib :: "MsgTx \<Rightarrow> nat \<Rightarrow> int \<Rightarrow> bytes \<Rightarrow> 'p \<Rightarrow> bytes option"
  Script :: "script_op list \<Rightarrow> bytes \<times> error option"
  NewAddressScriptHash :: "bytes \<Rightarrow> Address option"
  NewAddressPubKeyHash :: "bytes \<Rightarrow> Address option"
  DecodeAddress_lib :: "string \<Rightarrow> Address option"
  LockTimeToSequence :: "u32 \<Rightarrow> u32"

record ('s, 'k, 'p) spv =
  w_env :: "('s, 'k) ts_env"
  w_lib :: "('k, 'p) build_lib"
  w_size :: size_lib
  feeProvider :: FeeProvider
  w_Height :: "u32 go"
  w_ts :: TxStore
  w_s :: 's
  w_peers :: "nat list"

text \<open>What the wallet sends: a request to the wire service, or a transaction to a peer.\<close>

datatype sent = UpdateFilters | SendTx nat MsgTx

abbreviation (input) OP_0 :: u8 where "OP_0 \<equiv> 0"
abbreviation (input) OP_1 :: u8 where "OP_1 \<equiv> 81"
abbreviation (input) OP_IF :: u8 where "OP_IF \<equiv> 99"
abbreviation (input) OP_ELSE :: u8 where "OP_ELSE \<equiv> 103"
abbreviation (input) OP_ENDIF :: u8 where "OP_ENDIF \<equiv> 104"
abbreviation (input) OP_DROP :: u8 where "OP_DROP \<equiv> 117"
abbreviation (input) OP_CHECKSIG :: u8 where "OP_CHECKSIG \<equiv> 172"
abbreviation (input) OP_CHECKMULTISIG :: u8 where "OP_CHECKMULTISIG \<equiv> 174"
abbreviation (input) OP_CHECKSEQUENCEVERIFY :: u8 where "OP_CHECKSEQUENCEVERIFY \<equiv> 178"

definition new_txin :: "OutPoint \<Rightarrow> TxIn" where
  "new_txin p = \<lparr>PreviousOutPoint = p, SignatureScript = [], Sequence = 0xffffffff\<rparr>"

definition wallet_fee :: "('s, 'k, 'p) spv \<Rightarrow> FeeLevel \<Rightarrow> u64" where
  "wallet_fee w feeLevel = GetFeePerByte (feeProvider w) feeLevel"

definition fee_of :: "int \<Rightarrow> u64 \<Rightarrow> int" where
  "fee_of estimatedSize feePerByte = wrap64 (estimatedSize * wrap64 (uint feePerByte))"

text \<open>\<open>CurrentAddress\<close> of \<^verbatim>\<open>src/wallet.go\<close>: errors are dropped, and a nil key or address then panics.\<close>

definition CurrentAddress :: "('s, 'k, 'p) spv \<Rightarrow> KeyPurpose \<Rightarrow> Address option go" where
  "CurrentAddress w purpose =
     (case GetCurrentKey (e_ds (w_env w)) (e_hd (w_env w)) (e_km (w_env w)) purpose (w_s w) of
        Ok key \<Rightarrow>
          (case hd_Address (e_hd (w_env w)) key of
             None \<Rightarrow> Panic
           | Some addr \<Rightarrow> Ok (NewAddressPubKeyHash (w_lib w) (ScriptAddress addr)))
      | _ \<Rightarrow> Panic)"

text \<open>\<open>PayToAddrScript\<close> on an address that may be nil: the library returns an error for it.\<close>

definition pay_script :: "('s, 'k) ts_env \<Rightarrow> Address option \<Rightarrow> bytes option" where
  "pay_script env a = Option.bind a (PayToAddrScript (e_sl env))"

section \<open>Broadcast\<close>

text \<open>
  The transaction is taken into the wallet, the wire service is told to renew the filters, and the
  transaction is queued for every connected peer.  The inventory message the code also builds, with
  one entry, is not used.
\<close>

definition Broadcast ::
    "go_time \<Rightarrow> MsgTx \<Rightarrow> ('s, 'k, 'p) spv \<Rightarrow> (error option \<times> ('s, 'k, 'p) spv \<times> event list \<times> sent list) run" where
  "Broadcast now tx w =
     run_bind (Ingest (w_env w) now tx 0 now (w_ts w) (w_s w)) (\<lambda>((_, err), ts, s, evs).
       let w1 = w\<lparr>w_ts := ts, w_s := s\<rparr> in
       case err of
         Some e \<Rightarrow> Ret (Some e, w1, evs, [])
       | None \<Rightarrow> Ret (None, w1, evs, UpdateFilters # map (\<lambda>p. SendTx p tx) (w_peers w)))"

section \<open>Coins\<close>

text \<open>The coin of a utxo at the chain height \<open>height\<close>; the subtraction is in \<open>int32\<close>.\<close>

definition coin_of :: "u32 \<Rightarrow> Utxo \<Rightarrow> Coin" where
  "coin_of height u =
     \<lparr>TxHash = op_Hash (utxo_Op u), TxIndex = op_Index (utxo_Op u), TxValue = sint (utxo_Value u),
      TxNumConfs = (if 0 <s AtHeight u then sint (height - AtHeight u) else 0), c_ScriptPubKey = ScriptPubkey u\<rparr>"

fun gather :: "('s, 'k, 'p) spv \<Rightarrow> u32 \<Rightarrow> Utxo list \<Rightarrow> (Coin \<times> 'k) list go" where
  "gather w height [] = Ok []"
| "gather w height (u # us) =
     (if WatchOnly u then gather w height us
      else case scriptToAddress (e_sl (w_env w)) (ScriptPubkey u) of
             Panic \<Rightarrow> Panic
           | Err _ \<Rightarrow> gather w height us
           | Ok addr \<Rightarrow>
               (case GetKeyForScript (e_ds (w_env w)) (e_hd (w_env w)) (e_km (w_env w)) (ScriptAddress addr) (w_s w) of
                  Panic \<Rightarrow> Panic
                | Err _ \<Rightarrow> gather w height us
                | Ok key \<Rightarrow> go_bind (gather w height us) (\<lambda>m. Ok ((coin_of height u, key) # m))))"

definition gatherCoins :: "('s, 'k, 'p) spv \<Rightarrow> (Coin \<times> 'k) list go" where
  "gatherCoins w =
     gather w (case w_Height w of Ok h \<Rightarrow> h | _ \<Rightarrow> 0) (fst (Utxos_GetAll (e_ds (w_env w)) (w_s w)))"

section \<open>Authoring a transaction\<close>

record AuthoredTx =
  a_Tx :: MsgTx
  TotalInput :: int
  ChangeIndex :: int

text \<open>The end of the loop: the transaction with its change output.\<close>

definition author_finish ::
    "('k, 'p) build_lib \<Rightarrow> TxOut list \<Rightarrow> int \<Rightarrow> bytes go \<Rightarrow> int \<Rightarrow> int \<Rightarrow> TxIn list \<Rightarrow> AuthoredTx go" where
  "author_finish bl outputs targetAmount fetchChange maxRequiredFee inputAmount inputs =
     (let tx = \<lparr>tx_Version = 1, tx_TxIn = inputs, tx_TxOut = outputs, tx_LockTime = 0\<rparr>;
          changeAmount = wrap64 (inputAmount - targetAmount - maxRequiredFee)
      in if changeAmount \<noteq> 0 \<and> \<not> IsDustAmount bl changeAmount P2PKHOutputSize
         then go_bind fetchChange (\<lambda>changeScript.
                if P2PKHPkScriptSize < int (length changeScript)
                then Err (ErrMsg ''fee estimation requires change scripts no larger than P2PKH output scripts'')
                else Ok \<lparr>a_Tx = tx\<lparr>tx_TxOut := outputs @ [\<lparr>txout_Value = word_of_int changeAmount, PkScript = changeScript\<rparr>]\<rparr>,
                         TotalInput = inputAmount, ChangeIndex = int (length outputs)\<rparr>)
         else Ok \<lparr>a_Tx = tx, TotalInput = inputAmount, ChangeIndex = -1\<rparr>)"

text \<open>
  \<open>fetchInputs\<close> returns, beside the amount and the inputs, what its closure leaves behind for the
  signatures; \<open>fetchChange\<close> the script of the change.  The loop ends only by a return.
\<close>

partial_function (option) author_loop ::
    "('k, 'p) build_lib \<Rightarrow> size_lib \<Rightarrow> TxOut list \<Rightarrow> int \<Rightarrow> int \<Rightarrow> (int \<Rightarrow> (int \<times> TxIn list \<times> 'x) go) \<Rightarrow> bytes go \<Rightarrow> int \<Rightarrow>
     (AuthoredTx \<times> 'x) go option" where
  "author_loop bl sz outputs feePerKb targetAmount fetchInputs fetchChange targetFee =
     (case fetchInputs (wrap64 (targetAmount + targetFee)) of
        Err e \<Rightarrow> Some (Err e)
      | Panic \<Rightarrow> Some Panic
      | Ok (inputAmount, inputs, x) \<Rightarrow>
          if inputAmount < wrap64 (targetAmount + targetFee)
          then Some (Err (ErrMsg ''insufficient funds available to construct transaction''))
          else let maxSignedSize = EstimateSerializeSize sz (int (length inputs)) outputs True P2PKH;
                   maxRequiredFee = FeeForSerializeSize bl feePerKb maxSignedSize
               in if wrap64 (inputAmount - targetAmount) < maxRequiredFee
                  then author_loop bl sz outputs feePerKb targetAmount fetchInputs fetchChange maxRequiredFee
                  else Some (go_bind (author_finish bl outputs targetAmount fetchChange maxRequiredFee inputAmount inputs)
                         (\<lambda>a. Ok (a, x))))"

declare author_loop.simps [code]

definition target_amount :: "TxOut list \<Rightarrow> int" where
  "target_amount outputs = wrap64 (sum_list (map (sint \<circ> txout_Value) outputs))"

definition NewUnsignedTransaction ::
    "('k, 'p) build_lib \<Rightarrow> size_lib \<Rightarrow> TxOut list \<Rightarrow> int \<Rightarrow> (int \<Rightarrow> (int \<times> TxIn list \<times> 'x) go) \<Rightarrow> bytes go \<Rightarrow>
     (AuthoredTx \<times> 'x) go option" where
  "NewUnsignedTransaction bl sz outputs feePerKb fetchInputs fetchChange =
     author_loop bl sz outputs feePerKb (target_amount outputs) fetchInputs fetchChange
       (FeeForSerializeSize bl feePerKb (EstimateSerializeSize sz 1 outputs True P2PKH))"

text \<open>What the input source of \<open>buildTx\<close> leaves behind.\<close>

record 'p sel =
  prevScripts :: "OutPoint \<Rightarrow> bytes option"
  keysByAddress :: "string \<Rightarrow> 'p option"
  inVals :: "OutPoint \<Rightarrow> int option"

definition sel_empty :: "'p sel" where
  "sel_empty = \<lparr>prevScripts = Map.empty, keysByAddress = Map.empty, inVals = Map.empty\<rparr>"

text \<open>One selected coin; a coin without a key in the map would be a nil key and panic.\<close>

definition sel_coin :: "('s, 'k, 'p) spv \<Rightarrow> (Coin \<times> 'k) list \<Rightarrow> Coin \<Rightarrow> 'p sel \<Rightarrow> 'p sel go" where
  "sel_coin w coinMap c x =
     (let x1 = x\<lparr>prevScripts := (prevScripts x)(coin_op c \<mapsto> c_ScriptPubKey c)\<rparr> in
      case map_of coinMap c of
        None \<Rightarrow> Panic
      | Some key \<Rightarrow>
          (case (hd_Address (e_hd (w_env w)) key, ECPrivKey (w_lib w) key) of
             (Some addr, Some privKey) \<Rightarrow>
               Ok (x1\<lparr>keysByAddress := (keysByAddress x1)(EncodeAddress addr \<mapsto> privKey),
                      inVals := (inVals x1)(coin_op c \<mapsto> TxValue c)\<rparr>)
           | _ \<Rightarrow> Ok x1))"

fun sel_coins :: "('s, 'k, 'p) spv \<Rightarrow> (Coin \<times> 'k) list \<Rightarrow> Coin list \<Rightarrow> int \<Rightarrow> TxIn list \<Rightarrow> 'p sel \<Rightarrow> (int \<times> TxIn list \<times> 'p sel) go" where
  "sel_coins w coinMap [] amt inputs x = Ok (amt, inputs, x)"
| "sel_coins w coinMap (c # cs) amt inputs x =
     go_bind (sel_coin w coinMap c x) (\<lambda>x1.
       sel_coins w coinMap cs (wrap64 (amt + TxValue c)) (inputs @ [new_txin (coin_op c)]) x1)"

text \<open>\<open>coins\<close> is the key list of the coin map in the order Go iterates over it.\<close>

definition inputSource ::
    "('s, 'k, 'p) spv \<Rightarrow> (Coin \<times> 'k) list \<Rightarrow> Coin list \<Rightarrow> int \<Rightarrow> (int \<times> TxIn list \<times> 'p sel) go" where
  "inputSource w coinMap coins target =
     (case CoinSelect (w_lib w) target coins of
        None \<Rightarrow> Err (ErrMsg ''insuffient funds'')
      | Some sel \<Rightarrow> sel_coins w coinMap sel 0 [] sel_empty)"

definition changeSource :: "('s, 'k, 'p) spv \<Rightarrow> bytes go" where
  "changeSource w =
     go_bind (CurrentAddress w INTERNAL) (\<lambda>addr.
       case pay_script (w_env w) addr of None \<Rightarrow> Err LibError | Some script \<Rightarrow> Ok script)"

text \<open>The signing loop: input \<open>i\<close> of the transaction as the earlier rounds left it.\<close>

definition set_sig :: "MsgTx \<Rightarrow> nat \<Rightarrow> bytes \<Rightarrow> MsgTx" where
  "set_sig tx i script = tx\<lparr>tx_TxIn := (tx_TxIn tx)[i := (tx_TxIn tx ! i)\<lparr>SignatureScript := script\<rparr>]\<rparr>"

fun sign_loop :: "(MsgTx \<Rightarrow> nat \<Rightarrow> bytes go) \<Rightarrow> nat list \<Rightarrow> MsgTx \<Rightarrow> MsgTx go" where
  "sign_loop sg [] tx = Ok tx"
| "sign_loop sg (i # is) tx = go_bind (sg tx i) (\<lambda>script. sign_loop sg is (set_sig tx i script))"

definition fail_with :: "string \<Rightarrow> 'a go \<Rightarrow> 'a go" where
  "fail_with msg r = (case r of Err _ \<Rightarrow> Err (ErrMsg msg) | _ \<Rightarrow> r)"

definition build_sign :: "('s, 'k, 'p) spv \<Rightarrow> 'p sel \<Rightarrow> MsgTx \<Rightarrow> nat \<Rightarrow> bytes go" where
  "build_sign w x tx i =
     (let p = PreviousOutPoint (tx_TxIn tx ! i) in
      fail_with ''Failed to sign transaction''
        (SignTxOutput (w_lib w) tx i (case inVals x p of None \<Rightarrow> 0 | Some v \<Rightarrow> v)
          (case prevScripts x p of None \<Rightarrow> [] | Some sc \<Rightarrow> sc)
          (\<lambda>addr. case keysByAddress x (EncodeAddress addr) of None \<Rightarrow> Panic | Some k \<Rightarrow> Ok k)
          (\<lambda>addr. []) (SignatureScript (tx_TxIn tx ! i))))"

text \<open>\<open>perm\<close> is the order in which Go iterates over the coin map.\<close>

definition buildTx ::
    "('s, 'k, 'p) spv \<Rightarrow> (Coin list \<Rightarrow> Coin list) \<Rightarrow> int \<Rightarrow> Address option \<Rightarrow> FeeLevel \<Rightarrow> TxOut option \<Rightarrow> MsgTx go option" where
  "buildTx w perm amount addr feeLevel optionalOutput =
     (let script = (case pay_script (w_env w) addr of None \<Rightarrow> [] | Some sc \<Rightarrow> sc) in
      if IsDustAmount (w_lib w) amount (int (length script)) then Some (Err (ErrMsg ''Amount is below dust threshold''))
      else case gatherCoins w of
             Err e \<Rightarrow> Some (Err e)
           | Panic \<Rightarrow> Some Panic
           | Ok coinMap \<Rightarrow>
               (let feePerKB = wrap64 (wrap64 (uint (wallet_fee w feeLevel)) * 1000);
                    out = \<lparr>txout_Value = word_of_int amount, PkScript = script\<rparr>;
                    outputs = out # (case optionalOutput of None \<Rightarrow> [] | Some out2 \<Rightarrow> [out2])
                in case NewUnsignedTransaction (w_lib w) (w_size w) outputs feePerKB
                          (inputSource w coinMap (perm (map fst coinMap))) (changeSource w) of
                     None \<Rightarrow> None
                   | Some (Err e) \<Rightarrow> Some (Err e)
                   | Some Panic \<Rightarrow> Some Panic
                   | Some (Ok (authored, x)) \<Rightarrow>
                       (let tx = InPlaceSort (w_lib w) (a_Tx authored)
                        in Some (sign_loop (build_sign w x) [0..<length (tx_TxIn tx)] tx))))"

definition Spend ::
    "go_time \<Rightarrow> (Coin list \<Rightarrow> Coin list) \<Rightarrow> int \<Rightarrow> Address option \<Rightarrow> FeeLevel \<Rightarrow> ('s, 'k, 'p) spv \<Rightarrow>
     (hash go \<times> ('s, 'k, 'p) spv \<times> event list \<times> sent list) run" where
  "Spend now perm amount addr feeLevel w =
     (case buildTx w perm amount addr feeLevel None of
        None \<Rightarrow> Hangs
      | Some Panic \<Rightarrow> Panics
      | Some (Err e) \<Rightarrow> Ret (Err e, w, [], [])
      | Some (Ok tx) \<Rightarrow>
          run_bind (Broadcast now tx w) (\<lambda>(err, w1, evs, msgs).
            Ret (case err of Some e \<Rightarrow> Err e | None \<Rightarrow> Ok (txHash (e_lib (w_env w)) tx), w1, evs, msgs)))"

section \<open>Sweeping an address\<close>

text \<open>The inputs and the scripts they spend, in the order of the arguments.\<close>

fun sweep_inputs :: "('s, 'k) ts_env \<Rightarrow> TransactionInput list \<Rightarrow> (TxIn list \<times> (OutPoint \<Rightarrow> bytes option)) go" where
  "sweep_inputs env [] = Ok ([], Map.empty)"
| "sweep_inputs env (i # is) =
     (case hashFromStr (e_lib env) (hex_EncodeToString (OutpointHash i)) of
        None \<Rightarrow> Err LibError
      | Some ch \<Rightarrow>
          (case pay_script env (LinkedAddress i) of
             None \<Rightarrow> Err LibError
           | Some script \<Rightarrow>
               (let p = \<lparr>op_Hash = ch, op_Index = OutpointIndex i\<rparr> in
                go_bind (sweep_inputs env is) (\<lambda>(ins, prev).
                  Ok (new_txin p # ins, if prev p = None then prev(p \<mapsto> script) else prev)))))"

definition sweep_type :: "bytes option \<Rightarrow> InputType go" where
  "sweep_type redeemScript =
     (case redeemScript of
        None \<Rightarrow> Ok P2PKH
      | Some rs \<Rightarrow>
          (case LockTimeFromRedeemScript rs of
             Ok _ \<Rightarrow> Ok P2SH_Multisig_Timelock_1Sig
           | Err _ \<Rightarrow> Ok P2SH_1of2_Multisig
           | Panic \<Rightarrow> Panic))"

text \<open>A redeem script that starts with \<open>OP_IF\<close> sets the version and the sequence numbers.\<close>

definition sweep_lock :: "bytes option \<Rightarrow> MsgTx \<Rightarrow> (bool \<times> MsgTx) go" where
  "sweep_lock redeemScript tx =
     (case redeemScript of
        None \<Rightarrow> Ok (False, tx)
      | Some rs \<Rightarrow>
          go_bind (go_index rs 0) (\<lambda>op.
            if op = OP_IF
            then if tx_TxIn tx = [] then Ok (True, tx\<lparr>tx_Version := 2\<rparr>)
                 else go_bind (LockTimeFromRedeemScript rs) (\<lambda>locktime.
                   Ok (True, tx\<lparr>tx_Version := 2, tx_TxIn := map (\<lambda>i. i\<lparr>Sequence := locktime\<rparr>) (tx_TxIn tx)\<rparr>))
            else Ok (False, tx)))"

text \<open>The signature of input \<open>i\<close>: the amount is that of the \<open>i\<close>-th argument.\<close>

definition sweep_sign ::
    "('s, 'k, 'p) spv \<Rightarrow> TransactionInput list \<Rightarrow> (OutPoint \<Rightarrow> bytes option) \<Rightarrow> 'k \<Rightarrow> 'p \<Rightarrow> bytes option \<Rightarrow> bool \<Rightarrow>
     MsgTx \<Rightarrow> nat \<Rightarrow> bytes go" where
  "sweep_sign w ins prev key privKey redeemScript timeLocked tx i =
     go_bind (go_index ins i) (\<lambda>inp.
     if \<not> timeLocked
     then fail_with ''Failed to sign transaction''
            (SignTxOutput (w_lib w) tx i (sint (tin_Value inp))
              (case prev (PreviousOutPoint (tx_TxIn tx ! i)) of None \<Rightarrow> [] | Some sc \<Rightarrow> sc)
              (\<lambda>addr. case PubKeyAddress (w_lib w) privKey of
                        None \<Rightarrow> Panic
                      | Some pub \<Rightarrow> if EncodeAddress pub = EncodeAddress addr then Ok privKey else Err (ErrMsg ''Not found''))
              (\<lambda>addr. case redeemScript of None \<Rightarrow> [] | Some rs \<Rightarrow> rs) (SignatureScript (tx_TxIn tx ! i)))
     else (case ECPrivKey (w_lib w) key of
             None \<Rightarrow> Err LibError
           | Some priv \<Rightarrow>
               (let rs = (case redeemScript of None \<Rightarrow> [] | Some rs \<Rightarrow> rs) in
                case SignatureScript_lib (w_lib w) tx i (sint (tin_Value inp)) rs priv of
                  None \<Rightarrow> Err LibError
                | Some script \<Rightarrow> Ok (fst (Script (w_lib w) [AddData script, AddOp OP_0, AddData rs])))))"

text \<open>The transaction of a sweep, signed; the fee of a sum that is too small leaves the output at zero.\<close>

definition sweep_tx ::
    "('s, 'k, 'p) spv \<Rightarrow> TransactionInput list \<Rightarrow> bytes \<Rightarrow> 'k \<Rightarrow> bytes option \<Rightarrow> FeeLevel \<Rightarrow> MsgTx go" where
  "sweep_tx w ins script key redeemScript feeLevel =
     go_bind (sweep_inputs (w_env w) ins) (\<lambda>(inputs, prev).
     go_bind (sweep_type redeemScript) (\<lambda>txType.
       let val = wrap64 (sum_list (map (sint \<circ> tin_Value) ins));
           out = \<lparr>txout_Value = word_of_int val, PkScript = script\<rparr>;
           estimatedSize = EstimateSerializeSize (w_size w) (int (length ins)) [out] False txType;
           fee = fee_of estimatedSize (wallet_fee w feeLevel);
           outVal = (if wrap64 (val - fee) < 0 then 0 else wrap64 (val - fee));
           tx = InPlaceSort (w_lib w) \<lparr>tx_Version = 1, tx_TxIn = inputs,
             tx_TxOut = [out\<lparr>txout_Value := word_of_int outVal\<rparr>], tx_LockTime = 0\<rparr>
       in case ECPrivKey (w_lib w) key of
            None \<Rightarrow> Err LibError
          | Some privKey \<Rightarrow>
              go_bind (sweep_lock redeemScript tx) (\<lambda>(timeLocked, tx1).
                sign_loop (sweep_sign w ins prev key privKey redeemScript timeLocked) [0..<length (tx_TxIn tx1)] tx1)))"

text \<open>The result of the broadcast is dropped.\<close>

definition SweepAddress ::
    "go_time \<Rightarrow> TransactionInput list \<Rightarrow> Address option \<Rightarrow> 'k \<Rightarrow> bytes option \<Rightarrow> FeeLevel \<Rightarrow> ('s, 'k, 'p) spv \<Rightarrow>
     (hash go \<times> ('s, 'k, 'p) spv \<times> event list \<times> sent list) run" where
  "SweepAddress now ins address key redeemScript feeLevel w =
     (case (case address of Some a \<Rightarrow> Ok (Some a) | None \<Rightarrow> CurrentAddress w INTERNAL) of
        Panic \<Rightarrow> Panics
      | Err e \<Rightarrow> Ret (Err e, w, [], [])
      | Ok internalAddr \<Rightarrow>
          (case pay_script (w_env w) internalAddr of
             None \<Rightarrow> Ret (Err LibError, w, [], [])
           | Some script \<Rightarrow>
               (case sweep_tx w ins script key redeemScript feeLevel of
                  Panic \<Rightarrow> Panics
                | Err e \<Rightarrow> Ret (Err e, w, [], [])
                | Ok tx \<Rightarrow>
                    run_bind (Broadcast now tx w) (\<lambda>(_, w1, evs, msgs).
                      Ret (Ok (txHash (e_lib (w_env w)) tx), w1, evs, msgs)))))"

definition BumpFee ::
    "go_time \<Rightarrow> hash \<Rightarrow> ('s, 'k, 'p) spv \<Rightarrow> (hash go \<times> ('s, 'k, 'p) spv \<times> event list \<times> sent list) run" where
  "BumpFee now txid w =
     (let ds = e_ds (w_env w) in
      case Txns_Get ds txid (w_s w) of
        (_, Some e) \<Rightarrow> Ret (Err e, w, [], [])
      | (txn, None) \<Rightarrow>
          if 0 <s txn_Height txn then Ret (Err (ErrMsg ''Transaction is confirmed, cannot bump fee''), w, [], [])
          else if txn_Height txn <s 0 then Ret (Err (ErrMsg ''Cannot bump fee of dead transaction''), w, [], [])
          else (case find (\<lambda>u. op_Hash (utxo_Op u) = txid \<and> AtHeight u = 0) (fst (Utxos_GetAll ds (w_s w))) of
                  None \<Rightarrow> Ret (Err (ErrMsg ''Transaction either doesn't exist or has already been spent''), w, [], [])
                | Some u \<Rightarrow>
                    (case scriptToAddress (e_sl (w_env w)) (ScriptPubkey u) of
                       Panic \<Rightarrow> Panics
                     | Err e \<Rightarrow> Ret (Err e, w, [], [])
                     | Ok addr \<Rightarrow>
                         (case GetKeyForScript ds (e_hd (w_env w)) (e_km (w_env w)) (ScriptAddress addr) (w_s w) of
                            Panic \<Rightarrow> Panics
                          | Err e \<Rightarrow> Ret (Err e, w, [], [])
                          | Ok key \<Rightarrow>
                              (case hex_DecodeString (hashString (e_lib (w_env w)) (op_Hash (utxo_Op u))) of
                                 None \<Rightarrow> Ret (Err LibError, w, [], [])
                               | Some h \<Rightarrow>
                                   SweepAddress now [\<lparr>OutpointHash = h, OutpointIndex = op_Index (utxo_Op u),
                                     LinkedAddress = Some addr, tin_Value = utxo_Value u\<rparr>] None key None FEE_BUMP w)))))"

section \<open>Fee estimates\<close>

definition out_of :: "('s, 'k) ts_env \<Rightarrow> TransactionOutput \<Rightarrow> TxOut" where
  "out_of env out =
     \<lparr>txout_Value = tout_Value out, PkScript = (case pay_script env (tout_Address out) of None \<Rightarrow> [] | Some sc \<Rightarrow> sc)\<rparr>"

definition EstimateFee ::
    "('s, 'k, 'p) spv \<Rightarrow> TransactionInput list \<Rightarrow> TransactionOutput list \<Rightarrow> u64 \<Rightarrow> u64" where
  "EstimateFee w ins outs feePerByte =
     word_of_int (fee_of (EstimateSerializeSize (w_size w) (int (length ins)) (map (out_of (w_env w)) outs) False P2PKH) feePerByte)"

definition input_value :: "Utxo list \<Rightarrow> TxIn \<Rightarrow> int" where
  "input_value utxos i =
     (case find (\<lambda>u. op_Hash (utxo_Op u) = op_Hash (PreviousOutPoint i) \<and> op_Index (utxo_Op u) = op_Index (PreviousOutPoint i)) utxos of
        None \<Rightarrow> 0 | Some u \<Rightarrow> sint (utxo_Value u))"

definition EstimateSpendFee ::
    "('s, 'k, 'p) spv \<Rightarrow> (Coin list \<Rightarrow> Coin list) \<Rightarrow> int \<Rightarrow> FeeLevel \<Rightarrow> u64 go option" where
  "EstimateSpendFee w perm amount feeLevel =
     (case DecodeAddress_lib (w_lib w) ''114K8nZhYcG1rsxcc1YGujFwWj5NLByc5v'' of
        None \<Rightarrow> Some (Err LibError)
      | Some addr \<Rightarrow>
          (case buildTx w perm amount (Some addr) feeLevel None of
             None \<Rightarrow> None
           | Some (Err e) \<Rightarrow> Some (Err e)
           | Some Panic \<Rightarrow> Some Panic
           | Some (Ok tx) \<Rightarrow>
               (let outval = wrap64 (sum_list (map (sint \<circ> txout_Value) (tx_TxOut tx))) in
                case Utxos_GetAll (e_ds (w_env w)) (w_s w) of
                  (_, Some e) \<Rightarrow> Some (Err e)
                | (utxos, None) \<Rightarrow>
                    (let inval = wrap64 (sum_list (map (input_value utxos) (tx_TxIn tx))) in
                     Some (if inval < outval then Err (ErrMsg ''Error building transaction: inputs less than outputs'')
                           else Ok (word_of_int (wrap64 (inval - outval))))))))"

section \<open>Multisig\<close>

text \<open>
  A duration is in nanoseconds.  \<open>hours_times k d\<close> is \<open>uint32(d.Hours() * k)\<close>, exact for durations of
  whole hours; the rounding of other durations in \<open>float64\<close> is not modelled.
\<close>

definition hours_times :: "int \<Rightarrow> int \<Rightarrow> u32" where
  "hours_times k d = word_of_int ((k * d) div (3600 * nano))"

fun ec_keys :: "('k, 'p) build_lib \<Rightarrow> 'k list \<Rightarrow> bytes list go" where
  "ec_keys bl [] = Ok []"
| "ec_keys bl (k # ks) =
     (case ECPubKey bl k of
        None \<Rightarrow> Err LibError
      | Some e \<Rightarrow> go_bind (ec_keys bl ks) (\<lambda>es. Ok (e # es)))"

definition multisig_ops :: "int \<Rightarrow> bytes list \<Rightarrow> script_op list" where
  "multisig_ops threshold ecKeys =
     AddInt64 threshold # map AddData ecKeys @ [AddInt64 (int (length ecKeys)), AddOp OP_CHECKMULTISIG]"

definition GenerateMultisigScript ::
    "('k, 'p) build_lib \<Rightarrow> 'k list \<Rightarrow> int \<Rightarrow> int \<Rightarrow> 'k option \<Rightarrow> (Address \<times> bytes) go" where
  "GenerateMultisigScript bl keys threshold timeout timeoutKey =
     (if 0 < hours_times 1 timeout \<and> timeoutKey = None
      then Err (ErrMsg ''Timeout key must be non nil when using an escrow timeout'')
      else if int (length keys) < threshold
      then Err (ErrMsg (''unable to generate multisig script with '' @ Itoa threshold @
             '' required signatures when there are only '' @ Itoa (int (length keys)) @ '' public keys available''))
      else go_bind (ec_keys bl keys) (\<lambda>ecKeys.
           go_bind (if hours_times 1 timeout = 0 then Ok (multisig_ops threshold ecKeys)
                    else case timeoutKey of
                           None \<Rightarrow> Panic
                         | Some tk \<Rightarrow>
                             (case ECPubKey bl tk of
                                None \<Rightarrow> Err LibError
                              | Some ecKey \<Rightarrow>
                                  (let sequenceLock = LockTimeToSequence bl (hours_times 6 timeout) in
                                   Ok (AddOp OP_IF # multisig_ops threshold ecKeys @
                                       [AddOp OP_ELSE, AddInt64 (uint sequenceLock), AddOp OP_CHECKSEQUENCEVERIFY, AddOp OP_DROP,
                                        AddData ecKey, AddOp OP_CHECKSIG, AddOp OP_ENDIF])))) (\<lambda>ops.
           case Script bl ops of
             (_, Some e) \<Rightarrow> Err e
           | (redeemScript, None) \<Rightarrow>
               (case NewAddressScriptHash bl redeemScript of
                  None \<Rightarrow> Err LibError
                | Some addr \<Rightarrow> Ok (addr, redeemScript)))))"

text \<open>The transaction both multisig functions start from: the fee is taken from the outputs in equal parts.\<close>

fun msig_ins :: "('s, 'k) ts_env \<Rightarrow> TransactionInput list \<Rightarrow> TxIn list go" where
  "msig_ins env [] = Ok []"
| "msig_ins env (i # is) =
     (case hashFromStr (e_lib env) (hex_EncodeToString (OutpointHash i)) of
        None \<Rightarrow> Err LibError
      | Some ch \<Rightarrow> go_bind (msig_ins env is) (\<lambda>ins. Ok (new_txin \<lparr>op_Hash = ch, op_Index = OutpointIndex i\<rparr> # ins)))"

fun msig_outs :: "('s, 'k) ts_env \<Rightarrow> TransactionOutput list \<Rightarrow> TxOut list go" where
  "msig_outs env [] = Ok []"
| "msig_outs env (out # outs) =
     (case pay_script env (tout_Address out) of
        None \<Rightarrow> Err LibError
      | Some sc \<Rightarrow> go_bind (msig_outs env outs) (\<lambda>os. Ok (\<lparr>txout_Value = tout_Value out, PkScript = sc\<rparr> # os)))"

definition subtract_fee :: "int \<Rightarrow> TxOut list \<Rightarrow> TxOut list" where
  "subtract_fee fee outs =
     map (\<lambda>out. out\<lparr>txout_Value := txout_Value out - word_of_int (fee sdiv int (length outs))\<rparr>) outs"

definition msig_tx ::
    "('s, 'k, 'p) spv \<Rightarrow> TransactionInput list \<Rightarrow> TransactionOutput list \<Rightarrow> bytes \<Rightarrow> u64 \<Rightarrow> MsgTx go" where
  "msig_tx w ins outs redeemScript feePerByte =
     go_bind (msig_ins (w_env w) ins) (\<lambda>inputs.
     go_bind (msig_outs (w_env w) outs) (\<lambda>outputs.
     go_bind (case LockTimeFromRedeemScript redeemScript of
                Ok _ \<Rightarrow> Ok P2SH_Multisig_Timelock_2Sigs | Err _ \<Rightarrow> Ok P2SH_2of3_Multisig | Panic \<Rightarrow> Panic) (\<lambda>txType.
       let fee = fee_of (EstimateSerializeSize (w_size w) (int (length ins)) outputs False txType) feePerByte
       in Ok (InPlaceSort (w_lib w) \<lparr>tx_Version = 1, tx_TxIn = inputs, tx_TxOut = subtract_fee fee outputs, tx_LockTime = 0\<rparr>))))"

text \<open>An input whose signature fails is skipped.\<close>

fun msig_sigs ::
    "('s, 'k, 'p) spv \<Rightarrow> TransactionInput list \<Rightarrow> bytes \<Rightarrow> 'p \<Rightarrow> MsgTx \<Rightarrow> nat list \<Rightarrow> Signature list go" where
  "msig_sigs w ins redeemScript signingKey tx [] = Ok []"
| "msig_sigs w ins redeemScript signingKey tx (i # is) =
     go_bind (go_index ins i) (\<lambda>inp.
     go_bind (msig_sigs w ins redeemScript signingKey tx is) (\<lambda>sigs.
       case SignatureScript_lib (w_lib w) tx i (sint (tin_Value inp)) redeemScript signingKey of
         None \<Rightarrow> Ok sigs
       | Some sig \<Rightarrow> Ok (\<lparr>InputIndex = of_nat i, Signature = sig\<rparr> # sigs)))"

definition CreateMultisigSignature ::
    "('s, 'k, 'p) spv \<Rightarrow> TransactionInput list \<Rightarrow> TransactionOutput list \<Rightarrow> 'k \<Rightarrow> bytes \<Rightarrow> u64 \<Rightarrow> Signature list go" where
  "CreateMultisigSignature w ins outs key redeemScript feePerByte =
     go_bind (msig_tx w ins outs redeemScript feePerByte) (\<lambda>tx.
       case ECPrivKey (w_lib w) key of
         None \<Rightarrow> Err LibError
       | Some signingKey \<Rightarrow> msig_sigs w ins redeemScript signingKey tx [0..<length (tx_TxIn tx)])"

text \<open>The last signature for an input counts.\<close>

definition sig_for :: "nat \<Rightarrow> Signature list \<Rightarrow> bytes" where
  "sig_for i sigs = (case filter (\<lambda>sig. unat (InputIndex sig) = i) sigs of [] \<Rightarrow> [] | sg # sgs \<Rightarrow> Signature (last (sg # sgs)))"

definition msig_script ::
    "('s, 'k, 'p) spv \<Rightarrow> Signature list \<Rightarrow> Signature list \<Rightarrow> bytes \<Rightarrow> bool \<Rightarrow> MsgTx \<Rightarrow> nat \<Rightarrow> bytes go" where
  "msig_script w sigs1 sigs2 redeemScript timeLocked tx i =
     (case Script (w_lib w) ([AddOp OP_0, AddData (sig_for i sigs1), AddData (sig_for i sigs2)] @
              (if timeLocked then [AddOp OP_1] else []) @ [AddData redeemScript]) of
        (_, Some e) \<Rightarrow> Err e
      | (scriptSig, None) \<Rightarrow> Ok scriptSig)"

definition Multisign ::
    "go_time \<Rightarrow> TransactionInput list \<Rightarrow> TransactionOutput list \<Rightarrow> Signature list \<Rightarrow> Signature list \<Rightarrow> bytes \<Rightarrow> u64 \<Rightarrow> bool \<Rightarrow>
     ('s, 'k, 'p) spv \<Rightarrow> (bytes go \<times> ('s, 'k, 'p) spv \<times> event list \<times> sent list) run" where
  "Multisign now ins outs sigs1 sigs2 redeemScript feePerByte broadcast w =
     (case go_bind (msig_tx w ins outs redeemScript feePerByte) (\<lambda>tx.
           go_bind (go_index redeemScript 0) (\<lambda>op.
             sign_loop (msig_script w sigs1 sigs2 redeemScript (op = OP_IF)) [0..<length (tx_TxIn tx)] tx)) of
        Panic \<Rightarrow> Panics
      | Err e \<Rightarrow> Ret (Err e, w, [], [])
      | Ok tx \<Rightarrow>
          (let raw = encodeTx (e_lib (w_env w)) tx in
           if broadcast
           then run_bind (Broadcast now tx w) (\<lambda>(_, w1, evs, msgs). Ret (Ok raw, w1, evs, msgs))
           else Ret (Ok raw, w, [], [])))"

end
