(* ===== verification/Tx_Author.thy ===== *)
theory Tx_Author
  imports Tx_Build
begin

text \<open>
  Authoring a transaction: the loop of \<open>NewUnsignedTransaction\<close> ends when the source of inputs has finitely many, and the
  transaction it returns is balanced, with a change output only when the change is not dust.
\<close>

section \<open>The size estimate\<close>

definition est :: "size_lib \<Rightarrow> TxOut list \<Rightarrow> nat \<Rightarrow> int" where
  "est sz outputs n = EstimateSerializeSize sz (int n) outputs True P2PKH"

text \<open>Outputs of less than \<open>2^60\<close> bytes.\<close>

definition small_outputs :: "size_lib \<Rightarrow> TxOut list \<Rightarrow> bool" where
  "small_outputs sz outputs \<longleftrightarrow> 0 \<le> sum_list (map (TxOut_SerializeSize sz) outputs) \<and>
     sum_list (map (TxOut_SerializeSize sz) outputs) < 2 ^ 60"

lemma est_mono:
  assumes "size_ok sz" "small_outputs sz outputs" "m \<le> n" "n < 2 ^ 32"
  shows "est sz outputs m \<le> est sz outputs n"
proof -
  let ?o = "sum_list (map (TxOut_SerializeSize sz) outputs)"
  let ?vo = "VarIntSerializeSize sz (word_of_int (int (length outputs) + 1))"
  have v: "1 \<le> VarIntSerializeSize sz k \<and> VarIntSerializeSize sz k \<le> 9" for k using assms(1) by (simp add: size_ok_def)
  have e: "est sz outputs k = VarIntSerializeSize sz (of_nat k) + ?vo + int k * 149 + ?o + 34" if "k < 2 ^ 32" for k
  proof -
    have "int k < 2 ^ 32" using that by (simp add: of_nat_less_iff [of k "2 ^ 32", where 'a = int, symmetric] del: of_nat_less_iff)
    moreover have "?o < 2 ^ 60" "0 \<le> ?o" using assms(2) by (simp_all add: small_outputs_def)
    ultimately have "wrap64 (VarIntSerializeSize sz (of_nat k) + ?vo + int k * 149 + ?o + 34) =
        VarIntSerializeSize sz (of_nat k) + ?vo + int k * 149 + ?o + 34"
      using v [of "of_nat k"] v [of "word_of_int (int (length outputs) + 1)"] by (intro wrap64_id) auto
    moreover have "wrap64 ?o = ?o" using assms(2) by (simp add: small_outputs_def wrap64_id)
    ultimately show ?thesis
      by (simp add: est_def EstimateSerializeSize_def SumOutputSerializeSizes_def redeem_size_def size_defs)
  qed
  have "unat (of_nat m :: u64) = m" "unat (of_nat n :: u64) = n"
    using assms(3,4) by (simp_all add: unat_of_nat)
  then have "(of_nat m :: u64) \<le> of_nat n" using assms(3) by (simp add: word_le_nat_alt)
  then have "VarIntSerializeSize sz (of_nat m) \<le> VarIntSerializeSize sz (of_nat n)" using assms(1) by (simp add: size_ok_def)
  then show ?thesis using e [of m] e [of n] assms(3,4) by simp
qed

section \<open>The authoring loop\<close>

text \<open>The fee of the library: never negative, at most the money supply, not smaller for a larger size.\<close>

definition fee_ok :: "('k, 'p) build_lib \<Rightarrow> int \<Rightarrow> bool" where
  "fee_ok bl feePerKb \<longleftrightarrow>
     (\<forall>size. 0 \<le> FeeForSerializeSize bl feePerKb size \<and> FeeForSerializeSize bl feePerKb size \<le> 2100000000000000) \<and>
     (\<forall>a b. a \<le> b \<longrightarrow> FeeForSerializeSize bl feePerKb a \<le> FeeForSerializeSize bl feePerKb b)"

text \<open>An input source returns at most \<open>N\<close> inputs and an amount within the money supply.\<close>

definition source_ok :: "nat \<Rightarrow> (int \<Rightarrow> (int \<times> TxIn list \<times> 'x) go) \<Rightarrow> bool" where
  "source_ok N fetch \<longleftrightarrow>
     (\<forall>t amt ins x. fetch t = Ok (amt, ins, x) \<longrightarrow> length ins \<le> N \<and> 0 \<le> amt \<and> amt \<le> 2100000000000000)"

definition sane_outputs :: "size_lib \<Rightarrow> TxOut list \<Rightarrow> bool" where
  "sane_outputs sz outputs \<longleftrightarrow> small_outputs sz outputs \<and>
     0 \<le> sum_list (map (sint \<circ> txout_Value) outputs) \<and> sum_list (map (sint \<circ> txout_Value) outputs) \<le> 2100000000000000"

lemma target_amount_eq: "sane_outputs sz outputs \<Longrightarrow> target_amount outputs = sum_list (map (sint \<circ> txout_Value) outputs)"
  by (simp add: target_amount_def sane_outputs_def wrap64_id)

lemma author_loop_returns:
  fixes fetch :: "int \<Rightarrow> (int \<times> TxIn list \<times> 'x) go"
  assumes "size_ok sz" "fee_ok bl kb" "source_ok N fetch" "N < 2 ^ 32" "small_outputs sz outputs"
    and T: "0 \<le> T" "T \<le> 2100000000000000"
  shows "n < 2 ^ 32 \<Longrightarrow>
    \<exists>r. author_loop bl sz outputs kb T fetch change (FeeForSerializeSize bl kb (est sz outputs n)) = Some r"
proof (induction "Suc N - n" arbitrary: n rule: less_induct)
  case less
  let ?F = "\<lambda>k. FeeForSerializeSize bl kb (est sz outputs k)"
  have F: "0 \<le> ?F k" "?F k \<le> 2100000000000000" for k using assms(2) by (simp_all add: fee_ok_def)
  have w: "wrap64 (T + ?F n) = T + ?F n" using T F [of n] by (intro wrap64_id) auto
  show ?case
  proof (cases "fetch (wrap64 (T + ?F n))")
    case (Ok r)
    obtain amt ins x where r: "r = (amt, ins, x)" by (cases r)
    from Ok r assms(3) have ins: "length ins \<le> N" "0 \<le> amt" "amt \<le> 2100000000000000" by (auto simp: source_ok_def)
    have wa: "wrap64 (amt - T) = amt - T" using T ins by (intro wrap64_id) auto
    show ?thesis
    proof (cases "amt < wrap64 (T + ?F n) \<or> \<not> wrap64 (amt - T) < ?F (length ins)")
      case True
      then show ?thesis by (subst author_loop.simps) (auto simp: Ok r Let_def est_def [symmetric])
    next
      case False
      then have "?F n < ?F (length ins)" using w wa by linarith
      moreover have "?F (length ins) \<le> ?F n" if "length ins \<le> n"
        using est_mono [OF assms(1,5) that less.prems] assms(2) by (simp add: fee_ok_def)
      ultimately have n: "n < length ins" by (meson not_le)
      have "Suc N - length ins < Suc N - n" using n ins(1) by simp
      from less.hyps [OF this] ins(1) assms(4)
      have "\<exists>r. author_loop bl sz outputs kb T fetch change (?F (length ins)) = Some r" by simp
      then show ?thesis using False by (subst author_loop.simps) (simp add: Ok r Let_def est_def [symmetric])
    qed
  next
    case (Err e)
    then show ?thesis by (subst author_loop.simps) simp
  next
    case Panic
    then show ?thesis by (subst author_loop.simps) simp
  qed
qed

text \<open>What a result of the loop consists of.\<close>

definition author_post ::
    "('k, 'p) build_lib \<Rightarrow> size_lib \<Rightarrow> TxOut list \<Rightarrow> int \<Rightarrow> int \<Rightarrow> (int \<Rightarrow> (int \<times> TxIn list \<times> 'x) go) \<Rightarrow> bytes go \<Rightarrow>
     (AuthoredTx \<times> 'x) go \<Rightarrow> bool" where
  "author_post bl sz outputs kb T fetch change r \<longleftrightarrow>
     (\<forall>a x. r = Ok (a, x) \<longrightarrow>
        (\<exists>t amt ins. fetch t = Ok (amt, ins, x) \<and>
           FeeForSerializeSize bl kb (est sz outputs (length ins)) \<le> wrap64 (amt - T) \<and>
           author_finish bl outputs T change (FeeForSerializeSize bl kb (est sz outputs (length ins))) amt ins = Ok a))"

lemma author_loop_post:
  assumes "author_loop bl sz outputs kb T fetch change fee0 = Some r"
  shows "author_post bl sz outputs kb T fetch change r"
proof (rule author_loop.raw_induct [where P = "\<lambda>bl sz outputs kb T fetch change _ r. author_post bl sz outputs kb T fetch change r",
    OF _ assms], goal_cases)
  case (1 loop bl sz outputs kb T fetch change fee0 r)
  show ?case
  proof (cases "fetch (wrap64 (T + fee0))")
    case (Ok q)
    obtain amt ins y where q: "q = (amt, ins, y)" by (cases q)
    let ?F = "FeeForSerializeSize bl kb (est sz outputs (length ins))"
    consider "amt < wrap64 (T + fee0)" | "\<not> amt < wrap64 (T + fee0)" "wrap64 (amt - T) < ?F"
      | "\<not> amt < wrap64 (T + fee0)" "\<not> wrap64 (amt - T) < ?F" by blast
    then show ?thesis
    proof cases
      case 1
      with \<open>_ = Some r\<close> Ok q show ?thesis by (auto simp: author_post_def)
    next
      case 2
      with \<open>_ = Some r\<close> Ok q have "loop bl sz outputs kb T fetch change ?F = Some r" by (simp add: Let_def est_def)
      then show ?thesis by (rule 1(1))
    next
      case 3
      with \<open>_ = Some r\<close> Ok q
      have "r = go_bind (author_finish bl outputs T change ?F amt ins) (\<lambda>a. Ok (a, y))" by (simp add: Let_def est_def)
      with 3 Ok q show ?thesis by (fastforce simp: author_post_def go_bind_Ok not_less)
    qed
  qed (use 1(2) in \<open>auto simp: author_post_def\<close>)
qed

lemma author_finish_balanced:
  assumes "author_finish bl outputs T change fee amt ins = Ok a" and "T = sum_list (map (sint \<circ> txout_Value) outputs)"
    and "0 \<le> T" "0 \<le> fee" "fee \<le> amt - T" "amt \<le> 2100000000000000"
  shows "tx_TxIn (a_Tx a) = ins \<and> TotalInput a = amt \<and>
    (\<exists>dust. amt = sum_list (map (sint \<circ> txout_Value) (tx_TxOut (a_Tx a))) + fee + dust \<and> (dust = 0 \<or> IsDustAmount bl dust P2PKHOutputSize)) \<and>
    (tx_TxOut (a_Tx a) = outputs \<and> ChangeIndex a = -1 \<or>
     (\<exists>script. tx_TxOut (a_Tx a) = outputs @ [\<lparr>txout_Value = word_of_int (amt - T - fee), PkScript = script\<rparr>] \<and> change = Ok script \<and>
        ChangeIndex a = int (length outputs) \<and> 0 < amt - T - fee \<and> \<not> IsDustAmount bl (amt - T - fee) P2PKHOutputSize))"
proof -
  define c where "c = amt - T - fee"
  have c: "0 \<le> c" "c \<le> 2100000000000000" using assms(3-6) by (auto simp: c_def)
  then have w: "wrap64 (amt - T - fee) = c" unfolding c_def by (intro wrap64_id) auto
  have s: "sint (word_of_int c :: i64) = c" using c by (simp add: sint_sbintrunc' signed_take_bit_int_eq_self)
  show ?thesis
  proof (cases "c \<noteq> 0 \<and> \<not> IsDustAmount bl c P2PKHOutputSize")
    case True
    then obtain script where script: "change = Ok script"
      "a = \<lparr>a_Tx = \<lparr>tx_Version = 1, tx_TxIn = ins, tx_TxOut = outputs @ [\<lparr>txout_Value = word_of_int c, PkScript = script\<rparr>], tx_LockTime = 0\<rparr>,
         TotalInput = amt, ChangeIndex = int (length outputs)\<rparr>"
      using assms(1) by (auto simp: author_finish_def Let_def w go_bind_Ok split: if_splits)
    have "amt = sum_list (map (sint \<circ> txout_Value) (tx_TxOut (a_Tx a))) + fee + 0"
      using s assms(2) by (simp add: script(2)) (simp add: c_def)
    moreover have "0 < c" "tx_TxIn (a_Tx a) = ins" "TotalInput a = amt" "ChangeIndex a = int (length outputs)"
      "tx_TxOut (a_Tx a) = outputs @ [\<lparr>txout_Value = word_of_int c, PkScript = script\<rparr>]"
      using c True by (auto simp: script(2))
    ultimately show ?thesis unfolding c_def [symmetric] using True script(1) by blast
  next
    case False
    then have a: "a = \<lparr>a_Tx = \<lparr>tx_Version = 1, tx_TxIn = ins, tx_TxOut = outputs, tx_LockTime = 0\<rparr>, TotalInput = amt, ChangeIndex = -1\<rparr>"
      using assms(1) by (auto simp: author_finish_def Let_def w)
    have "amt = sum_list (map (sint \<circ> txout_Value) (tx_TxOut (a_Tx a))) + fee + c" by (simp add: a assms(2) c_def)
    moreover have "tx_TxIn (a_Tx a) = ins" "TotalInput a = amt" "tx_TxOut (a_Tx a) = outputs" "ChangeIndex a = -1"
      by (simp_all add: a)
    ultimately show ?thesis using False by blast
  qed
qed

lemma author_returns:
  assumes "size_ok sz" "fee_ok bl kb" "source_ok N fetch" "N < 2 ^ 32" "sane_outputs sz outputs"
  shows "\<exists>r. NewUnsignedTransaction bl sz outputs kb fetch change = Some r"
proof -
  have "0 \<le> target_amount outputs" "target_amount outputs \<le> 2100000000000000" "small_outputs sz outputs"
    using assms(5) target_amount_eq [OF assms(5)] by (auto simp: sane_outputs_def)
  from author_loop_returns [OF assms(1-4) this(3,1,2), of 1] show ?thesis
    by (simp add: NewUnsignedTransaction_def est_def)
qed

lemma author_balanced:
  assumes "fee_ok bl kb" "source_ok N fetch" "sane_outputs sz outputs"
    and "NewUnsignedTransaction bl sz outputs kb fetch change = Some (Ok (a, x))"
  shows "\<exists>t ins dust fee. fetch t = Ok (TotalInput a, ins, x) \<and> tx_TxIn (a_Tx a) = ins \<and>
    fee = FeeForSerializeSize bl kb (EstimateSerializeSize sz (int (length ins)) outputs True P2PKH) \<and>
    TotalInput a = sum_list (map (sint \<circ> txout_Value) (tx_TxOut (a_Tx a))) + fee + dust \<and>
    (dust = 0 \<or> IsDustAmount bl dust P2PKHOutputSize) \<and>
    (tx_TxOut (a_Tx a) = outputs \<or>
     (\<exists>v script. tx_TxOut (a_Tx a) = outputs @ [\<lparr>txout_Value = word_of_int v, PkScript = script\<rparr>] \<and> change = Ok script \<and>
        0 < v \<and> \<not> IsDustAmount bl v P2PKHOutputSize))"
proof -
  let ?T = "target_amount outputs"
  note T = target_amount_eq [OF assms(3)]
  from author_loop_post [OF assms(4) [unfolded NewUnsignedTransaction_def]] obtain t amt ins where
    f: "fetch t = Ok (amt, ins, x)" "FeeForSerializeSize bl kb (est sz outputs (length ins)) \<le> wrap64 (amt - ?T)"
      "author_finish bl outputs ?T change (FeeForSerializeSize bl kb (est sz outputs (length ins))) amt ins = Ok a"
    unfolding author_post_def by blast
  have amt: "0 \<le> amt" "amt \<le> 2100000000000000" using f(1) assms(2) by (auto simp: source_ok_def)
  have T0: "0 \<le> ?T" "?T \<le> 2100000000000000" using T assms(3) by (auto simp: sane_outputs_def)
  have "wrap64 (amt - ?T) = amt - ?T" using amt T0 by (intro wrap64_id) auto
  then have le: "FeeForSerializeSize bl kb (est sz outputs (length ins)) \<le> amt - ?T" using f(2) by simp
  have F: "0 \<le> FeeForSerializeSize bl kb (est sz outputs (length ins))" using assms(1) by (simp add: fee_ok_def)
  from author_finish_balanced [OF f(3) T T0(1) F le amt(2)] obtain dust where
    a: "tx_TxIn (a_Tx a) = ins" "TotalInput a = amt" "dust = 0 \<or> IsDustAmount bl dust P2PKHOutputSize"
      "amt = sum_list (map (sint \<circ> txout_Value) (tx_TxOut (a_Tx a))) + FeeForSerializeSize bl kb (est sz outputs (length ins)) + dust"
      "tx_TxOut (a_Tx a) = outputs \<or>
       (\<exists>v script. tx_TxOut (a_Tx a) = outputs @ [\<lparr>txout_Value = word_of_int v, PkScript = script\<rparr>] \<and> change = Ok script \<and>
          0 < v \<and> \<not> IsDustAmount bl v P2PKHOutputSize)"
    by blast
  show ?thesis
    by (rule exI [of _ t], rule exI [of _ ins], rule exI [of _ dust], rule exI) (use f(1) a in \<open>simp add: est_def\<close>)
qed


text \<open>An authored transaction is balanced: its inputs are those of the last call of the input source, its
  outputs start with the requested ones, the total input is the sum of the outputs and the fee for
  the estimated size, but for a remainder that is zero or dust, and the only other output is change
  above dust.\<close>

theorem NewUnsignedTransaction_balanced:
  assumes "fee_ok bl kb" "source_ok N fetch" "sane_outputs sz outputs"
    and "NewUnsignedTransaction bl sz outputs kb fetch change = Some (Ok (a, x))"
  shows "\<exists>t ins dust fee. fetch t = Ok (TotalInput a, ins, x) \<and> tx_TxIn (a_Tx a) = ins \<and>
    fee = FeeForSerializeSize bl kb (EstimateSerializeSize sz (int (length ins)) outputs True P2PKH) \<and>
    TotalInput a = sum_list (map (sint \<circ> txout_Value) (tx_TxOut (a_Tx a))) + fee + dust \<and>
    (dust = 0 \<or> IsDustAmount bl dust P2PKHOutputSize) \<and>
    (tx_TxOut (a_Tx a) = outputs \<or>
     (\<exists>v script. tx_TxOut (a_Tx a) = outputs @ [\<lparr>txout_Value = word_of_int v, PkScript = script\<rparr>] \<and> change = Ok script \<and>
        0 < v \<and> \<not> IsDustAmount bl v P2PKHOutputSize))"
  by (rule author_balanced [OF assms])

definition ex_build :: "(u32 list, u32 list) build_lib" where
  "ex_build = \<lparr>FeeForSerializeSize = (\<lambda>kb size. min 2100000000000000 (max 0 (kb * size div 1000))),
     IsDustAmount = (\<lambda>v _. v < 546),
     CoinSelect = (\<lambda>t coins. if sum_list (map TxValue coins) < t then None else Some coins),
     InPlaceSort = (\<lambda>tx. tx\<lparr>tx_TxIn := sort_key (\<lambda>i. (uint (op_Hash (PreviousOutPoint i)))) (tx_TxIn tx)\<rparr>),
     ECPrivKey = Some, ECPubKey = (\<lambda>k. Some (replicate 33 0)), PubKeyAddress = (\<lambda>k. Some \<lparr>ScriptAddress = [], EncodeAddress = []\<rparr>),
     SignTxOutput = (\<lambda>tx i v prev gk gs old. Ok (word_of_int v # prev)),
     SignatureScript_lib = (\<lambda>tx i v rs p. Some (word_of_int v # rs)),
     Script = (\<lambda>ops. ([], None)), NewAddressScriptHash = (\<lambda>b. Some \<lparr>ScriptAddress = b, EncodeAddress = []\<rparr>),
     NewAddressPubKeyHash = (\<lambda>b. Some \<lparr>ScriptAddress = b, EncodeAddress = []\<rparr>), DecodeAddress_lib = (\<lambda>_. None),
     LockTimeToSequence = id\<rparr>"

lemma ex_build_fee: "fee_ok ex_build 1000"
  by (auto simp: fee_ok_def ex_build_def min_def max_def)

definition ex_fetch :: "int \<Rightarrow> (int \<times> TxIn list \<times> unit) go" where
  "ex_fetch t = Ok (10000, [new_txin \<lparr>op_Hash = 1, op_Index = 0\<rparr>], ())"

definition ex_outputs :: "TxOut list" where
  "ex_outputs = [\<lparr>txout_Value = 5000, PkScript = replicate 25 0\<rparr>]"

lemma ex_author:
  "source_ok 1 ex_fetch" "sane_outputs ex_size ex_outputs"
  by (simp_all add: source_ok_def ex_fetch_def sane_outputs_def small_outputs_def ex_outputs_def ex_size_def ex_varint_def)


theorem NewUnsignedTransaction_balanced_witness:
  "\<exists>a. NewUnsignedTransaction ex_build ex_size ex_outputs 1000 ex_fetch (Ok []) = Some (Ok (a, ())) \<and>
    (\<exists>fee dust. TotalInput a = sum_list (map (sint \<circ> txout_Value) (tx_TxOut (a_Tx a))) + fee + dust)"
proof -
  have e: "EstimateSerializeSize ex_size 1 ex_outputs True P2PKH = 219"
    by (simp add: EstimateSerializeSize_def SumOutputSerializeSizes_def ex_size_def ex_outputs_def ex_varint_def redeem_size_def
        size_defs wrap64_id)
  have T: "target_amount ex_outputs = 5000" by (simp add: target_amount_def ex_outputs_def wrap64_id)
  have "\<exists>a. NewUnsignedTransaction ex_build ex_size ex_outputs 1000 ex_fetch (Ok []) = Some (Ok (a, ()))"
    unfolding NewUnsignedTransaction_def
    by (subst author_loop.simps)
      (simp add: e T ex_build_def ex_fetch_def wrap64_id author_finish_def size_defs)
  then obtain a where a: "NewUnsignedTransaction ex_build ex_size ex_outputs 1000 ex_fetch (Ok []) = Some (Ok (a, ()))" ..
  from NewUnsignedTransaction_balanced [OF ex_build_fee ex_author a] a show ?thesis by blast
qed

end
