(* ===== verification/Tx_Spend.thy ===== *)
theory Tx_Spend
  imports Tx_Author "HOL-Library.Multiset"
begin

text \<open>
  What \<open>buildTx\<close> and \<open>SweepAddress\<close> spend, pay and sign.
\<close>

section \<open>Library laws\<close>

text \<open>Sorting reorders the inputs and the outputs; selecting coins takes some of them.\<close>

definition sort_ok :: "('k, 'p) build_lib \<Rightarrow> bool" where
  "sort_ok bl \<longleftrightarrow> (\<forall>tx. mset (tx_TxIn (InPlaceSort bl tx)) = mset (tx_TxIn tx) \<and>
     mset (tx_TxOut (InPlaceSort bl tx)) = mset (tx_TxOut tx))"

definition select_ok :: "('k, 'p) build_lib \<Rightarrow> bool" where
  "select_ok bl \<longleftrightarrow> (\<forall>t coins sel. CoinSelect bl t coins = Some sel \<longrightarrow> mset sel \<subseteq># mset coins)"

text \<open>The spendable outputs of a wallet are positive amounts within the money supply.\<close>

definition funds_ok :: "Utxo list \<Rightarrow> bool" where
  "funds_ok utxos \<longleftrightarrow> keyed utxo_Op utxos \<and> (\<forall>u \<in> set utxos. 0 \<le> sint (utxo_Value u)) \<and>
     sum_list (map (sint \<circ> utxo_Value) utxos) \<le> 2100000000000000 \<and> length utxos < 2 ^ 32"

section \<open>Signing\<close>

lemma set_sig_keeps:
  "i < length (tx_TxIn tx) \<Longrightarrow> tx_TxOut (set_sig tx i sc) = tx_TxOut tx \<and>
     map PreviousOutPoint (tx_TxIn (set_sig tx i sc)) = map PreviousOutPoint (tx_TxIn tx)"
  by (simp add: set_sig_def map_update list_update_same_conv)

lemma sign_loop_keeps:
  "sign_loop sg is tx = Ok tx' \<Longrightarrow> \<forall>i \<in> set is. i < length (tx_TxIn tx) \<Longrightarrow>
     tx_TxOut tx' = tx_TxOut tx \<and> map PreviousOutPoint (tx_TxIn tx') = map PreviousOutPoint (tx_TxIn tx)"
proof (induction "is" arbitrary: tx)
  case (Cons i "is")
  then obtain sc where sc: "sign_loop sg is (set_sig tx i sc) = Ok tx'" by (auto simp: go_bind_Ok)
  have k: "tx_TxOut (set_sig tx i sc) = tx_TxOut tx \<and> map PreviousOutPoint (tx_TxIn (set_sig tx i sc)) = map PreviousOutPoint (tx_TxIn tx)"
    using Cons.prems(2) by (intro set_sig_keeps) simp
  then have "length (tx_TxIn (set_sig tx i sc)) = length (tx_TxIn tx)" by (metis length_map)
  with Cons.IH [OF sc] Cons.prems(2) k show ?case by simp
qed simp

lemma sign_loop_total: "\<forall>i \<in> set is. \<forall>tx. \<exists>sc. sg tx i = Ok sc \<Longrightarrow> \<exists>tx'. sign_loop sg is tx = Ok tx'"
proof (induction "is" arbitrary: tx)
  case (Cons i "is")
  then obtain sc where "sg tx i = Ok sc" by fastforce
  with Cons.IH [of "set_sig tx i sc"] Cons.prems show ?case by simp
qed simp

text \<open>Each input carries the script its round made, over a transaction with the final outpoints.\<close>

lemma sign_loop_sig:
  assumes "sign_loop sg is tx = Ok tx'" "distinct is" "\<forall>i \<in> set is. i < length (tx_TxIn tx)"
  shows "(\<forall>i \<in> set is. \<exists>txi. sg txi i = Ok (SignatureScript (tx_TxIn tx' ! i)) \<and>
      map PreviousOutPoint (tx_TxIn txi) = map PreviousOutPoint (tx_TxIn tx')) \<and>
    (\<forall>j < length (tx_TxIn tx). j \<notin> set is \<longrightarrow> SignatureScript (tx_TxIn tx' ! j) = SignatureScript (tx_TxIn tx ! j))"
  using assms
proof (induction "is" arbitrary: tx)
  case (Cons i "is")
  then obtain sc where sc: "sg tx i = Ok sc" "sign_loop sg is (set_sig tx i sc) = Ok tx'" by (auto simp: go_bind_Ok)
  have len: "length (tx_TxIn (set_sig tx i sc)) = length (tx_TxIn tx)" by (simp add: set_sig_def)
  note IH = Cons.IH [OF sc(2), unfolded len]
  have keep: "map PreviousOutPoint (tx_TxIn tx) = map PreviousOutPoint (tx_TxIn tx')"
    using sign_loop_keeps [OF Cons.prems(1,3)] by simp
  have "SignatureScript (tx_TxIn tx' ! i) = sc"
    using IH Cons.prems(2,3) by (simp add: set_sig_def)
  then have "\<exists>txi. sg txi i = Ok (SignatureScript (tx_TxIn tx' ! i)) \<and> map PreviousOutPoint (tx_TxIn txi) = map PreviousOutPoint (tx_TxIn tx')"
    using sc(1) keep by blast
  moreover have "SignatureScript (tx_TxIn tx' ! j) = SignatureScript (tx_TxIn tx ! j)" if "j < length (tx_TxIn tx)" "j \<notin> set (i # is)" for j
    using IH Cons.prems(2,3) that by (simp add: set_sig_def)
  ultimately show ?case using IH Cons.prems(2,3) by auto
qed simp

section \<open>Coins\<close>

lemma subset_add_mset: "A \<subseteq># B \<Longrightarrow> A \<subseteq># add_mset c B"
  by (metis add_mset_add_single mset_subset_eq_add_left subset_mset.trans)

lemma gather_subseq:
  "gather w h us = Ok m \<Longrightarrow> mset (map fst m) \<subseteq># mset (map (coin_of h) (filter (\<lambda>u. \<not> WatchOnly u) us))"
proof (induction us arbitrary: m)
  case (Cons u us)
  show ?case
  proof (cases "WatchOnly u")
    case True
    with Cons show ?thesis by simp
  next
    case False
    with Cons.prems consider "gather w h us = Ok m" | m' key where "gather w h us = Ok m'" "m = (coin_of h u, key) # m'"
      by (auto simp: go_bind_Ok split: go.splits)
    then show ?thesis using Cons.IH False by cases (auto intro: subset_add_mset)
  qed
qed simp

lemma sel_coin_vals:
  assumes "sel_coin w m c x = Ok x'" "inVals x' p = Some v"
  shows "inVals x p = Some v \<or> coin_op c = p \<and> TxValue c = v"
  using assms by (auto simp: sel_coin_def Let_def split: option.splits if_splits)

lemma sel_coins_spec:
  "sel_coins w m cs amt ins x = Ok (amt', ins', x') \<Longrightarrow>
     amt' = (if cs = [] then amt else wrap64 (amt + sum_list (map TxValue cs))) \<and>
     ins' = ins @ map (new_txin \<circ> coin_op) cs \<and>
     (\<forall>p v. inVals x' p = Some v \<longrightarrow> inVals x p = Some v \<or> (\<exists>c \<in> set cs. coin_op c = p \<and> TxValue c = v))"
proof (induction cs arbitrary: amt ins x)
  case (Cons c cs)
  then obtain x1 where x1: "sel_coin w m c x = Ok x1"
    "sel_coins w m cs (wrap64 (amt + TxValue c)) (ins @ [new_txin (coin_op c)]) x1 = Ok (amt', ins', x')"
    by (auto simp: go_bind_Ok)
  note IH = Cons.IH [OF x1(2)]
  have "amt' = wrap64 (amt + sum_list (map TxValue (c # cs)))" using IH by (auto simp: add.assoc split: if_splits)
  moreover have "\<forall>p v. inVals x' p = Some v \<longrightarrow> inVals x p = Some v \<or> (\<exists>c' \<in> set (c # cs). coin_op c' = p \<and> TxValue c' = v)"
    using IH sel_coin_vals [OF x1(1)] by (metis list.set_intros)
  ultimately show ?case using IH by simp
qed simp

text \<open>The coins of a wallet and their outputs.\<close>

lemma coin_of_simps: "coin_op (coin_of h u) = utxo_Op u" "TxValue (coin_of h u) = sint (utxo_Value u)"
  by (simp_all add: coin_of_def coin_op_def)

lemma gathered_coin:
  assumes "gather w h us = Ok m" "mset cs \<subseteq># mset (map fst m)" "c \<in> set cs"
  shows "\<exists>u \<in> set us. \<not> WatchOnly u \<and> c = coin_of h u"
proof -
  have "mset cs \<subseteq># mset (map (coin_of h) (filter (\<lambda>u. \<not> WatchOnly u) us))"
    using assms(2) gather_subseq [OF assms(1)] by (rule subset_mset.trans)
  then have "set cs \<subseteq> set (map (coin_of h) (filter (\<lambda>u. \<not> WatchOnly u) us))" using set_mset_mono by fastforce
  with assms(3) show ?thesis by auto
qed

lemma sum_list_mset_eq: "mset xs = mset ys \<Longrightarrow> sum_list (map f xs) = sum_list (map (f :: 'a \<Rightarrow> int) ys)"
  by (metis mset_map sum_mset_sum_list)

lemma sum_list_mset_le:
  fixes f :: "'a \<Rightarrow> int"
  assumes "mset xs \<subseteq># mset ys" "\<forall>y \<in> set ys. 0 \<le> f y"
  shows "sum_list (map f xs) \<le> sum_list (map f ys)"
proof -
  obtain zs where zs: "mset ys = mset xs + mset zs" using assms(1) by (metis ex_mset mset_subset_eq_exists_conv)
  then have "sum_list (map f ys) = sum_list (map f xs) + sum_list (map f zs)"
    by (metis mset_append mset_map sum_mset_sum_list map_append sum_list_append)
  moreover have "set zs \<subseteq> set ys" using zs by (metis Un_iff set_mset_mset set_mset_union subsetI)
  then have "0 \<le> sum_list (map f zs)" using assms(2) by (intro sum_list_nonneg) auto
  ultimately show ?thesis by simp
qed

lemma gathered_sum:
  assumes "gather w h us = Ok m" "mset cs \<subseteq># mset (map fst m)" "funds_ok us"
  shows "0 \<le> sum_list (map TxValue cs)" "sum_list (map TxValue cs) \<le> 2100000000000000" "length cs \<le> length us"
proof -
  let ?us = "map (coin_of h) (filter (\<lambda>u. \<not> WatchOnly u) us)"
  have sub: "mset cs \<subseteq># mset ?us" using assms(2) gather_subseq [OF assms(1)] by (rule subset_mset.trans)
  have pos: "\<forall>c \<in> set ?us. 0 \<le> TxValue c" using assms(3) by (auto simp: funds_ok_def coin_of_simps)
  then show "0 \<le> sum_list (map TxValue cs)"
    using set_mset_mono [OF sub] by (intro sum_list_nonneg) auto
  have "sum_list (map TxValue cs) \<le> sum_list (map TxValue ?us)" by (rule sum_list_mset_le [OF sub pos])
  also have "\<dots> \<le> sum_list (map (sint \<circ> utxo_Value) us)"
    using assms(3) unfolding funds_ok_def by (induction us) (auto simp: coin_of_simps keyed_def)
  also have "\<dots> \<le> 2100000000000000" using assms(3) by (simp add: funds_ok_def)
  finally show "sum_list (map TxValue cs) \<le> 2100000000000000" .
  have "size (mset cs) \<le> size (mset ?us)" by (rule size_mset_mono [OF sub])
  then show "length cs \<le> length us" using length_filter_le [of "\<lambda>u. \<not> WatchOnly u" us] by (simp flip: size_mset mset_filter)
qed

lemma inputSource_spec:
  assumes "gatherCoins w = Ok m" "us = fst (Utxos_GetAll (e_ds (w_env w)) (w_s w))" "funds_ok us" "select_ok (w_lib w)"
    and "mset coins = mset (map fst m)" "inputSource w m coins t = Ok (amt, ins, x)"
  shows "\<exists>cs. (\<forall>c \<in> set cs. \<exists>u \<in> set us. \<not> WatchOnly u \<and> coin_op c = utxo_Op u \<and> TxValue c = sint (utxo_Value u)) \<and>
    mset cs \<subseteq># mset coins \<and> amt = sum_list (map TxValue cs) \<and> ins = map (new_txin \<circ> coin_op) cs \<and>
    0 \<le> amt \<and> amt \<le> 2100000000000000 \<and> length cs \<le> length us \<and>
    (\<forall>p v. inVals x p = Some v \<longrightarrow> (\<exists>u \<in> set us. utxo_Op u = p \<and> sint (utxo_Value u) = v))"
proof -
  obtain h where g: "gather w h us = Ok m" using assms(1,2) by (auto simp: gatherCoins_def)
  obtain cs where cs: "CoinSelect (w_lib w) t coins = Some cs" "sel_coins w m cs 0 [] sel_empty = Ok (amt, ins, x)"
    using assms(6) by (auto simp: inputSource_def split: option.splits)
  have sub: "mset cs \<subseteq># mset coins" using assms(4) cs(1) by (auto simp: select_ok_def)
  then have sub': "mset cs \<subseteq># mset (map fst m)" by (simp add: assms(5))
  note sum = gathered_sum [OF g sub' assms(3)]
  note coin = gathered_coin [OF g sub']
  note spec = sel_coins_spec [OF cs(2)]
  have "amt = sum_list (map TxValue cs)" using spec sum by (auto simp: wrap64_id)
  moreover have "\<exists>u \<in> set us. utxo_Op u = p \<and> sint (utxo_Value u) = v" if "inVals x p = Some v" for p v
  proof -
    have "\<exists>c \<in> set cs. coin_op c = p \<and> TxValue c = v" using spec that by (auto simp: sel_empty_def)
    then show ?thesis using coin coin_of_simps by metis
  qed
  moreover have "\<forall>c \<in> set cs. \<exists>u \<in> set us. \<not> WatchOnly u \<and> coin_op c = utxo_Op u \<and> TxValue c = sint (utxo_Value u)"
    using coin coin_of_simps by metis
  ultimately show ?thesis using spec sum sub by auto
qed

lemma inputSource_ok:
  assumes "gatherCoins w = Ok m" "us = fst (Utxos_GetAll (e_ds (w_env w)) (w_s w))" "funds_ok us" "select_ok (w_lib w)"
    and "mset coins = mset (map fst m)"
  shows "source_ok (length us) (inputSource w m coins)"
  unfolding source_ok_def using inputSource_spec [OF assms] by fastforce

section \<open>Building a transaction\<close>

text \<open>What \<open>buildTx\<close> goes through.\<close>

lemma buildTx_Ok:
  assumes "buildTx w perm amount addr lvl None = Some (Ok tx)"
  shows "\<exists>m a x kb. gatherCoins w = Ok m \<and>
    NewUnsignedTransaction (w_lib w) (w_size w)
      [\<lparr>txout_Value = word_of_int amount, PkScript = (case pay_script (w_env w) addr of None \<Rightarrow> [] | Some sc \<Rightarrow> sc)\<rparr>] kb
      (inputSource w m (perm (map fst m))) (changeSource w) = Some (Ok (a, x)) \<and>
    kb = wrap64 (wrap64 (uint (wallet_fee w lvl)) * 1000) \<and>
    sign_loop (build_sign w x) [0..<length (tx_TxIn (InPlaceSort (w_lib w) (a_Tx a)))] (InPlaceSort (w_lib w) (a_Tx a)) = Ok tx"
  using assms by (auto simp: buildTx_def Let_def split: if_splits go.splits option.splits)

text \<open>The value of an input is that of the utxo it spends.\<close>

lemma input_value_utxo:
  assumes "keyed utxo_Op us" "u \<in> set us" "PreviousOutPoint i = utxo_Op u"
  shows "input_value us i = sint (utxo_Value u)"
proof -
  have "find (\<lambda>v. op_Hash (utxo_Op v) = op_Hash (PreviousOutPoint i) \<and> op_Index (utxo_Op v) = op_Index (PreviousOutPoint i)) us = Some u"
  proof (cases "find (\<lambda>v. op_Hash (utxo_Op v) = op_Hash (PreviousOutPoint i) \<and> op_Index (utxo_Op v) = op_Index (PreviousOutPoint i)) us")
    case None
    then show ?thesis using assms(2,3) by (auto simp: find_None_iff)
  next
    case (Some v)
    then have "v \<in> set us" "utxo_Op v = utxo_Op u" using assms(3) by (auto simp: find_Some_iff OutPoint_eq_iff)
    then have "v = u" using assms(1,2) keyed_eqD by metis
    with Some show ?thesis by simp
  qed
  then show ?thesis by (simp add: input_value_def)
qed

lemma sum_input_values:
  assumes "keyed utxo_Op us" "\<forall>c \<in> set cs. \<exists>u \<in> set us. coin_op c = utxo_Op u \<and> TxValue c = sint (utxo_Value u)"
    and "mset (map PreviousOutPoint ins) = mset (map coin_op cs)"
  shows "sum_list (map (input_value us) ins) = sum_list (map TxValue cs)"
proof -
  have val: "input_value us i = input_value us (new_txin (PreviousOutPoint i))" for i
    by (simp add: input_value_def new_txin_def)
  have "sum_list (map (input_value us) ins) = sum_list (map (\<lambda>p. input_value us (new_txin p)) (map PreviousOutPoint ins))"
    using val by (simp add: comp_def)
  also have "\<dots> = sum_list (map (\<lambda>p. input_value us (new_txin p)) (map coin_op cs))"
    by (rule sum_list_mset_eq [OF assms(3)])
  also have "\<dots> = sum_list (map TxValue cs)"
  proof -
    have "input_value us (new_txin (coin_op c)) = TxValue c" if c: "c \<in> set cs" for c
    proof -
      obtain u where u: "u \<in> set us" "coin_op c = utxo_Op u" "TxValue c = sint (utxo_Value u)" using assms(2) c by blast
      show ?thesis using input_value_utxo [OF assms(1) u(1), of "new_txin (coin_op c)"] u(2,3) by (simp add: new_txin_def)
    qed
    then show ?thesis by (simp add: comp_def cong: map_cong)
  qed
  finally show ?thesis .
qed

text \<open>Sorting and signing change neither the outputs nor what is spent.\<close>

lemma signed_sorted:
  assumes "sort_ok bl" "sign_loop f [0..<length (tx_TxIn (InPlaceSort bl tx0))] (InPlaceSort bl tx0) = Ok tx"
  shows "mset (map PreviousOutPoint (tx_TxIn tx)) = mset (map PreviousOutPoint (tx_TxIn tx0))" "mset (tx_TxOut tx) = mset (tx_TxOut tx0)"
proof -
  have "tx_TxOut tx = tx_TxOut (InPlaceSort bl tx0)"
    "map PreviousOutPoint (tx_TxIn tx) = map PreviousOutPoint (tx_TxIn (InPlaceSort bl tx0))"
    using sign_loop_keeps [OF assms(2)] by simp_all
  moreover have "mset (tx_TxIn (InPlaceSort bl tx0)) = mset (tx_TxIn tx0)" "mset (tx_TxOut (InPlaceSort bl tx0)) = mset (tx_TxOut tx0)"
    using assms(1) by (simp_all add: sort_ok_def)
  ultimately show "mset (map PreviousOutPoint (tx_TxIn tx)) = mset (map PreviousOutPoint (tx_TxIn tx0))" "mset (tx_TxOut tx) = mset (tx_TxOut tx0)"
    by (metis mset_map, simp)
qed

lemma coins_spent:
  assumes "keyed utxo_Op us" "mset (map PreviousOutPoint ins) = mset (map coin_op cs)"
    "\<forall>c \<in> set cs. \<exists>u \<in> set us. \<not> WatchOnly u \<and> coin_op c = utxo_Op u \<and> TxValue c = sint (utxo_Value u)"
  shows "\<forall>i \<in> set ins. \<exists>u \<in> set us. \<not> WatchOnly u \<and> utxo_Op u = PreviousOutPoint i"
    "sum_list (map (input_value us) ins) = sum_list (map TxValue cs)" "length ins = length cs"
proof -
  have "set (map PreviousOutPoint ins) = set (map coin_op cs)" using assms(2) by (rule mset_eq_setD)
  then show "\<forall>i \<in> set ins. \<exists>u \<in> set us. \<not> WatchOnly u \<and> utxo_Op u = PreviousOutPoint i"
    using assms(3) by (metis (no_types, lifting) image_eqI image_iff set_map)
  show "sum_list (map (input_value us) ins) = sum_list (map TxValue cs)" by (rule sum_input_values [OF assms(1) _ assms(2)]) (use assms(3) in auto)
  show "length ins = length cs" using assms(2) by (metis length_map size_mset)
qed


text \<open>A wallet with one output of 5000 satoshis.\<close>

definition ex_coin :: Utxo where
  "ex_coin = \<lparr>utxo_Op = \<lparr>op_Hash = 5, op_Index = 1\<rparr>, AtHeight = 100, utxo_Value = 5000,
     ScriptPubkey = [118, 1, 0, 0], WatchOnly = False\<rparr>"

definition ex_wallet :: "(sqldb, u32 list, u32 list) spv" where
  "ex_wallet = \<lparr>w_env = ex_env, w_lib = ex_build, w_size = ex_size, feeProvider = NewFeeProvider 100 3 1 1, w_Height = Ok 120,
     w_ts = ex_ts0, w_s = snd (UtxoDB_Put ex_lib ex_coin ex_keydb), w_peers = [7]\<rparr>"

definition ex_payee :: Address where
  "ex_payee = \<lparr>ScriptAddress = [9], EncodeAddress = []\<rparr>"

lemma ex_laws: "select_ok ex_build" "sort_ok ex_build"
  by (auto simp: select_ok_def sort_ok_def ex_build_def split: if_splits)

lemma ex_wallet_db:
  "sql_inv ex_lib (w_s ex_wallet)" "fst (UtxoDB_GetAll ex_lib (w_s ex_wallet)) = [ex_coin]"
  "v_keys (sql_view ex_lib (w_s ex_wallet)) = v_keys (sql_view ex_lib ex_keydb)"
proof -
  have "v_utxos (sql_view ex_lib ex_keydb) = []"
    by (simp add: sql_view_def ex_keydb_def KeysDB_Put_def KeysDB_insert_def initDatabaseTables_def UtxoDB_GetAll_def map_filter_def)
  with sql_Utxos_Put [OF ex_keydb(1), of ex_coin] show
    "sql_inv ex_lib (w_s ex_wallet)" "fst (UtxoDB_GetAll ex_lib (w_s ex_wallet)) = [ex_coin]"
    "v_keys (sql_view ex_lib (w_s ex_wallet)) = v_keys (sql_view ex_lib ex_keydb)"
    by (auto simp: ex_wallet_def upsert_def sql_view_def)
qed

lemma ex_gather: "\<exists>k. gatherCoins ex_wallet = Ok [(coin_of 120 ex_coin, k)]"
proof -
  have "derived_addr ex_hd ex_km 1 2 = Some [1, 0, 0]" by code_simp
  then have "keys_ok ex_hd ex_km (2 ^ 32) (v_keys (sql_view ex_lib (w_s ex_wallet)))"
    unfolding ex_wallet_db(3) by (simp add: ex_keydb keys_ok_def row_ok_def hd_purpose_def next_index_def)
  from sqlite.GetKeyForScript_ok [OF ex_wallet_db(1) this, of "\<lparr>kr_script = [1, 0, 0], kr_path = \<lparr>kp_Purpose = 1, kp_Index = 2\<rparr>, kr_used = False, kr_key = None\<rparr>"]
  obtain k where "GetKeyForScript (SQLiteDatastore ex_lib) ex_hd ex_km [1, 0, 0] (w_s ex_wallet) = Ok k"
    by (auto simp: ex_wallet_db(3) ex_keydb(2) hd_purpose_def)
  moreover have "scriptToAddress ex_sl (ScriptPubkey ex_coin) = Ok \<lparr>ScriptAddress = [1, 0, 0], EncodeAddress = []\<rparr>"
    by (simp add: scriptToAddress_def ex_sl_def ex_coin_def)
  moreover have "w_env ex_wallet = ex_env" "w_Height ex_wallet = Ok 120" "\<not> WatchOnly ex_coin"
    by (simp_all add: ex_wallet_def ex_coin_def)
  moreover have "fst (Utxos_GetAll (SQLiteDatastore ex_lib) (w_s ex_wallet)) = [ex_coin]"
    using ex_wallet_db(2) by (simp add: SQLiteDatastore_def)
  ultimately show ?thesis by (simp add: gatherCoins_def ex_env_def)
qed

lemma ex_funds: "funds_ok [ex_coin]"
  by (simp add: funds_ok_def keyed_def ex_coin_def)

definition ex_out :: TxOut where
  "ex_out = \<lparr>txout_Value = 4500, PkScript = [118, 9]\<rparr>"

lemma ex_source:
  assumes "gatherCoins ex_wallet = Ok [(coin_of 120 ex_coin, k)]" "t \<le> 5000"
  shows "\<exists>x. inputSource ex_wallet [(coin_of 120 ex_coin, k)] [coin_of 120 ex_coin] t = Ok (5000, [new_txin (utxo_Op ex_coin)], x)"
  using assms(2) by (simp add: inputSource_def ex_wallet_def ex_build_def sel_coin_def Let_def coin_of_simps ex_coin_def
      ex_env_def ex_hd_def wrap64_id)

lemma ex_buildTx: "\<exists>tx. buildTx ex_wallet id 4500 (Some ex_payee) NORMAL None = Some (Ok tx)"
proof -
  obtain k where k: "gatherCoins ex_wallet = Ok [(coin_of 120 ex_coin, k)]" using ex_gather ..
  have e: "EstimateSerializeSize ex_size 1 [ex_out] True P2PKH = 196"
    by (simp add: EstimateSerializeSize_def SumOutputSerializeSizes_def ex_size_def ex_out_def ex_varint_def redeem_size_def
        size_defs wrap64_id)
  obtain x where x: "inputSource ex_wallet [(coin_of 120 ex_coin, k)] [coin_of 120 ex_coin] 4696 = Ok (5000, [new_txin (utxo_Op ex_coin)], x)"
    using ex_source [OF k, of 4696] by auto
  have T: "target_amount [ex_out] = 4500" by (simp add: target_amount_def ex_out_def wrap64_id)
  have s: "w_size ex_wallet = ex_size" "w_lib ex_wallet = ex_build" by (simp_all add: ex_wallet_def)
  have "\<exists>a. NewUnsignedTransaction ex_build ex_size [ex_out] 1000
      (inputSource ex_wallet [(coin_of 120 ex_coin, k)] [coin_of 120 ex_coin]) (changeSource ex_wallet) = Some (Ok (a, x))"
    unfolding NewUnsignedTransaction_def
    by (subst author_loop.simps) (simp add: e T x ex_build_def wrap64_id author_finish_def size_defs)
  then obtain a where a: "NewUnsignedTransaction ex_build ex_size [ex_out] 1000
      (inputSource ex_wallet [(coin_of 120 ex_coin, k)] [coin_of 120 ex_coin]) (changeSource ex_wallet) = Some (Ok (a, x))" ..
  have "\<exists>sc. build_sign ex_wallet x tx i = Ok sc" for tx i
    by (simp add: build_sign_def fail_with_def Let_def s(2)) (simp add: ex_build_def)
  then have "\<exists>tx'. sign_loop (build_sign ex_wallet x) is tx = Ok tx'" for "is" tx
    by (intro sign_loop_total) simp
  moreover have "pay_script (w_env ex_wallet) (Some ex_payee) = Some [118, 9]" "wallet_fee ex_wallet NORMAL = 1"
    by (simp_all add: pay_script_def ex_wallet_def ex_env_def ex_sl_def ex_payee_def wallet_fee_def GetFeePerByte_def NewFeeProvider_def)
  moreover have "\<not> IsDustAmount ex_build 4500 2" by (simp add: ex_build_def)
  ultimately show ?thesis using a by (simp add: buildTx_def k s wrap64_id ex_out_def Let_def)
qed


section \<open>Sweeping\<close>

lemma fail_with_Ok: "fail_with msg r = Ok x \<longleftrightarrow> r = Ok x"
  by (simp add: fail_with_def split: go.split)

lemma sweep_tx_loop:
  assumes "sweep_inputs (w_env w) ins = Ok (inputs, prev)" "ECPrivKey (w_lib w) key = Some privKey"
  shows "\<exists>outs. sweep_tx w ins script key None lvl =
    (let tx = InPlaceSort (w_lib w) \<lparr>tx_Version = 1, tx_TxIn = inputs, tx_TxOut = outs, tx_LockTime = 0\<rparr>
     in sign_loop (sweep_sign w ins prev key privKey None False) [0..<length (tx_TxIn tx)] tx)"
  unfolding sweep_tx_def sweep_type_def sweep_lock_def assms go_bind.simps prod.case option.case Let_def by blast

text \<open>The amount a signature of a sweep commits to.\<close>

definition signs_amount :: "('s, 'k, 'p) spv \<Rightarrow> MsgTx \<Rightarrow> nat \<Rightarrow> int \<Rightarrow> bool" where
  "signs_amount w tx i v \<longleftrightarrow> (\<exists>txi prev gk gs old. map PreviousOutPoint (tx_TxIn txi) = map PreviousOutPoint (tx_TxIn tx) \<and>
     SignTxOutput (w_lib w) txi i v prev gk gs old = Ok (SignatureScript (tx_TxIn tx ! i)))"

text \<open>Each input of a sweep without a redeem script is signed for the value of the argument at its
  position, although the inputs were sorted before: the outpoint it spends is the one sorting put
  there, not that of the argument.\<close>

theorem SweepAddress_amounts:
  assumes "sweep_inputs (w_env w) ins = Ok (inputs, prev)" "sweep_tx w ins script key None lvl = Ok tx" "i < length (tx_TxIn tx)"
  shows "i < length ins \<and> signs_amount w tx i (sint (tin_Value (ins ! i))) \<and>
    (\<exists>outs. map PreviousOutPoint (tx_TxIn tx) =
       map PreviousOutPoint (tx_TxIn (InPlaceSort (w_lib w) \<lparr>tx_Version = 1, tx_TxIn = inputs, tx_TxOut = outs, tx_LockTime = 0\<rparr>)))"
proof -
  from assms(1,2) obtain privKey where k: "ECPrivKey (w_lib w) key = Some privKey"
    by (auto simp: sweep_tx_def sweep_type_def Let_def split: option.splits)
  from sweep_tx_loop [OF assms(1) k, of script lvl] assms(2) obtain outs where
    s: "sign_loop (sweep_sign w ins prev key privKey None False)
      [0..<length (tx_TxIn (InPlaceSort (w_lib w) \<lparr>tx_Version = 1, tx_TxIn = inputs, tx_TxOut = outs, tx_LockTime = 0\<rparr>))]
      (InPlaceSort (w_lib w) \<lparr>tx_Version = 1, tx_TxIn = inputs, tx_TxOut = outs, tx_LockTime = 0\<rparr>) = Ok tx"
    by (auto simp: Let_def)
  let ?t = "InPlaceSort (w_lib w) \<lparr>tx_Version = 1, tx_TxIn = inputs, tx_TxOut = outs, tx_LockTime = 0\<rparr>"
  have keep: "map PreviousOutPoint (tx_TxIn tx) = map PreviousOutPoint (tx_TxIn ?t)"
    using sign_loop_keeps [OF s] by simp
  then have "i \<in> set [0..<length (tx_TxIn ?t)]" using assms(3) by (metis length_map atLeastLessThan_iff set_upt zero_le)
  with sign_loop_sig [OF s] obtain txi where t: "sweep_sign w ins prev key privKey None False txi i = Ok (SignatureScript (tx_TxIn tx ! i))"
    "map PreviousOutPoint (tx_TxIn txi) = map PreviousOutPoint (tx_TxIn tx)" by fastforce
  then have "i < length ins" "signs_amount w tx i (sint (tin_Value (ins ! i)))"
    by (auto simp: sweep_sign_def go_bind_Ok go_index_def fail_with_Ok signs_amount_def split: if_splits) blast
  with keep show ?thesis by blast
qed

definition ex_swept :: "TransactionInput list" where
  "ex_swept = [\<lparr>OutpointHash = [1], OutpointIndex = 0, LinkedAddress = Some ex_payee, tin_Value = 10000\<rparr>,
     \<lparr>OutpointHash = [2], OutpointIndex = 0, LinkedAddress = Some ex_payee, tin_Value = 77\<rparr>]"

lemma ex_sweep_inputs:
  "\<exists>prev. sweep_inputs (w_env ex_wallet) ex_swept =
     Ok ([new_txin \<lparr>op_Hash = 2, op_Index = 0\<rparr>, new_txin \<lparr>op_Hash = 0, op_Index = 0\<rparr>], prev)"
proof -
  have "bit_parse ''01'' = Some 2" "bit_parse ''02'' = Some 0" by (simp_all add: bit_parse_def)
  moreover have "hex_EncodeToString [1] = ''01''" "hex_EncodeToString [2] = ''02''" by code_simp+
  moreover have "hashFromStr (e_lib (w_env ex_wallet)) = bit_parse" "pay_script (w_env ex_wallet) (Some ex_payee) = Some [118, 9]"
    by (simp_all add: ex_wallet_def ex_env_def ex_lib_def pay_script_def ex_sl_def ex_payee_def)
  ultimately show ?thesis by (simp add: ex_swept_def Let_def del: hex_EncodeToString.simps)
qed

text \<open>The output of 77 satoshis is signed as one of 10000.\<close>

theorem SweepAddress_amounts_witness:
  "\<exists>tx. sweep_tx ex_wallet ex_swept [118, 9] [] None NORMAL = Ok tx \<and>
     PreviousOutPoint (tx_TxIn tx ! 0) = \<lparr>op_Hash = 0, op_Index = 0\<rparr> \<and> signs_amount ex_wallet tx 0 10000"
proof -
  obtain prev where p: "sweep_inputs (w_env ex_wallet) ex_swept =
     Ok ([new_txin \<lparr>op_Hash = 2, op_Index = 0\<rparr>, new_txin \<lparr>op_Hash = 0, op_Index = 0\<rparr>], prev)" using ex_sweep_inputs ..
  have s: "w_lib ex_wallet = ex_build" by (simp add: ex_wallet_def)
  have g: "\<exists>sc. sweep_sign ex_wallet ex_swept prev [] k None False txi i = Ok sc" if "i < 2" for txi i k
    using that by (simp add: sweep_sign_def go_index_def fail_with_def s ex_swept_def) (simp add: ex_build_def)
  have len: "length (tx_TxIn (InPlaceSort ex_build tx)) = length (tx_TxIn tx)" for tx by (simp add: ex_build_def)
  have "ECPrivKey (w_lib ex_wallet) [] = Some []" by (simp add: ex_wallet_def ex_build_def)
  from sweep_tx_loop [OF p this, of "[118, 9]" NORMAL] obtain outs where t: "sweep_tx ex_wallet ex_swept [118, 9] [] None NORMAL =
    (let tx = InPlaceSort ex_build \<lparr>tx_Version = 1, tx_TxIn = [new_txin \<lparr>op_Hash = 2, op_Index = 0\<rparr>, new_txin \<lparr>op_Hash = 0, op_Index = 0\<rparr>],
        tx_TxOut = outs, tx_LockTime = 0\<rparr>
     in sign_loop (sweep_sign ex_wallet ex_swept prev [] [] None False) [0..<length (tx_TxIn tx)] tx)" unfolding s by blast
  have "\<exists>tx. sweep_tx ex_wallet ex_swept [118, 9] [] None NORMAL = Ok tx"
    unfolding t Let_def by (rule sign_loop_total) (simp add: len g)
  then have "\<exists>tx. sweep_tx ex_wallet ex_swept [118, 9] [] None NORMAL = Ok tx \<and> length (tx_TxIn tx) = 2"
    unfolding t Let_def using sign_loop_keeps [THEN conjunct2, THEN arg_cong [of _ _ length]] by (fastforce simp: len)
  then obtain tx where tx: "sweep_tx ex_wallet ex_swept [118, 9] [] None NORMAL = Ok tx" "length (tx_TxIn tx) = 2" by blast
  from SweepAddress_amounts [OF p tx(1), of 0] tx(2) have "signs_amount ex_wallet tx 0 10000"
    "map PreviousOutPoint (tx_TxIn tx) = [\<lparr>op_Hash = 0, op_Index = 0\<rparr>, \<lparr>op_Hash = 2, op_Index = 0\<rparr>]"
    by (simp_all add: s) (simp_all add: ex_swept_def ex_build_def new_txin_def)
  with tx show ?thesis by (auto dest: arg_cong [of _ _ hd] simp: hd_conv_nth)
qed

end
