(* ===== verification/Wire_Service.thy ===== *)
theory Wire_Service
  imports Tx_Ingest Chain_Rules Merkle_Block "HOL-Library.AList"
begin

text \<open>
  The wire service, \<^verbatim>\<open>src/eight333.go\<close>: the single-threaded state machine that talks to the peers.  It
  downloads headers and merkle blocks from one sync peer, requests the transactions a block
  announces, and hands them to the transaction store.  The messages it takes are the datatype
  \<open>ws_msg\<close>, one handler each; what it sends to a peer or to a listener is the datatype \<open>action\<close>.
  A peer is a number; what the peer library knows of it is part of the environment \<open>ws_env\<close>, but for
  the height it reports (\<open>LastBlock\<close>), which the service updates.  The record \<open>WireService\<close> holds, beside
  the fields of the struct, the state of the transaction store, of the datastore and of the header
  store.  \<open>now\<close> is the reading of the clock, the same during one message.  The header store returns a
  header or an error and does not panic.
\<close>

section \<open>Messages, actions and state\<close>

datatype inv_type = InvTypeTx | InvTypeBlock | InvTypeFilteredBlock | InvTypeOther

record InvVect =
  iv_Type :: inv_type
  iv_Hash :: hash

record heightAndTime =
  ht_height :: u32
  ht_timestamp :: go_time

datatype ws_msg =
    newPeerMsg nat
  | donePeerMsg nat
  | headersMsg nat "BlockHeader list"
  | merkleBlockMsg nat MsgMerkleBlock
  | invMsg nat "InvVect list"
  | txMsg nat MsgTx
  | updateFiltersMsg

datatype action =
    Disconnect nat
  | PushGetHeadersMsg nat "hash list"
  | PushGetBlocksMsg nat "hash list"
  | QueueFilter nat "u32 \<times> filter_elem list"
  | QueueInv nat "hash list"
  | QueueGetData nat "InvVect list"
  | UpdateLastAnnouncedBlock nat hash
  | AddKnownInventory nat InvVect
  | OnBlock nat BlockCallback
  | OnTx event

record peerSyncState =
  syncCandidate :: bool
  requestQueue :: "InvVect list"
  ps_requestedTxns :: "(hash \<times> heightAndTime) list"
  ps_requestedBlocks :: "hash set"
  falsePositives :: u32
  blockScore :: i32

record ('s, 'h) WireService =
  syncPeer :: "nat option"
  peerStates :: "(nat \<times> peerSyncState) list"
  ws_requestedTxns :: "(hash \<times> heightAndTime) list"
  ws_requestedBlocks :: "hash set"
  mempool :: "hash set"
  showTipOnly :: "nat \<Rightarrow> bool option"
  ws_listeners :: "nat option list"
  ws_ts :: TxStore
  ws_s :: 's
  ws_h :: 'h
  LastBlock :: "nat \<Rightarrow> i32"

text \<open>
  \<open>peer_order\<close>, \<open>pending_order\<close> and \<open>pick\<close> stand for the order in which Go iterates over a map;
  \<open>peer_Host\<close> is the host part of the address of a peer, when it has one.
\<close>

record ('s, 'k, 'h) ws_env =
  we_ts :: "('s, 'k) ts_env"
  we_hs :: "'h headers_if"
  we_b :: Blockchain
  we_dh :: "bytes \<Rightarrow> hash"
  walletCreationDate :: go_time
  minPeersForSync :: int
  MaxInvPerMsg :: nat
  peer_Services :: "nat \<Rightarrow> u64"
  peer_Host :: "nat \<Rightarrow> string option"
  UpdateLastBlockHeight :: "i32 \<Rightarrow> i32 \<Rightarrow> i32"
  peer_order :: "nat list \<Rightarrow> nat list"
  pending_order :: "hash list \<Rightarrow> hash list"
  pick :: "hash list \<Rightarrow> hash"

type_synonym ('s, 'h) ws_result = "(('s, 'h) WireService \<times> action list) run"

definition NewWireService :: "TxStore \<Rightarrow> 's \<Rightarrow> 'h \<Rightarrow> (nat \<Rightarrow> i32) \<Rightarrow> ('s, 'h) WireService" where
  "NewWireService ts s h heights =
     \<lparr>syncPeer = None, peerStates = [], ws_requestedTxns = [], ws_requestedBlocks = {}, mempool = {},
      showTipOnly = (\<lambda>_. None), ws_listeners = [], ws_ts = ts, ws_s = s, ws_h = h, LastBlock = heights\<rparr>"

definition set_peer :: "nat \<Rightarrow> peerSyncState \<Rightarrow> ('s, 'h) WireService \<Rightarrow> ('s, 'h) WireService" where
  "set_peer p st ws = ws\<lparr>peerStates := AList.update p st (peerStates ws)\<rparr>"

text \<open>The limit on a map depends on the type of its values: only two types are known to it.\<close>

datatype any_map =
    MapStruct "hash list"
  | MapU32 "(hash \<times> u32) list"
  | MapHeightAndTime "(hash \<times> heightAndTime) list"

definition limitMap :: "(hash list \<Rightarrow> hash) \<Rightarrow> any_map \<Rightarrow> nat \<Rightarrow> any_map" where
  "limitMap pk i limit =
     (case i of
        MapStruct m \<Rightarrow> if limit < length m + 1 \<and> m \<noteq> [] then MapStruct (remove1 (pk m) m) else i
      | MapU32 n \<Rightarrow> if limit < length n + 1 \<and> n \<noteq> [] then MapU32 (AList.delete (pk (map fst n)) n) else i
      | _ \<Rightarrow> i)"

text \<open>A transaction is entered as requested, and the map limited.\<close>

definition request_txn ::
    "('s, 'k, 'h) ws_env \<Rightarrow> hash \<Rightarrow> heightAndTime \<Rightarrow> (hash \<times> heightAndTime) list \<Rightarrow> (hash \<times> heightAndTime) list" where
  "request_txn env txid ht m =
     (case limitMap (pick env) (MapHeightAndTime (AList.update txid ht m)) (MaxInvPerMsg env) of
        MapHeightAndTime m' \<Rightarrow> m' | _ \<Rightarrow> [])"

section \<open>Sync\<close>

definition isSyncCandidate :: "('s, 'k, 'h) ws_env \<Rightarrow> nat \<Rightarrow> bool" where
  "isSyncCandidate env p =
     (if p_Net (b_params (we_b env)) = RegressionNet
      then (case peer_Host env p of None \<Rightarrow> False | Some host \<Rightarrow> host = ''127.0.0.1'' \<or> host = ''localhost'')
      else peer_Services env p AND 1 = 1)"

definition Current :: "('s, 'k, 'h) ws_env \<Rightarrow> go_time \<Rightarrow> ('s, 'h) WireService \<Rightarrow> bool" where
  "Current env now ws =
     (case BestBlock (we_hs env) (ws_h ws) of
        Ok best \<Rightarrow>
          \<not> hdr_Timestamp (sh_header best) < now - 24 * 3600 * nano \<and>
          (\<forall>p \<in> set (map fst (peerStates ws)). \<not> sh_height best <s LastBlock ws p)
      | _ \<Rightarrow> False)"

text \<open>An error of \<open>GetPendingInv\<close> comes with a nil message, which is then read.\<close>

definition Rebroadcast :: "('s, 'k, 'h) ws_env \<Rightarrow> ('s, 'h) WireService \<Rightarrow> action list run" where
  "Rebroadcast env ws =
     (case GetPendingInv (we_ts env) (pending_order env) (MaxInvPerMsg env) (ws_s ws) of
        Ok [] \<Rightarrow> Ret []
      | Ok ids \<Rightarrow> Ret (map (\<lambda>p. QueueInv p ids) (peer_order env (map fst (peerStates ws))))
      | _ \<Rightarrow> Panics)"

text \<open>The loop over the peers: the best candidate so far and its height.\<close>

fun choose_peer ::
    "u32 \<Rightarrow> nat list \<Rightarrow> nat option \<Rightarrow> i32 \<Rightarrow> ('s, 'h) WireService \<Rightarrow> nat option \<times> ('s, 'h) WireService" where
  "choose_peer height [] bestPeer bestPeerHeight ws = (bestPeer, ws)"
| "choose_peer height (p # ps) bestPeer bestPeerHeight ws =
     (case map_of (peerStates ws) p of
        None \<Rightarrow> choose_peer height ps bestPeer bestPeerHeight ws
      | Some st \<Rightarrow>
          if \<not> syncCandidate st then choose_peer height ps bestPeer bestPeerHeight ws
          else if LastBlock ws p <s height
          then choose_peer height ps bestPeer bestPeerHeight (set_peer p (st\<lparr>syncCandidate := False\<rparr>) ws)
          else if bestPeerHeight <s LastBlock ws p then choose_peer height ps (Some p) (LastBlock ws p) ws
          else choose_peer height ps bestPeer bestPeerHeight ws)"

definition cutoff :: "('s, 'k, 'h) ws_env \<Rightarrow> go_time" where
  "cutoff env = walletCreationDate env - 24 * 7 * 3600 * nano"

definition start_from ::
    "('s, 'k, 'h) ws_env \<Rightarrow> StoredHeader \<Rightarrow> nat \<Rightarrow> ('s, 'h) WireService \<Rightarrow> ('s, 'h) WireService \<times> action list" where
  "start_from env bestBlock p ws =
     (let locator = GetBlockLocator (we_hs env) (b_hl (we_b env)) (ws_h ws) in
      (ws\<lparr>syncPeer := Some p, ws_requestedBlocks := {}\<rparr>,
       [if hdr_Timestamp (sh_header bestBlock) < cutoff env then PushGetHeadersMsg p locator else PushGetBlocksMsg p locator]))"

definition startSync :: "('s, 'k, 'h) ws_env \<Rightarrow> nat option \<Rightarrow> ('s, 'h) WireService \<Rightarrow> ('s, 'h) ws_result" where
  "startSync env sp ws =
     (if int (length (peerStates ws)) < minPeersForSync env then Ret (ws, [])
      else run_bind (Rebroadcast env ws) (\<lambda>acts.
           case BestBlock (we_hs env) (ws_h ws) of
             Ok bestBlock \<Rightarrow>
               (let (bestPeer, ws1) =
                      (case sp of
                         None \<Rightarrow> choose_peer (sh_height bestBlock) (peer_order env (map fst (peerStates ws))) None 0 ws
                       | Some p \<Rightarrow> (Some p, ws))
                in case bestPeer of
                     None \<Rightarrow> Ret (ws1, acts)
                   | Some p \<Rightarrow> (let (ws2, acts2) = start_from env bestBlock p ws1 in Ret (ws2, acts @ acts2)))
           | _ \<Rightarrow> Ret (ws, acts)))"

definition Resync :: "('s, 'k, 'h) ws_env \<Rightarrow> ('s, 'h) WireService \<Rightarrow> ('s, 'h) ws_result" where
  "Resync env ws = startSync env (syncPeer ws) ws"

definition Stop :: "('s, 'h) WireService \<Rightarrow> ('s, 'h) WireService" where
  "Stop ws = ws\<lparr>syncPeer := None\<rparr>"

section \<open>Peers and filters\<close>

definition updateFilterAndSend :: "('s, 'k, 'h) ws_env \<Rightarrow> nat \<Rightarrow> ('s, 'h) WireService \<Rightarrow> ('s, 'h) ws_result" where
  "updateFilterAndSend env p ws =
     run_bind (GimmeFilter (we_ts env) (ws_ts ws) (ws_s ws)) (\<lambda>(r, ts).
       case r of
         Ok f \<Rightarrow> Ret (ws\<lparr>ws_ts := ts\<rparr>, [QueueFilter p f])
       | Err _ \<Rightarrow> Ret (ws\<lparr>ws_ts := ts\<rparr>, [])
       | Panic \<Rightarrow> Panics)"

fun update_filters :: "('s, 'k, 'h) ws_env \<Rightarrow> nat list \<Rightarrow> ('s, 'h) WireService \<Rightarrow> ('s, 'h) ws_result" where
  "update_filters env [] ws = Ret (ws, [])"
| "update_filters env (p # ps) ws =
     run_bind (updateFilterAndSend env p ws) (\<lambda>(ws1, a1).
     run_bind (update_filters env ps ws1) (\<lambda>(ws2, a2). Ret (ws2, a1 @ a2)))"

definition handleUpdateFiltersMsg :: "('s, 'k, 'h) ws_env \<Rightarrow> ('s, 'h) WireService \<Rightarrow> ('s, 'h) ws_result" where
  "handleUpdateFiltersMsg env ws = update_filters env (peer_order env (map fst (peerStates ws))) ws"

definition new_state :: "bool \<Rightarrow> peerSyncState" where
  "new_state cand = \<lparr>syncCandidate = cand, requestQueue = [], ps_requestedTxns = [], ps_requestedBlocks = {},
     falsePositives = 0, blockScore = 0\<rparr>"

definition handleNewPeerMsg :: "('s, 'k, 'h) ws_env \<Rightarrow> go_time \<Rightarrow> nat \<Rightarrow> ('s, 'h) WireService \<Rightarrow> ('s, 'h) ws_result" where
  "handleNewPeerMsg env now p ws =
     run_bind (updateFilterAndSend env p (set_peer p (new_state (isSyncCandidate env p)) ws)) (\<lambda>(ws1, a1).
       if syncPeer ws1 = None \<and> \<not> Current env now ws1
       then run_bind (startSync env None ws1) (\<lambda>(ws2, a2). Ret (ws2, a1 @ a2))
       else Ret (ws1, a1))"

definition handleDonePeerMsg :: "('s, 'k, 'h) ws_env \<Rightarrow> go_time \<Rightarrow> nat \<Rightarrow> ('s, 'h) WireService \<Rightarrow> ('s, 'h) ws_result" where
  "handleDonePeerMsg env now p ws =
     (case map_of (peerStates ws) p of
        None \<Rightarrow> Ret (ws, [])
      | Some st \<Rightarrow>
          (let ws1 = ws\<lparr>peerStates := AList.delete p (peerStates ws),
                 ws_requestedTxns := filter (\<lambda>(h, _). h \<notin> fst ` set (ps_requestedTxns st)) (ws_requestedTxns ws),
                 ws_requestedBlocks := ws_requestedBlocks ws - ps_requestedBlocks st\<rparr>
           in if syncPeer ws1 = Some p \<and> \<not> Current env now ws1
              then startSync env None (ws1\<lparr>syncPeer := None\<rparr>)
              else Ret (ws1, [])))"

section \<open>Headers\<close>

text \<open>The loop over the headers: the header store, and whether the service switches to merkle blocks.\<close>

fun headers_loop :: "('s, 'k, 'h) ws_env \<Rightarrow> BlockHeader list \<Rightarrow> 'h \<Rightarrow> ('h \<times> bool) run" where
  "headers_loop env [] h = Ret (h, False)"
| "headers_loop env (hdr # hdrs) h =
     (if hdr_Timestamp hdr < cutoff env
      then run_bind (CommitHeader (we_hs env) (we_b env) hdr h) (\<lambda>((_, _, height, err), h1).
             case err of
               None \<Rightarrow> headers_loop env hdrs h1
             | Some _ \<Rightarrow>
                 run_bind (RollbackToHeight (we_hs env) (we_b env) (height - 1) h1) (\<lambda>(_, h2). headers_loop env hdrs h2))
      else Ret (h, True))"

text \<open>The counter of bad headers is never increased.\<close>

definition handleHeadersMsg ::
    "('s, 'k, 'h) ws_env \<Rightarrow> nat \<Rightarrow> BlockHeader list \<Rightarrow> ('s, 'h) WireService \<Rightarrow> ('s, 'h) ws_result" where
  "handleHeadersMsg env p hdrs ws =
     (if syncPeer ws \<noteq> Some p then Ret (ws, [Disconnect p])
      else if map_of (peerStates ws) p = None then Ret (ws, [Disconnect p])
      else if hdrs = [] then Ret (ws, [])
      else let badHeaders = 0 :: int in
           run_bind (headers_loop env hdrs (ws_h ws)) (\<lambda>(h1, switched).
             let locator = GetBlockLocator (we_hs env) (b_hl (we_b env)) h1 in
             Ret (ws\<lparr>ws_h := h1\<rparr>,
               [if switched then PushGetBlocksMsg p locator
                else if badHeaders > 1 then Disconnect p
                else PushGetHeadersMsg p locator])))"

section \<open>Merkle blocks\<close>

text \<open>The listeners that are told of a block: all that are not removed, some only at the tip.\<close>

definition block_events :: "(nat \<Rightarrow> bool option) \<Rightarrow> nat option list \<Rightarrow> BlockCallback \<Rightarrow> action list" where
  "block_events tipOnly ls cb =
     concat (map (\<lambda>(i, l). case (tipOnly i, l) of
         (Some showTip, Some f) \<Rightarrow> if showTip then (if ChainTip cb then [OnBlock f cb] else []) else [OnBlock f cb]
       | _ \<Rightarrow> []) (enumerate 0 ls))"

definition block_callback :: "('s, 'k, 'h) ws_env \<Rightarrow> BlockHeader \<Rightarrow> u32 \<Rightarrow> bool \<Rightarrow> BlockCallback" where
  "block_callback env hdr newHeight tip =
     \<lparr>bcb_Hash = hl_String (b_hl (we_b env)) (BlockHash (b_hl (we_b env)) hdr), bcb_Height = newHeight, bcb_Nonce = 0,
      bcb_Timestamp = hdr_Timestamp hdr, ChainTip = tip,
      bcb_PrevBlock = hl_String (b_hl (we_b env)) (PrevBlock hdr), bcb_Version = hdr_Version hdr\<rparr>"

text \<open>A reorganisation: the transactions above the fork are undone and the fork made the tip again.\<close>

definition merkle_reorg ::
    "('s, 'k, 'h) ws_env \<Rightarrow> go_time \<Rightarrow> nat \<Rightarrow> peerSyncState \<Rightarrow> StoredHeader \<Rightarrow> ('s, 'h) WireService \<Rightarrow> ('s, 'h) WireService run" where
  "merkle_reorg env now p st reorg ws =
     run_bind (processReorg (we_ts env) now (sh_height reorg) (ws_s ws)) (\<lambda>(_, s1).
       Ret (set_peer p (st\<lparr>requestQueue := [], ps_requestedBlocks := {}\<rparr>)
         (ws\<lparr>ws_s := s1, ws_h := snd (H_Put (we_hs env) reorg True (ws_h ws)), ws_requestedBlocks := {}\<rparr>)))"

text \<open>The end of the handler: ask for more blocks, or for the next block of the queue.\<close>

definition merkle_next ::
    "('s, 'k, 'h) ws_env \<Rightarrow> go_time \<Rightarrow> nat \<Rightarrow> peerSyncState \<Rightarrow> ('s, 'h) WireService \<Rightarrow> ('s, 'h) WireService \<times> action list" where
  "merkle_next env now p st ws =
     (if \<not> Current env now ws
      then (case requestQueue st of
              [] \<Rightarrow> (ws, [PushGetBlocksMsg p (GetBlockLocator (we_hs env) (b_hl (we_b env)) (ws_h ws))])
            | iv # q \<Rightarrow>
                (let iv1 = iv\<lparr>iv_Type := InvTypeFilteredBlock\<rparr> in
                 (set_peer p (st\<lparr>requestQueue := q, ps_requestedBlocks := insert (iv_Hash iv) (ps_requestedBlocks st)\<rparr>) ws,
                  [QueueGetData p [iv1]])))
      else (ws, []))"

text \<open>The transactions of a block are entered as requested, for the service and for the peer.\<close>

definition request_block_txns ::
    "('s, 'k, 'h) ws_env \<Rightarrow> nat \<Rightarrow> peerSyncState \<Rightarrow> hash list \<Rightarrow> heightAndTime \<Rightarrow> ('s, 'h) WireService \<Rightarrow>
     peerSyncState \<times> ('s, 'h) WireService" where
  "request_block_txns env p st ids ht ws =
     (let st1 = st\<lparr>ps_requestedTxns := fold (\<lambda>txid m. AList.update txid ht m) ids (ps_requestedTxns st)\<rparr> in
      (st1, set_peer p st1 (ws\<lparr>ws_requestedTxns := fold (\<lambda>txid m. request_txn env txid ht m) ids (ws_requestedTxns ws)\<rparr>)))"

text \<open>A block that became the tip: the listeners, the reorganisation, the next request.\<close>

definition merkle_new ::
    "('s, 'k, 'h) ws_env \<Rightarrow> go_time \<Rightarrow> nat \<Rightarrow> BlockHeader \<Rightarrow> StoredHeader option \<Rightarrow> u32 \<Rightarrow> peerSyncState \<Rightarrow>
     ('s, 'h) WireService \<Rightarrow> ('s, 'h) ws_result" where
  "merkle_new env now p hdr reorg newHeight st ws =
     (let evs = block_events (showTipOnly ws) (ws_listeners ws) (block_callback env hdr newHeight (requestQueue st = [])) in
      run_bind (case reorg of
                  Some anc \<Rightarrow>
                    if Current env now ws
                    then run_bind (merkle_reorg env now p st anc ws)
                           (\<lambda>ws1. Ret (st\<lparr>requestQueue := [], ps_requestedBlocks := {}\<rparr>, ws1))
                    else Ret (st, ws)
                | None \<Rightarrow> Ret (st, ws)) (\<lambda>(st1, ws1).
        let (ws2, acts) = merkle_next env now p st1 (ws1\<lparr>mempool := {}\<rparr>) in Ret (ws2, evs @ acts)))"

definition merkle_committed ::
    "('s, 'k, 'h) ws_env \<Rightarrow> go_time \<Rightarrow> nat \<Rightarrow> BlockHeader \<Rightarrow> hash list \<Rightarrow> commit_result \<Rightarrow> peerSyncState \<Rightarrow>
     ('s, 'h) WireService \<Rightarrow> ('s, 'h) ws_result" where
  "merkle_committed env now p hdr ids res st ws =
     (let (newBlock, reorg, newHeight, _) = res;
          st1 = st\<lparr>blockScore := blockScore st + 1\<rparr>;
          ws1 = (if Current env now ws
                 then ws\<lparr>LastBlock := (LastBlock ws)(p := UpdateLastBlockHeight env (LastBlock ws p) newHeight)\<rparr> else ws);
          (st2, ws2) = request_block_txns env p st1 ids \<lparr>ht_height = newHeight, ht_timestamp = hdr_Timestamp hdr\<rparr> ws1
      in if \<not> newBlock then Ret (ws2, [])
         else merkle_new env now p hdr reorg newHeight st2 ws2)"

text \<open>An orphan header: sync from its sender when current, else lower the sender's score.\<close>

definition merkle_orphan ::
    "('s, 'k, 'h) ws_env \<Rightarrow> go_time \<Rightarrow> nat \<Rightarrow> peerSyncState \<Rightarrow> ('s, 'h) WireService \<Rightarrow> ('s, 'h) ws_result" where
  "merkle_orphan env now p st ws =
     (if Current env now ws
      then startSync env (Some p)
             (set_peer p (st\<lparr>requestQueue := [], ps_requestedBlocks := {}\<rparr>) (ws\<lparr>ws_requestedBlocks := {}\<rparr>))
      else let score = blockScore st - 1 in
           Ret (set_peer p (st\<lparr>blockScore := score\<rparr>) ws, if score <s 0 then [Disconnect p] else []))"

definition handleMerkleBlockMsg ::
    "('s, 'k, 'h) ws_env \<Rightarrow> go_time \<Rightarrow> nat \<Rightarrow> MsgMerkleBlock \<Rightarrow> ('s, 'h) WireService \<Rightarrow> ('s, 'h) ws_result" where
  "handleMerkleBlockMsg env now p mb ws =
     (if syncPeer ws \<noteq> Some p \<and> \<not> Current env now ws then Ret (ws, [])
      else case map_of (peerStates ws) p of
        None \<Rightarrow> Ret (ws, [Disconnect p])
      | Some st0 \<Rightarrow>
          (let hdr = mb_Header mb; blockHash = BlockHash (b_hl (we_b env)) hdr in
           if blockHash \<notin> ps_requestedBlocks st0 \<and> p_Net (b_params (we_b env)) \<noteq> RegressionNet
           then Ret (ws, [Disconnect p])
           else (let st = st0\<lparr>ps_requestedBlocks := ps_requestedBlocks st0 - {blockHash}\<rparr>;
                     ws1 = set_peer p st (ws\<lparr>ws_requestedBlocks := ws_requestedBlocks ws - {blockHash}\<rparr>)
                 in case checkMBlock (we_dh env) mb of
                      None \<Rightarrow> Hangs
                    | Some Panic \<Rightarrow> Panics
                    | Some (Err _) \<Rightarrow> Ret (ws1, [Disconnect p])
                    | Some (Ok ids) \<Rightarrow>
                        run_bind (CommitHeader (we_hs env) (we_b env) hdr (ws_h ws1)) (\<lambda>((newBlock, reorg, newHeight, err), h1).
                          let ws2 = ws1\<lparr>ws_h := h1\<rparr> in
                          case err of
                            Some e \<Rightarrow> if e = OrphanHeaderError then merkle_orphan env now p st ws2 else Ret (ws2, [])
                          | None \<Rightarrow> merkle_committed env now p hdr ids (newBlock, reorg, newHeight, None) st ws2))))"

section \<open>Inventory and transactions\<close>

definition haveInventory :: "('s, 'k, 'h) ws_env \<Rightarrow> InvVect \<Rightarrow> ('s, 'h) WireService \<Rightarrow> bool" where
  "haveInventory env iv ws =
     (case iv_Type iv of
        InvTypeTx \<Rightarrow> iv_Hash iv \<in> mempool ws
      | InvTypeOther \<Rightarrow> True
      | _ \<Rightarrow> (case Blockchain_GetHeader (we_hs env) (iv_Hash iv) (ws_h ws) of Ok _ \<Rightarrow> True | _ \<Rightarrow> False))"

text \<open>The library refuses to add to a full message.\<close>

definition AddInvVect :: "nat \<Rightarrow> InvVect list \<Rightarrow> InvVect \<Rightarrow> InvVect list" where
  "AddInvVect maxInv xs iv = (if maxInv < length xs + 1 then xs else xs @ [iv])"

text \<open>One entry of the inventory; \<open>cur\<close> is whether the service is current, \<open>send\<close> is \<open>shouldSendGetData\<close>.\<close>

definition inv_step ::
    "('s, 'k, 'h) ws_env \<Rightarrow> go_time \<Rightarrow> bool \<Rightarrow> bool \<Rightarrow> InvVect \<Rightarrow>
     ('s, 'h) WireService \<times> peerSyncState \<times> InvVect list \<times> nat \<Rightarrow>
     ('s, 'h) WireService \<times> peerSyncState \<times> InvVect list \<times> nat" where
  "inv_step env now cur send iv acc =
     (let (ws, st, gd, n) = acc; have = haveInventory env iv ws in
      case iv_Type iv of
        InvTypeOther \<Rightarrow> acc
      | InvTypeTx \<Rightarrow>
          if map_of (ws_requestedTxns ws) (iv_Hash iv) = None \<and> n < MaxInvPerMsg env \<and> \<not> have
          then let ht = \<lparr>ht_height = 0, ht_timestamp = now\<rparr> in
               (ws\<lparr>ws_requestedTxns := request_txn env (iv_Hash iv) ht (ws_requestedTxns ws)\<rparr>,
                st\<lparr>ps_requestedTxns := AList.update (iv_Hash iv) ht (ps_requestedTxns st)\<rparr>,
                AddInvVect (MaxInvPerMsg env) gd iv, n + 1)
          else acc
      | _ \<Rightarrow>
          if \<not> cur \<and> iv_Hash iv \<notin> ws_requestedBlocks ws \<and> \<not> have \<and> send \<or> cur
          then (ws, st\<lparr>requestQueue := requestQueue st @ [iv\<lparr>iv_Type := InvTypeFilteredBlock\<rparr>]\<rparr>, gd, n)
          else acc)"

definition inv_requests ::
    "('s, 'k, 'h) ws_env \<Rightarrow> go_time \<Rightarrow> nat \<Rightarrow> peerSyncState \<Rightarrow> InvVect list \<Rightarrow> ('s, 'h) WireService \<Rightarrow>
     ('s, 'h) WireService \<times> action list" where
  "inv_requests env now p st invs ws =
     (let cur = Current env now ws;
          send = (requestQueue st = []);
          (ws1, st1, gd, _) = fold (inv_step env now cur send) invs (ws, st, [], 0);
          known = map (AddKnownInventory p) invs
      in case requestQueue st1 of
           iv # q \<Rightarrow>
             if send \<or> cur
             then let gd1 = AddInvVect (MaxInvPerMsg env) gd iv in
                  (set_peer p (st1\<lparr>requestQueue := q, ps_requestedBlocks := insert (iv_Hash iv) (ps_requestedBlocks st1)\<rparr>) ws1,
                   known @ (if gd1 = [] then [] else [QueueGetData p gd1]))
             else (set_peer p st1 ws1, known @ (if gd = [] then [] else [QueueGetData p gd]))
         | [] \<Rightarrow> (set_peer p st1 ws1, known @ (if gd = [] then [] else [QueueGetData p gd])))"

text \<open>The last block entry of an inventory.\<close>

definition last_block :: "InvVect list \<Rightarrow> hash option" where
  "last_block invs = map_option iv_Hash (find (\<lambda>iv. iv_Type iv = InvTypeBlock) (rev invs))"

definition handleInvMsg ::
    "('s, 'k, 'h) ws_env \<Rightarrow> go_time \<Rightarrow> nat \<Rightarrow> InvVect list \<Rightarrow> ('s, 'h) WireService \<Rightarrow> ('s, 'h) ws_result" where
  "handleInvMsg env now p invs ws =
     (case map_of (peerStates ws) p of
        None \<Rightarrow> Ret (ws, [])
      | Some st \<Rightarrow>
          (let announced = (case last_block invs of
                  Some x \<Rightarrow> if syncPeer ws \<noteq> Some p \<or> Current env now ws then [UpdateLastAnnouncedBlock p x] else []
                | None \<Rightarrow> [])
           in if syncPeer ws \<noteq> Some p \<and> \<not> Current env now ws then Ret (ws, announced)
              else let ws1 = (case last_block invs of
                         Some x \<Rightarrow>
                           if Current env now ws
                           then (case Blockchain_GetHeader (we_hs env) x (ws_h ws) of
                                   Ok sh \<Rightarrow> ws\<lparr>LastBlock := (LastBlock ws)(p := UpdateLastBlockHeight env (LastBlock ws p) (sh_height sh))\<rparr>
                                 | _ \<Rightarrow> ws)
                           else ws
                       | None \<Rightarrow> ws);
                       (ws2, acts) = inv_requests env now p st invs ws1
                   in Ret (ws2, announced @ acts)))"

definition handleTxMsg ::
    "('s, 'k, 'h) ws_env \<Rightarrow> go_time \<Rightarrow> nat \<Rightarrow> MsgTx \<Rightarrow> ('s, 'h) WireService \<Rightarrow> ('s, 'h) ws_result" where
  "handleTxMsg env now p tx ws =
     (let txid = txHash (e_lib (we_ts env)) tx in
      case map_of (peerStates ws) p of
        None \<Rightarrow> Ret (ws, [])
      | Some st \<Rightarrow>
          (case map_of (ps_requestedTxns st) txid of
             None \<Rightarrow> Ret (ws, [Disconnect p])
           | Some ht \<Rightarrow>
               run_bind (Ingest (we_ts env) now tx (ht_height ht) (ht_timestamp ht) (ws_ts ws) (ws_s ws)) (\<lambda>(_, ts, s, evs).
                 let st1 = st\<lparr>ps_requestedTxns := AList.delete txid (ps_requestedTxns st)\<rparr>;
                     ws1 = ws\<lparr>mempool := insert txid (mempool ws), ws_ts := ts, ws_s := s,
                       ws_requestedTxns := AList.delete txid (ws_requestedTxns ws)\<rparr>
                 in if 7 < falsePositives st1
                    then run_bind (updateFilterAndSend env p (set_peer p (st1\<lparr>falsePositives := 0\<rparr>) ws1))
                           (\<lambda>(ws2, a2). Ret (ws2, map OnTx evs @ a2))
                    else Ret (set_peer p st1 ws1, map OnTx evs))))"

section \<open>The loop\<close>

definition handle :: "('s, 'k, 'h) ws_env \<Rightarrow> go_time \<Rightarrow> ws_msg \<Rightarrow> ('s, 'h) WireService \<Rightarrow> ('s, 'h) ws_result" where
  "handle env now m ws =
     (case m of
        newPeerMsg p \<Rightarrow> handleNewPeerMsg env now p ws
      | donePeerMsg p \<Rightarrow> handleDonePeerMsg env now p ws
      | headersMsg p hdrs \<Rightarrow> handleHeadersMsg env p hdrs ws
      | merkleBlockMsg p mb \<Rightarrow> handleMerkleBlockMsg env now p mb ws
      | invMsg p invs \<Rightarrow> handleInvMsg env now p invs ws
      | txMsg p tx \<Rightarrow> handleTxMsg env now p tx ws
      | updateFiltersMsg \<Rightarrow> handleUpdateFiltersMsg env ws)"

end
