(* ===== verification/Wire_Inv.thy ===== *)
theory Wire_Inv
  imports Wire_Service
begin

text \<open>
  The bookkeeping of requests in the wire service: one preservation lemma for each handler, the
  reachable states of the service, and what holds in all of them.
\<close>

section \<open>Bookkeeping\<close>

abbreviation peer_of :: "('s, 'h) WireService \<Rightarrow> nat \<Rightarrow> peerSyncState option" where
  "peer_of ws \<equiv> map_of (peerStates ws)"

abbreviation wanted :: "(hash \<times> heightAndTime) list \<Rightarrow> hash set" where
  "wanted m \<equiv> dom (map_of m)"

definition ws_inv :: "('s, 'h) WireService \<Rightarrow> bool" where
  "ws_inv ws \<longleftrightarrow> distinct (map fst (peerStates ws)) \<and> ws_requestedBlocks ws = {} \<and>
     (\<forall>p st. peer_of ws p = Some st \<longrightarrow> falsePositives st = 0) \<and>
     (\<forall>x \<in> wanted (ws_requestedTxns ws). \<exists>p st. peer_of ws p = Some st \<and> x \<in> wanted (ps_requestedTxns st))"

lemma set_peer_simps [simp]:
  "peer_of (set_peer p st ws) = (peer_of ws)(p \<mapsto> st)"
  "syncPeer (set_peer p st ws) = syncPeer ws" "ws_requestedTxns (set_peer p st ws) = ws_requestedTxns ws"
  "ws_requestedBlocks (set_peer p st ws) = ws_requestedBlocks ws" "mempool (set_peer p st ws) = mempool ws"
  "ws_ts (set_peer p st ws) = ws_ts ws" "ws_s (set_peer p st ws) = ws_s ws" "ws_h (set_peer p st ws) = ws_h ws"
  "LastBlock (set_peer p st ws) = LastBlock ws"
  by (simp_all add: set_peer_def update_conv')

lemma set_peer_distinct [simp]: "distinct (map fst (peerStates ws)) \<Longrightarrow> distinct (map fst (peerStates (set_peer p st ws)))"
  by (simp add: set_peer_def distinct_update)

text \<open>A new state for a peer keeps the bookkeeping when no request is forgotten.\<close>

lemma ws_inv_set_peer:
  assumes "ws_inv ws" "falsePositives st = 0" "ws_requestedBlocks ws' = {}" "peerStates ws' = peerStates ws"
    and "\<And>x. x \<in> wanted (ws_requestedTxns ws') \<Longrightarrow> x \<in> wanted (ps_requestedTxns st) \<or>
      x \<in> wanted (ws_requestedTxns ws) \<and> (\<forall>st0. peer_of ws p = Some st0 \<longrightarrow> x \<in> wanted (ps_requestedTxns st0) \<longrightarrow> x \<in> wanted (ps_requestedTxns st))"
  shows "ws_inv (set_peer p st ws')"
  unfolding ws_inv_def
proof (intro conjI allI impI ballI)
  show "distinct (map fst (peerStates (set_peer p st ws')))" using assms(1,4) by (simp add: ws_inv_def)
  show "ws_requestedBlocks (set_peer p st ws') = {}" using assms(3) by simp
  show "falsePositives st' = 0" if "peer_of (set_peer p st ws') q = Some st'" for q st'
    using that assms(1,2,4) by (auto simp: ws_inv_def split: if_splits)
  show "\<exists>q st'. peer_of (set_peer p st ws') q = Some st' \<and> x \<in> wanted (ps_requestedTxns st')"
    if x: "x \<in> wanted (ws_requestedTxns (set_peer p st ws'))" for x
  proof (cases "x \<in> wanted (ps_requestedTxns st)")
    case True
    then show ?thesis by (intro exI [of _ p] exI [of _ st]) simp
  next
    case False
    with assms(5) [of x] x have g: "x \<in> wanted (ws_requestedTxns ws)"
      "\<forall>st0. peer_of ws p = Some st0 \<longrightarrow> x \<notin> wanted (ps_requestedTxns st0)" by auto
    then obtain q st' where "peer_of ws q = Some st'" "x \<in> wanted (ps_requestedTxns st')"
      using assms(1) unfolding ws_inv_def by blast
    with g show ?thesis by (intro exI [of _ q] exI [of _ st']) (auto simp: assms(4))
  qed
qed

lemma ws_inv_cong:
  assumes "ws_inv ws" "peerStates ws' = peerStates ws" "ws_requestedTxns ws' = ws_requestedTxns ws" "ws_requestedBlocks ws' = {}"
  shows "ws_inv ws'"
  using assms unfolding ws_inv_def by (simp del: map_of_eq_Some_iff)

lemma limitMap_other: "limitMap pk (MapHeightAndTime m) n = MapHeightAndTime m"
  by (simp add: limitMap_def)

lemma request_txn_eq: "request_txn env x ht m = AList.update x ht m"
  by (simp add: request_txn_def limitMap_other)

lemma wanted_update [simp]: "wanted (AList.update x ht m) = insert x (wanted m)"
  by (simp add: update_conv')

lemma wanted_fold_update: "wanted (fold (\<lambda>x m. AList.update x ht m) xs m) = set xs \<union> wanted m"
  by (induction xs arbitrary: m) auto

lemma map_of_fold_update:
  "map_of (fold (\<lambda>x m. AList.update x ht m) xs m) y = (if y \<in> set xs then Some ht else map_of m y)"
  by (induction xs arbitrary: m) (auto simp: update_conv')

lemma wanted_delete [simp]: "wanted (AList.delete x m) = wanted m - {x}"
  by (auto simp: delete_conv')

lemma wanted_filter: "wanted (filter (\<lambda>(h, _). P h) m) = {h \<in> wanted m. P h}"
  by (force simp: dom_map_of_conv_image_fst)

section \<open>Handlers and the bookkeeping\<close>

text \<open>What the handlers that do not touch the chain leave alone.\<close>

definition keeps_chain :: "('s, 'h) WireService \<Rightarrow> ('s, 'h) WireService \<Rightarrow> bool" where
  "keeps_chain ws ws' \<longleftrightarrow> ws_h ws' = ws_h ws \<and> LastBlock ws' = LastBlock ws"

lemma updateFilterAndSend_keeps:
  "updateFilterAndSend env p ws = Ret (ws', acts) \<Longrightarrow> \<exists>ts. ws' = ws\<lparr>ws_ts := ts\<rparr>"
  unfolding updateFilterAndSend_def
  by (cases "GimmeFilter (we_ts env) (ws_ts ws) (ws_s ws)") (auto split: go.splits prod.splits)

lemma update_filters_keeps: "update_filters env ps ws = Ret (ws', acts) \<Longrightarrow> \<exists>ts. ws' = ws\<lparr>ws_ts := ts\<rparr>"
proof (induction ps arbitrary: ws acts)
  case Nil
  then show ?case by (intro exI [of _ "ws_ts ws"]) simp
next
  case (Cons p ps)
  then obtain ws1 a1 a2 where s: "updateFilterAndSend env p ws = Ret (ws1, a1)" "update_filters env ps ws1 = Ret (ws', a2)"
    by (auto simp: run_bind_Ret)
  from updateFilterAndSend_keeps [OF s(1)] Cons.IH [OF s(2)] show ?case by auto
qed

lemma choose_peer_keeps:
  "choose_peer height ps bp bh ws = (r, ws') \<Longrightarrow> ws_inv ws \<Longrightarrow>
     ws_inv ws' \<and> syncPeer ws' = syncPeer ws \<and> ws_h ws' = ws_h ws \<and> LastBlock ws' = LastBlock ws \<and> ws_s ws' = ws_s ws"
proof (induction ps arbitrary: bp bh ws)
  case (Cons p ps)
  show ?case
  proof (cases "\<exists>st. peer_of ws p = Some st \<and> syncCandidate st \<and> LastBlock ws p <s height")
    case True
    then obtain st where st: "peer_of ws p = Some st" "syncCandidate st" "LastBlock ws p <s height" by blast
    have "ws_inv (set_peer p (st\<lparr>syncCandidate := False\<rparr>) ws)"
      using Cons.prems(2) st(1) by (intro ws_inv_set_peer [OF Cons.prems(2)]) (auto simp: ws_inv_def)
    with Cons.IH Cons.prems(1) st show ?thesis by fastforce
  next
    case False
    with Cons.prems obtain bp' bh' where "choose_peer height ps bp' bh' ws = (r, ws')"
      by (auto split: option.splits if_splits)
    with Cons.IH Cons.prems(2) show ?thesis by blast
  qed
qed simp

lemma choose_peer_sync: "choose_peer height ps bp bh ws = (r, ws') \<Longrightarrow> syncPeer ws' = syncPeer ws"
  by (induction ps arbitrary: bp bh ws) (fastforce split: option.splits if_splits)+

lemma choose_peer_store: "choose_peer height ps bp bh ws = (r, ws') \<Longrightarrow> ws_s ws' = ws_s ws"
  by (induction ps arbitrary: bp bh ws) (fastforce split: option.splits if_splits)+

text \<open>The outcomes of \<open>startSync\<close>.\<close>

lemma startSync_cases:
  assumes "startSync env sp ws = Ret (ws', acts)"
  obtains "ws' = ws"
    | bp height ps ws1 where "ws1 = ws \<or> choose_peer height ps None 0 ws = (bp, ws1)"
      "ws' = ws1 \<or> (\<exists>p. ws' = ws1\<lparr>syncPeer := Some p, ws_requestedBlocks := {}\<rparr>)"
proof (cases "int (length (peerStates ws)) < minPeersForSync env")
  case True
  with assms that show ?thesis by (simp add: startSync_def)
next
  case False
  with assms obtain acts0 where s: "(case BestBlock (we_hs env) (ws_h ws) of
      Ok bestBlock \<Rightarrow>
        (let (bestPeer, ws1) = (case sp of
              None \<Rightarrow> choose_peer (sh_height bestBlock) (peer_order env (map fst (peerStates ws))) None 0 ws
            | Some p \<Rightarrow> (Some p, ws))
         in case bestPeer of
              None \<Rightarrow> Ret (ws1, acts0)
            | Some p \<Rightarrow> (let (ws2, acts2) = start_from env bestBlock p ws1 in Ret (ws2, acts0 @ acts2)))
    | _ \<Rightarrow> Ret (ws, acts0)) = Ret (ws', acts)"
    by (auto simp: startSync_def run_bind_Ret)
  show ?thesis
  proof (cases "BestBlock (we_hs env) (ws_h ws)")
    case (Ok bb)
    obtain bp ws1 where c: "(case sp of
              None \<Rightarrow> choose_peer (sh_height bb) (peer_order env (map fst (peerStates ws))) None 0 ws
            | Some p \<Rightarrow> (Some p, ws)) = (bp, ws1)" by fastforce
    with s Ok have "ws' = ws1 \<or> (\<exists>p. ws' = ws1\<lparr>syncPeer := Some p, ws_requestedBlocks := {}\<rparr>)"
      by (auto simp: start_from_def Let_def split: option.splits)
    moreover have "ws1 = ws \<or> choose_peer (sh_height bb) (peer_order env (map fst (peerStates ws))) None 0 ws = (bp, ws1)"
      using c by (cases sp) auto
    ultimately show ?thesis using that(2) by blast
  qed (use s that in auto)
qed

lemma startSync_store: "startSync env sp ws = Ret (ws', acts) \<Longrightarrow> ws_s ws' = ws_s ws"
  by (erule startSync_cases) (auto dest: choose_peer_store)

lemma startSync_keeps:
  assumes "startSync env sp ws = Ret (ws', acts)" "ws_inv ws"
  shows "ws_inv ws' \<and> ws_h ws' = ws_h ws \<and> ws_s ws' = ws_s ws"
  using assms(1)
proof (cases rule: startSync_cases)
  case (2 bp height ps ws1)
  then have "ws_inv ws1 \<and> ws_h ws1 = ws_h ws \<and> ws_s ws1 = ws_s ws" using choose_peer_keeps assms(2) by blast
  with 2 show ?thesis by (auto intro: ws_inv_cong)
qed (use assms(2) in simp)

lemma startSync_inv: "startSync env sp ws = Ret (ws', acts) \<Longrightarrow> ws_inv ws \<Longrightarrow> ws_inv ws'"
  using startSync_keeps by blast

lemma ws_inv_ts: "ws_inv (ws\<lparr>ws_ts := ts\<rparr>) \<longleftrightarrow> ws_inv ws"
  unfolding ws_inv_def by (simp del: map_of_eq_Some_iff)

lemma handleNewPeerMsg_inv:
  assumes "ws_inv ws" "peer_of ws p = None" "handleNewPeerMsg env now p ws = Ret (ws', acts)"
  shows "ws_inv ws'"
proof -
  obtain ws1 a1 where u: "updateFilterAndSend env p (set_peer p (new_state (isSyncCandidate env p)) ws) = Ret (ws1, a1)"
    and r: "(if syncPeer ws1 = None \<and> \<not> Current env now ws1
       then run_bind (startSync env None ws1) (\<lambda>(ws2, a2). Ret (ws2, a1 @ a2)) else Ret (ws1, a1)) = Ret (ws', acts)"
    using assms(3) by (auto simp: handleNewPeerMsg_def run_bind_Ret)
  have "ws_inv (set_peer p (new_state (isSyncCandidate env p)) ws)"
    using assms(1,2) by (intro ws_inv_set_peer [OF assms(1)]) (auto simp: new_state_def ws_inv_def)
  with updateFilterAndSend_keeps [OF u] have "ws_inv ws1" by (auto simp: ws_inv_ts)
  with r show ?thesis by (auto simp: run_bind_Ret split: if_splits dest: startSync_inv)
qed

lemma handleDonePeerMsg_inv:
  assumes "ws_inv ws" "handleDonePeerMsg env now p ws = Ret (ws', acts)"
  shows "ws_inv ws'"
proof (cases "peer_of ws p")
  case None
  with assms show ?thesis by (simp add: handleDonePeerMsg_def)
next
  case (Some st)
  let ?ws1 = "ws\<lparr>peerStates := AList.delete p (peerStates ws),
    ws_requestedTxns := filter (\<lambda>(h, _). h \<notin> fst ` set (ps_requestedTxns st)) (ws_requestedTxns ws),
    ws_requestedBlocks := ws_requestedBlocks ws - ps_requestedBlocks st\<rparr>"
  have "\<exists>q st'. map_of (AList.delete p (peerStates ws)) q = Some st' \<and> x \<in> wanted (ps_requestedTxns st')"
    if x: "x \<in> wanted (ws_requestedTxns ?ws1)" for x
  proof -
    have g: "x \<in> wanted (ws_requestedTxns ws)" "x \<notin> wanted (ps_requestedTxns st)"
      using x wanted_filter [of "\<lambda>h. h \<notin> fst ` set (ps_requestedTxns st)" "ws_requestedTxns ws"]
      by (simp_all add: dom_map_of_conv_image_fst)
    then obtain q st' where q: "peer_of ws q = Some st'" "x \<in> wanted (ps_requestedTxns st')"
      using assms(1) unfolding ws_inv_def by blast
    with g Some have "q \<noteq> p" by auto
    with q show ?thesis by (intro exI [of _ q] exI [of _ st']) (simp add: delete_conv')
  qed
  moreover have "falsePositives st' = 0" if "map_of (AList.delete p (peerStates ws)) q = Some st'" for q st'
    using that assms(1) by (auto simp: ws_inv_def delete_conv' split: if_splits)
  moreover have "distinct (map fst (AList.delete p (peerStates ws)))" "ws_requestedBlocks ws = {}"
    using assms(1) by (simp_all add: ws_inv_def distinct_delete)
  ultimately have i: "ws_inv ?ws1" unfolding ws_inv_def by (simp del: map_of_eq_Some_iff)
  then have "ws_inv (?ws1\<lparr>syncPeer := None\<rparr>)" by (intro ws_inv_cong [OF i]) (use i in \<open>simp_all add: ws_inv_def\<close>)
  from assms(2) Some consider "ws' = ?ws1" | "startSync env None (?ws1\<lparr>syncPeer := None\<rparr>) = Ret (ws', acts)"
    unfolding handleDonePeerMsg_def Let_def by (auto split: if_splits)
  then show ?thesis using i startSync_inv [OF _ \<open>ws_inv (?ws1\<lparr>syncPeer := None\<rparr>)\<close>] by cases auto
qed

lemma handleHeadersMsg_keeps:
  "handleHeadersMsg env p hdrs ws = Ret (ws', acts) \<Longrightarrow> \<exists>h. ws' = ws\<lparr>ws_h := h\<rparr>"
  unfolding handleHeadersMsg_def Let_def by (auto simp: run_bind_Ret split: if_splits intro: exI [of _ "ws_h ws"])

lemma ws_inv_upd:
  "ws_inv (ws\<lparr>ws_h := h\<rparr>) \<longleftrightarrow> ws_inv ws" "ws_inv (ws\<lparr>LastBlock := lb\<rparr>) \<longleftrightarrow> ws_inv ws" "ws_inv (ws\<lparr>mempool := mp\<rparr>) \<longleftrightarrow> ws_inv ws"
  unfolding ws_inv_def by (simp_all del: map_of_eq_Some_iff)

text \<open>The state of one peer replaced by one with the same requests.\<close>

lemma ws_inv_set_same:
  assumes "ws_inv ws" "peer_of ws p = Some st0" "ps_requestedTxns st = ps_requestedTxns st0" "falsePositives st = falsePositives st0"
    and "peerStates ws' = peerStates ws" "ws_requestedTxns ws' = ws_requestedTxns ws" "ws_requestedBlocks ws' = {}"
  shows "ws_inv (set_peer p st ws')"
  by (rule ws_inv_set_peer [OF assms(1)]) (use assms in \<open>auto simp: ws_inv_def\<close>)

lemma merkle_next_inv:
  assumes "ws_inv ws" "peer_of ws p = Some st"
  shows "ws_inv (fst (merkle_next env now p st ws))"
proof -
  have "ws_requestedBlocks ws = {}" using assms(1) by (simp add: ws_inv_def)
  then show ?thesis
    using assms unfolding merkle_next_def Let_def
    by (auto split: if_splits list.splits intro!: ws_inv_set_same [OF assms(1,2)])
qed

lemma merkle_reorg_inv:
  assumes "ws_inv ws" "peer_of ws p = Some st" "merkle_reorg env now p st anc ws = Ret ws'"
  shows "ws_inv ws'" "peer_of ws' p = Some (st\<lparr>requestQueue := [], ps_requestedBlocks := {}\<rparr>)"
  using assms unfolding merkle_reorg_def
  by (auto simp: run_bind_Ret intro!: ws_inv_set_same [OF assms(1,2)])

lemma merkle_new_inv:
  assumes "ws_inv ws" "peer_of ws p = Some st" "merkle_new env now p hdr reorg nh st ws = Ret (ws', acts)"
  shows "ws_inv ws'"
proof -
  obtain st1 ws1 where m: "(case reorg of
        Some anc \<Rightarrow> if Current env now ws
          then run_bind (merkle_reorg env now p st anc ws) (\<lambda>ws1. Ret (st\<lparr>requestQueue := [], ps_requestedBlocks := {}\<rparr>, ws1))
          else Ret (st, ws)
      | None \<Rightarrow> Ret (st, ws)) = Ret (st1, ws1)" "ws' = fst (merkle_next env now p st1 (ws1\<lparr>mempool := {}\<rparr>))"
    using assms(3) unfolding merkle_new_def Let_def by (auto simp: run_bind_Ret case_prod_unfold)
  have "ws_inv ws1 \<and> peer_of ws1 p = Some st1"
    using m(1) assms(1,2) merkle_reorg_inv [OF assms(1,2)] by (auto simp: run_bind_Ret split: option.splits if_splits)
  then show ?thesis unfolding m(2) by (intro merkle_next_inv) (simp_all add: ws_inv_upd)
qed

lemma request_block_txns_inv:
  assumes "ws_inv ws" "peer_of ws p = Some st0" "ps_requestedTxns st = ps_requestedTxns st0" "falsePositives st = falsePositives st0"
    and "request_block_txns env p st ids ht ws = (st', ws')"
  shows "ws_inv ws'" "peer_of ws' p = Some st'"
proof -
  have r: "st' = st\<lparr>ps_requestedTxns := fold (\<lambda>x m. AList.update x ht m) ids (ps_requestedTxns st)\<rparr>"
    "ws' = set_peer p st' (ws\<lparr>ws_requestedTxns := fold (\<lambda>x m. AList.update x ht m) ids (ws_requestedTxns ws)\<rparr>)"
    using assms(5) by (auto simp: request_block_txns_def request_txn_eq Let_def)
  show "peer_of ws' p = Some st'" by (simp add: r(2))
  show "ws_inv ws'" unfolding r(2)
    by (rule ws_inv_set_peer [OF assms(1)]) (use assms in \<open>auto simp: r(1) ws_inv_def wanted_fold_update\<close>)
qed

lemma merkle_committed_inv:
  assumes "ws_inv ws" "peer_of ws p = Some st" "merkle_committed env now p hdr ids res st ws = Ret (ws', acts)"
  shows "ws_inv ws'"
proof -
  obtain nb reorg nh e where res: "res = (nb, reorg, nh, e)" by (cases res)
  let ?ws1 = "if Current env now ws
     then ws\<lparr>LastBlock := (LastBlock ws)(p := UpdateLastBlockHeight env (LastBlock ws p) nh)\<rparr> else ws"
  obtain st2 ws2 where q: "request_block_txns env p (st\<lparr>blockScore := blockScore st + 1\<rparr>) ids
      \<lparr>ht_height = nh, ht_timestamp = hdr_Timestamp hdr\<rparr> ?ws1 = (st2, ws2)" by fastforce
  have "ws_inv ?ws1" "peer_of ?ws1 p = Some st" using assms(1,2) by (simp_all add: ws_inv_upd)
  note i = request_block_txns_inv [OF this _ _ q]
  have "(if \<not> nb then Ret (ws2, []) else merkle_new env now p hdr reorg nh st2 ws2) = Ret (ws', acts)"
    using assms(3) q unfolding merkle_committed_def res Let_def by simp
  with i merkle_new_inv show ?thesis by (auto split: if_splits)
qed

lemma merkle_orphan_inv:
  assumes "ws_inv ws" "peer_of ws p = Some st" "merkle_orphan env now p st ws = Ret (ws', acts)"
  shows "ws_inv ws' \<and> ws_s ws' = ws_s ws"
proof -
  have b: "ws_requestedBlocks ws = {}" using assms(1) by (simp add: ws_inv_def)
  have "ws_inv (set_peer p (st\<lparr>requestQueue := [], ps_requestedBlocks := {}\<rparr>) (ws\<lparr>ws_requestedBlocks := {}\<rparr>))"
    by (rule ws_inv_set_same [OF assms(1,2)]) simp_all
  moreover have "ws_inv (set_peer p (st\<lparr>blockScore := blockScore st - 1\<rparr>) ws)"
    by (rule ws_inv_set_same [OF assms(1,2)]) (simp_all add: b)
  ultimately show ?thesis
    using assms(3) unfolding merkle_orphan_def Let_def by (auto split: if_splits dest: startSync_keeps)
qed

text \<open>A merkle block that passes the guards: what is left of the handler.\<close>

definition taken :: "('s, 'k, 'h) ws_env \<Rightarrow> nat \<Rightarrow> MsgMerkleBlock \<Rightarrow> peerSyncState \<Rightarrow> peerSyncState" where
  "taken env p mb st = st\<lparr>ps_requestedBlocks := ps_requestedBlocks st - {BlockHash (b_hl (we_b env)) (mb_Header mb)}\<rparr>"

definition taken_ws :: "('s, 'k, 'h) ws_env \<Rightarrow> nat \<Rightarrow> MsgMerkleBlock \<Rightarrow> peerSyncState \<Rightarrow> ('s, 'h) WireService \<Rightarrow> ('s, 'h) WireService" where
  "taken_ws env p mb st ws = set_peer p (taken env p mb st)
     (ws\<lparr>ws_requestedBlocks := ws_requestedBlocks ws - {BlockHash (b_hl (we_b env)) (mb_Header mb)}\<rparr>)"

definition merkle_rest ::
    "('s, 'k, 'h) ws_env \<Rightarrow> go_time \<Rightarrow> nat \<Rightarrow> MsgMerkleBlock \<Rightarrow> peerSyncState \<Rightarrow> ('s, 'h) WireService \<Rightarrow> ('s, 'h) ws_result" where
  "merkle_rest env now p mb st ws =
     (case checkMBlock (we_dh env) mb of
        None \<Rightarrow> Hangs
      | Some Panic \<Rightarrow> Panics
      | Some (Err _) \<Rightarrow> Ret (taken_ws env p mb st ws, [Disconnect p])
      | Some (Ok ids) \<Rightarrow>
          run_bind (CommitHeader (we_hs env) (we_b env) (mb_Header mb) (ws_h ws)) (\<lambda>((newBlock, reorg, newHeight, err), h1).
            case err of
              Some e \<Rightarrow> if e = OrphanHeaderError then merkle_orphan env now p (taken env p mb st) ((taken_ws env p mb st ws)\<lparr>ws_h := h1\<rparr>)
                        else Ret ((taken_ws env p mb st ws)\<lparr>ws_h := h1\<rparr>, [])
            | None \<Rightarrow> merkle_committed env now p (mb_Header mb) ids (newBlock, reorg, newHeight, None) (taken env p mb st)
                        ((taken_ws env p mb st ws)\<lparr>ws_h := h1\<rparr>)))"

lemma handleMerkleBlockMsg_eq:
  "handleMerkleBlockMsg env now p mb ws =
     (if syncPeer ws \<noteq> Some p \<and> \<not> Current env now ws then Ret (ws, [])
      else case peer_of ws p of
        None \<Rightarrow> Ret (ws, [Disconnect p])
      | Some st \<Rightarrow>
          if BlockHash (b_hl (we_b env)) (mb_Header mb) \<notin> ps_requestedBlocks st \<and> p_Net (b_params (we_b env)) \<noteq> RegressionNet
          then Ret (ws, [Disconnect p])
          else merkle_rest env now p mb st ws)"
  unfolding handleMerkleBlockMsg_def merkle_rest_def taken_ws_def taken_def Let_def
  by (simp cong: option.case_cong go.case_cong if_cong)

lemma taken_inv:
  assumes "ws_inv ws" "peer_of ws p = Some st"
  shows "ws_inv ((taken_ws env p mb st ws)\<lparr>ws_h := h\<rparr>)" "peer_of ((taken_ws env p mb st ws)\<lparr>ws_h := h\<rparr>) p = Some (taken env p mb st)"
    "ws_inv (taken_ws env p mb st ws)"
proof -
  show "ws_inv (taken_ws env p mb st ws)" unfolding taken_ws_def
    by (rule ws_inv_set_same [OF assms]) (use assms(1) in \<open>simp_all add: ws_inv_def taken_def\<close>)
  then show "ws_inv ((taken_ws env p mb st ws)\<lparr>ws_h := h\<rparr>)" by (simp add: ws_inv_upd)
  show "peer_of ((taken_ws env p mb st ws)\<lparr>ws_h := h\<rparr>) p = Some (taken env p mb st)" by (simp add: taken_ws_def)
qed

lemma merkle_rest_inv:
  assumes "ws_inv ws" "peer_of ws p = Some st" "merkle_rest env now p mb st ws = Ret (ws', acts)"
  shows "ws_inv ws'"
proof (cases "\<exists>ids. checkMBlock (we_dh env) mb = Some (Ok ids)")
  case True
  then obtain ids where "checkMBlock (we_dh env) mb = Some (Ok ids)" ..
  with assms(3) obtain nb reorg nh err h1 where
    "(case err of
        Some e \<Rightarrow> if e = OrphanHeaderError then merkle_orphan env now p (taken env p mb st) ((taken_ws env p mb st ws)\<lparr>ws_h := h1\<rparr>)
                  else Ret ((taken_ws env p mb st ws)\<lparr>ws_h := h1\<rparr>, [])
      | None \<Rightarrow> merkle_committed env now p (mb_Header mb) ids (nb, reorg, nh, None) (taken env p mb st)
                  ((taken_ws env p mb st ws)\<lparr>ws_h := h1\<rparr>)) = Ret (ws', acts)"
    by (auto simp: merkle_rest_def run_bind_Ret)
  with taken_inv(1,2) [OF assms(1,2), where env = env and mb = mb and h = h1] show ?thesis
    by (auto split: option.splits if_splits dest: merkle_orphan_inv merkle_committed_inv)
next
  case False
  with assms(3) have "ws' = taken_ws env p mb st ws" by (auto simp: merkle_rest_def split: option.splits go.splits)
  with taken_inv(3) [OF assms(1,2)] show ?thesis by simp
qed

lemma handleMerkleBlockMsg_inv:
  "ws_inv ws \<Longrightarrow> handleMerkleBlockMsg env now p mb ws = Ret (ws', acts) \<Longrightarrow> ws_inv ws'"
  unfolding handleMerkleBlockMsg_eq by (auto split: if_splits option.splits dest: merkle_rest_inv)

text \<open>The loop over an inventory only adds requests.\<close>

definition inv_loop_ok :: "('s, 'h) WireService \<Rightarrow> peerSyncState \<Rightarrow> ('s, 'h) WireService \<Rightarrow> peerSyncState \<Rightarrow> bool" where
  "inv_loop_ok ws st ws1 st1 \<longleftrightarrow> (\<exists>m. ws1 = ws\<lparr>ws_requestedTxns := m\<rparr>) \<and>
     falsePositives st1 = falsePositives st \<and> wanted (ps_requestedTxns st) \<subseteq> wanted (ps_requestedTxns st1) \<and>
     wanted (ws_requestedTxns ws1) \<subseteq> wanted (ws_requestedTxns ws) \<union> wanted (ps_requestedTxns st1)"

lemma inv_step_ok:
  assumes "inv_loop_ok ws st ws1 st1" "inv_step env now cur sd iv (ws1, st1, gd, n) = (ws2, st2, gd', n')"
  shows "inv_loop_ok ws st ws2 st2"
proof (cases "\<exists>ht. ws2 = ws1\<lparr>ws_requestedTxns := AList.update (iv_Hash iv) ht (ws_requestedTxns ws1)\<rparr> \<and>
    st2 = st1\<lparr>ps_requestedTxns := AList.update (iv_Hash iv) ht (ps_requestedTxns st1)\<rparr>")
  case True
  with assms(1) show ?thesis by (auto simp: inv_loop_ok_def simp del: domIff dom_def) (fastforce simp: update_conv' split: if_splits)+
next
  case False
  with assms(2) have "ws2 = ws1 \<and> (st2 = st1 \<or> (\<exists>q. st2 = st1\<lparr>requestQueue := q\<rparr>))"
    by (auto simp: inv_step_def Let_def request_txn_eq split: inv_type.splits if_splits)
  with assms(1) show ?thesis by (auto simp: inv_loop_ok_def)
qed

lemma inv_fold_ok:
  "inv_loop_ok ws st ws1 st1 \<Longrightarrow> fold (inv_step env now cur sd) invs (ws1, st1, gd, n) = (ws2, st2, gd', n') \<Longrightarrow>
     inv_loop_ok ws st ws2 st2"
proof (induction invs arbitrary: ws1 st1 gd n)
  case (Cons iv invs)
  obtain ws3 st3 gd3 n3 where s: "inv_step env now cur sd iv (ws1, st1, gd, n) = (ws3, st3, gd3, n3)"
    by (metis prod_cases4)
  from Cons.IH [OF inv_step_ok [OF Cons.prems(1) s], of gd3 n3] Cons.prems(2) s show ?case by simp
qed simp

lemma inv_requests_ok:
  assumes "inv_requests env now p st invs ws = (ws', acts)"
  shows "\<exists>ws1 st1. inv_loop_ok ws st ws1 st1 \<and>
    (\<exists>st2. ws' = set_peer p st2 ws1 \<and> ps_requestedTxns st2 = ps_requestedTxns st1 \<and> falsePositives st2 = falsePositives st1)"
proof -
  obtain ws1 st1 gd n where f: "fold (inv_step env now (Current env now ws) (requestQueue st = [])) invs (ws, st, [], 0) = (ws1, st1, gd, n)"
    by (metis prod_cases4)
  have "inv_loop_ok ws st ws st" by (auto simp: inv_loop_ok_def intro: exI [of _ "ws_requestedTxns ws"])
  from inv_fold_ok [OF this f] have "inv_loop_ok ws st ws1 st1" .
  moreover have "\<exists>st2. ws' = set_peer p st2 ws1 \<and> ps_requestedTxns st2 = ps_requestedTxns st1 \<and> falsePositives st2 = falsePositives st1"
    using assms f unfolding inv_requests_def Let_def by (auto split: list.splits if_splits)
  ultimately show ?thesis by blast
qed

lemma inv_requests_inv:
  assumes "ws_inv ws" "peer_of ws p = Some st" "inv_requests env now p st invs ws = (ws', acts)"
  shows "ws_inv ws'"
proof -
  from inv_requests_ok [OF assms(3)] obtain ws1 st1 st2 where q: "inv_loop_ok ws st ws1 st1" "ws' = set_peer p st2 ws1"
    "ps_requestedTxns st2 = ps_requestedTxns st1" "falsePositives st2 = falsePositives st1" by blast
  show ?thesis unfolding q(2)
    by (rule ws_inv_set_peer [OF assms(1)]) (use q assms(1,2) in \<open>auto simp: inv_loop_ok_def ws_inv_def\<close>)
qed

lemma handleInvMsg_inv:
  assumes "ws_inv ws" "handleInvMsg env now p invs ws = Ret (ws', acts)"
  shows "ws_inv ws'"
proof -
  have "ws' = ws \<or> (\<exists>ws1 st acts1. peer_of ws p = Some st \<and> (ws1 = ws \<or> (\<exists>lb. ws1 = ws\<lparr>LastBlock := lb\<rparr>)) \<and>
      inv_requests env now p st invs ws1 = (ws', acts1))"
    using assms(2) unfolding handleInvMsg_def Let_def
    by (auto simp: case_prod_unfold prod_eq_iff split: option.splits if_splits go.splits)
  moreover have "ws_inv ws'" if ws1: "peer_of ws p = Some st" "ws1 = ws \<or> (\<exists>lb. ws1 = ws\<lparr>LastBlock := lb\<rparr>)"
    "inv_requests env now p st invs ws1 = (ws', acts1)" for ws1 st acts1
  proof -
    have "ws_inv ws1" "peer_of ws1 p = Some st" using assms(1) ws1(1,2) by (auto simp: ws_inv_upd)
    from inv_requests_inv [OF this ws1(3)] show ?thesis .
  qed
  ultimately show ?thesis using assms(1) by blast
qed

lemma handleTxMsg_eq:
  assumes "ws_inv ws" "peer_of ws p = Some st" "map_of (ps_requestedTxns st) (txHash (e_lib (we_ts env)) tx) = Some ht"
  shows "handleTxMsg env now p tx ws =
    run_bind (Ingest (we_ts env) now tx (ht_height ht) (ht_timestamp ht) (ws_ts ws) (ws_s ws)) (\<lambda>(_, ts, s, evs).
      let txid = txHash (e_lib (we_ts env)) tx in
      Ret (set_peer p (st\<lparr>ps_requestedTxns := AList.delete txid (ps_requestedTxns st)\<rparr>)
        (ws\<lparr>mempool := insert txid (mempool ws), ws_ts := ts, ws_s := s,
           ws_requestedTxns := AList.delete txid (ws_requestedTxns ws)\<rparr>), map OnTx evs))"
proof -
  have "falsePositives st = 0" using assms(1,2) by (simp add: ws_inv_def)
  with assms(2,3) show ?thesis unfolding handleTxMsg_def Let_def by simp
qed

lemma handleTxMsg_inv:
  assumes "ws_inv ws" "handleTxMsg env now p tx ws = Ret (ws', acts)"
  shows "ws_inv ws'"
proof (cases "\<exists>st ht. peer_of ws p = Some st \<and> map_of (ps_requestedTxns st) (txHash (e_lib (we_ts env)) tx) = Some ht")
  case True
  then obtain st ht where st: "peer_of ws p = Some st" "map_of (ps_requestedTxns st) (txHash (e_lib (we_ts env)) tx) = Some ht" by blast
  let ?x = "txHash (e_lib (we_ts env)) tx"
  from assms(2) [unfolded handleTxMsg_eq [OF assms(1) st]] obtain ts s where
    "ws' = set_peer p (st\<lparr>ps_requestedTxns := AList.delete ?x (ps_requestedTxns st)\<rparr>)
        (ws\<lparr>mempool := insert ?x (mempool ws), ws_ts := ts, ws_s := s,
           ws_requestedTxns := AList.delete ?x (ws_requestedTxns ws)\<rparr>)"
    by (auto simp: run_bind_Ret Let_def)
  then show ?thesis using assms(1) st(1)
    by (simp only:) (rule ws_inv_set_peer [OF assms(1)], auto simp: ws_inv_def)
next
  case False
  then have "ws' = ws" using assms(2) unfolding handleTxMsg_def Let_def by (auto split: option.splits)
  with assms(1) show ?thesis by simp
qed

lemma handle_inv:
  assumes "ws_inv ws" "handle env now m ws = Ret (ws', acts)" "\<forall>p. m = newPeerMsg p \<longrightarrow> peer_of ws p = None"
  shows "ws_inv ws'"
proof (cases m)
  case (headersMsg p hdrs)
  with handleHeadersMsg_keeps assms(1,2) show ?thesis by (force simp: handle_def ws_inv_upd)
next
  case updateFiltersMsg
  with update_filters_keeps assms(1,2) show ?thesis by (force simp: handle_def handleUpdateFiltersMsg_def ws_inv_ts)
qed (use assms in \<open>auto simp: handle_def dest: handleNewPeerMsg_inv handleDonePeerMsg_inv handleMerkleBlockMsg_inv
    handleInvMsg_inv handleTxMsg_inv\<close>)

section \<open>Reachable states\<close>

text \<open>
  The states of the service: between two messages the wallet may change the stores and the
  listeners, and the peers report new heights.  A peer connects once.
\<close>

inductive ws_reach :: "('s, 'k, 'h) ws_env \<Rightarrow> ('s, 'h) WireService \<Rightarrow> bool" for env where
  start: "ws_reach env (NewWireService ts s h heights)"
| message: "ws_reach env ws \<Longrightarrow> handle env now m ws = Ret (ws', acts) \<Longrightarrow> (\<forall>p. m = newPeerMsg p \<longrightarrow> peer_of ws p = None) \<Longrightarrow> ws_reach env ws'"
| resync: "ws_reach env ws \<Longrightarrow> Resync env ws = Ret (ws', acts) \<Longrightarrow> ws_reach env ws'"
| stop: "ws_reach env ws \<Longrightarrow> ws_reach env (Stop ws)"
| wallet: "ws_reach env ws \<Longrightarrow> ws_reach env (ws\<lparr>ws_ts := ts, ws_s := s, ws_h := h, LastBlock := lb, showTipOnly := tips, ws_listeners := ls\<rparr>)"

lemma ws_reach_ws_inv: "ws_reach env ws \<Longrightarrow> ws_inv ws"
proof (induction rule: ws_reach.induct)
  case (start ts s h heights)
  show ?case by (simp add: ws_inv_def NewWireService_def)
next
  case (message ws now m ws' acts)
  from handle_inv [OF message.IH message.hyps(2,3)] show ?case .
next
  case (resync ws ws' acts)
  with startSync_inv show ?case by (force simp: Resync_def)
next
  case (stop ws)
  then show ?case by (intro ws_inv_cong [OF stop.IH]) (simp_all add: Stop_def ws_inv_def)
next
  case (wallet ws ts s h lb tips ls)
  then show ?case by (intro ws_inv_cong [OF wallet.IH]) (simp_all add: ws_inv_def)
qed

text \<open>Property C10. In every reachable state of the wire service each peer has one state, and every transaction it
  waits for is awaited from a connected peer: when the last peer it was requested from leaves, it
  can be requested anew.  Two fields are never used: no block is ever in the global map of requested
  blocks, and no peer ever has a false positive.\<close>

theorem ws_reach_requests:
  assumes "ws_reach env ws"
  shows "distinct (map fst (peerStates ws)) \<and>
    (\<forall>x ht. map_of (ws_requestedTxns ws) x = Some ht \<longrightarrow>
      (\<exists>p st. peer_of ws p = Some st \<and> map_of (ps_requestedTxns st) x \<noteq> None)) \<and>
    ws_requestedBlocks ws = {} \<and> (\<forall>p st. peer_of ws p = Some st \<longrightarrow> falsePositives st = 0)"
  using ws_reach_ws_inv [OF assms] unfolding ws_inv_def by blast

section \<open>Examples\<close>

text \<open>A service with one peer that reports height 10, over the example chain and an empty wallet.\<close>

type_synonym ex_hdb_t = "((string, StoredHeader) alist, (bytes, bytes) alist) HeaderDB"

definition ex_node :: "(sqldb, u32 list, ex_hdb_t) ws_env" where
  "ex_node = \<lparr>we_ts = ex_env, we_hs = ex_if, we_b = ex_chain, we_dh = (\<lambda>_. 0), walletCreationDate = 24 * 14 * 3600 * nano,
     minPeersForSync = 1, MaxInvPerMsg = 50000, peer_Services = (\<lambda>_. 1), peer_Host = (\<lambda>_. Some ''localhost''),
     UpdateLastBlockHeight = (\<lambda>old new. new), peer_order = id, pending_order = id, pick = hd\<rparr>"

definition ex_peer :: peerSyncState where
  "ex_peer = (new_state True)\<lparr>ps_requestedBlocks := {8}\<rparr>"

definition ex_service :: "i32 \<Rightarrow> (sqldb, ex_hdb_t) WireService" where
  "ex_service height = (NewWireService ex_ts0 ex_db0 ex_chain0 (\<lambda>_. height))\<lparr>syncPeer := Some 1, peerStates := [(1, ex_peer)]\<rparr>"

lemma ex_service_simps:
  "syncPeer (ex_service n) = Some 1" "peerStates (ex_service n) = [(1, ex_peer)]" "ws_h (ex_service n) = ex_chain0"
  "LastBlock (ex_service n) = (\<lambda>_. n)" "ws_s (ex_service n) = ex_db0" "ws_ts (ex_service n) = ex_ts0"
  by (simp_all add: ex_service_def NewWireService_def)

lemma ex_node_simps:
  "we_ts ex_node = ex_env" "we_hs ex_node = ex_if" "we_b ex_node = ex_chain" "minPeersForSync ex_node = 1" "peer_order ex_node = id"
  by (simp_all add: ex_node_def)

lemma ex_best: "BestBlock (we_hs ex_node) ex_chain0 = Ok (first_header ex_cp)"
  using hdbi.GetBestHeader [OF ex_chain0_facts(2,3)] by (simp add: BestBlock_def ex_node_simps)

lemma ex_best_simps: "sh_height (first_header ex_cp) = 0" "hdr_Timestamp (sh_header (first_header ex_cp)) = 0"
  by (simp_all add: first_header_def regtestCheckpoint_def ex_header_def)

text \<open>A run that reaches a state with a peer and a requested transaction.\<close>

lemma ex_filter: "\<exists>f ts. GimmeFilter ex_env ex_ts0 ex_db0 = Ret (Ok f, ts)"
  by (simp add: GimmeFilter_def PopulateAdrs_def Let_def ex_env_def SQLiteDatastore_def UtxoDB_GetAll_def StxoDB_GetAll_def
      WatchedScriptsDB_GetAll_def initDatabaseTables_def map_filter_def)

lemma ex_connect:
  "\<exists>ws acts. handle ex_node 0 (newPeerMsg 1) (NewWireService ex_ts0 ex_db0 ex_chain0 (\<lambda>_. 0)) = Ret (ws, acts) \<and>
     peer_of ws 1 = Some (new_state True) \<and> ws_requestedTxns ws = [] \<and> mempool ws = {} \<and> syncPeer ws = None \<and> Current ex_node 0 ws"
proof -
  obtain f ts where f: "GimmeFilter ex_env ex_ts0 ex_db0 = Ret (Ok f, ts)" using ex_filter by blast
  let ?ws = "(set_peer 1 (new_state True) (NewWireService ex_ts0 ex_db0 ex_chain0 (\<lambda>_. 0)))\<lparr>ws_ts := ts\<rparr>"
  have c: "isSyncCandidate ex_node 1" by (simp add: isSyncCandidate_def ex_node_def ex_chain_def ex_params_def)
  have "Current ex_node 0 ?ws"
    by (simp add: Current_def NewWireService_def ex_best ex_best_simps set_peer_def nano_def)
  with f c have "handle ex_node 0 (newPeerMsg 1) (NewWireService ex_ts0 ex_db0 ex_chain0 (\<lambda>_. 0)) = Ret (?ws, [QueueFilter 1 f])"
    by (simp add: handle_def handleNewPeerMsg_def updateFilterAndSend_def ex_node_simps NewWireService_def set_peer_def)
  moreover from \<open>Current ex_node 0 ?ws\<close> show ?thesis
    using calculation by (auto simp: NewWireService_def)
qed

theorem ws_reach_requests_witness:
  "\<exists>ws ht. ws_reach ex_node ws \<and> map_of (ws_requestedTxns ws) 5 = Some ht \<and>
     (\<exists>p st. peer_of ws p = Some st \<and> map_of (ps_requestedTxns st) 5 \<noteq> None)"
proof -
  obtain ws acts where ws: "handle ex_node 0 (newPeerMsg 1) (NewWireService ex_ts0 ex_db0 ex_chain0 (\<lambda>_. 0)) = Ret (ws, acts)"
    "peer_of ws 1 = Some (new_state True)" "ws_requestedTxns ws = []" "mempool ws = {}" "Current ex_node 0 ws" using ex_connect by blast
  have r: "ws_reach ex_node ws" by (rule message [OF start ws(1)]) (simp add: NewWireService_def)
  have "\<exists>ws' acts. handle ex_node 0 (invMsg 1 [\<lparr>iv_Type = InvTypeTx, iv_Hash = 5\<rparr>]) ws = Ret (ws', acts) \<and> map_of (ws_requestedTxns ws') 5 \<noteq> None"
    using ws(2-5) by (simp add: handle_def handleInvMsg_def last_block_def inv_requests_def inv_step_def haveInventory_def Let_def
        new_state_def request_txn_eq) (simp add: ex_node_def)
  then obtain ws' acts' where ws': "handle ex_node 0 (invMsg 1 [\<lparr>iv_Type = InvTypeTx, iv_Hash = 5\<rparr>]) ws = Ret (ws', acts')"
    "map_of (ws_requestedTxns ws') 5 \<noteq> None" by blast
  have "ws_reach ex_node ws'" by (rule message [OF r ws'(1)]) simp
  with ws_reach_requests [OF this] ws'(2) show ?thesis by blast
qed

end
