(* ===== verification/Wire_Sync.thy ===== *)
theory Wire_Sync
  imports Wire_Inv
begin

text \<open>
  The sync peer of the wire service: how it is chosen, what happens when it is lost, and what becomes
  of headers that do not connect.
\<close>

section \<open>The sync peer\<close>

text \<open>A peer to sync from: a candidate that reports at least our height.\<close>

definition sync_cand :: "u32 \<Rightarrow> ('s, 'h) WireService \<Rightarrow> nat \<Rightarrow> bool" where
  "sync_cand height ws p \<longleftrightarrow> (\<exists>st. peer_of ws p = Some st \<and> syncCandidate st) \<and> sint height \<le> sint (LastBlock ws p)"

lemma sync_cand_demote:
  "peer_of ws p = Some st \<Longrightarrow> LastBlock ws p <s height \<Longrightarrow> sync_cand height (set_peer p (st\<lparr>syncCandidate := False\<rparr>) ws) = sync_cand height ws"
  by (rule ext) (auto simp: sync_cand_def word_sless_alt)

lemma choose_peer_spec:
  "choose_peer height ps bp bh ws = (r, ws') \<Longrightarrow>
     r = bp \<and> (\<forall>q \<in> set ps. sync_cand height ws q \<longrightarrow> sint (LastBlock ws q) \<le> sint bh) \<or>
     (\<exists>p \<in> set ps. r = Some p \<and> sync_cand height ws p \<and> sint bh < sint (LastBlock ws p) \<and>
       (\<forall>q \<in> set ps. sync_cand height ws q \<longrightarrow> sint (LastBlock ws q) \<le> sint (LastBlock ws p)))"
proof (induction ps arbitrary: bp bh ws)
  case (Cons p ps)
  consider (demote) st where "peer_of ws p = Some st" "LastBlock ws p <s height"
      "choose_peer height ps bp bh (set_peer p (st\<lparr>syncCandidate := False\<rparr>) ws) = (r, ws')" "\<not> sync_cand height ws p"
    | (better) "sync_cand height ws p" "sint bh < sint (LastBlock ws p)" "choose_peer height ps (Some p) (LastBlock ws p) ws = (r, ws')"
    | (skip) "choose_peer height ps bp bh ws = (r, ws')" "sync_cand height ws p \<longrightarrow> sint (LastBlock ws p) \<le> sint bh"
    using Cons.prems by (auto simp: sync_cand_def word_sless_alt not_less split: option.splits if_splits)
  then show ?case
  proof cases
    case demote
    with Cons.IH [OF demote(3)] sync_cand_demote [OF demote(1,2)] show ?thesis by auto
  next
    case better
    with Cons.IH [OF better(3)] show ?thesis by fastforce
  next
    case skip
    with Cons.IH [OF skip(1)] show ?thesis by fastforce
  qed
qed simp


text \<open>A run of the service over a list of messages and the times they are handled at.\<close>

fun run_msgs :: "('s, 'k, 'h) ws_env \<Rightarrow> (go_time \<times> ws_msg) list \<Rightarrow> ('s, 'h) WireService \<Rightarrow> ('s, 'h) WireService run" where
  "run_msgs env [] ws = Ret ws"
| "run_msgs env ((now, m) # ms) ws = run_bind (handle env now m ws) (\<lambda>(ws1, _). run_msgs env ms ws1)"

text \<open>The sync peer has left and the service did not notice.\<close>

definition lost :: "nat \<Rightarrow> ('s, 'h) WireService \<Rightarrow> bool" where
  "lost q ws \<longleftrightarrow> syncPeer ws = Some q \<and> peer_of ws q = None"

lemma handle_lost:
  assumes "lost q ws" "\<not> Current env now ws" "m \<noteq> newPeerMsg q" "handle env now m ws = Ret (ws', acts)"
  shows "lost q ws' \<and> ws_h ws' = ws_h ws"
proof (cases m)
  case (newPeerMsg p)
  with assms(4) obtain ws1 a1 where u: "updateFilterAndSend env p (set_peer p (new_state (isSyncCandidate env p)) ws) = Ret (ws1, a1)"
    and r: "(if syncPeer ws1 = None \<and> \<not> Current env now ws1
       then run_bind (startSync env None ws1) (\<lambda>(ws2, a2). Ret (ws2, a1 @ a2)) else Ret (ws1, a1)) = Ret (ws', acts)"
    by (auto simp: handle_def handleNewPeerMsg_def run_bind_Ret)
  from updateFilterAndSend_keeps [OF u] r assms(1,3) newPeerMsg show ?thesis by (auto simp: lost_def split: if_splits)
next
  case (donePeerMsg p)
  with assms show ?thesis
    by (auto simp: handle_def handleDonePeerMsg_def Let_def lost_def delete_conv' split: option.splits if_splits)
next
  case (headersMsg p hdrs)
  with assms show ?thesis by (auto simp: handle_def handleHeadersMsg_def lost_def split: if_splits)
next
  case (merkleBlockMsg p mb)
  with assms show ?thesis by (auto simp: handle_def handleMerkleBlockMsg_def lost_def split: if_splits)
next
  case (invMsg p invs)
  with assms show ?thesis by (auto simp: handle_def handleInvMsg_def lost_def Let_def split: option.splits if_splits)
next
  case (txMsg p tx)
  show ?thesis
  proof (cases "peer_of ws p")
    case (Some st)
    with assms(1) have "p \<noteq> q" by (auto simp: lost_def)
    with Some assms(1,4) txMsg show ?thesis
      by (auto simp: handle_def handleTxMsg_def lost_def Let_def run_bind_Ret dest!: updateFilterAndSend_keeps
          split: option.splits if_splits)
  qed (use assms txMsg in \<open>auto simp: handle_def handleTxMsg_def\<close>)
next
  case updateFiltersMsg
  with assms show ?thesis
    by (auto simp: handle_def handleUpdateFiltersMsg_def lost_def dest!: update_filters_keeps)
qed

lemma old_not_Current:
  "BestBlock (we_hs env) (ws_h ws) = Ok best \<Longrightarrow> hdr_Timestamp (sh_header best) < now - 24 * 3600 * nano \<Longrightarrow> \<not> Current env now ws"
  by (simp add: Current_def)

lemma run_msgs_lost:
  assumes "lost q ws" "BestBlock (we_hs env) (ws_h ws) = Ok best"
    and "\<forall>(now, m) \<in> set ms. hdr_Timestamp (sh_header best) < now - 24 * 3600 * nano \<and> m \<noteq> newPeerMsg q"
    and "run_msgs env ms ws = Ret ws'"
  shows "lost q ws' \<and> ws_h ws' = ws_h ws"
  using assms
proof (induction ms arbitrary: ws)
  case (Cons nm ms)
  obtain now m where nm: "nm = (now, m)" by fastforce
  with Cons.prems(4) obtain ws1 acts where s: "handle env now m ws = Ret (ws1, acts)" "run_msgs env ms ws1 = Ret ws'"
    by (auto simp: run_bind_Ret)
  have "\<not> Current env now ws" by (rule old_not_Current [OF Cons.prems(2)]) (use Cons.prems(3) nm in auto)
  with handle_lost [OF Cons.prems(1) _ _ s(1)] Cons.prems(3) nm have "lost q ws1 \<and> ws_h ws1 = ws_h ws" by auto
  with Cons.IH [OF _ _ _ s(2)] Cons.prems(2,3) show ?case by auto
qed simp


section \<open>Headers\<close>

text \<open>An error of \<open>CommitHeader\<close> comes with the height zero, and the store as it was or after a failed write.\<close>

lemma commit_error_height:
  assumes "CommitHeader hs b hdr h = Ret ((nt, anc, height, Some e), h1)"
  shows "height = 0"
proof -
  have put: "commit_put hs hdr p w t a h = ((nt, anc, height, Some e), h1) \<Longrightarrow> height = 0" for p w t a
    by (auto simp: commit_put_def Let_def split: prod.splits option.splits)
  show ?thesis
    using assms unfolding CommitHeader_def commit_checked_def Let_def
    by (auto split: go.splits bool.splits if_splits option.splits dest: put)
qed

text \<open>So the rollback after an error is one to the greatest height, which does nothing.\<close>

lemma rollback_noop:
  assumes "H_GetBestHeader hs h = Ok best" "sh_height best < 0xffffffff"
  shows "RollbackToHeight hs b (0 - 1) h = Ret (None, h)"
proof -
  have "(0 - 1 :: u32) = 0xffffffff" by simp
  with assms show ?thesis by (simp add: RollbackToHeight_def Let_def del: diff_0)
qed

lemma headers_loop_errors:
  assumes "H_GetBestHeader (we_hs env) h = Ok best" "sh_height best < 0xffffffff"
  shows "\<forall>hdr \<in> set hdrs. hdr_Timestamp hdr < cutoff env \<and>
      (\<exists>nt anc height e. CommitHeader (we_hs env) (we_b env) hdr h = Ret ((nt, anc, height, Some e), h)) \<Longrightarrow>
    headers_loop env hdrs h = Ret (h, False)"
proof (induction hdrs)
  case (Cons hdr hdrs)
  then obtain nt anc height e where c: "CommitHeader (we_hs env) (we_b env) hdr h = Ret ((nt, anc, height, Some e), h)" by fastforce
  from commit_error_height [OF c] Cons c rollback_noop [OF assms] show ?case by simp
qed simp

text \<open>Property C40. Headers that do not connect have no consequence: a sync peer that sends any number of them is asked
  for more, the rollback the code starts after each error does nothing, and the peer is not
  disconnected, although the comment says it is after more than one.\<close>

theorem bad_headers_ignored:
  assumes "syncPeer ws = Some p" "peer_of ws p = Some st" "hdrs \<noteq> []"
    and "BestBlock (we_hs env) (ws_h ws) = Ok best" "sh_height best < 0xffffffff"
    and "\<forall>hdr \<in> set hdrs. hdr_Timestamp hdr < cutoff env \<and>
      (\<exists>nt anc height e. CommitHeader (we_hs env) (we_b env) hdr (ws_h ws) = Ret ((nt, anc, height, Some e), ws_h ws))"
  shows "handle env now (headersMsg p hdrs) ws =
    Ret (ws, [PushGetHeadersMsg p (GetBlockLocator (we_hs env) (b_hl (we_b env)) (ws_h ws))])"
  using headers_loop_errors [OF assms(4) [unfolded BestBlock_def] assms(5,6)] assms(1-3)
  by (simp add: handle_def handleHeadersMsg_def)

section \<open>Witnesses\<close>

lemma ex_current: "ws_h ws = ex_chain0 \<Longrightarrow> LastBlock ws = (\<lambda>_. 0) \<Longrightarrow> Current ex_node 0 ws"
  by (simp add: Current_def ex_best ex_best_simps nano_def)



theorem bad_headers_ignored_witness:
  "\<exists>locator. handle ex_node 0 (headersMsg 1 [ex_header 9 8, ex_header 9 8, ex_header 9 8]) (ex_service 10) =
     Ret (ex_service 10, [PushGetHeadersMsg 1 locator])"
proof -
  have "hdb_look ex_hl ex_ol ex_bl ex_chain0 (PrevBlock (ex_header 9 8)) = None" by (simp add: ex_chain0_facts(4) ex_hash)
  from hdbi.GetHeader_None [OF ex_chain0_facts(2) this] obtain e where
    "H_GetHeader ex_if (PrevBlock (ex_header 9 8)) ex_chain0 = Err e" ..
  then have c: "\<exists>nt anc height e. CommitHeader ex_if ex_chain (ex_header 9 8) ex_chain0 = Ret ((nt, anc, height, Some e), ex_chain0)"
    by (auto simp: CommitHeader_def hdbi.GetBestHeader [OF ex_chain0_facts(2,3)] hdbi.GetPreviousHeader [OF ex_chain0_facts(2)] Let_def
        ex_chain_def ex_hash first_header_def regtestCheckpoint_def)
  have t: "hdr_Timestamp (ex_header 9 8) < cutoff ex_node"
    by (simp add: ex_header_def cutoff_def ex_node_def nano_def)
  show ?thesis
    by (rule exI, rule bad_headers_ignored [where best = "first_header ex_cp" and st = ex_peer])
      (use c t in \<open>simp_all add: ex_service_simps ex_best ex_best_simps, simp_all add: ex_node_simps\<close>)
qed

end
