(* ===== verification/Wire_Blocks.thy ===== *)
theory Wire_Blocks
  imports Wire_Inv
begin

text \<open>
  Merkle blocks in the wire service: the transactions they make it request, and which messages
  change the wallet's tables.
\<close>

section \<open>Merkle blocks\<close>

lemma merkle_next_txns:
  "peer_of ws p = Some st \<Longrightarrow> \<exists>st'. peer_of (fst (merkle_next env now p st ws)) p = Some st' \<and> ps_requestedTxns st' = ps_requestedTxns st"
  "ws_requestedTxns (fst (merkle_next env now p st ws)) = ws_requestedTxns ws"
  by (simp_all add: merkle_next_def Let_def split: list.split)

lemma merkle_new_txns:
  assumes "peer_of ws p = Some st" "merkle_new env now p hdr reorg nh st ws = Ret (ws', acts)"
  shows "(\<exists>st'. peer_of ws' p = Some st' \<and> ps_requestedTxns st' = ps_requestedTxns st) \<and> ws_requestedTxns ws' = ws_requestedTxns ws"
proof -
  obtain st1 ws1 where m: "(case reorg of
        Some anc \<Rightarrow> if Current env now ws
          then run_bind (merkle_reorg env now p st anc ws) (\<lambda>ws1. Ret (st\<lparr>requestQueue := [], ps_requestedBlocks := {}\<rparr>, ws1))
          else Ret (st, ws)
      | None \<Rightarrow> Ret (st, ws)) = Ret (st1, ws1)" "ws' = fst (merkle_next env now p st1 (ws1\<lparr>mempool := {}\<rparr>))"
    using assms(2) unfolding merkle_new_def Let_def by (auto simp: run_bind_Ret case_prod_unfold)
  have "peer_of ws1 p = Some st1 \<and> ps_requestedTxns st1 = ps_requestedTxns st \<and> ws_requestedTxns ws1 = ws_requestedTxns ws"
    using m(1) assms(1) by (auto simp: merkle_reorg_def run_bind_Ret split: option.splits if_splits)
  with merkle_next_txns(1) [of "ws1\<lparr>mempool := {}\<rparr>" p st1 env now] show ?thesis unfolding m(2) by (simp add: merkle_next_txns(2))
qed

text \<open>The requests after a block was committed without an error.\<close>

definition block_requests :: "hash list \<Rightarrow> u32 \<Rightarrow> go_time \<Rightarrow> (hash \<times> heightAndTime) list \<Rightarrow> (hash \<times> heightAndTime) list \<Rightarrow> bool" where
  "block_requests ids height t m m' \<longleftrightarrow>
     (\<forall>x. map_of m' x = (if x \<in> set ids then Some \<lparr>ht_height = height, ht_timestamp = t\<rparr> else map_of m x))"

lemma merkle_committed_txns:
  assumes "peer_of ws p = Some st" "merkle_committed env now p hdr ids (nb, reorg, nh, None) st ws = Ret (ws', acts)"
  shows "(\<exists>st'. peer_of ws' p = Some st' \<and> block_requests ids nh (hdr_Timestamp hdr) (ps_requestedTxns st) (ps_requestedTxns st')) \<and>
    block_requests ids nh (hdr_Timestamp hdr) (ws_requestedTxns ws) (ws_requestedTxns ws')"
proof -
  let ?ht = "\<lparr>ht_height = nh, ht_timestamp = hdr_Timestamp hdr\<rparr>"
  let ?ws1 = "if Current env now ws
     then ws\<lparr>LastBlock := (LastBlock ws)(p := UpdateLastBlockHeight env (LastBlock ws p) nh)\<rparr> else ws"
  let ?st2 = "st\<lparr>blockScore := blockScore st + 1, ps_requestedTxns := fold (\<lambda>x m. AList.update x ?ht m) ids (ps_requestedTxns st)\<rparr>"
  let ?ws2 = "set_peer p ?st2 (?ws1\<lparr>ws_requestedTxns := fold (\<lambda>x m. AList.update x ?ht m) ids (ws_requestedTxns ?ws1)\<rparr>)"
  have q: "request_block_txns env p (st\<lparr>blockScore := blockScore st + 1\<rparr>) ids ?ht ?ws1 = (?st2, ?ws2)"
    by (simp add: request_block_txns_def request_txn_eq Let_def)
  have r: "(if \<not> nb then Ret (?ws2, []) else merkle_new env now p hdr reorg nh ?st2 ?ws2) = Ret (ws', acts)"
    using assms(2) q unfolding merkle_committed_def Let_def by simp
  have "peer_of ?ws2 p = Some ?st2" by simp
  have "(\<exists>st'. peer_of ws' p = Some st' \<and> ps_requestedTxns st' = ps_requestedTxns ?st2) \<and> ws_requestedTxns ws' = ws_requestedTxns ?ws2"
  proof (cases nb)
    case True
    then show ?thesis using r by (intro merkle_new_txns [OF \<open>peer_of ?ws2 p = Some ?st2\<close>]) simp
  next
    case False
    then have "ws' = ?ws2" using r by simp
    then show ?thesis by simp
  qed
  then show ?thesis by (auto simp: block_requests_def map_of_fold_update)
qed

lemma merkle_block_committed:
  assumes "handle env now (merkleBlockMsg p mb) ws = Ret (ws', acts)" "syncPeer ws = Some p \<or> Current env now ws"
    and "peer_of ws p = Some st" "BlockHash (b_hl (we_b env)) (mb_Header mb) \<in> ps_requestedBlocks st"
    and "checkMBlock (we_dh env) mb = Some (Ok ids)"
    and "CommitHeader (we_hs env) (we_b env) (mb_Header mb) (ws_h ws) = Ret ((nb, reorg, nh, None), h1)"
  shows "merkle_committed env now p (mb_Header mb) ids (nb, reorg, nh, None) (taken env p mb st)
    ((taken_ws env p mb st ws)\<lparr>ws_h := h1\<rparr>) = Ret (ws', acts)"
  using assms by (auto simp: handle_def handleMerkleBlockMsg_eq merkle_rest_def)

text \<open>Property C17. A requested merkle block that is well formed and whose header is committed: exactly the
  transactions the block proves are added to the requests, of the service and of the peer, with the
  height of the block and its time; every other request stays as it was.\<close>

theorem merkle_block_requests:
  assumes "handle env now (merkleBlockMsg p mb) ws = Ret (ws', acts)" "syncPeer ws = Some p \<or> Current env now ws"
    and "peer_of ws p = Some st" "BlockHash (b_hl (we_b env)) (mb_Header mb) \<in> ps_requestedBlocks st"
    and "checkMBlock (we_dh env) mb = Some (Ok ids)"
    and "CommitHeader (we_hs env) (we_b env) (mb_Header mb) (ws_h ws) = Ret ((nb, reorg, nh, None), h1)"
  shows "(\<exists>st'. peer_of ws' p = Some st' \<and>
      block_requests ids nh (hdr_Timestamp (mb_Header mb)) (ps_requestedTxns st) (ps_requestedTxns st')) \<and>
    block_requests ids nh (hdr_Timestamp (mb_Header mb)) (ws_requestedTxns ws) (ws_requestedTxns ws')"
  using merkle_committed_txns [OF _ merkle_block_committed [OF assms]]
  by (simp add: taken_ws_def) (simp add: taken_def)

text \<open>A merkle block whose header is refused is treated like a known block: the sender is not
  disconnected, its score goes up, and the transactions of the block are requested as unconfirmed
  ones, at height zero.\<close>

theorem refused_block_requested:
  assumes "syncPeer ws = Some p \<or> Current env now ws" "peer_of ws p = Some st"
    and "BlockHash (b_hl (we_b env)) (mb_Header mb) \<in> ps_requestedBlocks st" "checkMBlock (we_dh env) mb = Some (Ok ids)"
    and "BestBlock (we_hs env) (ws_h ws) = Ok best" "PrevBlock (mb_Header mb) = BlockHash (b_hl (we_b env)) (sh_header best)"
    and "CheckHeader (we_hs env) (we_b env) (mb_Header mb) best (ws_h ws) = Ok False"
  shows "\<exists>ws' st'. handle env now (merkleBlockMsg p mb) ws = Ret (ws', []) \<and> ws_h ws' = ws_h ws \<and>
    peer_of ws' p = Some st' \<and> blockScore st' = blockScore st + 1 \<and>
    block_requests ids 0 (hdr_Timestamp (mb_Header mb)) (ps_requestedTxns st) (ps_requestedTxns st')"
proof -
  have c: "CommitHeader (we_hs env) (we_b env) (mb_Header mb) (ws_h ws) = Ret ((False, None, 0, None), ws_h ws)"
    using assms(5-7) by (simp add: CommitHeader_def BestBlock_def)
  have "\<exists>ws' st'. handle env now (merkleBlockMsg p mb) ws = Ret (ws', []) \<and> ws_h ws' = ws_h ws \<and>
      peer_of ws' p = Some st' \<and> blockScore st' = blockScore st + 1"
    using assms(1-4) c
    by (auto simp: handle_def handleMerkleBlockMsg_eq merkle_rest_def merkle_committed_def request_block_txns_def Let_def
        taken_ws_def taken_def)
  then obtain ws' st' where h: "handle env now (merkleBlockMsg p mb) ws = Ret (ws', [])" "ws_h ws' = ws_h ws"
    "peer_of ws' p = Some st'" "blockScore st' = blockScore st + 1" by blast
  from merkle_committed_txns [OF _ merkle_block_committed [OF h(1) assms(1-4) c]] h(3)
  have "block_requests ids 0 (hdr_Timestamp (mb_Header mb)) (ps_requestedTxns st) (ps_requestedTxns st')"
    by (simp add: taken_ws_def) (simp add: taken_def)
  with h show ?thesis by blast
qed

section \<open>What changes the wallet\<close>

lemma done_store:
  assumes "handleDonePeerMsg env now p ws = Ret (ws', acts)"
  shows "ws_s ws' = ws_s ws"
proof (cases "peer_of ws p")
  case (Some st)
  let ?ws1 = "ws\<lparr>peerStates := AList.delete p (peerStates ws),
    ws_requestedTxns := filter (\<lambda>(h, _). h \<notin> fst ` set (ps_requestedTxns st)) (ws_requestedTxns ws),
    ws_requestedBlocks := ws_requestedBlocks ws - ps_requestedBlocks st\<rparr>"
  from assms Some consider "ws' = ?ws1" | "startSync env None (?ws1\<lparr>syncPeer := None\<rparr>) = Ret (ws', acts)"
    unfolding handleDonePeerMsg_def Let_def by (auto split: if_splits)
  then show ?thesis by cases (auto dest: startSync_store)
qed (use assms in \<open>simp add: handleDonePeerMsg_def\<close>)

lemma inv_store:
  assumes "handleInvMsg env now p invs ws = Ret (ws', acts)"
  shows "ws_s ws' = ws_s ws"
proof -
  have "ws' = ws \<or> (\<exists>ws1 st acts1. (ws1 = ws \<or> (\<exists>lb. ws1 = ws\<lparr>LastBlock := lb\<rparr>)) \<and>
      inv_requests env now p st invs ws1 = (ws', acts1))"
    using assms unfolding handleInvMsg_def Let_def
    by (auto simp: case_prod_unfold prod_eq_iff split: option.splits if_splits go.splits)
  then show ?thesis by (force simp: inv_loop_ok_def dest!: inv_requests_ok)
qed

lemma merkle_new_store:
  assumes "merkle_new env now p hdr reorg nh st ws = Ret (ws', acts)"
  shows "ws_s ws' = ws_s ws \<or> (\<exists>anc e. reorg = Some anc \<and> processReorg (we_ts env) now (sh_height anc) (ws_s ws) = Ret (e, ws_s ws'))"
proof -
  obtain st1 ws1 where m: "(case reorg of
        Some anc \<Rightarrow> if Current env now ws
          then run_bind (merkle_reorg env now p st anc ws) (\<lambda>ws1. Ret (st\<lparr>requestQueue := [], ps_requestedBlocks := {}\<rparr>, ws1))
          else Ret (st, ws)
      | None \<Rightarrow> Ret (st, ws)) = Ret (st1, ws1)" "ws' = fst (merkle_next env now p st1 (ws1\<lparr>mempool := {}\<rparr>))"
    using assms unfolding merkle_new_def Let_def by (auto simp: run_bind_Ret case_prod_unfold)
  have "ws_s ws' = ws_s ws1" unfolding m(2) by (simp add: merkle_next_def Let_def split: list.split)
  with m(1) show ?thesis by (auto simp: merkle_reorg_def run_bind_Ret split: option.splits if_splits)
qed

lemma merkle_committed_store:
  assumes "merkle_committed env now p hdr ids (nb, reorg, nh, e0) st ws = Ret (ws', acts)"
  shows "ws_s ws' = ws_s ws \<or> (\<exists>anc e. reorg = Some anc \<and> processReorg (we_ts env) now (sh_height anc) (ws_s ws) = Ret (e, ws_s ws'))"
proof -
  let ?ws1 = "if Current env now ws
     then ws\<lparr>LastBlock := (LastBlock ws)(p := UpdateLastBlockHeight env (LastBlock ws p) nh)\<rparr> else ws"
  obtain st2 ws2 where q: "request_block_txns env p (st\<lparr>blockScore := blockScore st + 1\<rparr>) ids
      \<lparr>ht_height = nh, ht_timestamp = hdr_Timestamp hdr\<rparr> ?ws1 = (st2, ws2)" by fastforce
  then have "ws_s ws2 = ws_s ws" by (auto simp: request_block_txns_def Let_def)
  moreover have "(if \<not> nb then Ret (ws2, []) else merkle_new env now p hdr reorg nh st2 ws2) = Ret (ws', acts)"
    using assms q unfolding merkle_committed_def Let_def by simp
  ultimately show ?thesis using merkle_new_store [of env now p hdr reorg nh st2 ws2 ws' acts] by (cases nb) auto
qed

lemma merkle_store:
  assumes "ws_inv ws" "handleMerkleBlockMsg env now p mb ws = Ret (ws', acts)" "ws_s ws' \<noteq> ws_s ws"
  shows "\<exists>ids anc nb nh h1 e. checkMBlock (we_dh env) mb = Some (Ok ids) \<and>
    CommitHeader (we_hs env) (we_b env) (mb_Header mb) (ws_h ws) = Ret ((nb, Some anc, nh, None), h1) \<and>
    processReorg (we_ts env) now (sh_height anc) (ws_s ws) = Ret (e, ws_s ws')"
proof -
  obtain st where st: "peer_of ws p = Some st" "merkle_rest env now p mb st ws = Ret (ws', acts)"
    using assms(2,3) unfolding handleMerkleBlockMsg_eq by (auto split: if_splits option.splits)
  have t: "ws_s ((taken_ws env p mb st ws)\<lparr>ws_h := h\<rparr>) = ws_s ws" "ws_s (taken_ws env p mb st ws) = ws_s ws" for h
    by (simp_all add: taken_ws_def)
  then obtain ids where ids: "checkMBlock (we_dh env) mb = Some (Ok ids)"
    using st(2) assms(3) by (auto simp: merkle_rest_def split: option.splits go.splits)
  with st(2) obtain nb reorg nh err h1 where c:
    "CommitHeader (we_hs env) (we_b env) (mb_Header mb) (ws_h ws) = Ret ((nb, reorg, nh, err), h1)"
    "(case err of
        Some e \<Rightarrow> if e = OrphanHeaderError then merkle_orphan env now p (taken env p mb st) ((taken_ws env p mb st ws)\<lparr>ws_h := h1\<rparr>)
                  else Ret ((taken_ws env p mb st ws)\<lparr>ws_h := h1\<rparr>, [])
      | None \<Rightarrow> merkle_committed env now p (mb_Header mb) ids (nb, reorg, nh, None) (taken env p mb st)
                  ((taken_ws env p mb st ws)\<lparr>ws_h := h1\<rparr>)) = Ret (ws', acts)"
    by (auto simp: merkle_rest_def run_bind_Ret)
  have orphan: "ws_s ws' = ws_s ws" if "merkle_orphan env now p (taken env p mb st) ((taken_ws env p mb st ws)\<lparr>ws_h := h1\<rparr>) = Ret (ws', acts)"
    using merkle_orphan_inv [OF taken_inv(1,2) [OF assms(1) st(1)] that] t(1) by simp
  from c(2) t orphan assms(3) have "err = None" by (auto split: option.splits if_splits)
  with c(2) merkle_committed_store [of env now p "mb_Header mb" ids nb reorg nh None "taken env p mb st" "(taken_ws env p mb st ws)\<lparr>ws_h := h1\<rparr>" ws' acts]
    t(1) assms(3) obtain anc e where "reorg = Some anc" "processReorg (we_ts env) now (sh_height anc) (ws_s ws) = Ret (e, ws_s ws')"
    by auto
  with ids c(1) \<open>err = None\<close> show ?thesis by blast
qed

text \<open>Property C5. No message but two kinds changes the wallet's tables: a transaction that was requested from the
  peer that sends it, which is then ingested at the height that was noted with the request; and a
  well-formed merkle block that reorganises the chain, which undoes the transactions above the fork.\<close>

theorem store_changes:
  assumes "ws_reach env ws" "handle env now m ws = Ret (ws', acts)" "ws_s ws' \<noteq> ws_s ws"
  shows "(\<exists>p tx st ht r evs. m = txMsg p tx \<and> peer_of ws p = Some st \<and>
      map_of (ps_requestedTxns st) (txHash (e_lib (we_ts env)) tx) = Some ht \<and>
      Ingest (we_ts env) now tx (ht_height ht) (ht_timestamp ht) (ws_ts ws) (ws_s ws) = Ret (r, ws_ts ws', ws_s ws', evs)) \<or>
    (\<exists>p mb ids anc nb nh h1 e. m = merkleBlockMsg p mb \<and> checkMBlock (we_dh env) mb = Some (Ok ids) \<and>
      CommitHeader (we_hs env) (we_b env) (mb_Header mb) (ws_h ws) = Ret ((nb, Some anc, nh, None), h1) \<and>
      processReorg (we_ts env) now (sh_height anc) (ws_s ws) = Ret (e, ws_s ws'))"
proof (cases m)
  case (txMsg p tx)
  note inv = ws_reach_ws_inv [OF assms(1)]
  with txMsg assms(2,3) obtain st ht where st: "peer_of ws p = Some st"
    "map_of (ps_requestedTxns st) (txHash (e_lib (we_ts env)) tx) = Some ht"
    by (auto simp: handle_def handleTxMsg_def Let_def split: option.splits)
  from assms(2) txMsg obtain r ts s evs where
    "Ingest (we_ts env) now tx (ht_height ht) (ht_timestamp ht) (ws_ts ws) (ws_s ws) = Ret (r, ts, s, evs)" "ws_ts ws' = ts" "ws_s ws' = s"
    by (auto simp: handle_def handleTxMsg_eq [OF inv st] run_bind_Ret Let_def)
  with st txMsg show ?thesis by blast
next
  case (merkleBlockMsg p mb)
  with assms(2) have "handleMerkleBlockMsg env now p mb ws = Ret (ws', acts)" by (simp add: handle_def)
  from merkle_store [OF ws_reach_ws_inv [OF assms(1)] this assms(3)] merkleBlockMsg show ?thesis by blast
next
  case (newPeerMsg p)
  with assms(2,3) show ?thesis
    by (auto simp: handle_def handleNewPeerMsg_def run_bind_Ret split: if_splits
        dest!: updateFilterAndSend_keeps startSync_store)
next
  case (donePeerMsg p)
  with assms(2,3) show ?thesis by (auto simp: handle_def dest: done_store)
next
  case (headersMsg p hdrs)
  with assms(2,3) show ?thesis by (auto simp: handle_def dest!: handleHeadersMsg_keeps)
next
  case (invMsg p invs)
  with assms(2,3) show ?thesis by (auto simp: handle_def dest: inv_store)
next
  case updateFiltersMsg
  with assms(2,3) show ?thesis by (auto simp: handle_def handleUpdateFiltersMsg_def dest!: update_filters_keeps)
qed

section \<open>Witnesses\<close>

definition ex_mblock :: MsgMerkleBlock where
  "ex_mblock = \<lparr>mb_Header = ex_header 8 7, Transactions = 2, Hashes = [5, 6], Flags = [3]\<rparr>"

lemma ex_mblock: "checkMBlock (\<lambda>_. 0) ex_mblock = Some (Ok [5])"
  by code_simp

lemma ex_mblock_hash: "BlockHash (b_hl ex_chain) (mb_Header ex_mblock) = 8"
  by (simp add: ex_mblock_def ex_chain_def ex_hash)

lemma ex_commit:
  "\<exists>h1. CommitHeader ex_if ex_chain (ex_header 8 7) ex_chain0 = Ret ((True, None, 1, None), h1) \<and>
     hdb_ok ex_hl ex_ol ex_bl h1 \<and> hdb_best ex_hl ex_bl h1 = Some \<lparr>sh_header = ex_header 8 7, sh_height = 1, totalWork = 1\<rparr>"
proof -
  have b: "b_hl ex_chain = ex_hl" "b_pow ex_chain = ex_pow" by (simp_all add: ex_chain_def)
  from hdbi.CommitHeader_spec [OF ex_chain0_facts(2) _ ex_chain0_facts(3) b(1), unfolded b, OF ex_chain0_facts(5) ex_pow_ok ex_commit_pre]
  show ?thesis
    by (auto simp: commit_answer_def heavier_def new_header_def first_header_def regtestCheckpoint_def ex_pow_def ex_hash)
qed

theorem merkle_block_requests_witness:
  "\<exists>ws' acts. handle ex_node 0 (merkleBlockMsg 1 ex_mblock) (ex_service 10) = Ret (ws', acts) \<and>
     map_of (ws_requestedTxns ws') 5 = Some \<lparr>ht_height = 1, ht_timestamp = 0\<rparr>"
proof -
  obtain h1 where c: "CommitHeader (we_hs ex_node) (we_b ex_node) (mb_Header ex_mblock) (ws_h (ex_service 10)) = Ret ((True, None, 1, None), h1)"
    using ex_commit by (auto simp: ex_node_simps ex_mblock_def ex_service_simps)
  have m: "checkMBlock (we_dh ex_node) ex_mblock = Some (Ok [5])" using ex_mblock by (simp add: ex_node_def)
  have "\<exists>ws' acts. merkle_committed ex_node 0 1 (mb_Header ex_mblock) [5] (True, None, 1, None) st ws = Ret (ws', acts)" for st ws
    by (simp add: merkle_committed_def merkle_new_def Let_def case_prod_unfold)
  then have "\<exists>ws' acts. handle ex_node 0 (merkleBlockMsg 1 ex_mblock) (ex_service 10) = Ret (ws', acts)"
    using c m by (simp add: handle_def handleMerkleBlockMsg_eq merkle_rest_def ex_service_simps ex_node_simps ex_mblock_hash ex_peer_def new_state_def)
  then obtain ws' acts where h: "handle ex_node 0 (merkleBlockMsg 1 ex_mblock) (ex_service 10) = Ret (ws', acts)" by blast
  from merkle_block_requests [OF h _ _ _ m c, of ex_peer]
  have "block_requests [5] 1 (hdr_Timestamp (mb_Header ex_mblock)) (ws_requestedTxns (ex_service 10)) (ws_requestedTxns ws')"
    by (simp add: ex_service_simps ex_node_simps ex_mblock_hash ex_peer_def new_state_def)
  with h show ?thesis by (auto simp: block_requests_def ex_mblock_def ex_header_def)
qed

text \<open>A chain with no checkpoint window: the header, without proof of work, is refused.\<close>

definition ex_strict :: "(sqldb, u32 list, ex_hdb_t) ws_env" where
  "ex_strict = ex_node\<lparr>we_b := ex_chain\<lparr>b_checkpoint := ex_cp\<lparr>cp_Height := -147\<rparr>\<rparr>\<rparr>"

lemma ex_strict_simps:
  "we_hs ex_strict = ex_if" "we_dh ex_strict = (\<lambda>_. 0)" "b_hl (we_b ex_strict) = ex_hl"
  by (simp_all add: ex_strict_def ex_node_def ex_chain_def)

theorem refused_block_requested_witness:
  "\<exists>ws' st'. handle ex_strict 0 (merkleBlockMsg 1 ex_mblock) (ex_service 10) = Ret (ws', []) \<and>
     peer_of ws' 1 = Some st' \<and> map_of (ps_requestedTxns st') 5 = Some \<lparr>ht_height = 0, ht_timestamp = 0\<rparr>"
proof -
  have best: "BestBlock (we_hs ex_strict) (ws_h (ex_service 10)) = Ok (first_header ex_cp)"
    using ex_best by (simp add: ex_strict_simps ex_node_simps ex_service_simps)
  have chk: "CheckHeader (we_hs ex_strict) (we_b ex_strict) (mb_Header ex_mblock) (first_header ex_cp) (ws_h (ex_service 10)) = Ok False"
    by (simp add: CheckHeader_def ex_strict_def ex_node_def ex_chain_def ex_mblock_def ex_hash first_header_def
        regtestCheckpoint_def ex_params_def checkProofOfWork_def ex_pow_def Let_def)
  have "\<exists>ws' st'. handle ex_strict 0 (merkleBlockMsg 1 ex_mblock) (ex_service 10) = Ret (ws', []) \<and> ws_h ws' = ws_h (ex_service 10) \<and>
      peer_of ws' 1 = Some st' \<and> blockScore st' = blockScore ex_peer + 1 \<and>
      block_requests [5] 0 (hdr_Timestamp (mb_Header ex_mblock)) (ps_requestedTxns ex_peer) (ps_requestedTxns st')"
    by (rule refused_block_requested [OF _ _ _ _ best _ chk])
      (simp_all add: ex_strict_simps ex_service_simps ex_mblock, simp_all add: ex_mblock_def ex_hash ex_peer_def first_header_def regtestCheckpoint_def)
  then show ?thesis by (auto simp: block_requests_def ex_mblock_def ex_header_def)
qed

lemma ex_pay_txid: "txHash (e_lib (we_ts ex_node)) ex_pay = 9"
  by (simp add: ex_node_def ex_env_def ex_lib_def ex_pay_def)

lemma ex_ingest:
  "\<exists>r ts s evs. Ingest ex_env now ex_pay 0 0 ex_ts0 ex_db0 = Ret (r, ts, s, evs) \<and> s \<noteq> ex_db0"
proof -
  have h: "txHash ex_lib ex_pay = 9" using ex_pay_txid by (simp add: ex_node_def ex_env_def)
  from Ingest_utxos [OF ex_ready ex_unprocessed, of 0 now 0] obtain n ts' db1 db' evs where
    i: "Ingest ex_env now ex_pay 0 0 ex_ts0 ex_db0 = Ret ((n, None), ts', db', evs)"
    "mark_doubles (SQLiteDatastore ex_lib) now (fst (CheckDoubleSpends ex_env ex_pay ex_db0)) ex_db0 = Ret db1"
    "fst (UtxoDB_GetAll ex_lib db') = filter (\<lambda>u. utxo_Op u \<notin> input_ops ex_pay)
       (fold (upsert utxo_Op) (output_puts [[118, 0]] (watchedScripts ex_ts0) (txHash ex_lib ex_pay) 0
         (enumerate 0 (tx_TxOut ex_pay))) (fst (UtxoDB_GetAll ex_lib db1)))"
    by (auto simp: ex_no_doubles)
  have "db1 = ex_db0" using i(2) by (simp add: ex_no_doubles)
  then have "fst (UtxoDB_GetAll ex_lib db') \<noteq> []"
    using i(3) by (simp add: h ex_db0_empty) (simp add: ex_pay_def ex_ts0_def output_puts_def own_puts_def watched_puts_def input_ops_def upsert_def new_utxo_def)
  then have "db' \<noteq> ex_db0" by (auto simp: ex_db0_empty)
  with i(1) show ?thesis by blast
qed

theorem store_changes_witness:
  "\<exists>ws ws' acts p tx st ht. ws_reach ex_node ws \<and> handle ex_node 0 (txMsg p tx) ws = Ret (ws', acts) \<and> ws_s ws' \<noteq> ws_s ws \<and>
     peer_of ws p = Some st \<and> map_of (ps_requestedTxns st) (txHash (e_lib (we_ts ex_node)) tx) = Some ht"
proof -
  obtain ws acts where ws: "handle ex_node 0 (newPeerMsg 1) (NewWireService ex_ts0 ex_db0 ex_chain0 (\<lambda>_. 0)) = Ret (ws, acts)"
    "peer_of ws 1 = Some (new_state True)" "ws_requestedTxns ws = []" "mempool ws = {}" "Current ex_node 0 ws" using ex_connect by blast
  have r: "ws_reach ex_node ws" by (rule message [OF start ws(1)]) (simp add: NewWireService_def)
  have "\<exists>ws' acts st. handle ex_node 0 (invMsg 1 [\<lparr>iv_Type = InvTypeTx, iv_Hash = 9\<rparr>]) ws = Ret (ws', acts) \<and>
      peer_of ws' 1 = Some st \<and> map_of (ps_requestedTxns st) 9 = Some \<lparr>ht_height = 0, ht_timestamp = 0\<rparr>"
    using ws(2-5) by (simp add: handle_def handleInvMsg_def last_block_def inv_requests_def inv_step_def haveInventory_def Let_def
        new_state_def request_txn_eq) (simp add: ex_node_def)
  then obtain ws1 acts1 st where ws1: "handle ex_node 0 (invMsg 1 [\<lparr>iv_Type = InvTypeTx, iv_Hash = 9\<rparr>]) ws = Ret (ws1, acts1)"
    "peer_of ws1 1 = Some st" "map_of (ps_requestedTxns st) 9 = Some \<lparr>ht_height = 0, ht_timestamp = 0\<rparr>" by blast
  have r1: "ws_reach ex_node ws1" by (rule message [OF r ws1(1)]) simp
  let ?ws = "ws1\<lparr>ws_ts := ex_ts0, ws_s := ex_db0, ws_h := ws_h ws1, LastBlock := LastBlock ws1, showTipOnly := showTipOnly ws1, ws_listeners := ws_listeners ws1\<rparr>"
  have r2: "ws_reach ex_node ?ws" by (rule wallet [OF r1])
  have st: "peer_of ?ws 1 = Some st" "map_of (ps_requestedTxns st) (txHash (e_lib (we_ts ex_node)) ex_pay) = Some \<lparr>ht_height = 0, ht_timestamp = 0\<rparr>"
    using ws1(2,3) by (simp_all add: ex_pay_txid)
  obtain q ts s evs where i: "Ingest ex_env 0 ex_pay 0 0 ex_ts0 ex_db0 = Ret (q, ts, s, evs)" "s \<noteq> ex_db0" using ex_ingest by blast
  let ?ws2 = "set_peer 1 (st\<lparr>ps_requestedTxns := AList.delete 9 (ps_requestedTxns st)\<rparr>)
    (?ws\<lparr>mempool := insert 9 (mempool ?ws), ws_ts := ts, ws_s := s, ws_requestedTxns := AList.delete 9 (ws_requestedTxns ?ws)\<rparr>)"
  have h: "handle ex_node 0 (txMsg 1 ex_pay) ?ws = Ret (?ws2, map OnTx evs)" "ws_s ?ws2 \<noteq> ws_s ?ws"
    using handleTxMsg_eq [OF ws_reach_ws_inv [OF r2] st, of 0] i by (simp_all add: handle_def ex_node_simps ex_pay_txid [unfolded ex_node_simps])
  from store_changes [OF r2 h] h r2 show ?thesis by blast
qed

end
