(* ===== verification/Spv_Wallet.thy ===== *)
theory Spv_Wallet
  imports Wire_Service Tx_Build
begin

text \<open>
  The wallet, \<^verbatim>\<open>src/wallet.go\<close>: creating it, and the operations of its interface.  Its state is that of the
  wire service, which holds the transaction store, the datastore and the header store; the
  environment is that of the wire service with the record \<open>build_lib\<close> of the address and key functions.
  Sending to the channel of the wire service is the action \<open>UpdateFilters\<close>.
\<close>

section \<open>Creating a wallet\<close>

text \<open>The mnemonic and master-key functions of the libraries.\<close>

record 'k seed_lib =
  NewMnemonic :: "string option"
  NewSeed :: "string \<Rightarrow> bytes"
  NewMaster :: "bytes \<Rightarrow> 'k option"
  Neuter :: "'k \<Rightarrow> 'k option"
  HDPublicKeyID :: bytes
  FormatTime :: "go_time \<Rightarrow> string"

record Config =
  cf_Mnemonic :: string
  cf_CreationDate :: go_time
  cf_AdditionalFilters :: "bytes list"

text \<open>
  \<open>saveConfig\<close> opens the database file of the repository directory; \<open>rnd\<close> is the random number of the
  key of an archived mnemonic.  A failure of the archive is dropped.
\<close>

definition saveConfig :: "'k seed_lib \<Rightarrow> int \<Rightarrow> Config \<Rightarrow> sqldb \<Rightarrow> error option \<times> sqldb" where
  "saveConfig sl rnd config db =
     (let (mnem, err) = GetMnemonic db;
          db1 = (case err of None \<Rightarrow> db | Some _ \<Rightarrow> snd (SetConfigKV (''archived_mnemonic_'' @ Itoa rnd) mnem db))
      in case SetMnemonic (cf_Mnemonic config) db1 of
           (Some e, db2) \<Rightarrow> (Some e, db2)
         | (None, db2) \<Rightarrow> (None, snd (SetCreationDate (FormatTime sl) (cf_CreationDate config) db2)))"

text \<open>
  \<open>NewSPVWallet\<close> over the SQLite database of the repository directory: the error of \<open>NewKeyManager\<close> is overwritten, and the nil key
  manager is then dereferenced by \<open>NewTxStore\<close>.  \<open>peers\<close> is the error of \<open>NewPeerManager\<close>.
\<close>

record ('k, 'h) new_wallet =
  nw_km :: "'k KeyManager"
  nw_chain :: Blockchain
  nw_ws :: "(sqldb, 'h) WireService"
  nw_masterPrivateKey :: 'k
  nw_masterPublicKey :: 'k
  nw_mnemonic :: string
  nw_creationDate :: go_time
  nw_minSync :: int

definition wallet_keys ::
    "'k seed_lib \<Rightarrow> Config \<Rightarrow> go_time \<Rightarrow> (Config \<times> 'k \<times> 'k) go" where
  "wallet_keys sl config0 now =
     go_bind (if cf_Mnemonic config0 = ''''
              then (case NewMnemonic sl of
                      None \<Rightarrow> Err LibError
                    | Some m \<Rightarrow> Ok (config0\<lparr>cf_Mnemonic := m, cf_CreationDate := now\<rparr>))
              else Ok config0) (\<lambda>config.
       case NewMaster sl (NewSeed sl (cf_Mnemonic config)) of
         None \<Rightarrow> Err LibError
       | Some mPrivKey \<Rightarrow>
           (case Neuter sl mPrivKey of
              None \<Rightarrow> Err LibError
            | Some mPubKey \<Rightarrow> Ok (config, mPrivKey, mPubKey)))"

definition wallet_env ::
    "wire_lib \<Rightarrow> script_lib \<Rightarrow> 'k hd_lib \<Rightarrow> KeyPurpose list \<Rightarrow> 'k KeyManager \<Rightarrow> (sqldb, 'k) ts_env" where
  "wallet_env lib scl kl order km =
     \<lparr>e_ds = SQLiteDatastore lib, e_lib = lib, e_sl = scl, e_hd = kl, e_km = km, e_order = order\<rparr>"

definition NewSPVWallet ::
    "'k seed_lib \<Rightarrow> script_lib \<Rightarrow> 'k hd_lib \<Rightarrow> KeyPurpose list \<Rightarrow> wire_lib \<Rightarrow> 'h headers_if \<Rightarrow>
     header_lib \<Rightarrow> pow_lib \<Rightarrow> BlockHeader \<Rightarrow> chain_params \<Rightarrow> bool \<Rightarrow> error option \<Rightarrow> go_time \<Rightarrow> int \<Rightarrow> Config \<Rightarrow> sqldb \<Rightarrow> 'h \<Rightarrow>
     (('k, 'h) new_wallet go \<times> sqldb \<times> 'h) run" where
  "NewSPVWallet sl scl kl order lib hs hl pow genesis params trusted peers now rnd config0 db h =
     (case wallet_keys sl config0 now of
        Panic \<Rightarrow> Panics
      | Err e \<Rightarrow> Ret (Err e, db, h)
      | Ok (config, mPrivKey, mPubKey) \<Rightarrow>
          (case saveConfig sl rnd config db of
             (Some e, db1) \<Rightarrow> Ret (Err e, db1, h)
           | (None, db1) \<Rightarrow>
               (case NewKeyManager (SQLiteDatastore lib) kl order mPrivKey db1 of
                  None \<Rightarrow> Hangs
                | Some (Ok km, db2) \<Rightarrow>
                    (let ts = NewTxStore (wallet_env lib scl kl order km) (cf_AdditionalFilters config) db2 in
                     case NewBlockchain hs hl pow genesis (cf_CreationDate config) params h of
                       (Ok b, h1) \<Rightarrow>
                         (case peers of
                            Some e \<Rightarrow> Ret (Err e, db2, h1)
                          | None \<Rightarrow>
                              Ret (Ok \<lparr>nw_km = km, nw_chain = b, nw_ws = NewWireService ts db2 h1 (\<lambda>_. 0),
                                       nw_masterPrivateKey = mPrivKey, nw_masterPublicKey = mPubKey,
                                       nw_mnemonic = cf_Mnemonic config, nw_creationDate = cf_CreationDate config,
                                       nw_minSync = (if trusted then 1 else 5)\<rparr>, db2, h1))
                     | (Err e, h1) \<Rightarrow> Ret (Err e, db2, h1)
                     | (Panic, _) \<Rightarrow> Panics)
                | Some (_, _) \<Rightarrow> Panics)))"

section \<open>Simple operations\<close>

definition CurrencyCode :: "chain_params \<Rightarrow> string" where
  "CurrencyCode params = (if p_Net params = MainNet then ''bch'' else ''tbch'')"

definition IsDust :: "('k, 'p) build_lib \<Rightarrow> int \<Rightarrow> bool" where
  "IsDust bl amount = IsDustAmount bl amount 25"

definition ChildKey :: "'k seed_lib \<Rightarrow> 'k hd_lib \<Rightarrow> bytes \<Rightarrow> bytes \<Rightarrow> bool \<Rightarrow> 'k go" where
  "ChildKey sl kl keyBytes chaincode isPrivateKey =
     Child_go kl (hd_NewExtendedKey kl (if isPrivateKey then HDPrivateKeyID kl else HDPublicKeyID sl)
       keyBytes chaincode [0, 0, 0, 0] 0 0 isPrivateKey) 0"

definition DecodeAddress :: "('k, 'p) build_lib \<Rightarrow> string \<Rightarrow> Address go" where
  "DecodeAddress bl addr =
     (case DecodeAddress_lib bl addr of
        Some decoded \<Rightarrow> Ok decoded
      | None \<Rightarrow> Err (ErrMsg ''Unrecognized address format''))"

definition scriptToAddresses :: "script_lib \<Rightarrow> bytes \<Rightarrow> Address list go" where
  "scriptToAddresses sl script =
     (case ExtractPkScriptAddrs sl script of None \<Rightarrow> Err LibError | Some (addrs, _) \<Rightarrow> Ok addrs)"

text \<open>The height and the hash of the tip, zero when there is none.\<close>

definition chain_tip :: "('s, 'k, 'h) ws_env \<Rightarrow> 'h \<Rightarrow> u32 \<times> hash" where
  "chain_tip env h =
     (case H_GetBestHeader (we_hs env) h of
        Ok sh \<Rightarrow> (sh_height sh, BlockHash (b_hl (we_b env)) (sh_header sh))
      | _ \<Rightarrow> (0, 0))"

section \<open>Keys and addresses\<close>

text \<open>
  \<open>NewAddress\<close> takes the second unused key and marks it as used in the datastore; an index out of
  range, a key that cannot be derived and a key without an address panic.
\<close>

definition NewAddress ::
    "('s, 'k, 'h) ws_env \<Rightarrow> ('k, 'p) build_lib \<Rightarrow> KeyPurpose \<Rightarrow> ('s, 'h) WireService \<Rightarrow>
     (Address option \<times> ('s, 'h) WireService) run" where
  "NewAddress env bl purpose ws =
     (let te = we_ts env; i = fst (Keys_GetUnused (e_ds te) purpose (ws_s ws)) in
      case go_index i 1 of
        Ok n \<Rightarrow>
          (case generateChildKey (e_hd te) (e_km te) purpose (word_of_int n) of
             Ok key \<Rightarrow>
               (case hd_Address (e_hd te) key of
                  Some addr \<Rightarrow>
                    (let s1 = snd (Keys_MarkKeyAsUsed (e_ds te) (ScriptAddress addr) (ws_s ws)) in
                     Ret (NewAddressPubKeyHash bl (ScriptAddress addr), ws\<lparr>ws_s := s1, ws_ts := PopulateAdrs te (ws_ts ws) s1\<rparr>))
                | None \<Rightarrow> Panics)
           | _ \<Rightarrow> Panics)
      | _ \<Rightarrow> Panics)"

definition HasKey :: "('s, 'k) ts_env \<Rightarrow> Address \<Rightarrow> 's \<Rightarrow> bool go" where
  "HasKey te addr s =
     (case GetKeyForScript (e_ds te) (e_hd te) (e_km te) (ScriptAddress addr) s of
        Ok _ \<Rightarrow> Ok True | Err _ \<Rightarrow> Ok False | Panic \<Rightarrow> Panic)"

definition GetKey :: "('s, 'k) ts_env \<Rightarrow> ('k, 'p) build_lib \<Rightarrow> Address \<Rightarrow> 's \<Rightarrow> 'p go" where
  "GetKey te bl addr s =
     go_bind (GetKeyForScript (e_ds te) (e_hd te) (e_km te) (ScriptAddress addr) s) (\<lambda>key.
       case ECPrivKey bl key of None \<Rightarrow> Err LibError | Some p \<Rightarrow> Ok p)"

definition ListAddresses :: "('s, 'k) ts_env \<Rightarrow> ('k, 'p) build_lib \<Rightarrow> 's \<Rightarrow> Address list" where
  "ListAddresses te bl s =
     List.map_filter (\<lambda>k. Option.bind (hd_Address (e_hd te) k) (\<lambda>addr. NewAddressPubKeyHash bl (ScriptAddress addr)))
       (GetKeys (e_ds te) (e_hd te) (e_km te) s)"

definition ListKeys :: "('s, 'k) ts_env \<Rightarrow> ('k, 'p) build_lib \<Rightarrow> 's \<Rightarrow> 'p list" where
  "ListKeys te bl s = List.map_filter (ECPrivKey bl) (GetKeys (e_ds te) (e_hd te) (e_km te) s)"

text \<open>\<open>hash160\<close> gives the hash of the public key in the compressed or the long form, \<open>raw\<close> the key bytes.\<close>

definition ImportKey ::
    "('s, 'k) ts_env \<Rightarrow> ('k, 'p) build_lib \<Rightarrow> ('p \<Rightarrow> bool \<Rightarrow> bytes) \<Rightarrow> ('p \<Rightarrow> bytes) \<Rightarrow> 'p \<Rightarrow> bool \<Rightarrow> 's \<Rightarrow> error option \<times> 's" where
  "ImportKey te bl hash160 raw privKey compress s =
     (case NewAddressPubKeyHash bl (hash160 privKey compress) of
        None \<Rightarrow> (Some LibError, s)
      | Some addr \<Rightarrow> Keys_ImportKey (e_ds te) (ScriptAddress addr) (raw privKey) s)"

section \<open>Balance and transactions\<close>

text \<open>\<open>checkIfStxoIsConfirmed\<close>: the rest of the loop over the spent outputs; the recursion starts the loop again.\<close>

partial_function (option) check_stxos :: "Stxo list \<Rightarrow> Stxo list \<Rightarrow> Utxo \<Rightarrow> bool option" where
  "check_stxos stxos rest u =
     (case rest of
        [] \<Rightarrow> Some False
      | x # xs \<Rightarrow>
          if WatchOnly (stxo_Utxo x) then check_stxos stxos xs u
          else if SpendTxid x = op_Hash (utxo_Op u)
          then if 0 <s SpendHeight x then Some True else check_stxos stxos stxos (stxo_Utxo x)
          else if Utxo_IsEqual (Some (stxo_Utxo x)) (Some u) = Ok True then Some (0 <s AtHeight (stxo_Utxo x))
          else check_stxos stxos xs u)"

declare check_stxos.simps [code]

definition checkIfStxoIsConfirmed :: "Utxo \<Rightarrow> Stxo list \<Rightarrow> bool option" where
  "checkIfStxoIsConfirmed u stxos = check_stxos stxos stxos u"

definition GetConfirmations :: "('s, 'k, 'h) ws_env \<Rightarrow> hash \<Rightarrow> ('s, 'h) WireService \<Rightarrow> (u32 \<times> u32) go" where
  "GetConfirmations env txid ws =
     (case Txns_Get (e_ds (we_ts env)) txid (ws_s ws) of
        (_, Some e) \<Rightarrow> Err e
      | (txn, None) \<Rightarrow>
          if txn_Height txn = 0 then Ok (0, 0)
          else Ok (fst (chain_tip env (ws_h ws)) - txn_Height txn + 1, txn_Height txn))"

fun balance_loop ::
    "('s, 'k, 'h) ws_env \<Rightarrow> ('s, 'h) WireService \<Rightarrow> Stxo list \<Rightarrow> Utxo list \<Rightarrow> i64 \<Rightarrow> i64 \<Rightarrow> (i64 \<times> i64) option" where
  "balance_loop env ws stxos [] confirmed unconfirmed = Some (confirmed, unconfirmed)"
| "balance_loop env ws stxos (u # us) confirmed unconfirmed =
     (if WatchOnly u then balance_loop env ws stxos us confirmed unconfirmed
      else case GetConfirmations env (op_Hash (utxo_Op u)) ws of
             Ok (confs, _) \<Rightarrow>
               if 0 < confs then balance_loop env ws stxos us (confirmed + utxo_Value u) unconfirmed
               else (case checkIfStxoIsConfirmed u stxos of
                       None \<Rightarrow> None
                     | Some True \<Rightarrow> balance_loop env ws stxos us (confirmed + utxo_Value u) unconfirmed
                     | Some False \<Rightarrow> balance_loop env ws stxos us confirmed (unconfirmed + utxo_Value u))
           | _ \<Rightarrow> balance_loop env ws stxos us confirmed unconfirmed)"

definition Balance :: "('s, 'k, 'h) ws_env \<Rightarrow> ('s, 'h) WireService \<Rightarrow> (i64 \<times> i64) option" where
  "Balance env ws =
     balance_loop env ws (fst (Stxos_GetAll (e_ds (we_ts env)) (ws_s ws))) (fst (Utxos_GetAll (e_ds (we_ts env)) (ws_s ws))) 0 0"

text \<open>The confirmations and the status of one transaction.\<close>

definition tx_status :: "go_time \<Rightarrow> u32 \<Rightarrow> Txn \<Rightarrow> Txn" where
  "tx_status now height tx =
     (let confs = (if txn_Height tx \<le>s 0 then txn_Height tx else height - txn_Height tx + 1);
          (status, confirmations) =
            (if confs <s 0 then (''DEAD'', 0)
             else if confs = 0 \<and> now - txn_Timestamp tx \<le> 6 * 3600 * nano then (''UNCONFIRMED'', 0)
             else if confs = 0 \<and> 6 * 3600 * nano < now - txn_Timestamp tx then (''STUCK'', 0)
             else if 0 <s confs \<and> confs <s 6 then (''PENDING'', confs)
             else (''CONFIRMED'', confs))
      in tx\<lparr>Confirmations := scast confirmations, txn_Status := status\<rparr>)"

definition wallet_Transactions :: "('s, 'k, 'h) ws_env \<Rightarrow> go_time \<Rightarrow> ('s, 'h) WireService \<Rightarrow> Txn list \<times> error option" where
  "wallet_Transactions env now ws =
     (case Txns_GetAll (e_ds (we_ts env)) False (ws_s ws) of
        (txns, Some e) \<Rightarrow> (txns, Some e)
      | (txns, None) \<Rightarrow> (map (tx_status now (fst (chain_tip env (ws_h ws)))) txns, None))"

section \<open>Listeners and watched addresses\<close>

definition AddTransactionListener :: "bool \<Rightarrow> nat \<Rightarrow> TxStore \<Rightarrow> nat \<times> TxStore" where
  "AddTransactionListener everyTx callback ts =
     (length (listeners ts),
      ts\<lparr>showEveryTx := (showEveryTx ts)(length (listeners ts) \<mapsto> everyTx), listeners := listeners ts @ [Some callback]\<rparr>)"

definition RemoveTransactionListener :: "nat \<Rightarrow> TxStore \<Rightarrow> (error option \<times> TxStore) run" where
  "RemoveTransactionListener cbId ts =
     (if showEveryTx ts cbId = None then Ret (Some (ErrMsg ''invalid transaction listener id''), ts)
      else if length (listeners ts) \<le> cbId then Panics
      else Ret (None, ts\<lparr>listeners := (listeners ts)[cbId := None], showEveryTx := (showEveryTx ts)(cbId := None)\<rparr>))"

definition AddBlockListener :: "bool \<Rightarrow> nat \<Rightarrow> ('s, 'h) WireService \<Rightarrow> nat \<times> ('s, 'h) WireService" where
  "AddBlockListener tipOnly callback ws =
     (length (ws_listeners ws),
      ws\<lparr>showTipOnly := (showTipOnly ws)(length (ws_listeners ws) \<mapsto> tipOnly), ws_listeners := ws_listeners ws @ [Some callback]\<rparr>)"

text \<open>The test reads the value of the map, not whether there is one.\<close>

definition RemoveBlockListener :: "nat \<Rightarrow> ('s, 'h) WireService \<Rightarrow> (error option \<times> ('s, 'h) WireService) run" where
  "RemoveBlockListener cbId ws =
     (if showTipOnly ws cbId \<noteq> Some True then Ret (Some (ErrMsg ''invalid transaction listener id''), ws)
      else if length (ws_listeners ws) \<le> cbId then Panics
      else Ret (None, ws\<lparr>ws_listeners := (ws_listeners ws)[cbId := None], showTipOnly := (showTipOnly ws)(cbId := None)\<rparr>))"

definition AddWatchedAddress ::
    "('s, 'k) ts_env \<Rightarrow> Address option \<Rightarrow> ('s, 'h) WireService \<Rightarrow> error option \<times> ('s, 'h) WireService \<times> sent list" where
  "AddWatchedAddress te addr ws =
     (case pay_script te addr of
        None \<Rightarrow> (Some LibError, ws, [])
      | Some script \<Rightarrow>
          (let (err, s1) = Watched_Put (e_ds te) script (ws_s ws) in
           (err, ws\<lparr>ws_s := s1, ws_ts := PopulateAdrs te (ws_ts ws) s1\<rparr>, [UpdateFilters])))"

definition RemoveWatchedAddress ::
    "('s, 'k) ts_env \<Rightarrow> Address option \<Rightarrow> ('s, 'h) WireService \<Rightarrow> error option \<times> ('s, 'h) WireService \<times> sent list" where
  "RemoveWatchedAddress te addr ws =
     (case pay_script te addr of
        None \<Rightarrow> (Some LibError, ws, [])
      | Some script \<Rightarrow>
          (let (err, s1) = Watched_Delete (e_ds te) script (ws_s ws) in
           (err, ws\<lparr>ws_s := s1, ws_ts := PopulateAdrs te (ws_ts ws) s1\<rparr>, [UpdateFilters])))"

section \<open>Synchronising again\<close>

text \<open>The result of the rollback is dropped.\<close>

definition resync_after :: "('s, 'k, 'h) ws_env \<Rightarrow> (error option \<times> 'h) run \<Rightarrow> ('s, 'h) WireService \<Rightarrow> ('s, 'h) ws_result" where
  "resync_after env rolled ws =
     run_bind rolled (\<lambda>(_, h1).
       Resync env (ws\<lparr>ws_h := h1, ws_ts := PopulateAdrs (we_ts env) (ws_ts ws) (ws_s ws)\<rparr>))"

definition ReSyncBlockchain :: "('s, 'k, 'h) ws_env \<Rightarrow> go_time \<Rightarrow> ('s, 'h) WireService \<Rightarrow> ('s, 'h) ws_result" where
  "ReSyncBlockchain env fromDate ws = resync_after env (Rollback (we_hs env) (we_b env) fromDate (ws_h ws)) ws"

definition ResyncBlockchainHeight :: "('s, 'k, 'h) ws_env \<Rightarrow> i32 \<Rightarrow> ('s, 'h) WireService \<Rightarrow> ('s, 'h) ws_result" where
  "ResyncBlockchainHeight env height0 ws =
     (let height = (if height0 <s 0 then height0 + cp_Height (b_checkpoint (we_b env)) else height0) in
      resync_after env (RollbackToHeight (we_hs env) (we_b env) height (ws_h ws)) ws)"

end
