(* ===== verification/Wallet_Ops.thy ===== *)
theory Wallet_Ops
  imports Spv_Wallet Wire_Inv Tx_Author
begin

text \<open>
  What the operations of the wallet interface do: the two balances, the confirmations of a
  transaction, handing out addresses, listeners, saving the configuration and creating a wallet.
\<close>

section \<open>Balance\<close>

text \<open>An output that the tables of spent outputs trace back to a mined transaction.\<close>

inductive mined_ancestor :: "Stxo list \<Rightarrow> Utxo \<Rightarrow> bool" for stxos where
  spender: "x \<in> set stxos \<Longrightarrow> \<not> WatchOnly (stxo_Utxo x) \<Longrightarrow> SpendTxid x = op_Hash (utxo_Op u) \<Longrightarrow>
    0 <s SpendHeight x \<Longrightarrow> mined_ancestor stxos u"
| parent: "x \<in> set stxos \<Longrightarrow> \<not> WatchOnly (stxo_Utxo x) \<Longrightarrow> SpendTxid x = op_Hash (utxo_Op u) \<Longrightarrow>
    mined_ancestor stxos (stxo_Utxo x) \<Longrightarrow> mined_ancestor stxos u"
| itself: "x \<in> set stxos \<Longrightarrow> \<not> WatchOnly (stxo_Utxo x) \<Longrightarrow> Utxo_IsEqual (Some (stxo_Utxo x)) (Some u) = Ok True \<Longrightarrow>
    0 <s AtHeight (stxo_Utxo x) \<Longrightarrow> mined_ancestor stxos u"

text \<open>A rank on transaction ids under which every spender is above the transaction it spends.\<close>

definition spends_ranked :: "(hash \<Rightarrow> nat) \<Rightarrow> Stxo list \<Rightarrow> bool" where
  "spends_ranked r stxos \<longleftrightarrow>
     (\<forall>x \<in> set stxos. \<not> WatchOnly (stxo_Utxo x) \<longrightarrow> r (op_Hash (stxo_Op x)) < r (SpendTxid x))"

lemma check_stxos_returns:
  assumes "spends_ranked r stxos"
  shows "set rest \<subseteq> set stxos \<Longrightarrow> \<exists>b. check_stxos stxos rest u = Some b \<and> (b \<longrightarrow> mined_ancestor stxos u)"
proof (induction "r (op_Hash (utxo_Op u))" arbitrary: u rest rule: less_induct)
  case less
  from \<open>set rest \<subseteq> set stxos\<close> show ?case
  proof (induction rest)
    case Nil
    show ?case by (rule exI [of _ False]) (simp add: check_stxos.simps)
  next
    case (Cons x xs)
    then have x: "x \<in> set stxos" and IH: "\<exists>b. check_stxos stxos xs u = Some b \<and> (b \<longrightarrow> mined_ancestor stxos u)" by auto
    show ?case
    proof (cases "\<not> WatchOnly (stxo_Utxo x) \<and> SpendTxid x = op_Hash (utxo_Op u)")
      case True
      then have "r (op_Hash (stxo_Op x)) < r (op_Hash (utxo_Op u))" using assms x by (auto simp: spends_ranked_def)
      from less.hyps [OF this subset_refl] True x show ?thesis
        by (subst check_stxos.simps) (auto intro: mined_ancestor.intros)
    next
      case False
      then show ?thesis using IH x by (subst check_stxos.simps) (auto intro: mined_ancestor.intros)
    qed
  qed
qed

text \<open>The outputs the balance counts: not watched only, and with a stored transaction.\<close>

definition counted :: "('s, 'k, 'h) ws_env \<Rightarrow> ('s, 'h) WireService \<Rightarrow> Utxo \<Rightarrow> bool" where
  "counted env ws u \<longleftrightarrow> \<not> WatchOnly u \<and> (\<exists>c. GetConfirmations env (op_Hash (utxo_Op u)) ws = Ok c)"

lemma balance_loop_returns:
  assumes "spends_ranked r stxos"
  shows "\<exists>conf. balance_loop env ws stxos us c0 u0 =
      Some (c0 + sum_list (map utxo_Value (filter (\<lambda>u. counted env ws u \<and> conf u) us)),
            u0 + sum_list (map utxo_Value (filter (\<lambda>u. counted env ws u \<and> \<not> conf u) us))) \<and>
    (\<forall>u. conf u \<longrightarrow> (\<exists>n h. GetConfirmations env (op_Hash (utxo_Op u)) ws = Ok (n, h) \<and> 0 < n) \<or> mined_ancestor stxos u) \<and>
    (\<forall>u n h. GetConfirmations env (op_Hash (utxo_Op u)) ws = Ok (n, h) \<and> 0 < n \<longrightarrow> conf u)"
proof -
  let ?conf = "\<lambda>u. (\<exists>n h. GetConfirmations env (op_Hash (utxo_Op u)) ws = Ok (n, h) \<and> 0 < n) \<or>
    checkIfStxoIsConfirmed u stxos = Some True"
  have ret: "\<exists>b. checkIfStxoIsConfirmed u stxos = Some b \<and> (b \<longrightarrow> mined_ancestor stxos u)" for u
    using check_stxos_returns [OF assms subset_refl] by (simp add: checkIfStxoIsConfirmed_def)
  have "balance_loop env ws stxos us c0 u0 =
      Some (c0 + sum_list (map utxo_Value (filter (\<lambda>u. counted env ws u \<and> ?conf u) us)),
            u0 + sum_list (map utxo_Value (filter (\<lambda>u. counted env ws u \<and> \<not> ?conf u) us)))"
  proof (induction us arbitrary: c0 u0)
    case (Cons u us)
    from ret [of u] obtain b where b: "checkIfStxoIsConfirmed u stxos = Some b" by blast
    show ?case
      by (cases "GetConfirmations env (op_Hash (utxo_Op u)) ws"; cases b)
        (auto simp: Cons.IH b counted_def word_neq_0_conv [symmetric] simp del: word_neq_0_conv split: bool.split)
  qed simp
  moreover have "checkIfStxoIsConfirmed u stxos = Some True \<Longrightarrow> mined_ancestor stxos u" for u using ret [of u] by auto
  ultimately show ?thesis by (intro exI [of _ ?conf]) auto
qed

lemma GetConfirmations_sql:
  assumes "sql_inv lib (ws_s ws)" "e_ds (we_ts env) = SQLiteDatastore lib"
  shows "(\<exists>c. GetConfirmations env h ws = Ok c) \<longleftrightarrow>
    (\<exists>row \<in> set (fst (TxnsDB_GetAll lib True (ws_s ws))). txn_Txid row = hashString lib h)"
  using assms by (auto simp: GetConfirmations_def sqlite.Txns_Get sql_Txns_GetAll find_None_iff find_Some_iff
      split: option.splits)

text \<open>Property C23. \<open>Balance\<close> returns whenever no transaction spends, however indirectly, its own outputs, and the two
  amounts share out exactly the outputs of the utxo table that are not watched only and whose transaction is
  stored: each is counted once, as confirmed when its transaction has confirmations, and otherwise
  as confirmed only when the spent outputs lead to a mined ancestor.\<close>

theorem Balance_correct:
  assumes "sql_inv lib (ws_s ws)" "e_ds (we_ts env) = SQLiteDatastore lib"
    and "spends_ranked r (fst (StxoDB_GetAll lib (ws_s ws)))"
    and "mine = filter (\<lambda>u. \<not> WatchOnly u \<and>
      (\<exists>row \<in> set (fst (TxnsDB_GetAll lib True (ws_s ws))). txn_Txid row = hashString lib (op_Hash (utxo_Op u))))
      (fst (UtxoDB_GetAll lib (ws_s ws)))"
  shows "\<exists>conf. Balance env ws =
      Some (sum_list (map utxo_Value (filter conf mine)), sum_list (map utxo_Value (filter (\<lambda>u. \<not> conf u) mine))) \<and>
    (\<forall>u. conf u \<longrightarrow> (\<exists>n h. GetConfirmations env (op_Hash (utxo_Op u)) ws = Ok (n, h) \<and> 0 < n) \<or>
       mined_ancestor (fst (StxoDB_GetAll lib (ws_s ws))) u) \<and>
    (\<forall>u n h. GetConfirmations env (op_Hash (utxo_Op u)) ws = Ok (n, h) \<and> 0 < n \<longrightarrow> conf u)"
proof -
  have "Balance env ws = balance_loop env ws (fst (StxoDB_GetAll lib (ws_s ws))) (fst (UtxoDB_GetAll lib (ws_s ws))) 0 0"
    using assms(2) by (simp add: Balance_def SQLiteDatastore_def)
  moreover have "filter (\<lambda>u. counted env ws u \<and> P u) (fst (UtxoDB_GetAll lib (ws_s ws))) = filter P mine" for P
    unfolding assms(4) counted_def GetConfirmations_sql [OF assms(1,2)] by (auto intro!: filter_cong)
  ultimately show ?thesis
    using balance_loop_returns [OF assms(3), of env ws "fst (UtxoDB_GetAll lib (ws_s ws))" 0 0] by simp
qed

text \<open>A wallet with one unconfirmed output.\<close>

definition ex_paid :: Utxo where
  "ex_paid = ex_utxo\<lparr>utxo_Op := \<lparr>op_Hash = txHash ex_lib ex_tx, op_Index = 0\<rparr>, AtHeight := 0\<rparr>"

definition ex_paiddb :: "int \<Rightarrow> sqldb" where
  "ex_paiddb height = snd (UtxoDB_Put ex_lib ex_paid
     (snd (TxnsDB_Put (encodeTx ex_lib ex_tx) (txid_of ex_lib (encodeTx ex_lib ex_tx)) 10 height 30 False (initDatabaseTables (\<lambda>n. 7)))))"

lemma ex_paiddb:
  "sql_inv ex_lib (ex_paiddb height)" "fst (UtxoDB_GetAll ex_lib (ex_paiddb height)) = [ex_paid]" "fst (StxoDB_GetAll ex_lib (ex_paiddb height)) = []"
  "fst (TxnsDB_GetAll ex_lib True (ex_paiddb height)) =
     [new_txn (txid_of ex_lib (encodeTx ex_lib ex_tx)) (encodeTx ex_lib ex_tx) 10 height 30 False]"
proof -
  define d where "d = snd (TxnsDB_Put (encodeTx ex_lib ex_tx) (txid_of ex_lib (encodeTx ex_lib ex_tx)) 10 height 30 False (initDatabaseTables (\<lambda>n. 7)))"
  have d: "sql_inv ex_lib d" "sql_view ex_lib d = (sql_view ex_lib (initDatabaseTables (\<lambda>n. 7)))\<lparr>v_txns :=
      upsert txn_Txid (new_txn (txid_of ex_lib (encodeTx ex_lib ex_tx)) (encodeTx ex_lib ex_tx) 10 height 30 False)
        (v_txns (sql_view ex_lib (initDatabaseTables (\<lambda>n. 7))))\<rparr>"
    using sql_Txns_Put [OF sql_inv_init [OF ex_lib_ok], of "encodeTx ex_lib ex_tx" 10 height 30 False "\<lambda>n. 7"]
    by (auto simp: d_def)
  have p: "sql_inv ex_lib (ex_paiddb height)" "sql_view ex_lib (ex_paiddb height) =
      (sql_view ex_lib d)\<lparr>v_utxos := upsert utxo_Op ex_paid (v_utxos (sql_view ex_lib d))\<rparr>"
    using sql_Utxos_Put [OF d(1), of ex_paid] by (auto simp: ex_paiddb_def d_def)
  have e: "sql_view ex_lib (initDatabaseTables (\<lambda>n. 7)) = \<lparr>v_utxos = [], v_stxos = [], v_txns = [], v_keys = [], v_watched = []\<rparr>"
    by (simp add: sql_view_def initDatabaseTables_def UtxoDB_GetAll_def StxoDB_GetAll_def WatchedScriptsDB_GetAll_def List.map_filter_simps)
  show "sql_inv ex_lib (ex_paiddb height)" by (rule p(1))
  have "fst (UtxoDB_GetAll ex_lib x) = v_utxos (sql_view ex_lib x)" "fst (StxoDB_GetAll ex_lib x) = v_stxos (sql_view ex_lib x)" for x
    by (simp_all add: sql_view_def)
  then show "fst (UtxoDB_GetAll ex_lib (ex_paiddb height)) = [ex_paid]" "fst (StxoDB_GetAll ex_lib (ex_paiddb height)) = []"
    by (simp_all add: p(2) d(2) e upsert_def)
  show "fst (TxnsDB_GetAll ex_lib True (ex_paiddb height)) =
     [new_txn (txid_of ex_lib (encodeTx ex_lib ex_tx)) (encodeTx ex_lib ex_tx) 10 height 30 False]"
    by (simp add: sql_Txns_GetAll [OF p(1)] p(2) d(2) e upsert_def)
qed

definition ex_wallet_ws :: "sqldb \<Rightarrow> (sqldb, ex_hdb_t) WireService" where
  "ex_wallet_ws db = NewWireService ex_ts0 db ex_chain0 (\<lambda>_. 0)"

lemma ex_wallet_ws_simps [simp]: "ws_s (ex_wallet_ws db) = db" "ws_h (ex_wallet_ws db) = ex_chain0" "ws_ts (ex_wallet_ws db) = ex_ts0"
  by (simp_all add: ex_wallet_ws_def NewWireService_def)

lemma ex_node_ds: "e_ds (we_ts ex_node) = SQLiteDatastore ex_lib" by (simp add: ex_node_simps ex_env_def)

theorem Balance_correct_witness:
  "\<exists>c u. Balance ex_node (ex_wallet_ws (ex_paiddb 0)) = Some (c, u) \<and> c + u = 5000"
proof -
  have "spends_ranked (\<lambda>_. 0) (fst (StxoDB_GetAll ex_lib (ws_s (ex_wallet_ws (ex_paiddb 0)))))"
    by (simp add: ex_paiddb spends_ranked_def)
  moreover have "txid_of ex_lib (encodeTx ex_lib ex_tx) = hashString ex_lib (txHash ex_lib ex_tx)"
    by (rule txid_of_encode [OF ex_lib_ok])
  ultimately show ?thesis
    using Balance_correct [of ex_lib "ex_wallet_ws (ex_paiddb 0)" ex_node "\<lambda>_. 0", OF _ ex_node_ds _ refl]
    by (auto simp: ex_paiddb ex_paid_def ex_utxo_def new_txn_def split: if_splits)
qed

section \<open>Confirmations\<close>

lemma find_keyed: "keyed key xs \<Longrightarrow> x \<in> set xs \<Longrightarrow> find (\<lambda>t. key t = key x) xs = Some x"
  by (induction xs) (auto simp: keyed_def)

lemma stored_get:
  assumes "sql_inv lib db" "row \<in> set (fst (TxnsDB_GetAll lib True db))" "txn_Txid row = hashString lib h"
  shows "Txns_Get (SQLiteDatastore lib) h db = (row, None)"
proof -
  have "keyed txn_Txid (v_txns (sql_view lib db))" "row \<in> set (v_txns (sql_view lib db))"
    using sql_invD(3) [OF assms(1)] assms(2) by (simp_all add: view_ok_def sql_Txns_GetAll [OF assms(1)])
  from find_keyed [OF this] have "find (\<lambda>t. txn_Txid t = hashString lib h) (v_txns (sql_view lib db)) = Some row"
    by (simp add: assms(3))
  then show ?thesis by (simp add: sqlite.Txns_Get [OF assms(1)])
qed

text \<open>The two reports of the depth of a transaction agree for a transaction in a block at or below
  the tip: \<open>GetConfirmations\<close> and the \<open>Confirmations\<close> of \<open>Transactions\<close> are the tip height minus its own plus one, at least
  one, and an unconfirmed transaction has none in both.  They part on a dead one: \<open>Transactions\<close> says it is dead,
  \<open>GetConfirmations\<close> gives the height of the tip plus two, as if it were deep in the chain.\<close>

theorem GetConfirmations_Transactions:
  assumes "sql_inv lib (ws_s ws)" "e_ds (we_ts env) = SQLiteDatastore lib"
    and "row \<in> set (fst (TxnsDB_GetAll lib True (ws_s ws)))" "txn_Txid row = hashString lib h"
    and "tip = fst (chain_tip env (ws_h ws))" "0 \<le>s tip"
    and "shown = tx_status now tip row"
  shows "(0 <s txn_Height row \<and> txn_Height row \<le>s tip \<longrightarrow>
      (\<exists>c. GetConfirmations env h ws = Ok (c, txn_Height row) \<and> uint c = sint tip - sint (txn_Height row) + 1 \<and> 1 \<le> uint c \<and>
         sint (Confirmations shown) = uint c \<and> txn_Status shown \<in> {''PENDING'', ''CONFIRMED''})) \<and>
    (txn_Height row = 0 \<longrightarrow> GetConfirmations env h ws = Ok (0, 0) \<and> Confirmations shown = 0 \<and>
       txn_Status shown \<in> {''UNCONFIRMED'', ''STUCK''}) \<and>
    (txn_Height row = -1 \<longrightarrow> GetConfirmations env h ws = Ok (tip + 2, -1) \<and> Confirmations shown = 0 \<and> txn_Status shown = ''DEAD'')"
proof -
  have get: "GetConfirmations env h ws = (if txn_Height row = 0 then Ok (0, 0) else Ok (tip - txn_Height row + 1, txn_Height row))"
    by (simp add: GetConfirmations_def assms(2,5) stored_get [OF assms(1,3,4)])
  have pos: "uint (tip - txn_Height row + 1) = sint tip - sint (txn_Height row) + 1"
    "sint (tip - txn_Height row + 1) = sint tip - sint (txn_Height row) + 1" "1 \<le> sint tip - sint (txn_Height row) + 1"
    if "0 <s txn_Height row" "txn_Height row \<le>s tip"
  proof -
    have x: "1 \<le> sint tip - sint (txn_Height row) + 1" "sint tip - sint (txn_Height row) + 1 < 2 ^ 31"
      using that sint_range_size [of tip] by (simp_all add: word_sle_eq word_sless_alt word_size)
    have "tip - txn_Height row + 1 = word_of_int (sint tip - sint (txn_Height row) + 1)" by simp
    with x show "uint (tip - txn_Height row + 1) = sint tip - sint (txn_Height row) + 1"
      "sint (tip - txn_Height row + 1) = sint tip - sint (txn_Height row) + 1" "1 \<le> sint tip - sint (txn_Height row) + 1"
      by (simp_all del: of_int_add of_int_diff add: unsigned_of_int signed_of_int take_bit_int_eq_self signed_take_bit_int_eq_self)
  qed
  have "\<exists>c. GetConfirmations env h ws = Ok (c, txn_Height row) \<and> uint c = sint tip - sint (txn_Height row) + 1 \<and> 1 \<le> uint c \<and>
      sint (Confirmations shown) = uint c \<and> txn_Status shown \<in> {''PENDING'', ''CONFIRMED''}"
    if h: "0 <s txn_Height row" "txn_Height row \<le>s tip"
  proof -
    let ?c = "tip - txn_Height row + 1"
    have c: "\<not> txn_Height row \<le>s 0" "\<not> ?c <s 0" "?c \<noteq> 0" "0 <s ?c"
      using h(1) pos(2,3) [OF h] by (auto simp: word_sle_eq word_sless_alt)
    have "Confirmations shown = scast ?c \<and> txn_Status shown \<in> {''PENDING'', ''CONFIRMED''}"
      by (cases "?c <s 6") (simp_all add: assms(7) tx_status_def c Let_def)
    moreover have "sint (scast ?c :: i64) = sint ?c" by (rule sint_up_scast) (simp add: is_up)
    ultimately show ?thesis using h(1) pos [OF h] by (auto simp: get)
  qed
  moreover have "GetConfirmations env h ws = Ok (0, 0) \<and> Confirmations shown = 0 \<and> txn_Status shown \<in> {''UNCONFIRMED'', ''STUCK''}"
    if "txn_Height row = 0"
    using that by (auto simp: get assms(7) tx_status_def Let_def)
  moreover have "GetConfirmations env h ws = Ok (tip + 2, -1) \<and> Confirmations shown = 0 \<and> txn_Status shown = ''DEAD''"
    if "txn_Height row = -1"
    using that by (auto simp: get assms(7) tx_status_def Let_def word_sle_eq word_sless_alt)
  ultimately show ?thesis by blast
qed

lemma ex_wallet_tip: "chain_tip ex_node ex_chain0 = (0, 7)"
  using ex_best by (simp add: chain_tip_def BestBlock_def ex_best_simps)
    (simp add: ex_node_simps ex_chain_def first_header_def regtestCheckpoint_def ex_hash)

theorem GetConfirmations_Transactions_witness:
  "GetConfirmations ex_node (txHash ex_lib ex_tx) (ex_wallet_ws (ex_paiddb (-1))) = Ok (2, -1) \<and>
   txn_Status (tx_status 0 0 (new_txn (txid_of ex_lib (encodeTx ex_lib ex_tx)) (encodeTx ex_lib ex_tx) 10 (-1) 30 False)) = ''DEAD''"
  using GetConfirmations_Transactions [of ex_lib "ex_wallet_ws (ex_paiddb (-1))" ex_node
      "new_txn (txid_of ex_lib (encodeTx ex_lib ex_tx)) (encodeTx ex_lib ex_tx) 10 (-1) 30 False" "txHash ex_lib ex_tx",
      OF _ ex_node_ds _ _ refl _ refl, of 0] txid_of_encode [OF ex_lib_ok, of ex_tx]
  by (simp add: ex_paiddb ex_wallet_tip new_txn_def)

section \<open>Handing out addresses\<close>

lemma unused_after_mark:
  assumes "keyed kr_script ks" "filter (\<lambda>r. row_purpose r = p \<and> \<not> kr_used r) ks = r0 # r # rest"
  shows "filter (\<lambda>r. row_purpose r = p \<and> \<not> kr_used r) (map (mark_used (kr_script r)) ks) = r0 # rest"
proof -
  let ?P = "\<lambda>r. row_purpose r = p \<and> \<not> kr_used r"
  have "filter ?P (map (mark_used a) xs) = filter (\<lambda>x. kr_script x \<noteq> a) (filter ?P xs)" for a xs
    by (induction xs) (auto simp: mark_used_def)
  then have "filter ?P (map (mark_used (kr_script r)) ks) = filter (\<lambda>x. kr_script x \<noteq> kr_script r) (r0 # r # rest)"
    unfolding assms(2) [symmetric] .
  moreover have "distinct (map kr_script (filter ?P ks))" using assms(1) by (simp add: keyed_def distinct_map_filter)
  ultimately show ?thesis unfolding assms(2) by (auto simp: filter_id_conv image_iff)
qed

lemma unused_rows:
  "sql_inv lib d \<Longrightarrow> KeysDB_GetUnused p d = (map row_index (filter (\<lambda>r. row_purpose r = p \<and> \<not> kr_used r) (v_keys (sql_view lib d))), None)"
  using sqlite.Keys_GetUnused [of lib d p] by (simp add: SQLiteDatastore_def)

lemma NewAddress_gives:
  assumes "sql_inv lib (ws_s ws)" "e_ds (we_ts env) = SQLiteDatastore lib"
    and "keys_ok (e_hd (we_ts env)) (e_km (we_ts env)) N (v_keys (sql_view lib (ws_s ws)))" "hd_purpose p"
    and f: "filter (\<lambda>r. row_purpose r = p \<and> \<not> kr_used r) (v_keys (sql_view lib (ws_s ws))) = r0 # r # rs"
  shows "\<exists>ws'. NewAddress env bl p ws = Ret (NewAddressPubKeyHash bl (kr_script r), ws') \<and> sql_inv lib (ws_s ws') \<and>
      v_keys (sql_view lib (ws_s ws')) = map (mark_used (kr_script r)) (v_keys (sql_view lib (ws_s ws))) \<and>
      fst (KeysDB_GetUnused p (ws_s ws')) = map row_index (r0 # rs)"
proof -
  let ?ks = "v_keys (sql_view lib (ws_s ws))" and ?P = "\<lambda>r. row_purpose r = p \<and> \<not> kr_used r"
  have "r \<in> set (filter ?P ?ks)" by (simp add: f)
  then obtain k addr where k: "generateChildKey (e_hd (we_ts env)) (e_km (we_ts env)) p (word_of_int (row_index r)) = Ok k"
    "hd_Address (e_hd (we_ts env)) k = Some addr" "ScriptAddress addr = kr_script r"
    using row_derived [OF assms(3) _ _ assms(4), of r] by (simp only: set_filter mem_Collect_eq) blast
  obtain s1 where s1: "KeysDB_MarkKeyAsUsed (kr_script r) (ws_s ws) = (None, s1)" "sql_inv lib s1"
    "sql_view lib s1 = (sql_view lib (ws_s ws))\<lparr>v_keys := map (mark_used (kr_script r)) ?ks\<rparr>"
    using sql_Keys_MarkKeyAsUsed [OF assms(1)] by blast
  have "keyed kr_script ?ks" using sql_invD(3) [OF assms(1)] by (simp add: view_ok_def)
  from unused_after_mark [OF this f] have "fst (KeysDB_GetUnused p s1) = map row_index (r0 # rs)"
    using s1(3) by (simp add: unused_rows [OF s1(2)])
  moreover have "NewAddress env bl p ws =
      Ret (NewAddressPubKeyHash bl (kr_script r), ws\<lparr>ws_s := s1, ws_ts := PopulateAdrs (we_ts env) (ws_ts ws) s1\<rparr>)"
    using unused_rows [OF assms(1), of p] s1(1)
    by (simp add: NewAddress_def assms(2) SQLiteDatastore_def f go_index_def k)
  ultimately show ?thesis using s1(2,3) by auto
qed

text \<open>\<open>NewAddress\<close> hands out the second of the unused keys, leaving the first where it is, and marks it
  as used in the table only: no key is added in its place, so the unused keys of the chain run down by one with
  every call, and with fewer than two left the call panics.\<close>

theorem NewAddress_runs_down:
  assumes "sql_inv lib (ws_s ws)" "e_ds (we_ts env) = SQLiteDatastore lib"
    and "keys_ok (e_hd (we_ts env)) (e_km (we_ts env)) N (v_keys (sql_view lib (ws_s ws)))" "hd_purpose p"
  shows "(length (fst (KeysDB_GetUnused p (ws_s ws))) < 2 \<longrightarrow> NewAddress env bl p ws = Panics) \<and>
    (\<forall>i0 i rest. fst (KeysDB_GetUnused p (ws_s ws)) = i0 # i # rest \<longrightarrow>
      (\<exists>r ws'. r \<in> set (v_keys (sql_view lib (ws_s ws))) \<and> kr_path r = \<lparr>kp_Purpose = p, kp_Index = i\<rparr> \<and>
        NewAddress env bl p ws = Ret (NewAddressPubKeyHash bl (kr_script r), ws') \<and>
        sql_inv lib (ws_s ws') \<and>
        v_keys (sql_view lib (ws_s ws')) = map (mark_used (kr_script r)) (v_keys (sql_view lib (ws_s ws))) \<and>
        fst (KeysDB_GetUnused p (ws_s ws')) = i0 # rest))"
proof -
  have "NewAddress env bl p ws = Panics" if "length (fst (KeysDB_GetUnused p (ws_s ws))) < 2"
    using that by (simp add: NewAddress_def assms(2) SQLiteDatastore_def go_index_def Let_def)
  moreover have "\<exists>r ws'. r \<in> set (v_keys (sql_view lib (ws_s ws))) \<and> kr_path r = \<lparr>kp_Purpose = p, kp_Index = i\<rparr> \<and>
      NewAddress env bl p ws = Ret (NewAddressPubKeyHash bl (kr_script r), ws') \<and> sql_inv lib (ws_s ws') \<and>
      v_keys (sql_view lib (ws_s ws')) = map (mark_used (kr_script r)) (v_keys (sql_view lib (ws_s ws))) \<and>
      fst (KeysDB_GetUnused p (ws_s ws')) = i0 # rest"
    if ids: "fst (KeysDB_GetUnused p (ws_s ws)) = i0 # i # rest" for i0 i rest
  proof -
    obtain r0 r rs where f: "filter (\<lambda>r. row_purpose r = p \<and> \<not> kr_used r) (v_keys (sql_view lib (ws_s ws))) = r0 # r # rs"
      and i: "row_index r0 = i0" "row_index r = i" "map row_index rs = rest"
      using ids by (auto simp: unused_rows [OF assms(1)] map_eq_Cons_conv)
    have "r \<in> set (filter (\<lambda>r. row_purpose r = p \<and> \<not> kr_used r) (v_keys (sql_view lib (ws_s ws))))" by (simp add: f)
    then have "r \<in> set (v_keys (sql_view lib (ws_s ws)))" "kr_path r = \<lparr>kp_Purpose = p, kp_Index = i\<rparr>"
      using i(2) by (auto intro: KeyPath.equality)
    with NewAddress_gives [OF assms f, of bl] i show ?thesis by auto
  qed
  ultimately show ?thesis by blast
qed

text \<open>A key table with the first two external keys.\<close>

definition ex_twokeys :: sqldb where
  "ex_twokeys = snd (KeysDB_Put [0, 0] \<lparr>kp_Purpose = 0, kp_Index = 1\<rparr>
     (snd (KeysDB_Put [0] \<lparr>kp_Purpose = 0, kp_Index = 0\<rparr> (initDatabaseTables (\<lambda>n. 7)))))"

lemma ex_twokeys:
  "sql_inv ex_lib ex_twokeys"
  "v_keys (sql_view ex_lib ex_twokeys) =
     [\<lparr>kr_script = [0], kr_path = \<lparr>kp_Purpose = 0, kp_Index = 0\<rparr>, kr_used = False, kr_key = None\<rparr>,
      \<lparr>kr_script = [0, 0], kr_path = \<lparr>kp_Purpose = 0, kp_Index = 1\<rparr>, kr_used = False, kr_key = None\<rparr>]"
proof -
  define d where "d = snd (KeysDB_Put [0] \<lparr>kp_Purpose = 0, kp_Index = 0\<rparr> (initDatabaseTables (\<lambda>n. 7)))"
  have d: "sql_inv ex_lib d" "v_keys (sql_view ex_lib d) =
      [\<lparr>kr_script = [0], kr_path = \<lparr>kp_Purpose = 0, kp_Index = 0\<rparr>, kr_used = False, kr_key = None\<rparr>]"
    using sql_Keys_Put [OF sql_inv_init [OF ex_lib_ok], of "[0]" "\<lambda>n. 7" "\<lparr>kp_Purpose = 0, kp_Index = 0\<rparr>"]
    by (auto simp: d_def)
  show "sql_inv ex_lib ex_twokeys" "v_keys (sql_view ex_lib ex_twokeys) =
     [\<lparr>kr_script = [0], kr_path = \<lparr>kp_Purpose = 0, kp_Index = 0\<rparr>, kr_used = False, kr_key = None\<rparr>,
      \<lparr>kr_script = [0, 0], kr_path = \<lparr>kp_Purpose = 0, kp_Index = 1\<rparr>, kr_used = False, kr_key = None\<rparr>]"
    using sql_Keys_Put [OF d(1), of "[0, 0]" "\<lparr>kp_Purpose = 0, kp_Index = 1\<rparr>"]
    by (auto simp: d(2) ex_twokeys_def d_def [symmetric])
qed

lemma ex_twokeys_ok: "keys_ok (e_hd (we_ts ex_node)) (e_km (we_ts ex_node)) (2 ^ 32) (v_keys (sql_view ex_lib ex_twokeys))"
  by (simp add: keys_ok_def row_ok_def ex_twokeys ex_node_simps ex_env_def ex_derived hd_purpose_def next_index_def)

theorem NewAddress_runs_down_witness:
  "\<exists>ws'. NewAddress ex_node ex_build EXTERNAL (ex_wallet_ws ex_twokeys) =
      Ret (Some \<lparr>ScriptAddress = [0, 0], EncodeAddress = []\<rparr>, ws') \<and>
    fst (KeysDB_GetUnused EXTERNAL (ws_s ws')) = [0]"
proof -
  have "fst (KeysDB_GetUnused EXTERNAL ex_twokeys) = [0, 1]"
    by (simp add: unused_rows [OF ex_twokeys(1)] ex_twokeys(2))
  moreover have "sql_inv ex_lib (ws_s (ex_wallet_ws ex_twokeys))" by (simp add: ex_twokeys)
  moreover note NewAddress_runs_down [OF this ex_node_ds, of "2 ^ 32" EXTERNAL ex_build] ex_twokeys_ok
  ultimately show ?thesis by (fastforce simp: hd_purpose_def ex_twokeys(2) ex_build_def)
qed

section \<open>Block listeners\<close>

text \<open>A block listener can be removed only when it was added for tips only: after \<open>AddBlockListener\<close> with a fresh
  identifier, \<open>RemoveBlockListener\<close> of that identifier clears the callback if \<open>tipOnly\<close> was set, and otherwise
  answers that the identifier is invalid and leaves the listener in place.\<close>

theorem RemoveBlockListener_tipOnly:
  "RemoveBlockListener (fst (AddBlockListener tipOnly callback ws)) (snd (AddBlockListener tipOnly callback ws)) =
    (if tipOnly
     then Ret (None, ws\<lparr>ws_listeners := ws_listeners ws @ [None], showTipOnly := (showTipOnly ws)(length (ws_listeners ws) := None)\<rparr>)
     else Ret (Some (ErrMsg ''invalid transaction listener id''), snd (AddBlockListener tipOnly callback ws)))"
  by (simp add: RemoveBlockListener_def AddBlockListener_def)

text \<open>A transaction listener is removed whatever its flag, and the identifiers of the others stay.\<close>

theorem RemoveTransactionListener_added:
  "RemoveTransactionListener (fst (AddTransactionListener everyTx callback ts)) (snd (AddTransactionListener everyTx callback ts)) =
    Ret (None, ts\<lparr>listeners := listeners ts @ [None], showEveryTx := (showEveryTx ts)(length (listeners ts) := None)\<rparr>)"
  by (simp add: RemoveTransactionListener_def AddTransactionListener_def)

section \<open>Saving the configuration\<close>

lemma map_of_upsert: "map_of (upsert fst (k, v) kvs) x = (if x = k then Some v else map_of kvs x)"
proof -
  have "map_of (filter (\<lambda>y. fst y \<noteq> k) kvs) x = (if x = k then None else map_of kvs x)"
    by (induction kvs) auto
  then show ?thesis by (simp add: upsert_def map_of_append map_add_def split: option.split)
qed

lemma map_of_SetConfigKV:
  "map_of (t_config (snd (SetConfigKV k v db))) x =
     (if x = k \<and> map_of (t_config db) x = None then Some v else map_of (t_config db) x)"
proof -
  have "k \<in> fst ` set (t_config db) \<longleftrightarrow> map_of (t_config db) k \<noteq> None" by (simp add: map_of_eq_None_iff)
  then show ?thesis by (auto simp: SetConfigKV_def map_of_append map_add_def split: option.split simp del: not_None_eq)
qed

text \<open>Creating a wallet over one that has a mnemonic replaces it and keeps no copy: \<open>saveConfig\<close> writes the new mnemonic
  and date and changes no other entry.  It archives, under a fresh name, only when there was no mnemonic to read, and then
  the archived entry is empty.\<close>

theorem saveConfig_archive:
  "\<exists>db'. saveConfig sl rnd config db = (None, db') \<and> GetMnemonic db' = (cf_Mnemonic config, None) \<and>
     (\<forall>k. k \<notin> {''mnemonic'', ''creationDate''} \<longrightarrow>
        map_of (t_config db') k =
          (if map_of (t_config db) ''mnemonic'' = None \<and> k = ''archived_mnemonic_'' @ Itoa rnd \<and> map_of (t_config db) k = None
           then Some '''' else map_of (t_config db) k))"
proof -
  define key where "key = ''archived_mnemonic_'' @ Itoa rnd"
  define db1 where "db1 = (if map_of (t_config db) ''mnemonic'' = None then snd (SetConfigKV key '''' db) else db)"
  have "saveConfig sl rnd config db =
      (None, config_put ''creationDate'' (FormatTime sl (cf_CreationDate config)) (config_put ''mnemonic'' (cf_Mnemonic config) db1))"
    by (simp add: saveConfig_def GetMnemonic_def SetMnemonic_def SetCreationDate_def db1_def key_def split: option.split)
  moreover have "map_of (t_config db1) k = (if map_of (t_config db) ''mnemonic'' = None \<and> k = key \<and> map_of (t_config db) k = None
      then Some '''' else map_of (t_config db) k)" for k
    by (cases "k = key") (simp_all add: db1_def map_of_SetConfigKV)
  ultimately show ?thesis
    unfolding key_def [symmetric] by (simp add: GetMnemonic_def config_put_def map_of_upsert)
qed

definition ex_seed :: "u32 list seed_lib" where
  "ex_seed = \<lparr>NewMnemonic = Some ''legal winner'', NewSeed = (\<lambda>m. map of_char m), NewMaster = (\<lambda>_. Some []), Neuter = Some,
     HDPublicKeyID = [], FormatTime = (\<lambda>_. ''2018'')\<rparr>"

definition ex_config :: Config where
  "ex_config = \<lparr>cf_Mnemonic = '''', cf_CreationDate = 0, cf_AdditionalFilters = []\<rparr>"

theorem saveConfig_archive_witness:
  "\<exists>db'. saveConfig ex_seed 3 (ex_config\<lparr>cf_Mnemonic := ''zoo''\<rparr>) (config_put ''mnemonic'' ''abandon'' (initDatabaseTables (\<lambda>n. 7))) = (None, db') \<and>
     GetMnemonic db' = (''zoo'', None) \<and> map_of (t_config db') ''archived_mnemonic_3'' = None"
  using saveConfig_archive [of ex_seed 3 "ex_config\<lparr>cf_Mnemonic := ''zoo''\<rparr>"
      "config_put ''mnemonic'' ''abandon'' (initDatabaseTables (\<lambda>n. 7))"]
  by (fastforce simp: config_put_def initDatabaseTables_def upsert_def)

section \<open>Creating a wallet\<close>

lemma saveConfig_tables:
  "\<exists>db'. saveConfig sl rnd config db = (None, db') \<and> sql_view lib db' = sql_view lib db \<and> (sql_inv lib db' \<longleftrightarrow> sql_inv lib db)"
  by (auto simp: saveConfig_def GetMnemonic_def SetMnemonic_def SetCreationDate_def SetConfigKV_def config_put_def sql_view_def
      sql_inv_def represents_def UtxoDB_GetAll_def StxoDB_GetAll_def WatchedScriptsDB_GetAll_def split: option.split)

text \<open>A wallet over a database without keys.\<close>

lemma NewSPVWallet_new:
  fixes hl :: header_lib and ol :: "'m omap_lib" and bl :: "'b bolt_lib"
  assumes "wire_ok lib" "omap_ok ol" "bolt_ok bl" "hl_ok hl"
    and "wallet_keys sl config0 now = Ok (config, mPriv, mPub)" "Bip44Derivation kl mPriv = Ok (internal, external)"
    and "km = \<lparr>internalKey = internal, externalKey = external\<rparr>" "key_supply kl km N" "1000 \<le> N"
    and "order = [EXTERNAL, INTERNAL] \<or> order = [INTERNAL, EXTERNAL]"
    and "cp = GetCheckpoint genesis (cf_CreationDate config) params" "checkpoint_ok hl cp"
    and "sql_inv lib db0" "v_keys (sql_view lib db0) = []"
  shows "\<exists>w db h. NewSPVWallet sl scl kl order lib (HeaderDB_if hl ol bl) hl pow genesis params trusted None now rnd config0
        db0 (NewHeaderDB hl ol bl (bk_New bl) (bk_New bl)) = Ret (Ok w, db, h) \<and>
      nw_km w = km \<and> nw_mnemonic w = cf_Mnemonic config \<and> ws_s (nw_ws w) = db \<and> ws_h (nw_ws w) = h \<and>
      sql_inv lib db \<and> keys_ok kl km N (v_keys (sql_view lib db)) \<and>
      (\<forall>p. hd_purpose p \<longrightarrow> KeysDB_GetLookaheadWindows db p = Some 1000 \<and>
         (\<exists>k addr. GetCurrentKey (SQLiteDatastore lib) kl km p db = Ok k \<and> hd_Address kl k = Some addr)) \<and>
      b_checkpoint (nw_chain w) = cp \<and> HeaderDB_GetBestHeader hl bl h = Ok (first_header cp) \<and>
      chain_ok hl pow (hdb_look hl ol bl h) (first_header cp) (first_header cp) \<and>
      peerStates (nw_ws w) = [] \<and> ws_requestedTxns (nw_ws w) = [] \<and> syncPeer (nw_ws w) = None"
proof -
  obtain db1 where db1: "saveConfig sl rnd config db0 = (None, db1)"
    "sql_view lib db1 = sql_view lib db0" "sql_inv lib db1"
    using saveConfig_tables [of sl rnd config db0 lib] assms(13) by blast
  have order: "distinct order" "set order = {EXTERNAL, INTERNAL}" using assms(10) by auto
  have w0: "window p [] = 0" for p by (simp add: window_def)
  obtain db where db: "lookahead (SQLiteDatastore lib) kl km order db1 = Some (Ok (), db)" "sql_inv lib db"
    "keys_ok kl km N (v_keys (sql_view lib db))" "\<forall>p. hd_purpose p \<longrightarrow> window p (v_keys (sql_view lib db)) = 1000"
    using sqlite.lookahead_ok [OF assms(8) db1(3) _ order] assms(9) by (auto simp: LOOKAHEADWINDOW_def w0 db1(2) assms(14))
  have km: "NewKeyManager (SQLiteDatastore lib) kl order mPriv db1 = Some (Ok km, db)"
    using db(1) assms(7) by (simp add: NewKeyManager_def assms(6))
  obtain b h where b: "NewBlockchain (HeaderDB_if hl ol bl) hl pow genesis (cf_CreationDate config) params
      (NewHeaderDB hl ol bl (bk_New bl) (bk_New bl)) = (Ok b, h)" "b_checkpoint b = cp" "hdb_best hl bl h = Some (first_header cp)"
    "chain_ok hl pow (hdb_look hl ol bl h) (first_header cp) (first_header cp)"
    using NewBlockchain_spec [OF assms(2-4,11,12), where pow = pow] by blast
  have "KeysDB_GetLookaheadWindows db p = Some 1000 \<and>
      (\<exists>k addr. GetCurrentKey (SQLiteDatastore lib) kl km p db = Ok k \<and> hd_Address kl k = Some addr)" if p: "hd_purpose p" for p
    using sqlite.GetCurrentKey_ok [OF db(2) assms(8) db(3) p] sql_window [OF db(2) p] db(4) p by fastforce
  moreover have "HeaderDB_GetBestHeader hl bl h = Ok (first_header cp)"
    using b(3) by (auto simp: hdb_best_def split: go.splits)
  ultimately show ?thesis
    using db(2,3) b by (simp add: NewSPVWallet_def assms(5) db1(1) km NewWireService_def)
qed


lemma ex_wallet_keys:
  "wallet_keys ex_seed ex_config 50 = Ok (ex_config\<lparr>cf_Mnemonic := ''legal winner'', cf_CreationDate := 50\<rparr>, [], [])"
  by (simp add: wallet_keys_def ex_seed_def ex_config_def)


text \<open>When the account of the master key does not derive, creating the wallet crashes: the error of \<open>NewKeyManager\<close> is
  overwritten by the next call, which dereferences the key manager that is not there.\<close>

theorem NewSPVWallet_key_error:
  assumes "wallet_keys sl config0 now = Ok (config, mPriv, mPub)" "Bip44Derivation kl mPriv = Err e"
  shows "NewSPVWallet sl scl kl order lib hs hl pow genesis params trusted peers now rnd config0 db h = Panics"
proof -
  obtain db1 where "saveConfig sl rnd config db = (None, db1)" using saveConfig_tables by blast
  then show ?thesis using assms by (simp add: NewSPVWallet_def NewKeyManager_def)
qed

theorem NewSPVWallet_key_error_witness:
  "NewSPVWallet ex_seed ex_sl (ex_hd\<lparr>hd_Child := (\<lambda>_ _. None)\<rparr>) [0, 1] ex_lib ex_if ex_hl ex_pow (ex_header 7 0) ex_params False None 50 3
     ex_config (initDatabaseTables (\<lambda>n. 7)) ex_chain0 = Panics"
  by (rule NewSPVWallet_key_error [OF ex_wallet_keys, where e = LibError]) (simp add: Bip44Derivation_def Child_go_def)

end
