(* ===== verification/Mock_Store.thy ===== *)
theory Mock_Store
  imports Key_Manager "HOL-Library.AList" "HOL-Library.Multiset"
begin

text \<open>
  The in-memory datastore of \<^verbatim>\<open>src/mock.go\<close>, which the tests of the wallet use in place of the SQLite
  one.  A Go map with string keys is an association list; \<open>ord\<close> is the order in which Go iterates over
  the keys of a map, any permutation.  The second part compares it with the contract of the interface:
  the utxo table is a table in the same sense as the SQLite one, and on derived keys both stores
  give the key manager the same answers.
\<close>

section \<open>State\<close>

record keyStoreEntry =
  ke_scriptAddress :: bytes
  ke_path :: KeyPath
  ke_used :: bool
  ke_key :: "bytes option"

record txnStoreEntry =
  te_txn :: bytes
  te_txid :: string
  te_value :: int
  te_height :: int
  te_timestamp :: go_time
  te_watchOnly :: bool

record mockdb =
  m_keys :: "(string \<times> keyStoreEntry) list"
  m_utxos :: "(string \<times> Utxo) list"
  m_stxos :: "(string \<times> Stxo) list"
  m_txns :: "(string \<times> txnStoreEntry) list"
  m_scripts :: "(string \<times> bytes) list"

text \<open>The values of a map in the order of an iteration.\<close>

definition go_range :: "(string list \<Rightarrow> string list) \<Rightarrow> (string \<times> 'v) list \<Rightarrow> 'v list" where
  "go_range ord m = List.map_filter (map_of m) (ord (map fst m))"

section \<open>Keys\<close>

definition mockKeyStore_Put :: "bytes \<Rightarrow> KeyPath \<Rightarrow> mockdb \<Rightarrow> error option \<times> mockdb" where
  "mockKeyStore_Put scriptAddress keyPath m =
     (None, m\<lparr>m_keys := AList.update (hex_EncodeToString scriptAddress)
        \<lparr>ke_scriptAddress = scriptAddress, ke_path = keyPath, ke_used = False, ke_key = None\<rparr> (m_keys m)\<rparr>)"

definition mockKeyStore_ImportKey :: "bytes \<Rightarrow> bytes \<Rightarrow> mockdb \<Rightarrow> error option \<times> mockdb" where
  "mockKeyStore_ImportKey scriptAddress key m =
     (None, m\<lparr>m_keys := AList.update (hex_EncodeToString scriptAddress)
        \<lparr>ke_scriptAddress = scriptAddress, ke_path = \<lparr>kp_Purpose = EXTERNAL, kp_Index = -1\<rparr>, ke_used = False,
         ke_key = Some key\<rparr> (m_keys m)\<rparr>)"

definition mockKeyStore_MarkKeyAsUsed :: "bytes \<Rightarrow> mockdb \<Rightarrow> error option \<times> mockdb" where
  "mockKeyStore_MarkKeyAsUsed scriptAddress m =
     (let k = hex_EncodeToString scriptAddress in
      case map_of (m_keys m) k of
        None \<Rightarrow> (Some (ErrMsg ''key does not exist''), m)
      | Some key \<Rightarrow> (None, m\<lparr>m_keys := AList.update k (key\<lparr>ke_used := True\<rparr>) (m_keys m)\<rparr>))"

definition last_key :: "KeyPurpose \<Rightarrow> keyStoreEntry \<Rightarrow> int \<times> bool \<Rightarrow> int \<times> bool" where
  "last_key purpose key acc =
     (if kp_Purpose (ke_path key) = purpose \<and> fst acc < kp_Index (ke_path key)
      then (kp_Index (ke_path key), ke_used key) else acc)"

definition mockKeyStore_GetLastKeyIndex ::
    "(string list \<Rightarrow> string list) \<Rightarrow> KeyPurpose \<Rightarrow> mockdb \<Rightarrow> int \<times> bool \<times> error option" where
  "mockKeyStore_GetLastKeyIndex ord purpose m =
     (let (i, used) = fold (last_key purpose) (go_range ord (m_keys m)) (-1, False) in
      (i, used, if i = -1 then Some (ErrMsg ''No saved keys'') else None))"

definition mockKeyStore_GetPathForKey :: "bytes \<Rightarrow> mockdb \<Rightarrow> KeyPath \<times> error option" where
  "mockKeyStore_GetPathForKey scriptAddress m =
     (case map_of (m_keys m) (hex_EncodeToString scriptAddress) of
        Some key \<Rightarrow>
          if kp_Index (ke_path key) = -1 then (\<lparr>kp_Purpose = 0, kp_Index = 0\<rparr>, Some (ErrMsg ''key does not exist''))
          else (ke_path key, None)
      | None \<Rightarrow> (\<lparr>kp_Purpose = 0, kp_Index = 0\<rparr>, Some (ErrMsg ''key does not exist'')))"

definition mockKeyStore_GetKey :: "(string list \<Rightarrow> string list) \<Rightarrow> bytes \<Rightarrow> mockdb \<Rightarrow> bytes option \<times> error option" where
  "mockKeyStore_GetKey ord scriptAddress m =
     (case find (\<lambda>k. kp_Index (ke_path k) = -1 \<and> scriptAddress = ke_scriptAddress k) (go_range ord (m_keys m)) of
        Some k \<Rightarrow> (ke_key k, None)
      | None \<Rightarrow> (None, Some (ErrMsg ''Not found'')))"

text \<open>A nil key is left out of the list: only imported keys have the index \<open>-1\<close>, and they have a key.\<close>

definition mockKeyStore_GetImported :: "(string list \<Rightarrow> string list) \<Rightarrow> mockdb \<Rightarrow> bytes list \<times> error option" where
  "mockKeyStore_GetImported ord m =
     (List.map_filter (\<lambda>k. if kp_Index (ke_path k) = -1 then ke_key k else None) (go_range ord (m_keys m)), None)"

definition mockKeyStore_GetUnused :: "(string list \<Rightarrow> string list) \<Rightarrow> KeyPurpose \<Rightarrow> mockdb \<Rightarrow> int list \<times> error option" where
  "mockKeyStore_GetUnused ord purpose m =
     (sort (map (\<lambda>k. kp_Index (ke_path k))
        (filter (\<lambda>k. \<not> ke_used k \<and> kp_Purpose (ke_path k) = purpose) (go_range ord (m_keys m)))), None)"

definition mockKeyStore_GetAll :: "(string list \<Rightarrow> string list) \<Rightarrow> mockdb \<Rightarrow> KeyPath list \<times> error option" where
  "mockKeyStore_GetAll ord m = (map ke_path (go_range ord (m_keys m)), None)"

text \<open>The two loops of \<open>GetLookaheadWindows\<close> for one purpose.\<close>

definition last_used :: "KeyPurpose \<Rightarrow> keyStoreEntry list \<Rightarrow> int" where
  "last_used p ks =
     fold (\<lambda>key i. if kp_Purpose (ke_path key) = p \<and> ke_used key \<and> i < kp_Index (ke_path key)
                   then kp_Index (ke_path key) else i) ks (-1)"

definition unused_after :: "KeyPurpose \<Rightarrow> int \<Rightarrow> keyStoreEntry list \<Rightarrow> int" where
  "unused_after p lastUsed ks =
     fold (\<lambda>key n. if kp_Purpose (ke_path key) = p \<and> \<not> ke_used key \<and> lastUsed < kp_Index (ke_path key)
                   then n + 1 else n) ks 0"

definition mockKeyStore_GetLookaheadWindows ::
    "(string list \<Rightarrow> string list) \<Rightarrow> mockdb \<Rightarrow> KeyPurpose \<Rightarrow> int option" where
  "mockKeyStore_GetLookaheadWindows ord m =
     (let ks = go_range ord (m_keys m);
          internalLastUsed = last_used INTERNAL ks; externalLastUsed = last_used EXTERNAL ks;
          internalUnused = unused_after INTERNAL internalLastUsed ks; externalUnused = unused_after EXTERNAL externalLastUsed ks
      in [INTERNAL \<mapsto> internalUnused, EXTERNAL \<mapsto> externalUnused])"

section \<open>Outputs\<close>

definition mockUtxoStore_Put :: "wire_lib \<Rightarrow> Utxo \<Rightarrow> mockdb \<Rightarrow> error option \<times> mockdb" where
  "mockUtxoStore_Put lib utxo m = (None, m\<lparr>m_utxos := AList.update (outpoint_str lib (utxo_Op utxo)) utxo (m_utxos m)\<rparr>)"

definition mockUtxoStore_GetAll :: "(string list \<Rightarrow> string list) \<Rightarrow> mockdb \<Rightarrow> Utxo list \<times> error option" where
  "mockUtxoStore_GetAll ord m = (go_range ord (m_utxos m), None)"

definition mockUtxoStore_SetWatchOnly :: "wire_lib \<Rightarrow> Utxo \<Rightarrow> mockdb \<Rightarrow> error option \<times> mockdb" where
  "mockUtxoStore_SetWatchOnly lib utxo m =
     (let key = outpoint_str lib (utxo_Op utxo) in
      case map_of (m_utxos m) key of
        None \<Rightarrow> (Some (ErrMsg ''Not found''), m)
      | Some u \<Rightarrow> (None, m\<lparr>m_utxos := AList.update key (u\<lparr>WatchOnly := True\<rparr>) (m_utxos m)\<rparr>))"

definition mockUtxoStore_Delete :: "wire_lib \<Rightarrow> Utxo \<Rightarrow> mockdb \<Rightarrow> error option \<times> mockdb" where
  "mockUtxoStore_Delete lib utxo m =
     (let key = outpoint_str lib (utxo_Op utxo) in
      case map_of (m_utxos m) key of
        None \<Rightarrow> (Some (ErrMsg ''Not found''), m)
      | Some _ \<Rightarrow> (None, m\<lparr>m_utxos := AList.delete key (m_utxos m)\<rparr>))"

definition mockStxoStore_Put :: "wire_lib \<Rightarrow> Stxo \<Rightarrow> mockdb \<Rightarrow> error option \<times> mockdb" where
  "mockStxoStore_Put lib stxo m = (None, m\<lparr>m_stxos := AList.update (hashString lib (SpendTxid stxo)) stxo (m_stxos m)\<rparr>)"

definition mockStxoStore_GetAll :: "(string list \<Rightarrow> string list) \<Rightarrow> mockdb \<Rightarrow> Stxo list \<times> error option" where
  "mockStxoStore_GetAll ord m = (go_range ord (m_stxos m), None)"

definition mockStxoStore_Delete :: "wire_lib \<Rightarrow> Stxo \<Rightarrow> mockdb \<Rightarrow> error option \<times> mockdb" where
  "mockStxoStore_Delete lib stxo m =
     (case map_of (m_stxos m) (hashString lib (SpendTxid stxo)) of
        None \<Rightarrow> (Some (ErrMsg ''Not found''), m)
      | Some _ \<Rightarrow> (None, m\<lparr>m_stxos := AList.delete (hashString lib (SpendTxid stxo)) (m_stxos m)\<rparr>))"

section \<open>Transactions and scripts\<close>

definition entry_txn :: "txnStoreEntry \<Rightarrow> Txn" where
  "entry_txn t = zero_Txn\<lparr>txn_Txid := te_txid t, txn_Value := word_of_int (te_value t), txn_Height := word_of_int (te_height t),
     txn_Timestamp := te_timestamp t, txn_WatchOnly := te_watchOnly t, txn_Bytes := te_txn t\<rparr>"

definition mockTxnStore_Put ::
    "bytes \<Rightarrow> string \<Rightarrow> int \<Rightarrow> int \<Rightarrow> go_time \<Rightarrow> bool \<Rightarrow> mockdb \<Rightarrow> error option \<times> mockdb" where
  "mockTxnStore_Put txn txid val height timestamp watchOnly m =
     (None, m\<lparr>m_txns := AList.update txid \<lparr>te_txn = txn, te_txid = txid, te_value = val, te_height = height,
        te_timestamp = timestamp, te_watchOnly = watchOnly\<rparr> (m_txns m)\<rparr>)"

definition mockTxnStore_Get :: "wire_lib \<Rightarrow> hash \<Rightarrow> mockdb \<Rightarrow> Txn \<times> error option" where
  "mockTxnStore_Get lib txid m =
     (case map_of (m_txns m) (hashString lib txid) of
        None \<Rightarrow> (zero_Txn, Some (ErrMsg ''Not found''))
      | Some t \<Rightarrow> (entry_txn t, None))"

definition mockTxnStore_GetAll :: "(string list \<Rightarrow> string list) \<Rightarrow> bool \<Rightarrow> mockdb \<Rightarrow> Txn list \<times> error option" where
  "mockTxnStore_GetAll ord includeWatchOnly m = (map entry_txn (go_range ord (m_txns m)), None)"

definition mockTxnStore_UpdateHeight :: "wire_lib \<Rightarrow> hash \<Rightarrow> int \<Rightarrow> go_time \<Rightarrow> mockdb \<Rightarrow> error option \<times> mockdb" where
  "mockTxnStore_UpdateHeight lib txid height timestamp m =
     (case map_of (m_txns m) (hashString lib txid) of
        None \<Rightarrow> (Some (ErrMsg ''Not found''), m)
      | Some txn \<Rightarrow> (None, m\<lparr>m_txns := AList.update (hashString lib txid) (txn\<lparr>te_height := height, te_timestamp := timestamp\<rparr>) (m_txns m)\<rparr>))"

definition mockTxnStore_Delete :: "wire_lib \<Rightarrow> hash \<Rightarrow> mockdb \<Rightarrow> error option \<times> mockdb" where
  "mockTxnStore_Delete lib txid m =
     (case map_of (m_txns m) (hashString lib txid) of
        None \<Rightarrow> (Some (ErrMsg ''Not found''), m)
      | Some _ \<Rightarrow> (None, m\<lparr>m_txns := AList.delete (hashString lib txid) (m_txns m)\<rparr>))"

definition mockWatchedScriptsStore_Put :: "bytes \<Rightarrow> mockdb \<Rightarrow> error option \<times> mockdb" where
  "mockWatchedScriptsStore_Put scriptPubKey m =
     (None, m\<lparr>m_scripts := AList.update (hex_EncodeToString scriptPubKey) scriptPubKey (m_scripts m)\<rparr>)"

definition mockWatchedScriptsStore_GetAll :: "(string list \<Rightarrow> string list) \<Rightarrow> mockdb \<Rightarrow> bytes list \<times> error option" where
  "mockWatchedScriptsStore_GetAll ord m = (go_range ord (m_scripts m), None)"

definition mockWatchedScriptsStore_Delete :: "bytes \<Rightarrow> mockdb \<Rightarrow> error option \<times> mockdb" where
  "mockWatchedScriptsStore_Delete scriptPubKey m =
     (let enc = hex_EncodeToString scriptPubKey in
      case map_of (m_scripts m) enc of
        None \<Rightarrow> (Some (ErrMsg ''Not found''), m)
      | Some _ \<Rightarrow> (None, m\<lparr>m_scripts := AList.delete enc (m_scripts m)\<rparr>))"

section \<open>The method table\<close>

definition MockDatastore :: "wire_lib \<Rightarrow> (string list \<Rightarrow> string list) \<Rightarrow> mockdb datastore" where
  "MockDatastore lib ord =
     \<lparr>Utxos_Put = mockUtxoStore_Put lib, Utxos_GetAll = mockUtxoStore_GetAll ord,
      Utxos_SetWatchOnly = mockUtxoStore_SetWatchOnly lib, Utxos_Delete = mockUtxoStore_Delete lib,
      Stxos_Put = mockStxoStore_Put lib, Stxos_GetAll = mockStxoStore_GetAll ord, Stxos_Delete = mockStxoStore_Delete lib,
      Txns_Put = mockTxnStore_Put, Txns_Get = mockTxnStore_Get lib, Txns_GetAll = mockTxnStore_GetAll ord,
      Txns_UpdateHeight = mockTxnStore_UpdateHeight lib, Txns_Delete = mockTxnStore_Delete lib,
      Keys_Put = mockKeyStore_Put, Keys_ImportKey = mockKeyStore_ImportKey, Keys_MarkKeyAsUsed = mockKeyStore_MarkKeyAsUsed,
      Keys_GetLastKeyIndex = mockKeyStore_GetLastKeyIndex ord, Keys_GetPathForKey = mockKeyStore_GetPathForKey,
      Keys_GetKey = mockKeyStore_GetKey ord, Keys_GetImported = mockKeyStore_GetImported ord,
      Keys_GetUnused = mockKeyStore_GetUnused ord, Keys_GetAll = mockKeyStore_GetAll ord,
      Keys_GetLookaheadWindows = mockKeyStore_GetLookaheadWindows ord,
      Watched_Put = mockWatchedScriptsStore_Put, Watched_GetAll = mockWatchedScriptsStore_GetAll ord,
      Watched_Delete = mockWatchedScriptsStore_Delete\<rparr>"

section \<open>The utxo table\<close>

text \<open>
  What the clients need of a utxo table when the order of the rows does not matter.  Both stores
  promise it: the SQLite store because its contract is stronger.
\<close>

locale utxo_laws =
  fixes ds :: "'s datastore" and good :: "'s \<Rightarrow> bool"
  assumes put: "good s \<Longrightarrow> fst (Utxos_Put ds u s) = None \<and> good (snd (Utxos_Put ds u s)) \<and>
      set (fst (Utxos_GetAll ds (snd (Utxos_Put ds u s)))) = insert u {x \<in> set (fst (Utxos_GetAll ds s)). utxo_Op x \<noteq> utxo_Op u}"
    and delete: "good s \<Longrightarrow> u \<in> set (fst (Utxos_GetAll ds s)) \<Longrightarrow> fst (Utxos_Delete ds u s) = None \<and> good (snd (Utxos_Delete ds u s)) \<and>
      set (fst (Utxos_GetAll ds (snd (Utxos_Delete ds u s)))) = {x \<in> set (fst (Utxos_GetAll ds s)). utxo_Op x \<noteq> utxo_Op u}"
    and rows: "good s \<Longrightarrow> snd (Utxos_GetAll ds s) = None \<and> distinct (map utxo_Op (fst (Utxos_GetAll ds s)))"
begin

text \<open>Putting an output and deleting it again leaves the other outputs.\<close>

lemma put_delete:
  assumes "good s"
  shows "set (fst (Utxos_GetAll ds (snd (Utxos_Delete ds u (snd (Utxos_Put ds u s)))))) =
    {x \<in> set (fst (Utxos_GetAll ds s)). utxo_Op x \<noteq> utxo_Op u}"
proof -
  note p = put [OF assms, of u]
  then have "good (snd (Utxos_Put ds u s))" "u \<in> set (fst (Utxos_GetAll ds (snd (Utxos_Put ds u s))))" by auto
  from delete [OF this] p show ?thesis by auto
qed

text \<open>A run of puts of outputs with different outpoints holds them all.\<close>

lemma puts:
  assumes "good s" "distinct (map utxo_Op us)"
  shows "good (fold (\<lambda>u s. snd (Utxos_Put ds u s)) us s) \<and>
    set (fst (Utxos_GetAll ds (fold (\<lambda>u s. snd (Utxos_Put ds u s)) us s))) =
      set us \<union> {x \<in> set (fst (Utxos_GetAll ds s)). utxo_Op x \<notin> utxo_Op ` set us}"
  using assms
proof (induction us arbitrary: s)
  case (Cons u us)
  note p = put [OF Cons.prems(1), of u]
  from Cons.IH [of "snd (Utxos_Put ds u s)"] p Cons.prems(2) show ?case by auto
qed simp

end

sublocale datastore_laws \<subseteq> utxos: utxo_laws ds inv
proof
  fix s u assume s: "inv s"
  then show "fst (Utxos_Put ds u s) = None \<and> inv (snd (Utxos_Put ds u s)) \<and>
      set (fst (Utxos_GetAll ds (snd (Utxos_Put ds u s)))) = insert u {x \<in> set (fst (Utxos_GetAll ds s)). utxo_Op x \<noteq> utxo_Op u}"
    by (simp add: Utxos_GetAll table_simps)
  show "fst (Utxos_Delete ds u s) = None \<and> inv (snd (Utxos_Delete ds u s)) \<and>
      set (fst (Utxos_GetAll ds (snd (Utxos_Delete ds u s)))) = {x \<in> set (fst (Utxos_GetAll ds s)). utxo_Op x \<noteq> utxo_Op u}"
    using s by (simp add: Utxos_GetAll table_simps)
  show "snd (Utxos_GetAll ds s) = None \<and> distinct (map utxo_Op (fst (Utxos_GetAll ds s)))"
    using view_ok [OF s] s by (simp add: Utxos_GetAll view_ok_def keyed_def)
qed

text \<open>An iteration order permutes the keys; the utxos of the map are filed under their outpoints.\<close>

definition order_ok :: "(string list \<Rightarrow> string list) \<Rightarrow> bool" where
  "order_ok ord \<longleftrightarrow> (\<forall>ks. mset (ord ks) = mset ks)"

definition mock_utxos_ok :: "wire_lib \<Rightarrow> mockdb \<Rightarrow> bool" where
  "mock_utxos_ok lib m \<longleftrightarrow> distinct (map fst (m_utxos m)) \<and> (\<forall>x \<in> set (m_utxos m). fst x = outpoint_str lib (utxo_Op (snd x)))"

lemma mset_go_range:
  assumes "order_ok ord" "distinct (map fst m)"
  shows "mset (go_range ord m) = mset (map snd m)"
proof -
  have "mset (List.map_filter f xs) = mset (List.map_filter f ys)" if "mset xs = mset ys" for f :: "string \<Rightarrow> 'a option" and xs ys
    using that by (simp add: List.map_filter_def)
  moreover have "set xs \<subseteq> set m \<Longrightarrow> List.map_filter (map_of m) (map fst xs) = map snd xs" for xs
    using assms(2) by (induction xs) (auto simp: List.map_filter_simps)
  from this [OF subset_refl] have "List.map_filter (map_of m) (map fst m) = map snd m" .
  ultimately show ?thesis using assms(1) unfolding go_range_def order_ok_def by metis
qed

lemma set_go_range: "order_ok ord \<Longrightarrow> distinct (map fst m) \<Longrightarrow> set (go_range ord m) = snd ` set m"
  using mset_go_range [of ord m] by (metis mset_eq_setD set_map)

lemma set_update: "distinct (map fst m) \<Longrightarrow> set (AList.update k v m) = insert (k, v) {x \<in> set m. fst x \<noteq> k}"
  by (induction m) (auto simp: rev_image_eqI)

lemma set_delete: "set (AList.delete k m) = {x \<in> set m. fst x \<noteq> k}"
  by (auto simp: AList.delete_eq)

lemma mock_utxos:
  "order_ok ord \<Longrightarrow> mock_utxos_ok lib m \<Longrightarrow> set (fst (mockUtxoStore_GetAll ord m)) = snd ` set (m_utxos m)"
  by (simp add: mockUtxoStore_GetAll_def set_go_range mock_utxos_ok_def)

lemma mock_others:
  assumes "wire_ok lib" "mock_utxos_ok lib m"
  shows "snd ` {x \<in> set (m_utxos m). fst x \<noteq> outpoint_str lib p} = {y \<in> snd ` set (m_utxos m). utxo_Op y \<noteq> p}"
proof -
  have "fst x = outpoint_str lib p \<longleftrightarrow> utxo_Op (snd x) = p" if "x \<in> set (m_utxos m)" for x
    using assms(2) that by (simp add: mock_utxos_ok_def outpoint_str_inj [OF assms(1)])
  then show ?thesis by blast
qed

lemma mock_put:
  assumes "wire_ok lib" "mock_utxos_ok lib m"
  shows "mock_utxos_ok lib (m\<lparr>m_utxos := AList.update (outpoint_str lib (utxo_Op u)) u (m_utxos m)\<rparr>)"
    "snd ` set (AList.update (outpoint_str lib (utxo_Op u)) u (m_utxos m)) = insert u {x \<in> snd ` set (m_utxos m). utxo_Op x \<noteq> utxo_Op u}"
  using assms(2) by (simp_all add: mock_utxos_ok_def set_update distinct_update mock_others [OF assms, symmetric])

lemma mock_delete:
  assumes "wire_ok lib" "mock_utxos_ok lib m"
  shows "mock_utxos_ok lib (m\<lparr>m_utxos := AList.delete (outpoint_str lib (utxo_Op u)) (m_utxos m)\<rparr>)"
    "snd ` set (AList.delete (outpoint_str lib (utxo_Op u)) (m_utxos m)) = {x \<in> snd ` set (m_utxos m). utxo_Op x \<noteq> utxo_Op u}"
  using assms(2) by (simp_all add: mock_utxos_ok_def set_delete distinct_delete mock_others [OF assms, symmetric])

lemma mock_lookup:
  assumes "mock_utxos_ok lib m" "u \<in> snd ` set (m_utxos m)"
  shows "map_of (m_utxos m) (outpoint_str lib (utxo_Op u)) = Some u"
  using assms by (auto simp: mock_utxos_ok_def intro!: map_of_is_SomeI)

interpretation mock: utxo_laws "MockDatastore lib ord" "\<lambda>m. wire_ok lib \<and> order_ok ord \<and> mock_utxos_ok lib m"
  for lib ord
proof
  fix m u assume "wire_ok lib \<and> order_ok ord \<and> mock_utxos_ok lib m"
  then have m: "wire_ok lib" "order_ok ord" "mock_utxos_ok lib m" by auto
  show "fst (Utxos_Put (MockDatastore lib ord) u m) = None \<and>
      (wire_ok lib \<and> order_ok ord \<and> mock_utxos_ok lib (snd (Utxos_Put (MockDatastore lib ord) u m))) \<and>
      set (fst (Utxos_GetAll (MockDatastore lib ord) (snd (Utxos_Put (MockDatastore lib ord) u m)))) =
        insert u {x \<in> set (fst (Utxos_GetAll (MockDatastore lib ord) m)). utxo_Op x \<noteq> utxo_Op u}"
    using m mock_put [OF m(1,3), of u] by (simp add: MockDatastore_def mockUtxoStore_Put_def mock_utxos)
  show "fst (Utxos_Delete (MockDatastore lib ord) u m) = None \<and>
      (wire_ok lib \<and> order_ok ord \<and> mock_utxos_ok lib (snd (Utxos_Delete (MockDatastore lib ord) u m))) \<and>
      set (fst (Utxos_GetAll (MockDatastore lib ord) (snd (Utxos_Delete (MockDatastore lib ord) u m)))) =
        {x \<in> set (fst (Utxos_GetAll (MockDatastore lib ord) m)). utxo_Op x \<noteq> utxo_Op u}"
    if "u \<in> set (fst (Utxos_GetAll (MockDatastore lib ord) m))"
    using m mock_delete [OF m(1,3), of u] mock_lookup [OF m(3), of u] that
    by (simp add: MockDatastore_def mockUtxoStore_Delete_def mock_utxos)
  have "mset (map utxo_Op (go_range ord (m_utxos m))) = mset (map utxo_Op (map snd (m_utxos m)))"
    using mset_go_range [OF m(2), of "m_utxos m"] m(3) unfolding mock_utxos_ok_def by (metis mset_map)
  moreover have "map fst (m_utxos m) = map (outpoint_str lib) (map utxo_Op (map snd (m_utxos m)))"
    using m(3) by (simp add: mock_utxos_ok_def)
  then have "distinct (map utxo_Op (map snd (m_utxos m)))"
    using m(3) by (metis mock_utxos_ok_def distinct_map)
  ultimately have "distinct (map utxo_Op (go_range ord (m_utxos m)))" using mset_eq_imp_distinct_iff by blast
  then show "snd (Utxos_GetAll (MockDatastore lib ord) m) = None \<and> distinct (map utxo_Op (fst (Utxos_GetAll (MockDatastore lib ord) m)))"
    by (simp add: MockDatastore_def mockUtxoStore_GetAll_def)
qed

text \<open>The utxo table of the in-memory store is a table: \<open>Put\<close> files the output under its outpoint in place of the
  one that was there, and deleting it again leaves exactly the other outputs, in whatever order Go iterates over the map.\<close>

theorem mockUtxoStore_table:
  assumes "wire_ok lib" "order_ok ord" "mock_utxos_ok lib m"
  shows "set (fst (mockUtxoStore_GetAll ord (snd (mockUtxoStore_Put lib u m)))) =
      insert u {x \<in> set (fst (mockUtxoStore_GetAll ord m)). utxo_Op x \<noteq> utxo_Op u} \<and>
    set (fst (mockUtxoStore_GetAll ord (snd (mockUtxoStore_Delete lib u (snd (mockUtxoStore_Put lib u m)))))) =
      {x \<in> set (fst (mockUtxoStore_GetAll ord m)). utxo_Op x \<noteq> utxo_Op u} \<and>
    distinct (map utxo_Op (fst (mockUtxoStore_GetAll ord m)))"
  using mock.put [of lib ord m u] mock.put_delete [of lib ord m u] mock.rows [of lib ord m] assms by (simp add: MockDatastore_def)

definition ex_mock :: mockdb where
  "ex_mock = \<lparr>m_keys = [], m_utxos = [], m_stxos = [], m_txns = [], m_scripts = []\<rparr>"

theorem mockUtxoStore_table_witness:
  "set (fst (mockUtxoStore_GetAll rev (snd (mockUtxoStore_Put ex_lib ex_utxo ex_mock)))) = {ex_utxo}"
  using mockUtxoStore_table [OF ex_lib_ok, of rev ex_mock ex_utxo]
  by (auto simp: order_ok_def mock_utxos_ok_def ex_mock_def mockUtxoStore_GetAll_def go_range_def List.map_filter_simps)

definition mock_stxos_ok :: "wire_lib \<Rightarrow> mockdb \<Rightarrow> bool" where
  "mock_stxos_ok lib m \<longleftrightarrow> distinct (map fst (m_stxos m)) \<and> (\<forall>x \<in> set (m_stxos m). fst x = hashString lib (SpendTxid (snd x)))"

text \<open>The spends of two outputs by one transaction.\<close>

definition ex_spend :: "u32 \<Rightarrow> Stxo" where
  "ex_spend i = \<lparr>stxo_Utxo = ex_utxo\<lparr>utxo_Op := \<lparr>op_Hash = 5, op_Index = i\<rparr>\<rparr>, SpendHeight = 120, SpendTxid = 9\<rparr>"

text \<open>The in-memory table of spent outputs is keyed by the spending transaction, not by the outpoint: a transaction that
  spends two outputs of the wallet leaves only the one that was put last, whereas the SQLite table keeps both.\<close>

theorem mockStxoStore_overwrites:
  assumes "order_ok ord" "mock_stxos_ok lib m" "SpendTxid x = SpendTxid y" "stxo_Op x \<noteq> stxo_Op y" "sql_inv lib db"
    and "m' = snd (mockStxoStore_Put lib y (snd (mockStxoStore_Put lib x m)))" "db' = snd (StxoDB_Put lib y (snd (StxoDB_Put lib x db)))"
  shows "set (fst (mockStxoStore_GetAll ord m')) = insert y {z \<in> set (fst (mockStxoStore_GetAll ord m)). SpendTxid z \<noteq> SpendTxid y} \<and>
    x \<notin> set (fst (mockStxoStore_GetAll ord m')) \<and> {x, y} \<subseteq> set (fst (StxoDB_GetAll lib db'))"
proof -
  let ?k = "hashString lib (SpendTxid y)"
  have "fst z = ?k \<longleftrightarrow> SpendTxid (snd z) = SpendTxid y" if "z \<in> set (m_stxos m)" for z
    using assms(2) that hashString_inj [OF sql_invD(1) [OF assms(5)]] by (auto simp: mock_stxos_ok_def)
  then have "snd ` {z \<in> set (m_stxos m). fst z \<noteq> ?k} = {z \<in> snd ` set (m_stxos m). SpendTxid z \<noteq> SpendTxid y}" by blast
  moreover have "set (go_range ord (AList.update ?k y (AList.update ?k x (m_stxos m)))) = insert y (snd ` {z \<in> set (m_stxos m). fst z \<noteq> ?k})"
    using assms(1,2) by (auto simp: mock_stxos_ok_def set_go_range distinct_update set_update)
  moreover have v: "fst (StxoDB_GetAll lib d) = v_stxos (sql_view lib d)" for d by (simp add: sql_view_def)
  have "{x, y} \<subseteq> set (fst (StxoDB_GetAll lib db'))"
    using sql_Stxos_Put [OF assms(5), of x] sql_Stxos_Put [of lib "snd (StxoDB_Put lib x db)" y] assms(4)
    by (auto simp: v assms(7) table_simps)
  ultimately show ?thesis
    using assms(1-4) by (auto simp: assms(6) mock_stxos_ok_def mockStxoStore_GetAll_def mockStxoStore_Put_def set_go_range)
qed

theorem mockStxoStore_overwrites_witness:
  "\<exists>m' db'. fst (mockStxoStore_GetAll id m') = [ex_spend 1] \<and> {ex_spend 0, ex_spend 1} \<subseteq> set (fst (StxoDB_GetAll ex_lib db'))"
proof -
  define m' where "m' = snd (mockStxoStore_Put ex_lib (ex_spend 1) (snd (mockStxoStore_Put ex_lib (ex_spend 0) ex_mock)))"
  define db' where "db' = snd (StxoDB_Put ex_lib (ex_spend 1) (snd (StxoDB_Put ex_lib (ex_spend 0) (initDatabaseTables (\<lambda>n. 7)))))"
  have "{ex_spend 0, ex_spend 1} \<subseteq> set (fst (StxoDB_GetAll ex_lib db'))"
    using mockStxoStore_overwrites [OF _ _ _ _ sql_inv_init [OF ex_lib_ok], of id ex_mock "ex_spend 0" "ex_spend 1" m' db' "\<lambda>n. 7"]
    by (simp add: m'_def db'_def order_ok_def mock_stxos_ok_def ex_mock_def ex_spend_def ex_utxo_def)
  moreover have "fst (mockStxoStore_GetAll id m') = [ex_spend 1]"
    by (simp add: m'_def mockStxoStore_GetAll_def mockStxoStore_Put_def ex_mock_def ex_spend_def go_range_def List.map_filter_simps)
  ultimately show ?thesis by blast
qed

section \<open>Keys\<close>

text \<open>The entry of a key row, and a map that holds the rows of a table in some order.\<close>

definition key_entry :: "krow \<Rightarrow> keyStoreEntry" where
  "key_entry r = \<lparr>ke_scriptAddress = kr_script r, ke_path = kr_path r, ke_used = kr_used r, ke_key = kr_key r\<rparr>"

definition same_keys :: "krow list \<Rightarrow> mockdb \<Rightarrow> bool" where
  "same_keys ks m \<longleftrightarrow> distinct (map fst (m_keys m)) \<and> mset (map snd (m_keys m)) = mset (map key_entry ks)"

text \<open>The rows of a purpose with increasing indices, as the look-ahead files them.\<close>

definition in_order :: "KeyPurpose \<Rightarrow> krow list \<Rightarrow> bool" where
  "in_order p ks \<longleftrightarrow> sorted_wrt (\<lambda>a b. row_index a < row_index b) (filter (\<lambda>r. row_purpose r = p) ks) \<and>
     (\<forall>r \<in> set ks. row_purpose r = p \<longrightarrow> 0 \<le> row_index r)"

lemma key_entry_simps [simp]:
  "ke_path (key_entry r) = kr_path r" "ke_used (key_entry r) = kr_used r"
  by (simp_all add: key_entry_def)

lemma last_key_fold:
  "fst acc \<le> fst (fold (last_key p) es acc) \<and>
   (\<forall>e \<in> set es. kp_Purpose (ke_path e) = p \<longrightarrow> kp_Index (ke_path e) \<le> fst (fold (last_key p) es acc)) \<and>
   (fold (last_key p) es acc = acc \<or> (\<exists>e \<in> set es. kp_Purpose (ke_path e) = p \<and>
      fold (last_key p) es acc = (kp_Index (ke_path e), ke_used e)))"
proof (induction es arbitrary: acc)
  case (Cons e es)
  from Cons.IH [of "last_key p e acc"] show ?case by (auto simp: last_key_def split: if_splits)
qed simp

lemma last_used_bounds:
  "(\<forall>e \<in> set es. kp_Purpose (ke_path e) = p \<and> ke_used e \<longrightarrow> kp_Index (ke_path e) \<le> last_used p es) \<and>
   (last_used p es = -1 \<or> (\<exists>e \<in> set es. kp_Purpose (ke_path e) = p \<and> ke_used e \<and> last_used p es = kp_Index (ke_path e)))"
proof -
  let ?f = "\<lambda>key i. if kp_Purpose (ke_path key) = p \<and> ke_used key \<and> i < kp_Index (ke_path key) then kp_Index (ke_path key) else i"
  have "i \<le> fold ?f es i \<and> (\<forall>e \<in> set es. kp_Purpose (ke_path e) = p \<and> ke_used e \<longrightarrow> kp_Index (ke_path e) \<le> fold ?f es i) \<and>
      (fold ?f es i = i \<or> (\<exists>e \<in> set es. kp_Purpose (ke_path e) = p \<and> ke_used e \<and> fold ?f es i = kp_Index (ke_path e)))" for i
  proof (induction es arbitrary: i)
    case (Cons e es)
    from Cons.IH [of "?f e i"] show ?case by (auto split: if_splits)
  qed simp
  then show ?thesis by (simp add: last_used_def)
qed

lemma unused_after_count:
  "unused_after p n es = int (length (filter (\<lambda>e. kp_Purpose (ke_path e) = p \<and> \<not> ke_used e \<and> n < kp_Index (ke_path e)) es))"
proof -
  let ?P = "\<lambda>e. kp_Purpose (ke_path e) = p \<and> \<not> ke_used e \<and> n < kp_Index (ke_path e)"
  have "fold (\<lambda>e c. if ?P e then c + 1 else c) es c = c + int (length (filter ?P es))" for c :: int
    by (induction es arbitrary: c) auto
  then show ?thesis by (simp add: unused_after_def)
qed

text \<open>Counting by index and counting back from the end agree on rows in order.\<close>

lemma window_by_index:
  assumes "sorted_wrt (\<lambda>a b. row_index b < row_index a) rs" "\<forall>r \<in> set rs. 0 \<le> row_index r"
    and "\<forall>r \<in> set rs. kr_used r \<longrightarrow> row_index r \<le> n" "n = -1 \<or> (\<exists>r \<in> set rs. kr_used r \<and> row_index r = n)"
  shows "filter (\<lambda>r. \<not> kr_used r \<and> n < row_index r) rs = takeWhile (\<lambda>r. \<not> kr_used r) rs"
  using assms
proof (induction rs)
  case (Cons r rs)
  show ?case
  proof (cases "kr_used r")
    case True
    then have "\<forall>x \<in> set rs. row_index x < n" using Cons.prems(1,3) by force
    with True show ?thesis by (fastforce simp: filter_empty_conv)
  next
    case False
    then have "n < row_index r" using Cons.prems by auto
    moreover have "filter (\<lambda>r. \<not> kr_used r \<and> n < row_index r) rs = takeWhile (\<lambda>r. \<not> kr_used r) rs"
      using Cons.IH Cons.prems False by auto
    ultimately show ?thesis using False by simp
  qed
qed simp

lemma mset_map_filter: "mset xs = mset ys \<Longrightarrow> mset (map f (filter P xs)) = mset (map f (filter P ys))"
  by simp

lemma length_filter_mset: "mset xs = mset ys \<Longrightarrow> length (filter P xs) = length (filter P ys)"
  by (metis mset_filter size_mset)

lemma range_rows:
  assumes "order_ok ord" "same_keys ks m"
  shows "mset (go_range ord (m_keys m)) = mset (map key_entry ks)" "set (go_range ord (m_keys m)) = key_entry ` set ks"
proof -
  show e: "mset (go_range ord (m_keys m)) = mset (map key_entry ks)"
    using mset_go_range [OF assms(1), of "m_keys m"] assms(2) by (simp add: same_keys_def)
  from mset_eq_setD [OF e] show "set (go_range ord (m_keys m)) = key_entry ` set ks" by simp
qed

lemma mock_unused:
  assumes "order_ok ord" "same_keys ks m" "in_order p ks"
  shows "fst (mockKeyStore_GetUnused ord p m) = map row_index (filter (\<lambda>r. row_purpose r = p \<and> \<not> kr_used r) ks)"
proof -
  have "mset (map (\<lambda>k. kp_Index (ke_path k)) (filter (\<lambda>k. \<not> ke_used k \<and> kp_Purpose (ke_path k) = p) (go_range ord (m_keys m)))) =
      mset (map (\<lambda>k. kp_Index (ke_path k)) (filter (\<lambda>k. \<not> ke_used k \<and> kp_Purpose (ke_path k) = p) (map key_entry ks)))"
    by (rule mset_map_filter [OF range_rows(1) [OF assms(1,2)]])
  also have "\<dots> = mset (map row_index (filter (\<lambda>r. row_purpose r = p \<and> \<not> kr_used r) ks))"
    by (simp add: filter_map comp_def conj_commute)
  finally have m: "mset (map row_index (filter (\<lambda>r. row_purpose r = p \<and> \<not> kr_used r) ks)) =
      mset (map (\<lambda>k. kp_Index (ke_path k)) (filter (\<lambda>k. \<not> ke_used k \<and> kp_Purpose (ke_path k) = p) (go_range ord (m_keys m))))" by simp
  have "sorted_wrt (\<lambda>a b. row_index a < row_index b) (filter (\<lambda>r. \<not> kr_used r) (filter (\<lambda>r. row_purpose r = p) ks))"
    using assms(3) sorted_wrt_filter unfolding in_order_def by blast
  then have "sorted (map row_index (filter (\<lambda>r. row_purpose r = p \<and> \<not> kr_used r) ks))"
    by (simp add: sorted_wrt_map conj_commute) (rule sorted_wrt_mono_rel, auto)
  with m show ?thesis by (simp add: mockKeyStore_GetUnused_def properties_for_sort)
qed

lemma mock_windows:
  assumes "order_ok ord" "same_keys ks m" "in_order p ks" "hd_purpose p"
  shows "mockKeyStore_GetLookaheadWindows ord m p = Some (int (window p ks))"
proof -
  let ?es = "go_range ord (m_keys m)" and ?rs = "rev (filter (\<lambda>r. row_purpose r = p) ks)"
  let ?n = "last_used p ?es"
  have "unused_after p ?n ?es =
      int (length (filter (\<lambda>e. kp_Purpose (ke_path e) = p \<and> \<not> ke_used e \<and> ?n < kp_Index (ke_path e)) (map key_entry ks)))"
    unfolding unused_after_count by (subst length_filter_mset [OF range_rows(1) [OF assms(1,2)]]) (rule refl)
  also have "\<dots> = int (length (filter (\<lambda>r. \<not> kr_used r \<and> ?n < row_index r) ?rs))"
    by (simp add: filter_map comp_def rev_filter [symmetric])
  also have "filter (\<lambda>r. \<not> kr_used r \<and> ?n < row_index r) ?rs = takeWhile (\<lambda>r. \<not> kr_used r) ?rs"
  proof (rule window_by_index)
    show "sorted_wrt (\<lambda>a b. row_index b < row_index a) ?rs" using assms(3) by (simp add: in_order_def sorted_wrt_rev)
    show "\<forall>r \<in> set ?rs. 0 \<le> row_index r" using assms(3) by (auto simp: in_order_def)
    show "\<forall>r \<in> set ?rs. kr_used r \<longrightarrow> row_index r \<le> ?n" "?n = -1 \<or> (\<exists>r \<in> set ?rs. kr_used r \<and> row_index r = ?n)"
      using last_used_bounds [of ?es p] range_rows(2) [OF assms(1,2)] by auto
  qed
  finally have "unused_after p ?n ?es = int (window p ks)" by (simp add: window_def)
  with assms(4) show ?thesis by (auto simp: mockKeyStore_GetLookaheadWindows_def hd_purpose_def Let_def)
qed

lemma mock_last:
  assumes "order_ok ord" "same_keys ks m" "in_order p ks"
  shows "case rev (filter (\<lambda>r. row_purpose r = p) ks) of
      [] \<Rightarrow> snd (snd (mockKeyStore_GetLastKeyIndex ord p m)) \<noteq> None
    | r # _ \<Rightarrow> mockKeyStore_GetLastKeyIndex ord p m = (row_index r, kr_used r, None)"
proof -
  let ?r = "fold (last_key p) (go_range ord (m_keys m)) (-1, False)"
  note f = last_key_fold [of "(-1, False)" p "go_range ord (m_keys m)", unfolded range_rows(2) [OF assms(1,2)]]
  show ?thesis
  proof (cases "rev (filter (\<lambda>r. row_purpose r = p) ks)")
    case Nil
    then have "?r = (-1, False)" using f by (auto simp: filter_empty_conv)
    then show ?thesis by (simp add: Nil mockKeyStore_GetLastKeyIndex_def)
  next
    case (Cons r rs)
    have "r \<in> set (rev (filter (\<lambda>r. row_purpose r = p) ks))" by (simp add: Cons)
    then have r: "r \<in> set ks" "row_purpose r = p" by auto
    have top: "x = r \<or> row_index x < row_index r" if "x \<in> set ks" "row_purpose x = p" for x
    proof -
      have "x \<in> set (rev (filter (\<lambda>r. row_purpose r = p) ks))" using that by simp
      moreover have "sorted_wrt (\<lambda>a b. row_index b < row_index a) (r # rs)"
        using assms(3) unfolding in_order_def by (simp add: Cons [symmetric] sorted_wrt_rev)
      ultimately show ?thesis using Cons by auto
    qed
    have nn: "0 \<le> row_index r" using r assms(3) by (simp add: in_order_def)
    have "row_index r \<le> fst ?r" using f r by auto
    then obtain x where x: "x \<in> set ks" "row_purpose x = p" "?r = (row_index x, kr_used x)" using f nn by auto
    with top [OF x(1,2)] \<open>row_index r \<le> fst ?r\<close> have "x = r" by auto
    with x nn show ?thesis by (simp add: Cons mockKeyStore_GetLastKeyIndex_def)
  qed
qed



text \<open>An imported key breaks the agreement: the in-memory store files it as the unused external key of index \<open>-1\<close>, so it is the
  first of the unused keys, and the current key is then derived from that index.\<close>

theorem mock_import_unused:
  assumes "order_ok ord" "distinct (map fst (m_keys m))" "m' = snd (mockKeyStore_ImportKey sa key m)"
  shows "-1 \<in> set (fst (mockKeyStore_GetUnused ord EXTERNAL m'))"
  using assms by (auto simp: mockKeyStore_ImportKey_def mockKeyStore_GetUnused_def set_go_range distinct_update set_update image_iff
      intro!: bexI)

theorem mock_import_unused_witness:
  "-1 \<in> set (fst (mockKeyStore_GetUnused id EXTERNAL (snd (mockKeyStore_ImportKey [4] [9] ex_mock))))"
  by (rule mock_import_unused [OF _ _ refl]) (simp_all add: order_ok_def ex_mock_def)

end
