(* ===== verification/Peer_Manager.thy ===== *)
theory Peer_Manager
  imports Wire_Service
begin

text \<open>
  The peer manager, \<^verbatim>\<open>src/peers.go\<close>: it chooses addresses to connect to, keeps the connected peers and turns what
  happens to them into messages for the wire service.  The address manager of the library is a state
  \<open>'a\<close> with the functions of \<open>addr_lib\<close>; looking up a host and making a peer are parameters of the operations that
  use them.  A peer is a number, as in the wire service; what the peer library knows of it is the record
  \<open>peer_lib\<close>.  What the manager does beside changing its state is the datatype \<open>pm_action\<close>; \<open>Tell m\<close> is a
  message on the channel of the wire service.  The mutex makes each operation one step.  The package variable
  \<open>defaultPort\<close>, which only \<open>NewPeerManager\<close> sets, is a field of the state.
\<close>

section \<open>Libraries and state\<close>

record KnownAddress =
  ka_IP :: string
  ka_Port :: "16 word"
  ka_LastAttempt :: go_time

record NetAddress =
  na_IP :: string
  na_Port :: "16 word"

record 'a addr_lib =
  GetAddress :: "'a \<Rightarrow> KnownAddress option \<times> 'a"
  Attempt :: "KnownAddress \<Rightarrow> 'a \<Rightarrow> 'a"
  Connected :: "nat \<Rightarrow> 'a \<Rightarrow> 'a"
  Good :: "nat \<Rightarrow> 'a \<Rightarrow> 'a"
  AddAddress :: "NetAddress \<Rightarrow> NetAddress \<Rightarrow> 'a \<Rightarrow> 'a"
  AddAddresses :: "NetAddress list \<Rightarrow> NetAddress \<Rightarrow> 'a \<Rightarrow> 'a"
  NeedMoreAddresses :: "'a \<Rightarrow> bool"

record peer_lib =
  NA_IP :: "nat \<Rightarrow> string"
  Services :: "nat \<Rightarrow> u64"

datatype pm_action =
    Tell ws_msg
  | ConnDisconnect nat
  | PeerDisconnect nat
  | QueueGetAddr nat

record PeerManagerConfig =
  c_DefaultPort :: string
  c_DNSSeeds :: "string list"
  c_TargetOutbound :: u32
  c_RetryDuration :: int
  c_TrustedPeer :: "NetAddress option"
  c_Proxy :: bool
  c_MsgChan :: bool

record 'a PeerManager =
  pm_addrs :: 'a
  sourceAddr :: NetAddress
  trustedPeer :: "NetAddress option"
  targetOutbound :: u32
  retryDuration :: int
  pm_proxy :: bool
  connectedPeers :: "(nat \<times> nat) list"
  msgChan :: bool
  defaultPort :: "16 word"
  pm_DefaultPort :: string
  pm_DNSSeeds :: "string list"

definition defaultTargetOutbound :: u32 where
  "defaultTargetOutbound = 12"

definition defaultRetryDuration :: int where
  "defaultRetryDuration = 5 * nano"

text \<open>\<open>mgr\<close> says whether the connection manager of the library accepts its configuration.\<close>

definition NewPeerManager :: "'a \<Rightarrow> bool \<Rightarrow> PeerManagerConfig \<Rightarrow> 'a PeerManager go" where
  "NewPeerManager addrs mgr config =
     (case Atoi (c_DefaultPort config) of
        None \<Rightarrow> Err LibError
      | Some port \<Rightarrow>
          (let target = (if c_TargetOutbound config = 0 then defaultTargetOutbound else c_TargetOutbound config);
               target1 = (if c_TrustedPeer config \<noteq> None then 1 else target);
               retry = (if c_RetryDuration config \<le> 0 then defaultRetryDuration else c_RetryDuration config)
           in if \<not> mgr then Err LibError
              else Ok \<lparr>pm_addrs = addrs, sourceAddr = \<lparr>na_IP = ''0.0.0.0'', na_Port = word_of_int port\<rparr>,
                trustedPeer = c_TrustedPeer config, targetOutbound = target1, retryDuration = retry, pm_proxy = c_Proxy config,
                connectedPeers = [], msgChan = c_MsgChan config, defaultPort = word_of_int port,
                pm_DefaultPort = c_DefaultPort config, pm_DNSSeeds = c_DNSSeeds config\<rparr>))"

section \<open>Connections\<close>

definition ConnectedPeers :: "'a PeerManager \<Rightarrow> nat list" where
  "ConnectedPeers pm = map snd (connectedPeers pm)"

text \<open>\<open>made\<close> is the peer the library makes for the connection, if it can.\<close>

definition onConnection :: "'a addr_lib \<Rightarrow> nat \<Rightarrow> nat option \<Rightarrow> 'a PeerManager \<Rightarrow> 'a PeerManager \<times> pm_action list" where
  "onConnection al cid made pm =
     (case made of
        None \<Rightarrow> (pm, [ConnDisconnect cid])
      | Some p \<Rightarrow> (pm\<lparr>connectedPeers := AList.update cid p (connectedPeers pm), pm_addrs := Connected al p (pm_addrs pm)\<rparr>, []))"

definition tell :: "'a PeerManager \<Rightarrow> ws_msg \<Rightarrow> pm_action list" where
  "tell pm m = (if msgChan pm then [Tell m] else [])"

text \<open>The service bits for bloom filters, full blocks and Bitcoin Cash.\<close>

definition has_services :: "u64 \<Rightarrow> bool" where
  "has_services s \<longleftrightarrow> s AND 4 = 4 \<and> s AND 1 = 1 \<and> s AND 32 = 32"

definition onVerack :: "'a addr_lib \<Rightarrow> peer_lib \<Rightarrow> nat \<Rightarrow> 'a PeerManager \<Rightarrow> 'a PeerManager \<times> pm_action list" where
  "onVerack al pl p pm =
     (if \<not> has_services (Services pl p) then (pm, [PeerDisconnect p])
      else (pm\<lparr>pm_addrs := Good al p (pm_addrs pm)\<rparr>, tell pm (newPeerMsg p)))"

definition onDisconnection :: "nat \<Rightarrow> 'a PeerManager \<Rightarrow> 'a PeerManager \<times> pm_action list" where
  "onDisconnection cid pm =
     (case map_of (connectedPeers pm) cid of
        None \<Rightarrow> (pm, [])
      | Some p \<Rightarrow> (pm\<lparr>connectedPeers := AList.delete cid (connectedPeers pm)\<rparr>, tell pm (donePeerMsg p)))"

section \<open>Addresses\<close>

text \<open>The body of the loop of \<open>getNewAddress\<close>: whether the try takes the address drawn.\<close>

definition usable :: "peer_lib \<Rightarrow> go_time \<Rightarrow> 'a PeerManager \<Rightarrow> nat \<Rightarrow> KnownAddress \<Rightarrow> bool" where
  "usable pl now pm tries ka \<longleftrightarrow>
     \<not> (tries < 30 \<and> now - ka_LastAttempt ka < 600 * nano) \<and>
     \<not> (tries < 50 \<and> Itoa (uint (ka_Port ka)) \<noteq> pm_DefaultPort pm) \<and>
     (\<forall>p \<in> set (ConnectedPeers pm). NA_IP pl p \<noteq> ka_IP ka)"

fun address_loop ::
    "'a addr_lib \<Rightarrow> peer_lib \<Rightarrow> go_time \<Rightarrow> nat \<Rightarrow> nat \<Rightarrow> 'a PeerManager \<Rightarrow> NetAddress go \<times> 'a PeerManager" where
  "address_loop al pl now tries 0 pm = (Err (ErrMsg ''failed to find appropriate address to return''), pm)"
| "address_loop al pl now tries (Suc n) pm =
     (let (ka, addrs) = GetAddress al (pm_addrs pm); pm1 = pm\<lparr>pm_addrs := addrs\<rparr> in
      case ka of
        None \<Rightarrow> address_loop al pl now (tries + 1) n pm1
      | Some k \<Rightarrow>
          if usable pl now pm1 tries k
          then (Ok \<lparr>na_IP = ka_IP k, na_Port = ka_Port k\<rparr>, pm1\<lparr>pm_addrs := Attempt al k (pm_addrs pm1)\<rparr>)
          else address_loop al pl now (tries + 1) n pm1)"

definition getNewAddress :: "'a addr_lib \<Rightarrow> peer_lib \<Rightarrow> go_time \<Rightarrow> 'a PeerManager \<Rightarrow> NetAddress go \<times> 'a PeerManager" where
  "getNewAddress al pl now pm =
     (case trustedPeer pm of None \<Rightarrow> address_loop al pl now 0 100 pm | Some a \<Rightarrow> (Ok a, pm))"

text \<open>
  One seed: \<open>look\<close> is the host lookup, \<open>torLook\<close> the five lookups over the proxy; the goroutines of the seeds add
  their addresses one after the other, in the order of the list.
\<close>

fun tor_addrs :: "string list option list \<Rightarrow> string list \<Rightarrow> string list option" where
  "tor_addrs [] acc = Some acc"
| "tor_addrs (None # rs) acc = None"
| "tor_addrs (Some ips # rs) acc = tor_addrs rs (acc @ ips)"

definition seed_addrs ::
    "(string \<Rightarrow> string list option) \<Rightarrow> (string \<Rightarrow> nat \<Rightarrow> string list option) \<Rightarrow> 'a PeerManager \<Rightarrow> string \<Rightarrow> string list" where
  "seed_addrs look torLook pm host =
     (case (if pm_proxy pm then tor_addrs (map (torLook host) [0..<5]) [] else look host) of
        None \<Rightarrow> [] | Some addrs \<Rightarrow> addrs)"

definition queryDNSSeeds ::
    "'a addr_lib \<Rightarrow> (string \<Rightarrow> string list option) \<Rightarrow> (string \<Rightarrow> nat \<Rightarrow> string list option) \<Rightarrow> 'a PeerManager \<Rightarrow> 'a PeerManager" where
  "queryDNSSeeds al look torLook pm =
     pm\<lparr>pm_addrs := fold (\<lambda>host addrs.
          fold (\<lambda>addr. AddAddress al \<lparr>na_IP = addr, na_Port = defaultPort pm\<rparr> (sourceAddr pm))
            (seed_addrs look torLook pm host) addrs) (pm_DNSSeeds pm) (pm_addrs pm)\<rparr>"

definition getMoreAddresses ::
    "'a addr_lib \<Rightarrow> (string \<Rightarrow> string list option) \<Rightarrow> (string \<Rightarrow> nat \<Rightarrow> string list option) \<Rightarrow> 'a PeerManager \<Rightarrow>
     'a PeerManager \<times> pm_action list" where
  "getMoreAddresses al look torLook pm =
     (if \<not> NeedMoreAddresses al (pm_addrs pm) then (pm, [])
      else if 0 < length (connectedPeers pm) then (pm, map QueueGetAddr (ConnectedPeers pm))
      else (queryDNSSeeds al look torLook pm, []))"

definition onAddr :: "'a addr_lib \<Rightarrow> NetAddress list \<Rightarrow> 'a PeerManager \<Rightarrow> 'a PeerManager" where
  "onAddr al addrs pm = pm\<lparr>pm_addrs := AddAddresses al addrs (sourceAddr pm) (pm_addrs pm)\<rparr>"

text \<open>
  \<open>Start\<close>: the managers of the library start their own goroutines, and a ticker calls \<open>getMoreAddresses\<close> every minute.
\<close>

definition pm_Start ::
    "'a addr_lib \<Rightarrow> (string \<Rightarrow> string list option) \<Rightarrow> (string \<Rightarrow> nat \<Rightarrow> string list option) \<Rightarrow> 'a PeerManager \<Rightarrow> 'a PeerManager" where
  "pm_Start al look torLook pm =
     (if trustedPeer pm = None \<and> NeedMoreAddresses al (pm_addrs pm) then queryDNSSeeds al look torLook pm else pm)"

section \<open>Messages\<close>

definition onHeaders :: "nat \<Rightarrow> BlockHeader list \<Rightarrow> 'a PeerManager \<Rightarrow> pm_action list" where
  "onHeaders p msg pm = tell pm (headersMsg p msg)"

definition onMerkleBlock :: "nat \<Rightarrow> MsgMerkleBlock \<Rightarrow> 'a PeerManager \<Rightarrow> pm_action list" where
  "onMerkleBlock p msg pm = tell pm (merkleBlockMsg p msg)"

definition onInv :: "nat \<Rightarrow> InvVect list \<Rightarrow> 'a PeerManager \<Rightarrow> pm_action list" where
  "onInv p msg pm = tell pm (invMsg p msg)"

definition onTx :: "nat \<Rightarrow> MsgTx \<Rightarrow> 'a PeerManager \<Rightarrow> pm_action list" where
  "onTx p msg pm = tell pm (txMsg p msg)"

text \<open>
  \<open>Stop\<close> starts a goroutine for each peer, and each reads the loop variable when it runs: \<open>seen i\<close> is the position
  of the variable when the goroutine of position \<open>i\<close> reads it.
\<close>

definition pm_Stop :: "(nat \<Rightarrow> nat) \<Rightarrow> 'a PeerManager \<Rightarrow> 'a PeerManager \<times> pm_action list" where
  "pm_Stop seen pm =
     (pm\<lparr>connectedPeers := []\<rparr>,
      map (\<lambda>i. PeerDisconnect (ConnectedPeers pm ! seen i)) [0..<length (connectedPeers pm)])"

end
