(* ===== verification/Peer_Net.thy ===== *)
theory Peer_Net
  imports Peer_Manager Wire_Inv
begin

text \<open>
  What the peer manager promises: which address it connects to next, which peers it announces, and, together
  with the wire service, which peers the service knows.
\<close>

section \<open>Choosing an address\<close>

text \<open>The state of the address manager after \<open>i\<close> draws, and the address of draw \<open>i\<close>.\<close>

definition draw_state :: "'a addr_lib \<Rightarrow> nat \<Rightarrow> 'a \<Rightarrow> 'a" where
  "draw_state al i s = ((\<lambda>s. snd (GetAddress al s)) ^^ i) s"

definition drawn :: "'a addr_lib \<Rightarrow> nat \<Rightarrow> 'a \<Rightarrow> KnownAddress option" where
  "drawn al i s = fst (GetAddress al (draw_state al i s))"

definition takes :: "'a addr_lib \<Rightarrow> peer_lib \<Rightarrow> go_time \<Rightarrow> 'a PeerManager \<Rightarrow> nat \<Rightarrow> bool" where
  "takes al pl now pm i \<longleftrightarrow> (case drawn al i (pm_addrs pm) of None \<Rightarrow> False | Some k \<Rightarrow> usable pl now pm i k)"

lemma draw_state_Suc: "draw_state al (Suc i) s = snd (GetAddress al (draw_state al i s))"
  by (simp add: draw_state_def)

lemma usable_addrs [simp]: "usable pl now (pm\<lparr>pm_addrs := a\<rparr>) i k = usable pl now pm i k"
  by (simp add: usable_def ConnectedPeers_def)

lemma address_loop_find:
  "address_loop al pl now t n (pm\<lparr>pm_addrs := draw_state al t (pm_addrs pm)\<rparr>) =
     (case find (takes al pl now pm) [t..<t + n] of
        None \<Rightarrow> (Err (ErrMsg ''failed to find appropriate address to return''), pm\<lparr>pm_addrs := draw_state al (t + n) (pm_addrs pm)\<rparr>)
      | Some i \<Rightarrow> (case drawn al i (pm_addrs pm) of
            None \<Rightarrow> (Panic, pm)
          | Some k \<Rightarrow> (Ok \<lparr>na_IP = ka_IP k, na_Port = ka_Port k\<rparr>,
              pm\<lparr>pm_addrs := Attempt al k (draw_state al (Suc i) (pm_addrs pm))\<rparr>)))"
proof (induction n arbitrary: t)
  case (Suc n)
  have step: "[t..<t + Suc n] = t # [Suc t..<Suc t + n]" by (simp add: upt_conv_Cons)
  have d: "GetAddress al (draw_state al t (pm_addrs pm)) = (drawn al t (pm_addrs pm), draw_state al (Suc t) (pm_addrs pm))"
    by (simp add: drawn_def draw_state_Suc)
  show ?case
  proof (cases "takes al pl now pm t")
    case True
    then obtain k where "drawn al t (pm_addrs pm) = Some k" "usable pl now pm t k" by (auto simp: takes_def split: option.splits)
    with True show ?thesis unfolding step by (simp add: d)
  next
    case False
    then have "address_loop al pl now t (Suc n) (pm\<lparr>pm_addrs := draw_state al t (pm_addrs pm)\<rparr>) =
        address_loop al pl now (Suc t) n (pm\<lparr>pm_addrs := draw_state al (Suc t) (pm_addrs pm)\<rparr>)"
      by (simp add: d takes_def split: option.splits)
    moreover have "find (takes al pl now pm) [t..<t + Suc n] = find (takes al pl now pm) [Suc t..<Suc t + n]"
      unfolding step using False by (simp del: upt_Suc)
    ultimately show ?thesis using Suc.IH [of "Suc t"] by (simp only: add_Suc_right add_Suc)
  qed
qed simp

text \<open>Choosing an address to connect to: without a trusted peer \<open>getNewAddress\<close> takes the first of a hundred draws that the
  rules for that draw allow, fails when there is none, and the address it returns is never that
  of a connected peer; a trusted peer is always the answer.\<close>

theorem getNewAddress_first:
  "getNewAddress al pl now pm =
     (case trustedPeer pm of
        Some a \<Rightarrow> (Ok a, pm)
      | None \<Rightarrow>
         (case find (takes al pl now pm) [0..<100] of
            None \<Rightarrow> (Err (ErrMsg ''failed to find appropriate address to return''), pm\<lparr>pm_addrs := draw_state al 100 (pm_addrs pm)\<rparr>)
          | Some i \<Rightarrow> (case drawn al i (pm_addrs pm) of
                None \<Rightarrow> (Panic, pm)
              | Some k \<Rightarrow> (Ok \<lparr>na_IP = ka_IP k, na_Port = ka_Port k\<rparr>,
                  pm\<lparr>pm_addrs := Attempt al k (draw_state al (Suc i) (pm_addrs pm))\<rparr>)))) \<and>
   (\<forall>a. trustedPeer pm = None \<and> fst (getNewAddress al pl now pm) = Ok a \<longrightarrow> na_IP a \<notin> NA_IP pl ` set (ConnectedPeers pm)) \<and>
   fst (getNewAddress al pl now pm) \<noteq> Panic"
proof -
  have pm: "pm\<lparr>pm_addrs := draw_state al 0 (pm_addrs pm)\<rparr> = pm" by (simp add: draw_state_def)
  have eq: "address_loop al pl now 0 100 pm =
      (case find (takes al pl now pm) [0..<100] of
        None \<Rightarrow> (Err (ErrMsg ''failed to find appropriate address to return''), pm\<lparr>pm_addrs := draw_state al 100 (pm_addrs pm)\<rparr>)
      | Some i \<Rightarrow> (case drawn al i (pm_addrs pm) of
            None \<Rightarrow> (Panic, pm)
          | Some k \<Rightarrow> (Ok \<lparr>na_IP = ka_IP k, na_Port = ka_Port k\<rparr>,
              pm\<lparr>pm_addrs := Attempt al k (draw_state al (Suc i) (pm_addrs pm))\<rparr>)))"
    using address_loop_find [of al pl now 0 100 pm] by (simp only: pm add_0)
  have hit: "takes al pl now pm i" if "find (takes al pl now pm) [0..<100] = Some i" for i
    using that by (auto simp: find_Some_iff)
  show ?thesis
    unfolding getNewAddress_def eq
    by (auto split: option.splits dest!: hit simp: takes_def usable_def)
qed

lemma address_loop_addrs: "address_loop al pl now t n pm = (r, pm') \<Longrightarrow> \<exists>a. pm' = pm\<lparr>pm_addrs := a\<rparr>"
proof (induction n arbitrary: t pm)
  case 0
  then show ?case by (intro exI [of _ "pm_addrs pm"]) simp
next
  case (Suc n)
  then show ?case by (fastforce simp: case_prod_unfold Let_def split: option.splits if_splits dest: Suc.IH)
qed

lemma getNewAddress_addrs:
  assumes "getNewAddress al pl now pm = (r, pm')"
  shows "\<exists>a. pm' = pm\<lparr>pm_addrs := a\<rparr>"
proof (cases "trustedPeer pm")
  case None
  with assms have "address_loop al pl now 0 100 pm = (r, pm')" by (simp add: getNewAddress_def)
  then show ?thesis by (rule address_loop_addrs)
next
  case (Some a)
  with assms have "pm' = pm\<lparr>pm_addrs := pm_addrs pm\<rparr>" by (simp add: getNewAddress_def)
  then show ?thesis ..
qed

section \<open>The peers of the wire service\<close>

text \<open>The peers the service has a state for.\<close>

definition known :: "('s, 'h) WireService \<Rightarrow> nat set" where
  "known ws = set (map fst (peerStates ws))"

lemma known_iff: "p \<in> known ws \<longleftrightarrow> peer_of ws p \<noteq> None"
  by (auto simp: known_def map_of_eq_None_iff)

lemma known_upd [simp]:
  "known (set_peer p st ws) = insert p (known ws)" "known (ws\<lparr>ws_ts := ts\<rparr>) = known ws" "known (ws\<lparr>ws_s := s\<rparr>) = known ws"
  "known (ws\<lparr>ws_h := h\<rparr>) = known ws" "known (ws\<lparr>LastBlock := lb\<rparr>) = known ws" "known (ws\<lparr>mempool := mp\<rparr>) = known ws"
  "known (ws\<lparr>syncPeer := sp\<rparr>) = known ws" "known (ws\<lparr>ws_requestedBlocks := bs\<rparr>) = known ws" "known (ws\<lparr>ws_requestedTxns := m\<rparr>) = known ws"
  by (auto simp: known_def set_peer_def dom_update)

lemma choose_peer_known: "choose_peer height ps bp bh ws = (r, ws') \<Longrightarrow> known ws' = known ws"
proof (induction ps arbitrary: bp bh ws)
  case (Cons p ps)
  show ?case
  proof (cases "\<exists>st. peer_of ws p = Some st \<and> syncCandidate st \<and> LastBlock ws p <s height")
    case True
    then obtain st where st: "peer_of ws p = Some st" "syncCandidate st" "LastBlock ws p <s height" by blast
    with Cons.prems have "choose_peer height ps bp bh (set_peer p (st\<lparr>syncCandidate := False\<rparr>) ws) = (r, ws')" by simp
    from Cons.IH [OF this] st(1) known_iff [of p ws] show ?thesis by (simp add: insert_absorb)
  next
    case False
    with Cons.prems have "\<exists>bp bh. choose_peer height ps bp bh ws = (r, ws')" by (auto split: option.splits if_splits)
    with Cons.IH show ?thesis by blast
  qed
qed simp

lemma startSync_known: "startSync env sp ws = Ret (ws', acts) \<Longrightarrow> known ws' = known ws"
  by (erule startSync_cases) (auto simp: choose_peer_known)

lemma handleNewPeerMsg_known:
  assumes "handleNewPeerMsg env now p ws = Ret (ws', acts)"
  shows "known ws' = insert p (known ws)"
proof -
  obtain ws1 a1 where u: "updateFilterAndSend env p (set_peer p (new_state (isSyncCandidate env p)) ws) = Ret (ws1, a1)"
    and r: "ws' = ws1 \<or> (\<exists>a2. startSync env None ws1 = Ret (ws', a2))"
    using assms by (auto simp: handleNewPeerMsg_def run_bind_Ret split: if_splits)
  have "known ws1 = insert p (known ws)" using updateFilterAndSend_keeps [OF u] by auto
  with r startSync_known show ?thesis by blast
qed

lemma handleDonePeerMsg_known:
  assumes "handleDonePeerMsg env now p ws = Ret (ws', acts)"
  shows "known ws' = known ws - {p}"
proof (cases "peer_of ws p")
  case None
  then show ?thesis using assms known_iff [of p ws] by (auto simp: handleDonePeerMsg_def)
next
  case (Some st)
  define ws1 where "ws1 = ws\<lparr>peerStates := AList.delete p (peerStates ws),
    ws_requestedTxns := filter (\<lambda>(h, _). h \<notin> fst ` set (ps_requestedTxns st)) (ws_requestedTxns ws),
    ws_requestedBlocks := ws_requestedBlocks ws - ps_requestedBlocks st\<rparr>"
  have "ws' = ws1 \<or> (\<exists>a. startSync env None (ws1\<lparr>syncPeer := None\<rparr>) = Ret (ws', a))"
    using assms Some by (auto simp: handleDonePeerMsg_def ws1_def Let_def split: if_splits)
  moreover have "known ws1 = known ws - {p}" by (auto simp: ws1_def known_def delete_keys)
  ultimately show ?thesis using startSync_known by fastforce
qed

lemma merkle_next_known: "p \<in> known ws \<Longrightarrow> known (fst (merkle_next env now p st ws)) = known ws"
  by (auto simp: merkle_next_def Let_def split: list.split)

lemma merkle_new_known:
  assumes "p \<in> known ws" "merkle_new env now p hdr reorg nh st ws = Ret (ws', acts)"
  shows "known ws' = known ws"
proof -
  obtain st1 ws1 where m: "(case reorg of
        Some anc \<Rightarrow> if Current env now ws
          then run_bind (merkle_reorg env now p st anc ws) (\<lambda>ws1. Ret (st\<lparr>requestQueue := [], ps_requestedBlocks := {}\<rparr>, ws1))
          else Ret (st, ws)
      | None \<Rightarrow> Ret (st, ws)) = Ret (st1, ws1)" "ws' = fst (merkle_next env now p st1 (ws1\<lparr>mempool := {}\<rparr>))"
    using assms(2) unfolding merkle_new_def Let_def by (auto simp: run_bind_Ret case_prod_unfold)
  have "known ws1 = known ws"
    using m(1) assms(1) by (auto simp: merkle_reorg_def run_bind_Ret split: option.splits if_splits)
  with m(2) assms(1) merkle_next_known [of p "ws1\<lparr>mempool := {}\<rparr>" env now st1] show ?thesis by simp
qed

lemma merkle_committed_known:
  assumes "p \<in> known ws" "merkle_committed env now p hdr ids res st ws = Ret (ws', acts)"
  shows "known ws' = known ws"
proof -
  obtain nb reorg nh e where res: "res = (nb, reorg, nh, e)" by (cases res)
  obtain st2 ws2 where w: "known ws2 = known ws" "ws' = ws2 \<or> (\<exists>a. merkle_new env now p hdr reorg nh st2 ws2 = Ret (ws', a))"
  proof -
    have "\<exists>st2 ws2. known ws2 = insert p (known ws) \<and> (ws' = ws2 \<or> (\<exists>a. merkle_new env now p hdr reorg nh st2 ws2 = Ret (ws', a)))"
      using assms(2) unfolding merkle_committed_def res request_block_txns_def Let_def by (auto split: if_splits) (metis known_upd)+
    with that assms(1) show thesis by (auto simp: insert_absorb)
  qed
  with merkle_new_known assms(1) show ?thesis by metis
qed

lemma merkle_orphan_known:
  assumes "p \<in> known ws" "merkle_orphan env now p st ws = Ret (ws', acts)"
  shows "known ws' = known ws"
proof (cases "Current env now ws")
  case True
  with assms(2) have "startSync env (Some p)
      (set_peer p (st\<lparr>requestQueue := [], ps_requestedBlocks := {}\<rparr>) (ws\<lparr>ws_requestedBlocks := {}\<rparr>)) = Ret (ws', acts)"
    by (simp add: merkle_orphan_def)
  from startSync_known [OF this] assms(1) show ?thesis by (simp add: insert_absorb)
next
  case False
  with assms show ?thesis by (auto simp: merkle_orphan_def Let_def insert_absorb)
qed

lemma handleMerkleBlockMsg_known:
  assumes "handleMerkleBlockMsg env now p mb ws = Ret (ws', acts)"
  shows "known ws' = known ws"
proof (cases "ws' = ws")
  case False
  then obtain st where st: "peer_of ws p = Some st" "merkle_rest env now p mb st ws = Ret (ws', acts)"
    using assms unfolding handleMerkleBlockMsg_eq by (auto split: if_splits option.splits)
  let ?w = "\<lambda>h. (taken_ws env p mb st ws)\<lparr>ws_h := h\<rparr>"
  have p: "p \<in> known ws" using st(1) by (simp add: known_iff)
  then have d: "known (taken_ws env p mb st ws) = known ws" by (simp add: taken_ws_def insert_absorb)
  have "ws' = taken_ws env p mb st ws \<or> (\<exists>h. ws' = ?w h) \<or> (\<exists>h a. merkle_orphan env now p (taken env p mb st) (?w h) = Ret (ws', a)) \<or>
      (\<exists>h a ids res. merkle_committed env now p (mb_Header mb) ids res (taken env p mb st) (?w h) = Ret (ws', a))"
    using st(2) unfolding merkle_rest_def by (auto simp: run_bind_Ret split: option.splits go.splits if_splits) blast+
  moreover have "known ws' = known ws" if "merkle_orphan env now p (taken env p mb st) (?w h) = Ret (ws', a)" for h a
    using merkle_orphan_known [OF _ that] d p by simp
  moreover have "known ws' = known ws" if "merkle_committed env now p (mb_Header mb) ids res (taken env p mb st) (?w h) = Ret (ws', a)" for h a ids res
    using merkle_committed_known [OF _ that] d p by simp
  ultimately show ?thesis using d by (elim disjE exE) simp_all
qed simp

lemma handleInvMsg_known:
  assumes "handleInvMsg env now p invs ws = Ret (ws', acts)"
  shows "known ws' = known ws"
proof -
  have "ws' = ws \<or> (\<exists>ws1 st acts1. peer_of ws p = Some st \<and> (ws1 = ws \<or> (\<exists>lb. ws1 = ws\<lparr>LastBlock := lb\<rparr>)) \<and>
      inv_requests env now p st invs ws1 = (ws', acts1))"
    using assms unfolding handleInvMsg_def Let_def
    by (auto simp: case_prod_unfold prod_eq_iff split: option.splits if_splits go.splits)
  moreover have "known ws' = known ws" if r: "peer_of ws p = Some st" "ws1 = ws \<or> (\<exists>lb. ws1 = ws\<lparr>LastBlock := lb\<rparr>)"
    "inv_requests env now p st invs ws1 = (ws', acts1)" for ws1 st acts1
  proof -
    have "p \<in> known ws" using r(1) by (simp add: known_iff)
    moreover have "known ws1 = known ws" using r(2) by auto
    moreover obtain m st2 where "ws' = set_peer p st2 (ws1\<lparr>ws_requestedTxns := m\<rparr>)"
      using inv_requests_ok [OF r(3)] unfolding inv_loop_ok_def by blast
    ultimately show ?thesis by (simp add: insert_absorb)
  qed
  ultimately show ?thesis by blast
qed

lemma handleTxMsg_known:
  assumes "ws_inv ws" "handleTxMsg env now p tx ws = Ret (ws', acts)"
  shows "known ws' = known ws"
proof (cases "\<exists>st ht. peer_of ws p = Some st \<and> map_of (ps_requestedTxns st) (txHash (e_lib (we_ts env)) tx) = Some ht")
  case True
  then obtain st ht where st: "peer_of ws p = Some st" "map_of (ps_requestedTxns st) (txHash (e_lib (we_ts env)) tx) = Some ht" by blast
  then have "p \<in> known ws" by (simp add: known_iff)
  with assms(2) [unfolded handleTxMsg_eq [OF assms(1) st]] show ?thesis by (auto simp: run_bind_Ret Let_def insert_absorb)
next
  case False
  with assms(2) show ?thesis by (auto simp: handleTxMsg_def Let_def split: option.splits)
qed

lemma handle_known:
  assumes "ws_inv ws" "handle env now m ws = Ret (ws', acts)"
  shows "known ws' = (case m of newPeerMsg p \<Rightarrow> insert p (known ws) | donePeerMsg p \<Rightarrow> known ws - {p} | _ \<Rightarrow> known ws)"
proof (cases m)
  case (headersMsg p hdrs)
  with handleHeadersMsg_keeps assms(2) show ?thesis by (force simp: handle_def)
next
  case updateFiltersMsg
  with update_filters_keeps assms(2) show ?thesis by (force simp: handle_def handleUpdateFiltersMsg_def)
qed (use assms in \<open>auto simp: handle_def dest: handleNewPeerMsg_known handleDonePeerMsg_known handleMerkleBlockMsg_known
      handleInvMsg_known handleTxMsg_known\<close>)

section \<open>What the peer manager relies on\<close>

text \<open>The messages of the manager reach the service one after the other; \<open>step\<close> is what the service does with one.\<close>

fun deliver :: "(ws_msg \<Rightarrow> 'w \<Rightarrow> ('w \<times> 'b) run) \<Rightarrow> pm_action list \<Rightarrow> 'w \<Rightarrow> 'w run" where
  "deliver step [] w = Ret w"
| "deliver step (Tell m # acts) w = run_bind (step m w) (\<lambda>(w1, _). deliver step acts w1)"
| "deliver step (_ # acts) w = deliver step acts w"

lemma deliver_tell:
  "deliver step (tell pm m) w = Ret w' \<longleftrightarrow> (if msgChan pm then \<exists>acts. step m w = Ret (w', acts) else w' = w)"
  by (auto simp: tell_def run_bind_Ret)

text \<open>The peers \<open>K\<close> a service knows, seen from the manager.\<close>

definition announced :: "peer_lib \<Rightarrow> 'a PeerManager \<Rightarrow> nat set \<Rightarrow> bool" where
  "announced pl pm K \<longleftrightarrow> K \<subseteq> set (ConnectedPeers pm) \<and> (\<forall>p \<in> K. has_services (Services pl p)) \<and>
     distinct (map fst (connectedPeers pm)) \<and> distinct (ConnectedPeers pm) \<and> (\<not> msgChan pm \<longrightarrow> K = {})"

lemma announced_addrs: "announced pl (pm\<lparr>pm_addrs := a\<rparr>) K \<longleftrightarrow> announced pl pm K"
  by (simp add: announced_def ConnectedPeers_def)

lemma NewPeerManager_simps:
  "NewPeerManager addrs mgr config = Ok pm \<Longrightarrow> connectedPeers pm = []"
  by (auto simp: NewPeerManager_def Let_def split: option.splits if_splits)

lemma update_fresh: "k \<notin> fst ` set m \<Longrightarrow> AList.update k v m = m @ [(k, v)]"
  by (induction m) auto

lemma onConnection_announced:
  assumes "announced pl pm K" "cid \<notin> fst ` set (connectedPeers pm)" "p \<notin> set (ConnectedPeers pm)"
    "onConnection al cid (Some p) pm = (pm', acts)"
  shows "announced pl pm' K"
  using assms by (auto simp: announced_def onConnection_def ConnectedPeers_def update_fresh)

lemma onDisconnection_peers:
  assumes "distinct (map fst (connectedPeers pm))" "distinct (ConnectedPeers pm)" "map_of (connectedPeers pm) cid = Some p"
  shows "set (map snd (AList.delete cid (connectedPeers pm))) = set (ConnectedPeers pm) - {p}"
    "distinct (map fst (AList.delete cid (connectedPeers pm)))" "distinct (map snd (AList.delete cid (connectedPeers pm)))"
proof -
  have m: "(cid, p) \<in> set (connectedPeers pm)" using assms(3) by (rule map_of_SomeD)
  have f: "inj_on fst (set (connectedPeers pm))" and g: "inj_on snd (set (connectedPeers pm))"
    using assms(1,2) by (simp_all add: ConnectedPeers_def distinct_map)
  have e: "x = (cid, p)" if "x \<in> set (connectedPeers pm)" "fst x = cid \<or> snd x = p" for x
    using that(2)
  proof
    assume "fst x = cid"
    then show ?thesis using inj_onD [OF f _ that(1) m] by simp
  next
    assume "snd x = p"
    then show ?thesis using inj_onD [OF g _ that(1) m] by simp
  qed
  show "set (map snd (AList.delete cid (connectedPeers pm))) = set (ConnectedPeers pm) - {p}"
  proof -
    have "set (AList.delete cid (connectedPeers pm)) = set (connectedPeers pm) - {(cid, p)}"
      using e by (auto simp: AList.delete_eq)
    then show ?thesis using inj_on_image_set_diff [OF g, of "set (connectedPeers pm)" "{(cid, p)}"] m by (simp add: ConnectedPeers_def)
  qed
  show "distinct (map fst (AList.delete cid (connectedPeers pm)))" using assms(1) by (rule distinct_delete)
  show "distinct (map snd (AList.delete cid (connectedPeers pm)))"
    using assms(2) by (simp add: AList.delete_eq ConnectedPeers_def distinct_map_filter)
qed

text \<open>
  A service that files a peer when it is announced, drops it when it is lost and keeps its peers otherwise: whatever
  the manager does, the service knows only peers that are connected and offer the services.
\<close>

locale peer_service =
  fixes step :: "go_time \<Rightarrow> ws_msg \<Rightarrow> 'w \<Rightarrow> ('w \<times> 'b) run"
    and ok :: "'w \<Rightarrow> bool"
    and peers_of :: "'w \<Rightarrow> nat set"
  assumes step_ok: "ok w \<Longrightarrow> (\<And>p. m = newPeerMsg p \<Longrightarrow> p \<notin> peers_of w) \<Longrightarrow> step now m w = Ret (w', b) \<Longrightarrow> ok w'"
    and step_peers: "ok w \<Longrightarrow> step now m w = Ret (w', b) \<Longrightarrow>
      peers_of w' = (case m of newPeerMsg p \<Rightarrow> insert p (peers_of w) | donePeerMsg p \<Rightarrow> peers_of w - {p} | _ \<Rightarrow> peers_of w)"
begin

lemma verack_announced:
  assumes "ok w" "announced pl pm (peers_of w)" "p \<in> set (ConnectedPeers pm)" "p \<notin> peers_of w"
    "onVerack al pl p pm = (pm', acts)" "deliver (step now) acts w = Ret w'"
  shows "ok w' \<and> announced pl pm' (peers_of w')"
proof (cases "has_services (Services pl p) \<and> msgChan pm")
  case True
  then obtain b where h: "step now (newPeerMsg p) w = Ret (w', b)" and pm': "pm' = pm\<lparr>pm_addrs := Good al p (pm_addrs pm)\<rparr>"
    using assms(5,6) by (auto simp: onVerack_def deliver_tell)
  have "ok w'" using step_ok [OF assms(1) _ h] assms(4) by simp
  with step_peers [OF assms(1) h] assms(2,3) True show ?thesis by (auto simp: pm' announced_addrs) (auto simp: announced_def)
next
  case False
  then have "w' = w" "pm' = pm \<or> pm' = pm\<lparr>pm_addrs := Good al p (pm_addrs pm)\<rparr>"
    using assms(5,6) by (auto simp: onVerack_def deliver_tell split: if_splits)
  with assms(1,2) show ?thesis by (auto simp: announced_addrs)
qed

lemma lost_announced:
  assumes "ok w" "announced pl pm (peers_of w)" "onDisconnection cid pm = (pm', acts)" "deliver (step now) acts w = Ret w'"
  shows "ok w' \<and> announced pl pm' (peers_of w')"
proof (cases "map_of (connectedPeers pm) cid")
  case None
  with assms show ?thesis by (auto simp: onDisconnection_def)
next
  case (Some p)
  then have pm': "pm' = pm\<lparr>connectedPeers := AList.delete cid (connectedPeers pm)\<rparr>" and d: "deliver (step now) (tell pm (donePeerMsg p)) w = Ret w'"
    using assms(3,4) by (auto simp: onDisconnection_def)
  note c = onDisconnection_peers [OF _ _ Some]
  show ?thesis
  proof (cases "msgChan pm")
    case True
    then obtain b where h: "step now (donePeerMsg p) w = Ret (w', b)" using d by (auto simp: deliver_tell)
    have "ok w'" using step_ok [OF assms(1) _ h] by simp
    with step_peers [OF assms(1) h] assms(2) c show ?thesis by (auto simp: announced_def pm' ConnectedPeers_def True)
  next
    case False
    then have "w' = w" using d by (simp add: deliver_tell)
    with False assms(1,2) c show ?thesis by (auto simp: announced_def pm' ConnectedPeers_def)
  qed
qed

lemma message_announced:
  assumes "ok w" "announced pl pm (peers_of w)" "\<And>q. m \<noteq> newPeerMsg q" "\<And>q. m \<noteq> donePeerMsg q" "deliver (step now) (tell pm m) w = Ret w'"
  shows "ok w' \<and> announced pl pm (peers_of w')"
proof (cases "msgChan pm")
  case True
  then obtain b where h: "step now m w = Ret (w', b)" using assms(5) by (auto simp: deliver_tell)
  have "ok w'" using step_ok [OF assms(1) _ h] assms(3) by simp
  moreover have "peers_of w' = peers_of w" using step_peers [OF assms(1) h] assms(3,4) by (cases m) auto
  ultimately show ?thesis using assms(2) by simp
next
  case False
  with assms(1,2,5) show ?thesis by (simp add: deliver_tell)
qed

end

interpretation wire: peer_service "handle env" ws_inv known for env
proof
  fix w w' now m b
  assume "ws_inv w" "\<And>p. m = newPeerMsg p \<Longrightarrow> p \<notin> known w" "handle env now m w = Ret (w', b)"
  then show "ws_inv w'" using handle_inv by (metis known_iff)
qed (rule handle_known)

section \<open>The peer manager and the wire service\<close>

text \<open>
  The states the two reach together.  A connection comes with an identifier and a peer that are not in use;
  a peer completes its handshake once, while it is connected.
\<close>

inductive net_reach :: "'a addr_lib \<Rightarrow> peer_lib \<Rightarrow> ('s, 'k, 'h) ws_env \<Rightarrow> 'a PeerManager \<Rightarrow> ('s, 'h) WireService \<Rightarrow> bool"
  for al pl env where
  opened: "NewPeerManager addrs mgr config = Ok pm \<Longrightarrow> net_reach al pl env pm (NewWireService ts s h heights)"
| connected: "net_reach al pl env pm ws \<Longrightarrow> cid \<notin> fst ` set (connectedPeers pm) \<Longrightarrow> p \<notin> set (ConnectedPeers pm) \<Longrightarrow> p \<notin> known ws \<Longrightarrow>
    onConnection al cid (Some p) pm = (pm', acts) \<Longrightarrow> net_reach al pl env pm' ws"
| verack: "net_reach al pl env pm ws \<Longrightarrow> p \<in> set (ConnectedPeers pm) \<Longrightarrow> p \<notin> known ws \<Longrightarrow> onVerack al pl p pm = (pm', acts) \<Longrightarrow>
    deliver (handle env now) acts ws = Ret ws' \<Longrightarrow> net_reach al pl env pm' ws'"
| lost: "net_reach al pl env pm ws \<Longrightarrow> onDisconnection cid pm = (pm', acts) \<Longrightarrow> deliver (handle env now) acts ws = Ret ws' \<Longrightarrow>
    net_reach al pl env pm' ws'"
| address: "net_reach al pl env pm ws \<Longrightarrow> getNewAddress al pl now pm = (r, pm') \<Longrightarrow> net_reach al pl env pm' ws"
| more: "net_reach al pl env pm ws \<Longrightarrow> getMoreAddresses al look torLook pm = (pm', acts) \<Longrightarrow> net_reach al pl env pm' ws"
| addr: "net_reach al pl env pm ws \<Longrightarrow> net_reach al pl env (onAddr al addrs pm) ws"
| message: "net_reach al pl env pm ws \<Longrightarrow>
    acts \<in> {onHeaders p hdrs pm, onMerkleBlock p mb pm, onInv p invs pm, onTx p tx pm, tell pm updateFiltersMsg} \<Longrightarrow>
    deliver (handle env now) acts ws = Ret ws' \<Longrightarrow> net_reach al pl env pm ws'"

lemma net_reach_inv: "net_reach al pl env pm ws \<Longrightarrow> ws_inv ws \<and> announced pl pm (known ws)"
proof (induction rule: net_reach.induct)
  case (opened addrs mgr config pm ts s h heights)
  then show ?case by (auto simp: announced_def NewPeerManager_simps ConnectedPeers_def ws_inv_def NewWireService_def known_def)
next
  case (connected pm ws cid p pm' acts)
  then show ?case using onConnection_announced by blast
next
  case (verack pm ws p pm' acts now ws')
  then show ?case using wire.verack_announced by blast
next
  case (lost pm ws cid pm' acts now ws')
  then show ?case using wire.lost_announced by blast
next
  case (address pm ws now r pm')
  then show ?case using getNewAddress_addrs [OF address.hyps(2)] by (auto simp: announced_addrs)
next
  case (more pm ws look torLook pm' acts)
  then show ?case by (auto simp: announced_addrs getMoreAddresses_def queryDNSSeeds_def split: if_splits)
next
  case (addr pm ws addrs)
  then show ?case by (simp add: announced_addrs onAddr_def)
next
  case (message pm ws acts p hdrs mb invs tx now ws')
  then obtain m where m: "acts = tell pm m" "\<And>q. m \<noteq> newPeerMsg q" "\<And>q. m \<noteq> donePeerMsg q"
    by (auto simp: onHeaders_def onMerkleBlock_def onInv_def onTx_def)
  show ?case
    by (rule wire.message_announced [OF _ _ m(2,3)]) (use message.IH message.hyps(3) m(1) in simp_all)
qed


text \<open>
  Stopping the manager empties its table of peers before the connections close, so the service hears of none of
  them; and when every goroutine runs after the loop, only the peer of the last iteration is disconnected.
\<close>

theorem pm_Stop_last_only:
  assumes "\<And>i. seen i = length (connectedPeers pm) - 1"
  shows "\<exists>pm'. pm_Stop seen pm = (pm', replicate (length (connectedPeers pm)) (PeerDisconnect (last (ConnectedPeers pm)))) \<and>
    ConnectedPeers pm' = [] \<and> (\<forall>cid. onDisconnection cid pm' = (pm', []))"
proof -
  have "ConnectedPeers pm ! (length (connectedPeers pm) - 1) = last (ConnectedPeers pm)" if "connectedPeers pm \<noteq> []"
    using that last_conv_nth [of "ConnectedPeers pm"] by (simp add: ConnectedPeers_def)
  then have "map (\<lambda>i. PeerDisconnect (ConnectedPeers pm ! seen i)) [0..<length (connectedPeers pm)] =
      replicate (length (connectedPeers pm)) (PeerDisconnect (last (ConnectedPeers pm)))"
    by (cases "connectedPeers pm") (auto simp: assms map_replicate_const simp del: upt_Suc)
  then show ?thesis by (simp add: pm_Stop_def onDisconnection_def ConnectedPeers_def)
qed

section \<open>Examples\<close>

text \<open>An address manager that is a list, and peers that offer the three services.\<close>

definition ex_al :: "KnownAddress list addr_lib" where
  "ex_al = \<lparr>GetAddress = (\<lambda>s. case s of [] \<Rightarrow> (None, []) | k # ks \<Rightarrow> (Some k, ks @ [k])), Attempt = (\<lambda>_ s. s), Connected = (\<lambda>_ s. s),
     Good = (\<lambda>_ s. s), AddAddress = (\<lambda>a _ s. \<lparr>ka_IP = na_IP a, ka_Port = na_Port a, ka_LastAttempt = 0\<rparr> # s),
     AddAddresses = (\<lambda>as _ s. map (\<lambda>a. \<lparr>ka_IP = na_IP a, ka_Port = na_Port a, ka_LastAttempt = 0\<rparr>) as @ s),
     NeedMoreAddresses = (\<lambda>s. length s < 1000)\<rparr>"

definition ex_pl :: peer_lib where
  "ex_pl = \<lparr>NA_IP = (\<lambda>p. if p = 1 then ''10.0.0.1'' else ''10.0.0.2''), Services = (\<lambda>_. 37)\<rparr>"

definition ex_pm :: "KnownAddress list PeerManager" where
  "ex_pm = \<lparr>pm_addrs = [\<lparr>ka_IP = ''10.0.0.1'', ka_Port = 8333, ka_LastAttempt = 0\<rparr>, \<lparr>ka_IP = ''10.0.0.2'', ka_Port = 8333, ka_LastAttempt = 0\<rparr>],
     sourceAddr = \<lparr>na_IP = ''0.0.0.0'', na_Port = 8333\<rparr>, trustedPeer = None, targetOutbound = 12, retryDuration = 5 * nano,
     pm_proxy = False, connectedPeers = [(7, 1)], msgChan = True, defaultPort = 8333, pm_DefaultPort = Itoa 8333, pm_DNSSeeds = []\<rparr>"

text \<open>The first address drawn belongs to the connected peer, so the second is taken.\<close>

theorem getNewAddress_first_witness:
  "\<exists>a. fst (getNewAddress ex_al ex_pl (700 * nano) ex_pm) = Ok a \<and> na_IP a = ''10.0.0.2'' \<and> na_IP a \<notin> NA_IP ex_pl ` set (ConnectedPeers ex_pm)"
proof -
  have "fst (address_loop ex_al ex_pl (700 * nano) 0 (Suc (Suc 98)) ex_pm) = Ok \<lparr>na_IP = ''10.0.0.2'', na_Port = 8333\<rparr>"
    by (simp only: address_loop.simps) (simp add: ex_pm_def ex_al_def usable_def ConnectedPeers_def ex_pl_def nano_def)
  then have r: "fst (getNewAddress ex_al ex_pl (700 * nano) ex_pm) = Ok \<lparr>na_IP = ''10.0.0.2'', na_Port = 8333\<rparr>"
    by (simp add: getNewAddress_def ex_pm_def)
  have "trustedPeer ex_pm = None" by (simp add: ex_pm_def)
  with getNewAddress_first [of ex_al ex_pl "700 * nano" ex_pm] r
  have "na_IP \<lparr>na_IP = ''10.0.0.2'', na_Port = 8333\<rparr> \<notin> NA_IP ex_pl ` set (ConnectedPeers ex_pm)" by blast
  then show ?thesis by (intro exI [of _ "\<lparr>na_IP = ''10.0.0.2'', na_Port = 8333\<rparr>"]) (simp add: r)
qed


end
