(* ===== verification/Tor_Lookup.thy ===== *)
theory Tor_Lookup
  imports Wallet_Prelude
begin

text \<open>
  Name resolution over the Tor proxy, \<^verbatim>\<open>src/tor.go\<close>.  The network is the record \<open>tor_net\<close>: which of the two
  ports accepts a connection, whether a write succeeds, and what a read returns, as a function of what
  was written and read before; a read fills the front of the buffer and may be short.  The rest of the buffer
  keeps its zeros.  What the function writes is returned beside its result.
\<close>

section \<open>The model\<close>

record tor_net =
  dial9150 :: bool
  dial9050 :: bool
  write_ok :: "bytes list \<Rightarrow> bool"
  read_conn :: "bytes list \<Rightarrow> nat \<Rightarrow> nat \<Rightarrow> bytes option"

abbreviation (input) ErrTorInvalidAddressResponse :: error where
  "ErrTorInvalidAddressResponse \<equiv> ErrMsg ''invalid address response''"
abbreviation (input) ErrTorInvalidProxyResponse :: error where
  "ErrTorInvalidProxyResponse \<equiv> ErrMsg ''invalid proxy response''"
abbreviation (input) ErrTorUnrecognizedAuthMethod :: error where
  "ErrTorUnrecognizedAuthMethod \<equiv> ErrMsg ''invalid proxy authentication method''"

definition torStatusErrors :: "string list" where
  "torStatusErrors =
     [''tor succeeded'', ''tor general error'', ''tor not allowed'', ''tor network is unreachable'', ''tor host is unreachable'',
      ''tor connection refused'', ''tor TTL expired'', ''tor command not supported'', ''tor address type not supported'']"

definition status_error :: "byte \<Rightarrow> error" where
  "status_error b =
     (if length torStatusErrors < unat b then ErrTorInvalidProxyResponse
      else if unat b < length torStatusErrors then ErrMsg (torStatusErrors ! unat b)
      else ErrTorInvalidProxyResponse)"

text \<open>A read into a fresh buffer of \<open>n\<close> bytes: the number of bytes read and the buffer.\<close>

definition read_buf :: "tor_net \<Rightarrow> bytes list \<Rightarrow> nat \<Rightarrow> nat \<Rightarrow> (nat \<times> bytes) option" where
  "read_buf net written k n =
     map_option (\<lambda>bs. (min n (length bs), take n bs @ replicate (n - length bs) 0)) (read_conn net written k n)"

definition greeting :: bytes where
  "greeting = [5, 1, 0]"

text \<open>The buffer has seven bytes beside the name; its length goes into one byte.\<close>

definition resolve_request :: "string \<Rightarrow> bytes" where
  "resolve_request host =
     (let buf = replicate (7 + length host) 0;
          buf1 = buf[0 := 5, 1 := 0xF0, 2 := 0, 3 := 3, 4 := of_nat (length host)];
          buf2 = take 5 buf1 @ map of_char host @ drop (5 + length host) buf1
      in buf2[5 + length host := 0])"

fun Uint32_be :: "bytes \<Rightarrow> u32" where
  "Uint32_be (b0 # b1 # b2 # b3 # _) =
     ucast b3 OR push_bit 8 (ucast b2) OR push_bit 16 (ucast b1) OR push_bit 24 (ucast b0)"
| "Uint32_be _ = 0"

definition IPv4_of :: "u32 \<Rightarrow> bytes" where
  "IPv4_of r = [ucast (drop_bit 24 r), ucast (drop_bit 16 r), ucast (drop_bit 8 r), ucast r]"

definition tor_address :: "tor_net \<Rightarrow> bytes list \<Rightarrow> bytes list go" where
  "tor_address net written =
     (case read_buf net written 2 4 of
        None \<Rightarrow> Err LibError
      | Some (n, buf) \<Rightarrow>
          if n \<noteq> 4 then Err ErrTorInvalidAddressResponse else Ok [IPv4_of (Uint32_be buf)])"

definition tor_reply :: "tor_net \<Rightarrow> bytes list \<Rightarrow> bytes list go" where
  "tor_reply net written =
     (case read_buf net written 1 4 of
        None \<Rightarrow> Err LibError
      | Some (_, buf) \<Rightarrow>
          if buf ! 0 \<noteq> 5 then Err ErrTorInvalidProxyResponse
          else if buf ! 1 \<noteq> 0 then Err (status_error (buf ! 1))
          else if buf ! 3 \<noteq> 1 then Err (ErrMsg (torStatusErrors ! 1))
          else tor_address net written)"

definition TorLookupIP :: "tor_net \<Rightarrow> string \<Rightarrow> bytes list go \<times> bytes list" where
  "TorLookupIP net host =
     (if \<not> dial9150 net \<and> \<not> dial9050 net then (Err LibError, [])
      else if \<not> write_ok net [greeting] then (Err LibError, [greeting])
      else case read_buf net [greeting] 0 2 of
             None \<Rightarrow> (Err LibError, [greeting])
           | Some (_, buf) \<Rightarrow>
               if buf ! 0 \<noteq> 5 then (Err ErrTorInvalidProxyResponse, [greeting])
               else if buf ! 1 \<noteq> 0 then (Err ErrTorUnrecognizedAuthMethod, [greeting])
               else let written = [greeting, resolve_request host] in
                    (if \<not> write_ok net written then Err LibError else tor_reply net written, written))"

section \<open>What is sent and what comes back\<close>

lemma resolve_request_eq: "resolve_request host = [5, 0xF0, 0, 3, of_nat (length host)] @ map of_char host @ [0, 0]"
proof -
  have r: "replicate (7 + length host) (0 :: byte) = [0, 0, 0, 0, 0] @ replicate (length host) 0 @ [0, 0]"
    using replicate_add [of 5 "length host + 2" "0 :: byte"] replicate_add [of "length host" 2 "0 :: byte"]
    by (simp add: numeral_eq_Suc)
  show ?thesis unfolding resolve_request_def Let_def r
    by (simp add: numeral_eq_Suc nth_append list_update_append)
qed

text \<open>Bytes in network order and the number they stand for.\<close>

lemma IPv4_of_Uint32_be:
  assumes "length bs = 4"
  shows "IPv4_of (Uint32_be bs) = bs"
proof -
  obtain b0 b1 b2 b3 where bs: "bs = [b0, b1, b2, b3]"
    using assms by (auto simp: numeral_eq_Suc length_Suc_conv)
  have high: "\<not> bit b (k + n)" if "8 \<le> k" for b :: byte and k n
    using that bit_imp_le_length [of b "k + n"] by auto
  show ?thesis unfolding bs IPv4_of_def
    by (auto intro!: bit_word_eqI simp: bit_simps high)
qed

definition filled :: "nat \<Rightarrow> bytes \<Rightarrow> bytes" where
  "filled n bs = take n bs @ replicate (n - length bs) 0"

lemma length_filled [simp]: "length (filled n bs) = n"
  by (simp add: filled_def)

lemma read_buf_Some: "read_buf net w k n = Some r \<longleftrightarrow> (\<exists>bs. read_conn net w k n = Some bs \<and> r = (min n (length bs), filled n bs))"
  by (auto simp: read_buf_def filled_def)

lemma read_buf_None: "read_buf net w k n = None \<longleftrightarrow> read_conn net w k n = None"
  by (simp add: read_buf_def)

lemmas read_buf_simps = read_buf_Some read_buf_None

lemma filled_two: "filled 2 bs = [b0, b1] \<longleftrightarrow> filled 2 bs ! 0 = b0 \<and> filled 2 bs ! 1 = b1"
  by (auto simp: list_eq_iff_nth_eq less_Suc_eq numeral_eq_Suc)

lemma filled_four:
  "(\<exists>x. filled 4 bs = [b0, b1, x, b3]) \<longleftrightarrow> filled 4 bs ! 0 = b0 \<and> filled 4 bs ! 1 = b1 \<and> filled 4 bs ! 3 = b3"
proof
  assume r: "filled 4 bs ! 0 = b0 \<and> filled 4 bs ! 1 = b1 \<and> filled 4 bs ! 3 = b3"
  then have "filled 4 bs = [b0, b1, filled 4 bs ! 2, b3]"
    by (auto simp: list_eq_iff_nth_eq less_Suc_eq numeral_eq_Suc)
  then show "\<exists>x. filled 4 bs = [b0, b1, x, b3]" ..
qed auto

lemma tor_address_Ok:
  "tor_address net w = Ok ips \<longleftrightarrow> (\<exists>a. read_conn net w 2 4 = Some a \<and> 4 \<le> length a \<and> ips = [take 4 a])"
  by (auto simp: tor_address_def read_buf_simps filled_def IPv4_of_Uint32_be split: option.splits prod.splits if_splits)

lemma tor_reply_Ok:
  "tor_reply net w = Ok ips \<longleftrightarrow>
     (\<exists>r a x. read_conn net w 1 4 = Some r \<and> filled 4 r = [5, 0, x, 1] \<and> read_conn net w 2 4 = Some a \<and> 4 \<le> length a \<and> ips = [take 4 a])"
  using filled_four [of _ 5 0 1]
  by (auto simp: tor_reply_def read_buf_simps tor_address_Ok split: option.splits prod.splits if_splits)

text \<open>Property C37. The lookup succeeds exactly when the proxy is reached on one of the two ports, accepts the greeting without
  authentication, reports success with an IPv4 address and sends its four bytes, and then returns these
  bytes in order.  The two answers before the address are read without a check of their length, so the
  zeros of the buffer stand for what is missing.  The request carries the name and the low byte of its
  length.\<close>

theorem TorLookupIP_correct:
  "fst (TorLookupIP net host) = Ok ips \<longleftrightarrow>
     (\<exists>w r0 r1 a x. (dial9150 net \<or> dial9050 net) \<and> write_ok net [greeting] \<and>
        read_conn net [greeting] 0 2 = Some r0 \<and> filled 2 r0 = [5, 0] \<and>
        w = [greeting, [5, 0xF0, 0, 3, word_of_nat (length host mod 256)] @ map of_char host @ [0, 0]] \<and> write_ok net w \<and>
        read_conn net w 1 4 = Some r1 \<and> filled 4 r1 = [5, 0, x, 1] \<and>
        read_conn net w 2 4 = Some a \<and> 4 \<le> length a \<and> ips = [take 4 a])"
proof -
  have m: "word_of_nat (n mod 256) = (word_of_nat n :: byte)" for n
    by (simp add: word_of_nat_eq_iff take_bit_eq_mod)
  show ?thesis unfolding m
    by (auto simp: TorLookupIP_def read_buf_simps filled_two tor_reply_Ok resolve_request_eq Let_def split: option.splits prod.splits if_splits)
qed

text \<open>An error of the proxy is reported under its name, and a status without one as an invalid answer.\<close>

lemma status_error_eq:
  "status_error b = (if unat b < 9 then ErrMsg (torStatusErrors ! unat b) else ErrMsg ''invalid proxy response'')"
  by (simp add: status_error_def torStatusErrors_def)

lemma TorLookupIP_status:
  assumes "dial9150 net" "write_ok net [greeting]" "read_conn net [greeting] 0 2 = Some [5, 0]"
    "write_ok net [greeting, resolve_request host]" "read_conn net [greeting, resolve_request host] 1 4 = Some [5, b, x, y]" "b \<noteq> 0"
  shows "fst (TorLookupIP net host) = Err (if unat b < 9 then ErrMsg (torStatusErrors ! unat b) else ErrMsg ''invalid proxy response'')"
  using assms by (simp add: TorLookupIP_def read_buf_def tor_reply_def Let_def status_error_eq)

end
