(* ===== verification/Exchange_Rates.thy ===== *)
theory Exchange_Rates
  imports Wallet_Prelude "HOL-Library.Multiset"
begin

text \<open>
  The exchange rates, \<^verbatim>\<open>src/exchangerates/exchangerates.go\<close>.  A \<open>float64\<close> is a value of a type \<open>'f\<close> with the operations of
  \<open>float_lib\<close>.  A decoded JSON value is the datatype \<open>json\<close>; an object has distinct keys, as a Go map has, and
  \<open>perm\<close> is the order in which Go iterates over it.  What a URL answers is a parameter: \<open>None\<close> when the request or
  the decoding of its body fails.  The mutex makes each operation one step.  The providers share the
  map of the fetcher, so the cache is one map.
\<close>

section \<open>The model\<close>

record 'f float_lib =
  fmul :: "'f \<Rightarrow> 'f \<Rightarrow> 'f"
  fdiv :: "'f \<Rightarrow> 'f \<Rightarrow> 'f"
  f_one :: 'f
  is_zero :: "'f \<Rightarrow> bool"
  ParseFloat :: "string \<Rightarrow> 'f option"

datatype 'f json =
    JNull
  | JBool bool
  | JNum 'f
  | JStr string
  | JArr "'f json list"
  | JObj "(string \<times> 'f json) list"

type_synonym 'f rates = "string \<rightharpoonup> 'f"

datatype decoder = OpenBazaarDecoder | KrakenDecoder | PoloniexDecoder

record ExchangeRateProvider =
  fetchUrl :: string
  decoder_of :: decoder

record 'f BitcoinCashPriceFetcher =
  cache :: "'f rates"
  providers :: "ExchangeRateProvider list"

definition NewBitcoinCashPriceFetcher :: "'f BitcoinCashPriceFetcher" where
  "NewBitcoinCashPriceFetcher =
     \<lparr>cache = Map.empty,
      providers =
        [\<lparr>fetchUrl = ''https://ticker.openbazaar.org/api'', decoder_of = OpenBazaarDecoder\<rparr>,
         \<lparr>fetchUrl = ''https://poloniex.com/public?command=returnTicker'', decoder_of = PoloniexDecoder\<rparr>,
         \<lparr>fetchUrl = ''https://api.kraken.com/0/public/Ticker?pair=BCHUSD'', decoder_of = KrakenDecoder\<rparr>]\<rparr>"

text \<open>Type assertions.\<close>

fun as_object :: "'f json \<Rightarrow> (string \<rightharpoonup> 'f json) option" where
  "as_object (JObj m) = Some (map_of m)"
| "as_object _ = None"

fun as_list :: "'f json \<Rightarrow> 'f json list option" where
  "as_list (JArr xs) = Some xs"
| "as_list _ = None"

fun as_string :: "'f json option \<Rightarrow> string option" where
  "as_string (Some (JStr s)) = Some s"
| "as_string _ = None"

fun as_float :: "'f json option \<Rightarrow> 'f option" where
  "as_float (Some (JNum x)) = Some x"
| "as_float _ = None"

fun openbazaar_loop :: "'f float_lib \<Rightarrow> 'f \<Rightarrow> (string \<times> 'f json) list \<Rightarrow> 'f rates \<Rightarrow> error option \<times> 'f rates" where
  "openbazaar_loop fl bchRate [] c = (None, c)"
| "openbazaar_loop fl bchRate ((k, v) # data) c =
     (if k = ''timestamp'' then openbazaar_loop fl bchRate data c
      else case as_object v of
             None \<Rightarrow> (Some (ErrMsg ''OpenBazaarDecoder.decode: Type assertion failed''), c)
           | Some val \<Rightarrow>
               (case as_float (val ''last'') of
                  None \<Rightarrow> (Some (ErrMsg ''OpenBazaarDecoder.decode: Type assertion failed, missing 'last' (float) field''), c)
                | Some price \<Rightarrow> openbazaar_loop fl bchRate data (c(k \<mapsto> fmul fl price (fdiv fl (f_one fl) bchRate)))))"

definition OpenBazaar_decode ::
    "'f float_lib \<Rightarrow> ((string \<times> 'f json) list \<Rightarrow> (string \<times> 'f json) list) \<Rightarrow> 'f json \<Rightarrow> 'f rates \<Rightarrow> error option \<times> 'f rates" where
  "OpenBazaar_decode fl perm dat c =
     (case dat of
        JObj data \<Rightarrow>
          (case map_of data ''BCH'' of
             None \<Rightarrow> (Some (ErrMsg ''OpenBazaarDecoder.decode: Type assertion failed, missing 'BCH' field''), c)
           | Some bch \<Rightarrow>
               (case as_object bch of
                  None \<Rightarrow> (Some (ErrMsg ''OpenBazaarDecoder.decode: Type assertion failed''), c)
                | Some val \<Rightarrow>
                    (case as_float (val ''last'') of
                       None \<Rightarrow> (Some (ErrMsg ''OpenBazaarDecoder.decode: Type assertion failed, missing 'last' (float) field''), c)
                     | Some bchRate \<Rightarrow> openbazaar_loop fl bchRate (perm data) c)))
      | _ \<Rightarrow> (Some (ErrMsg ''OpenBazaarDecoder.decode: Type assertion failed''), c))"

text \<open>The end of the two decoders that read one rate from a string.\<close>

definition store_usd :: "'f float_lib \<Rightarrow> string \<Rightarrow> string \<Rightarrow> 'f rates \<Rightarrow> error option \<times> 'f rates" where
  "store_usd fl msg s c =
     (case ParseFloat fl s of
        None \<Rightarrow> (Some LibError, c)
      | Some rate \<Rightarrow> if is_zero fl rate then (Some (ErrMsg msg), c) else (None, c(''USD'' \<mapsto> rate)))"

definition field :: "'f json option \<Rightarrow> string \<Rightarrow> string \<Rightarrow> 'f json go" where
  "field v k name =
     (case Option.bind v as_object of
        None \<Rightarrow> Err (ErrMsg ''KrackenDecoder type assertion failure'')
      | Some m \<Rightarrow> (case m k of None \<Rightarrow> Err (ErrMsg (''KrakenDecoder: field `'' @ name @ ''` not found'')) | Some x \<Rightarrow> Ok x))"

text \<open>The first element of the list is read without a check.\<close>

definition Kraken_decode :: "'f float_lib \<Rightarrow> 'f json \<Rightarrow> 'f rates \<Rightarrow> (error option \<times> 'f rates) run" where
  "Kraken_decode fl dat c =
     (case go_bind (field (Some dat) ''result'' ''result'') (\<lambda>result.
           go_bind (field (Some result) ''BCHUSD'' ''BCHUSD'') (\<lambda>pair.
           go_bind (field (Some pair) ''c'' ''c'') (\<lambda>cl.
             case as_list cl of
               None \<Rightarrow> Err (ErrMsg ''KrackenDecoder type assertion failure'')
             | Some [] \<Rightarrow> Panic
             | Some (x # _) \<Rightarrow>
                 (case as_string (Some x) of
                    None \<Rightarrow> Err (ErrMsg ''KrackenDecoder type assertion failure'')
                  | Some s \<Rightarrow> Ok s)))) of
        Panic \<Rightarrow> Panics
      | Err e \<Rightarrow> Ret (Some e, c)
      | Ok rateStr \<Rightarrow> Ret (store_usd fl ''Bitcoin-BitcoinCash price data not available'' rateStr c))"

definition Poloniex_decode :: "'f float_lib \<Rightarrow> 'f json \<Rightarrow> 'f rates \<Rightarrow> error option \<times> 'f rates" where
  "Poloniex_decode fl dat c =
     (case Option.bind (Option.bind (as_object dat) (\<lambda>data. data ''USDT_BCH'')) as_object of
        None \<Rightarrow> (Some (ErrMsg ''PoloniexDecoder.decode: Type assertion failed''), c)
      | Some val \<Rightarrow>
          (case as_string (val ''last'') of
             None \<Rightarrow> (Some (ErrMsg ''PoloniexDecoder.decode: Type assertion failed, missing 'last' (string) field''), c)
           | Some s \<Rightarrow> store_usd fl ''BitcoinCash price data not available'' s c))"

record 'f web =
  w_fl :: "'f float_lib"
  w_perm :: "(string \<times> 'f json) list \<Rightarrow> (string \<times> 'f json) list"
  w_Get :: "string \<Rightarrow> 'f json option"

definition fetch :: "'f web \<Rightarrow> ExchangeRateProvider \<Rightarrow> 'f rates \<Rightarrow> (error option \<times> 'f rates) run" where
  "fetch w p c =
     (if fetchUrl p = '''' then Ret (Some (ErrMsg ''Provider has no fetchUrl''), c)
      else case w_Get w (fetchUrl p) of
             None \<Rightarrow> Ret (Some LibError, c)
           | Some dataMap \<Rightarrow>
               (case decoder_of p of
                  OpenBazaarDecoder \<Rightarrow> Ret (OpenBazaar_decode (w_fl w) (w_perm w) dataMap c)
                | KrakenDecoder \<Rightarrow> Kraken_decode (w_fl w) dataMap c
                | PoloniexDecoder \<Rightarrow> Ret (Poloniex_decode (w_fl w) dataMap c)))"

fun fetch_loop :: "'f web \<Rightarrow> ExchangeRateProvider list \<Rightarrow> 'f rates \<Rightarrow> (error option \<times> 'f rates) run" where
  "fetch_loop w [] c = Ret (Some (ErrMsg ''All exchange rate API queries failed''), c)"
| "fetch_loop w (p # ps) c =
     run_bind (fetch w p c) (\<lambda>(err, c1). case err of None \<Rightarrow> Ret (None, c1) | Some _ \<Rightarrow> fetch_loop w ps c1)"

definition fetchCurrentRates ::
    "'f web \<Rightarrow> 'f BitcoinCashPriceFetcher \<Rightarrow> (error option \<times> 'f BitcoinCashPriceFetcher) run" where
  "fetchCurrentRates w b = run_bind (fetch_loop w (providers b) (cache b)) (\<lambda>(err, c). Ret (err, b\<lparr>cache := c\<rparr>))"

definition GetExchangeRate :: "string \<Rightarrow> 'f BitcoinCashPriceFetcher \<Rightarrow> 'f go" where
  "GetExchangeRate currencyCode b =
     (case cache b currencyCode of None \<Rightarrow> Err (ErrMsg ''Currency not tracked'') | Some price \<Rightarrow> Ok price)"

text \<open>The error of the update is dropped.\<close>

definition GetLatestRate :: "'f web \<Rightarrow> string \<Rightarrow> 'f BitcoinCashPriceFetcher \<Rightarrow> ('f go \<times> 'f BitcoinCashPriceFetcher) run" where
  "GetLatestRate w currencyCode b =
     run_bind (fetchCurrentRates w b) (\<lambda>(_, b1). Ret (GetExchangeRate currencyCode b1, b1))"

definition GetAllRates :: "'f web \<Rightarrow> bool \<Rightarrow> 'f BitcoinCashPriceFetcher \<Rightarrow> ('f rates go \<times> 'f BitcoinCashPriceFetcher) run" where
  "GetAllRates w cacheOK b =
     (if cacheOK then Ret (Ok (cache b), b)
      else run_bind (fetchCurrentRates w b) (\<lambda>(err, b1).
             Ret (case err of Some e \<Rightarrow> Err e | None \<Rightarrow> Ok (cache b1), b1)))"

definition UnitsPerCoin :: int where
  "UnitsPerCoin = 100000000"

text \<open>\<open>Run\<close> up to some tick: one update at the start and one at every tick; the element of a tick is the web as it is then.\<close>

fun rates_ticks :: "'f web list \<Rightarrow> 'f BitcoinCashPriceFetcher \<Rightarrow> 'f BitcoinCashPriceFetcher run" where
  "rates_ticks [] b = Ret b"
| "rates_ticks (w # ws) b = run_bind (fetchCurrentRates w b) (\<lambda>(_, b1). rates_ticks ws b1)"

definition rates_Run :: "'f web \<Rightarrow> 'f web list \<Rightarrow> 'f BitcoinCashPriceFetcher \<Rightarrow> 'f BitcoinCashPriceFetcher run" where
  "rates_Run w ticks b = run_bind (fetchCurrentRates w b) (\<lambda>(_, b1). rates_ticks ticks b1)"

section \<open>What a fetch stores\<close>

definition price_of :: "'f json \<Rightarrow> 'f option" where
  "price_of v = Option.bind (as_object v) (\<lambda>m. as_float (m ''last''))"

definition in_bch :: "'f float_lib \<Rightarrow> 'f \<Rightarrow> 'f \<Rightarrow> 'f" where
  "in_bch fl bchRate price = fmul fl price (fdiv fl (f_one fl) bchRate)"

text \<open>The rates of a ticker: every entry but the time stamp.\<close>

definition ticker :: "'f float_lib \<Rightarrow> 'f \<Rightarrow> (string \<times> 'f json) list \<Rightarrow> 'f rates" where
  "ticker fl bchRate data =
     (\<lambda>k. if k = ''timestamp'' then None else Option.bind (map_of data k) (\<lambda>v. map_option (in_bch fl bchRate) (price_of v)))"

lemma openbazaar_loop_step:
  "openbazaar_loop fl r ((k, v) # data) c =
     (if k = ''timestamp'' then openbazaar_loop fl r data c
      else case price_of v of
             Some p \<Rightarrow> openbazaar_loop fl r data (c(k \<mapsto> in_bch fl r p))
           | None \<Rightarrow> (fst (openbazaar_loop fl r [(k, v)] c), c))"
  by (auto simp: price_of_def in_bch_def split: option.splits bind_splits)

lemma openbazaar_loop_ok:
  assumes "\<forall>(k, v) \<in> set data. k \<noteq> ''timestamp'' \<longrightarrow> price_of v \<noteq> None" "distinct (map fst data)"
  shows "openbazaar_loop fl r data c = (None, c ++ ticker fl r data)"
  using assms
proof (induction data arbitrary: c)
  case Nil
  then show ?case by (simp add: ticker_def map_add_def fun_eq_iff)
next
  case (Cons kv data)
  obtain k v where kv: "kv = (k, v)" by (cases kv)
  have k: "map_of data k = None" using Cons.prems(2) by (simp add: kv map_of_eq_None_iff)
  have IH: "openbazaar_loop fl r data c' = (None, c' ++ ticker fl r data)" for c'
    using Cons.prems by (intro Cons.IH) auto
  show ?case
  proof (cases "k = ''timestamp''")
    case True
    then have "ticker fl r (kv # data) = ticker fl r data" by (auto simp: ticker_def kv)
    with True IH show ?thesis by (simp add: kv)
  next
    case False
    then obtain p where p: "price_of v = Some p" using Cons.prems(1) by (auto simp: kv)
    then have "c ++ ticker fl r (kv # data) = c(k \<mapsto> in_bch fl r p) ++ ticker fl r data"
      using False k by (auto simp: ticker_def kv map_add_def split: option.splits)
    moreover have "openbazaar_loop fl r ((k, v) # data) c = openbazaar_loop fl r data (c(k \<mapsto> in_bch fl r p))"
      using openbazaar_loop_step [of fl r k v data c] False p by simp
    ultimately show ?thesis by (simp only: kv IH)
  qed
qed

lemma ticker_mset:
  assumes "distinct (map fst data)" "mset data' = mset data"
  shows "ticker fl r data' = ticker fl r data"
proof -
  have "set data' = set data" using assms(2) by (rule mset_eq_setD)
  moreover have "distinct (map fst data')" using assms by (metis mset_eq_imp_distinct_iff mset_map)
  ultimately have "map_of data' = map_of data" using assms(1) by (simp add: map_of_inject_set)
  then show ?thesis by (simp add: ticker_def fun_eq_iff)
qed

lemma OpenBazaar_decode_ok:
  assumes "distinct (map fst data)" "mset (perm data) = mset data" "map_of data ''BCH'' = Some bch" "price_of bch = Some r"
    "\<forall>(k, v) \<in> set data. k \<noteq> ''timestamp'' \<longrightarrow> price_of v \<noteq> None"
  shows "OpenBazaar_decode fl perm (JObj data) c = (None, c ++ ticker fl r data)"
proof -
  have "openbazaar_loop fl r (perm data) c = (None, c ++ ticker fl r (perm data))"
    using assms(1,2,5) by (intro openbazaar_loop_ok) (metis mset_eq_setD, metis mset_eq_imp_distinct_iff mset_map)
  with assms(3,4) ticker_mset [OF assms(1,2)] show ?thesis
    by (auto simp: OpenBazaar_decode_def price_of_def split: option.splits bind_splits)
qed

text \<open>When the first provider answers with a ticker in which every entry but the time stamp has a price, the
  latest rate of a currency is its price divided by that of Bitcoin Cash, and a currency that the ticker leaves out
  keeps the rate it had.\<close>

theorem GetLatestRate_ticker:
  assumes "w_Get w ''https://ticker.openbazaar.org/api'' = Some (JObj data)" "distinct (map fst data)"
    "mset (w_perm w data) = mset data" "map_of data ''BCH'' = Some bch" "price_of bch = Some r"
    "\<forall>(k, v) \<in> set data. k \<noteq> ''timestamp'' \<longrightarrow> price_of v \<noteq> None"
  shows "GetLatestRate w code (NewBitcoinCashPriceFetcher\<lparr>cache := c\<rparr>) =
    Ret (case (if code = ''timestamp'' then None else map_of data code) of
           Some v \<Rightarrow> (case price_of v of
               Some p \<Rightarrow> Ok (fmul (w_fl w) p (fdiv (w_fl w) (f_one (w_fl w)) r))
             | None \<Rightarrow> Panic)
         | None \<Rightarrow> (case c code of Some p \<Rightarrow> Ok p | None \<Rightarrow> Err (ErrMsg ''Currency not tracked'')),
      NewBitcoinCashPriceFetcher\<lparr>cache := c ++ ticker (w_fl w) r data\<rparr>)"
proof -
  have "code = ''timestamp'' \<or> price_of v \<noteq> None" if "map_of data code = Some v" for v
    using assms(6) map_of_SomeD [OF that] by auto
  then show ?thesis
    by (auto simp: GetLatestRate_def fetchCurrentRates_def NewBitcoinCashPriceFetcher_def fetch_def assms(1)
        OpenBazaar_decode_ok [where perm = "w_perm w", OF assms(2-6)] GetExchangeRate_def map_add_def ticker_def in_bch_def split: option.splits)
qed

text \<open>When no provider answers, the latest rate is the cached one, without an error.\<close>

lemma fetch_loop_offline:
  "\<forall>p \<in> set ps. w_Get w (fetchUrl p) = None \<Longrightarrow> fetch_loop w ps c = Ret (Some (ErrMsg ''All exchange rate API queries failed''), c)"
  by (induction ps) (auto simp: fetch_def)

theorem GetLatestRate_offline:
  assumes "\<forall>p \<in> set (providers b). w_Get w (fetchUrl p) = None"
  shows "GetLatestRate w code b = Ret (GetExchangeRate code b, b) \<and>
    GetAllRates w False b = Ret (Err (ErrMsg ''All exchange rate API queries failed''), b)"
  by (simp add: GetLatestRate_def GetAllRates_def fetchCurrentRates_def fetch_loop_offline [OF assms])

text \<open>The updates of the ticker only add rates and replace them: a currency that has a rate has one at every later tick, whatever
  the providers answer.\<close>

lemma openbazaar_loop_dom: "dom c \<subseteq> dom (snd (openbazaar_loop fl r data c))"
proof (induction data arbitrary: c)
  case (Cons kv data)
  obtain k v where "kv = (k, v)" by (cases kv)
  moreover have "dom c \<subseteq> dom (snd (openbazaar_loop fl r data (c(k \<mapsto> x))))" for k x by (rule subset_trans [OF _ Cons]) auto
  ultimately show ?case using Cons by (simp split: option.splits)
qed simp

lemma fetch_dom: "fetch w p c = Ret (err, c') \<Longrightarrow> dom c \<subseteq> dom c'"
proof -
  have usd: "dom c \<subseteq> dom c'" if "store_usd fl msg s c = (err, c')" for fl msg s
    using that by (auto simp: store_usd_def split: option.splits if_splits)
  have kraken: "dom c \<subseteq> dom c'" if "Kraken_decode fl d c = Ret (err, c')" for fl d
    using that unfolding Kraken_decode_def by (auto split: go.split_asm intro: usd del: subsetI)
  have poloniex: "dom c \<subseteq> dom c'" if "Poloniex_decode fl d c = (err, c')" for fl d
    using that unfolding Poloniex_decode_def by (auto split: option.split_asm intro: usd del: subsetI)
  have ob: "dom c \<subseteq> dom c'" if "OpenBazaar_decode fl perm d c = (err, c')" for fl perm d
    using that openbazaar_loop_dom [of c fl] unfolding OpenBazaar_decode_def
    by (auto split: json.split_asm option.split_asm del: subsetI) (metis snd_conv)
  assume "fetch w p c = Ret (err, c')"
  then show ?thesis
    unfolding fetch_def
    by (auto split: if_split_asm option.split_asm decoder.split_asm intro: kraken poloniex ob del: subsetI)
qed

lemma fetch_loop_dom: "fetch_loop w ps c = Ret (err, c') \<Longrightarrow> dom c \<subseteq> dom c'"
proof (induction ps arbitrary: c)
  case (Cons p ps)
  then obtain e c1 where f: "fetch w p c = Ret (e, c1)" "(case e of None \<Rightarrow> Ret (None, c1) | Some _ \<Rightarrow> fetch_loop w ps c1) = Ret (err, c')"
    by (auto simp: run_bind_Ret)
  with fetch_dom [OF f(1)] Cons.IH [of c1] show ?case by (cases e) auto
qed simp

theorem rates_Run_keeps:
  assumes "rates_Run w ticks b = Ret b'" "GetExchangeRate code b = Ok r"
  shows "\<exists>r'. GetExchangeRate code b' = Ok r'"
proof -
  have one: "dom (cache b0) \<subseteq> dom (cache b1)" if "fetchCurrentRates w0 b0 = Ret (e, b1)" for w0 e and b0 b1 :: "'a BitcoinCashPriceFetcher"
    using that fetch_loop_dom by (fastforce simp: fetchCurrentRates_def run_bind_Ret)
  have ticks: "dom (cache b0) \<subseteq> dom (cache b')" if "rates_ticks ticks b0 = Ret b'" for b0
    using that
  proof (induction ticks arbitrary: b0)
    case (Cons w0 ticks)
    then obtain e b1 where "fetchCurrentRates w0 b0 = Ret (e, b1)" "rates_ticks ticks b1 = Ret b'" by (auto simp: run_bind_Ret)
    with one [of w0 b0 e b1] Cons.IH [of b1] show ?case by blast
  qed simp
  from assms(1) obtain e b1 where "fetchCurrentRates w b = Ret (e, b1)" "rates_ticks ticks b1 = Ret b'"
    by (auto simp: rates_Run_def run_bind_Ret)
  with one [of w b e b1] ticks [of b1] have "dom (cache b) \<subseteq> dom (cache b')" by blast
  then show ?thesis using assms(2) by (auto simp: GetExchangeRate_def split: option.splits)
qed

text \<open>An empty list of prices from Kraken stops the program.\<close>

lemma Kraken_decode_empty:
  "Kraken_decode fl (JObj [(''result'', JObj [(''BCHUSD'', JObj [(''c'', JArr [])])])]) c = Panics"
  by (simp add: Kraken_decode_def field_def)

text \<open>A ticker that fails half-way leaves the rates it read before in the cache.\<close>

lemma OpenBazaar_decode_partial:
  "OpenBazaar_decode fl (\<lambda>d. d) (JObj [(''EUR'', JObj [(''last'', JNum p)]), (''BCH'', JObj [(''last'', JNum r)]), (''XXX'', JNull)]) c =
     (Some (ErrMsg ''OpenBazaarDecoder.decode: Type assertion failed''), c(''EUR'' \<mapsto> in_bch fl r p, ''BCH'' \<mapsto> in_bch fl r r))"
  by (simp add: OpenBazaar_decode_def in_bch_def)

section \<open>Witnesses\<close>

definition ex_web :: "int web" where
  "ex_web = \<lparr>w_fl = \<lparr>fmul = (*), fdiv = (div), f_one = 1, is_zero = (\<lambda>x. x = 0), ParseFloat = (\<lambda>s. Some 5)\<rparr>, w_perm = rev,
     w_Get = (\<lambda>u. if u = ''https://ticker.openbazaar.org/api''
        then Some (JObj [(''timestamp'', JNull), (''USD'', JObj [(''last'', JNum 300)]), (''BCH'', JObj [(''last'', JNum 1)])]) else None)\<rparr>"

theorem GetLatestRate_ticker_witness:
  "\<exists>b. GetLatestRate ex_web ''USD'' (NewBitcoinCashPriceFetcher\<lparr>cache := Map.empty\<rparr>) = Ret (Ok 300, b)"
proof -
  let ?data = "[(''timestamp'', JNull), (''USD'', JObj [(''last'', JNum 300)]), (''BCH'', JObj [(''last'', JNum 1)])] :: (string \<times> int json) list"
  show ?thesis
    by (subst GetLatestRate_ticker [of ex_web ?data "JObj [(''last'', JNum 1)]" 1 "''USD''" Map.empty]) (simp_all add: ex_web_def price_of_def)
qed

theorem GetLatestRate_offline_witness:
  "GetLatestRate (ex_web\<lparr>w_Get := \<lambda>_. None\<rparr>) ''USD'' (NewBitcoinCashPriceFetcher\<lparr>cache := [''USD'' \<mapsto> 290]\<rparr>) =
     Ret (Ok 290, NewBitcoinCashPriceFetcher\<lparr>cache := [''USD'' \<mapsto> 290]\<rparr>)"
  using GetLatestRate_offline [of "NewBitcoinCashPriceFetcher\<lparr>cache := [''USD'' \<mapsto> 290]\<rparr>" "ex_web\<lparr>w_Get := \<lambda>_. None\<rparr>" "''USD''"]
  by (simp add: GetExchangeRate_def)

end
