(* ===== verification/Rpc_Server.thy ===== *)
theory Rpc_Server
  imports Spv_Wallet
begin

text \<open>
  The remote interface of the wallet, \<^verbatim>\<open>src/api/rpc.go\<close>: each call checks and converts its message, calls an
  operation of the wallet and converts the result.  The state is that of the wire service; \<open>spv_of\<close> is the view of it
  that the spending operations use.  The key and time formats of the libraries are fields of the record
  \<open>server\<close>, beside the wallet.  An enumeration of the protocol is an integer, which may be out of
  range.  The calls that stop the wallet or only copy fields of it are in \<open>Rpc_Session\<close>, the stream of headers in \<open>Header_Print\<close>.
\<close>

section \<open>The server\<close>

record ('s, 'k, 'h, 'p) server =
  sv_env :: "('s, 'k, 'h) ws_env"
  sv_lib :: "('k, 'p) build_lib"
  sv_size :: size_lib
  sv_fee :: FeeProvider
  sv_perm :: "Coin list \<Rightarrow> Coin list"
  sv_creationDate :: go_time
  DecodeWIF :: "string \<Rightarrow> ('p \<times> bool) option"
  NewWIF :: "'p \<Rightarrow> string option"
  priv_Serialize :: "'p \<Rightarrow> bytes"
  PrivKeyFromBytes :: "bytes \<Rightarrow> 'p"
  pub_Hash160 :: "'p \<Rightarrow> bool \<Rightarrow> bytes"
  NewKeyFromString :: "string \<Rightarrow> 'k option"
  TimestampProto :: "go_time \<Rightarrow> (int \<times> int) option"

definition sv_te :: "('s, 'k, 'h, 'p) server \<Rightarrow> ('s, 'k) ts_env" where
  "sv_te sv = we_ts (sv_env sv)"

definition spv_of :: "('s, 'k, 'h, 'p) server \<Rightarrow> nat list \<Rightarrow> ('s, 'h) WireService \<Rightarrow> ('s, 'k, 'p) spv" where
  "spv_of sv peers ws =
     \<lparr>w_env = sv_te sv, w_lib = sv_lib sv, w_size = sv_size sv, feeProvider = sv_fee sv,
      w_Height = H_Height (we_hs (sv_env sv)) (ws_h ws), w_ts = ws_ts ws, w_s = ws_s ws, w_peers = peers\<rparr>"

text \<open>A call that may change the store and send messages.\<close>

type_synonym ('a, 's, 'h) reply = "('a go \<times> ('s, 'h) WireService \<times> event list \<times> sent list) run"

definition serve ::
    "('s, 'k, 'h, 'p) server \<Rightarrow> nat list \<Rightarrow> (('s, 'k, 'p) spv \<Rightarrow> ('a go \<times> ('s, 'k, 'p) spv \<times> event list \<times> sent list) run) \<Rightarrow>
     ('s, 'h) WireService \<Rightarrow> ('a, 's, 'h) reply" where
  "serve sv peers op ws =
     run_bind (op (spv_of sv peers ws)) (\<lambda>(r, w, evs, msgs). Ret (r, ws\<lparr>ws_ts := w_ts w, ws_s := w_s w\<rparr>, evs, msgs))"

text \<open>A check that fails leaves the wallet alone.\<close>

definition checked :: "'c go \<Rightarrow> ('c \<Rightarrow> ('s, 'h) WireService \<Rightarrow> ('a, 's, 'h) reply) \<Rightarrow> ('s, 'h) WireService \<Rightarrow> ('a, 's, 'h) reply" where
  "checked c op ws = (case c of Ok x \<Rightarrow> op x ws | Err e \<Rightarrow> Ret (Err e, ws, [], []) | Panic \<Rightarrow> Panics)"

definition map_go :: "('a \<Rightarrow> 'b) \<Rightarrow> 'a go \<Rightarrow> 'b go" where
  "map_go f r = go_bind r (\<lambda>x. Ok (f x))"

definition of_lib :: "'a option \<Rightarrow> 'a go" where
  "of_lib r = (case r of None \<Rightarrow> Err LibError | Some x \<Rightarrow> Ok x)"

fun go_map :: "('a \<Rightarrow> 'b go) \<Rightarrow> 'a list \<Rightarrow> 'b list go" where
  "go_map f [] = Ok []"
| "go_map f (x # xs) = go_bind (f x) (\<lambda>y. go_bind (go_map f xs) (\<lambda>ys. Ok (y # ys)))"

section \<open>Conversions\<close>

definition rpc_purpose :: "int \<Rightarrow> KeyPurpose go" where
  "rpc_purpose p = (if p = 0 then Ok INTERNAL else if p = 1 then Ok EXTERNAL else Err (ErrMsg ''Unknown key purpose''))"

definition rpc_feeLevel :: "int \<Rightarrow> FeeLevel go" where
  "rpc_feeLevel l =
     (if l = 0 then Ok ECONOMIC else if l = 1 then Ok NORMAL else if l = 2 then Ok PRIOIRTY
      else Err (ErrMsg ''Unknown fee level''))"

definition rpc_params :: "('s, 'k, 'h, 'p) server \<Rightarrow> net go" where
  "rpc_params sv =
     (case p_Net (b_params (we_b (sv_env sv))) of
        OtherNet \<Rightarrow> Err (ErrMsg ''Unknown network parameters'')
      | n \<Rightarrow> Ok n)"

definition rpc_address :: "('s, 'k, 'h, 'p) server \<Rightarrow> string \<Rightarrow> Address go" where
  "rpc_address sv addr = go_bind (rpc_params sv) (\<lambda>_. of_lib (DecodeAddress_lib (sv_lib sv) addr))"

definition rpc_hash :: "('s, 'k, 'h, 'p) server \<Rightarrow> string \<Rightarrow> hash go" where
  "rpc_hash sv s = of_lib (hashFromStr (e_lib (sv_te sv)) s)"

text \<open>A signing key: in the wallet import format, as hexadecimal bytes of any length, or as an extended key.\<close>

definition rpc_key :: "('s, 'k, 'h, 'p) server \<Rightarrow> string \<Rightarrow> 'k go" where
  "rpc_key sv key =
     (let kl = e_hd (sv_te sv);
          new = (\<lambda>bs. hd_NewExtendedKey kl (HDPrivateKeyID kl) bs (replicate 32 0) (replicate 4 0) 0 0 True)
      in case DecodeWIF sv key of
           Some (p, _) \<Rightarrow> Ok (new (priv_Serialize sv p))
         | None \<Rightarrow>
             (case hex_DecodeString key of
                Some keyBytes \<Rightarrow> Ok (new keyBytes)
              | None \<Rightarrow> of_lib (NewKeyFromString sv key)))"

text \<open>The string of an address that may be nil.\<close>

definition addr_str :: "Address option \<Rightarrow> string go" where
  "addr_str a = (case a of None \<Rightarrow> Panic | Some addr \<Rightarrow> Ok (EncodeAddress addr))"

section \<open>Reading calls\<close>

definition rpc_CurrentAddress :: "('s, 'k, 'h, 'p) server \<Rightarrow> int \<Rightarrow> ('s, 'h) WireService \<Rightarrow> string go" where
  "rpc_CurrentAddress sv purpose ws =
     go_bind (rpc_purpose purpose) (\<lambda>p. go_bind (CurrentAddress (spv_of sv [] ws) p) addr_str)"

definition rpc_ChainTip :: "('s, 'k, 'h, 'p) server \<Rightarrow> ('s, 'h) WireService \<Rightarrow> u32" where
  "rpc_ChainTip sv ws = fst (chain_tip (sv_env sv) (ws_h ws))"

definition rpc_Balance :: "('s, 'k, 'h, 'p) server \<Rightarrow> ('s, 'h) WireService \<Rightarrow> (u64 \<times> u64) option" where
  "rpc_Balance sv ws = Balance (sv_env sv) ws"

definition rpc_HasKey :: "('s, 'k, 'h, 'p) server \<Rightarrow> string \<Rightarrow> ('s, 'h) WireService \<Rightarrow> bool go" where
  "rpc_HasKey sv addr ws = go_bind (rpc_address sv addr) (\<lambda>a. HasKey (sv_te sv) a (ws_s ws))"

record pb_Tx =
  pb_Txid :: string
  pb_Value :: i64
  pb_Height :: i32
  pb_WatchOnly :: bool
  pb_Timestamp :: "int \<times> int"
  pb_Raw :: bytes

definition rpc_tx :: "('s, 'k, 'h, 'p) server \<Rightarrow> Txn \<Rightarrow> pb_Tx go" where
  "rpc_tx sv tx =
     go_bind (of_lib (TimestampProto sv (txn_Timestamp tx))) (\<lambda>ts.
       Ok \<lparr>pb_Txid = txn_Txid tx, pb_Value = txn_Value tx, pb_Height = txn_Height tx, pb_WatchOnly = txn_WatchOnly tx,
           pb_Timestamp = ts, pb_Raw = txn_Bytes tx\<rparr>)"

definition rpc_Transactions :: "('s, 'k, 'h, 'p) server \<Rightarrow> go_time \<Rightarrow> ('s, 'h) WireService \<Rightarrow> pb_Tx list go" where
  "rpc_Transactions sv now ws =
     (case wallet_Transactions (sv_env sv) now ws of
        (_, Some e) \<Rightarrow> Err e
      | (txs, None) \<Rightarrow> go_map (rpc_tx sv) txs)"

definition rpc_GetTransaction :: "('s, 'k, 'h, 'p) server \<Rightarrow> string \<Rightarrow> ('s, 'h) WireService \<Rightarrow> pb_Tx go" where
  "rpc_GetTransaction sv h ws =
     go_bind (rpc_hash sv h) (\<lambda>ch.
       case Txns_Get (e_ds (sv_te sv)) ch (ws_s ws) of
         (_, Some e) \<Rightarrow> Err e
       | (tx, None) \<Rightarrow> rpc_tx sv tx)"

definition rpc_GetFeePerByte :: "('s, 'k, 'h, 'p) server \<Rightarrow> int \<Rightarrow> u64 go" where
  "rpc_GetFeePerByte sv l = map_go (GetFeePerByte (sv_fee sv)) (rpc_feeLevel l)"

definition rpc_GetConfirmations :: "('s, 'k, 'h, 'p) server \<Rightarrow> string \<Rightarrow> ('s, 'h) WireService \<Rightarrow> u32 go" where
  "rpc_GetConfirmations sv h ws = go_bind (rpc_hash sv h) (\<lambda>ch. map_go fst (GetConfirmations (sv_env sv) ch ws))"

definition rpc_GetKey :: "('s, 'k, 'h, 'p) server \<Rightarrow> string \<Rightarrow> ('s, 'h) WireService \<Rightarrow> string go" where
  "rpc_GetKey sv addr ws =
     go_bind (rpc_address sv addr) (\<lambda>a.
     go_bind (GetKey (sv_te sv) (sv_lib sv) a (ws_s ws)) (\<lambda>key. of_lib (NewWIF sv key)))"

definition rpc_ListAddresses :: "('s, 'k, 'h, 'p) server \<Rightarrow> ('s, 'h) WireService \<Rightarrow> string list" where
  "rpc_ListAddresses sv ws = map EncodeAddress (ListAddresses (sv_te sv) (sv_lib sv) (ws_s ws))"

definition rpc_ListKeys :: "('s, 'k, 'h, 'p) server \<Rightarrow> ('s, 'h) WireService \<Rightarrow> string list go" where
  "rpc_ListKeys sv ws = go_map (\<lambda>key. of_lib (NewWIF sv key)) (ListKeys (sv_te sv) (sv_lib sv) (ws_s ws))"

section \<open>Calls that change the wallet\<close>

definition rpc_NewAddress ::
    "('s, 'k, 'h, 'p) server \<Rightarrow> int \<Rightarrow> ('s, 'h) WireService \<Rightarrow> (string, 's, 'h) reply" where
  "rpc_NewAddress sv purpose =
     checked (rpc_purpose purpose) (\<lambda>p ws.
       run_bind (NewAddress (sv_env sv) (sv_lib sv) p ws) (\<lambda>(addr, ws1).
         case addr_str addr of Ok s \<Rightarrow> Ret (Ok s, ws1, [], []) | _ \<Rightarrow> Panics))"

text \<open>The amount is converted from \<open>uint64\<close> to \<open>int64\<close>.\<close>

definition rpc_Spend ::
    "('s, 'k, 'h, 'p) server \<Rightarrow> nat list \<Rightarrow> go_time \<Rightarrow> string \<Rightarrow> u64 \<Rightarrow> int \<Rightarrow> ('s, 'h) WireService \<Rightarrow> (string, 's, 'h) reply" where
  "rpc_Spend sv peers now addr amount l =
     checked (go_bind (rpc_params sv) (\<lambda>_. go_bind (rpc_feeLevel l) (\<lambda>feeLevel.
                map_go (\<lambda>a. (a, feeLevel)) (of_lib (DecodeAddress_lib (sv_lib sv) addr)))))
       (\<lambda>(a, feeLevel). serve sv peers (\<lambda>w.
          run_bind (Spend now (sv_perm sv) (sint amount) (Some a) feeLevel w) (\<lambda>(r, rest).
            Ret (map_go (hashString (e_lib (sv_te sv))) r, rest))))"

definition rpc_BumpFee ::
    "('s, 'k, 'h, 'p) server \<Rightarrow> nat list \<Rightarrow> go_time \<Rightarrow> string \<Rightarrow> ('s, 'h) WireService \<Rightarrow> (string, 's, 'h) reply" where
  "rpc_BumpFee sv peers now h =
     checked (rpc_hash sv h) (\<lambda>ch. serve sv peers (\<lambda>w.
       run_bind (BumpFee now ch w) (\<lambda>(r, rest). Ret (map_go (hashString (e_lib (sv_te sv))) r, rest))))"

text \<open>The reply is nil, also when the address is added.\<close>

definition rpc_AddWatchedAddress ::
    "('s, 'k, 'h, 'p) server \<Rightarrow> string \<Rightarrow> ('s, 'h) WireService \<Rightarrow> (unit option, 's, 'h) reply" where
  "rpc_AddWatchedAddress sv addr =
     checked (rpc_address sv addr) (\<lambda>a ws.
       let (err, ws1, msgs) = AddWatchedAddress (sv_te sv) (Some a) ws in
       Ret (case err of Some e \<Rightarrow> Err e | None \<Rightarrow> Ok None, ws1, [], msgs))"

record pb_Utxo =
  pu_Txid :: string
  pu_Index :: u32
  pu_Value :: u64

record SweepInfo =
  si_Utxos :: "pb_Utxo list"
  si_Address :: string
  si_Key :: string
  si_RedeemScript :: bytes
  si_FeeLevel :: int

definition rpc_sweep_in :: "('s, 'k, 'h, 'p) server \<Rightarrow> pb_Utxo \<Rightarrow> TransactionInput go" where
  "rpc_sweep_in sv u =
     map_go (\<lambda>h. \<lparr>OutpointHash = hash_bytes h, OutpointIndex = pu_Index u, LinkedAddress = None, tin_Value = pu_Value u\<rparr>)
       (rpc_hash sv (pu_Txid u))"

definition rpc_SweepAddress ::
    "('s, 'k, 'h, 'p) server \<Rightarrow> nat list \<Rightarrow> go_time \<Rightarrow> SweepInfo \<Rightarrow> ('s, 'h) WireService \<Rightarrow> (string, 's, 'h) reply" where
  "rpc_SweepAddress sv peers now si =
     checked (go_bind (go_map (rpc_sweep_in sv) (si_Utxos si)) (\<lambda>ins.
              go_bind (rpc_params sv) (\<lambda>_.
              go_bind (if si_Address si = '''' then Ok None
                       else map_go Some (of_lib (DecodeAddress_lib (sv_lib sv) (si_Address si)))) (\<lambda>addr.
              go_bind (rpc_key sv (si_Key si)) (\<lambda>key.
              go_bind (rpc_feeLevel (si_FeeLevel si)) (\<lambda>feeLevel. Ok (ins, addr, key, feeLevel)))))))
       (\<lambda>(ins, addr, key, feeLevel). serve sv peers (\<lambda>w.
          run_bind (SweepAddress now ins addr key (if si_RedeemScript si = [] then None else Some (si_RedeemScript si)) feeLevel w)
            (\<lambda>(r, rest). Ret (map_go (hashString (e_lib (sv_te sv))) r, rest))))"

text \<open>The height of the message is not used; the reply is nil.\<close>

definition rpc_ReSyncBlockchain ::
    "('s, 'k, 'h, 'p) server \<Rightarrow> u32 \<Rightarrow> ('s, 'h) WireService \<Rightarrow> (unit option go \<times> ('s, 'h) WireService \<times> action list) run" where
  "rpc_ReSyncBlockchain sv height ws =
     run_bind (ReSyncBlockchain (sv_env sv) (sv_creationDate sv) ws) (\<lambda>(ws1, acts). Ret (Ok None, ws1, acts))"

record pb_Input =
  pi_Txid :: string
  pi_Index :: u32

record pb_Output =
  po_ScriptPubKey :: bytes
  po_Value :: u64

definition rpc_in :: "pb_Input \<Rightarrow> TransactionInput go" where
  "rpc_in i =
     map_go (\<lambda>h. \<lparr>OutpointHash = h, OutpointIndex = pi_Index i, LinkedAddress = None, tin_Value = 0\<rparr>)
       (of_lib (hex_DecodeString (pi_Txid i)))"

definition rpc_out :: "('s, 'k, 'h, 'p) server \<Rightarrow> pb_Output \<Rightarrow> TransactionOutput go" where
  "rpc_out sv out =
     map_go (\<lambda>a. \<lparr>tout_Address = Some a, tout_Value = po_Value out, tout_Index = 0\<rparr>)
       (scriptToAddress (e_sl (sv_te sv)) (po_ScriptPubKey out))"

definition rpc_CreateMultisigSignature ::
    "('s, 'k, 'h, 'p) server \<Rightarrow> pb_Input list \<Rightarrow> pb_Output list \<Rightarrow> string \<Rightarrow> bytes \<Rightarrow> u64 \<Rightarrow> ('s, 'h) WireService \<Rightarrow> Signature list go" where
  "rpc_CreateMultisigSignature sv inputs outputs key redeemScript feePerByte ws =
     go_bind (go_map rpc_in inputs) (\<lambda>ins.
     go_bind (go_map (rpc_out sv) outputs) (\<lambda>outs.
     go_bind (rpc_params sv) (\<lambda>_.
     go_bind (rpc_key sv key) (\<lambda>k.
       CreateMultisigSignature (spv_of sv [] ws) ins outs k redeemScript feePerByte))))"

definition rpc_Multisign ::
    "('s, 'k, 'h, 'p) server \<Rightarrow> nat list \<Rightarrow> go_time \<Rightarrow> pb_Input list \<Rightarrow> pb_Output list \<Rightarrow> Signature list \<Rightarrow> Signature list \<Rightarrow>
     bytes \<Rightarrow> u64 \<Rightarrow> bool \<Rightarrow> ('s, 'h) WireService \<Rightarrow> (bytes, 's, 'h) reply" where
  "rpc_Multisign sv peers now inputs outputs sig1 sig2 redeemScript feePerByte broadcast =
     checked (go_bind (go_map rpc_in inputs) (\<lambda>ins. map_go (\<lambda>outs. (ins, outs)) (go_map (rpc_out sv) outputs)))
       (\<lambda>(ins, outs). serve sv peers (Multisign now ins outs sig1 sig2 redeemScript feePerByte broadcast))"

definition rpc_EstimateFee ::
    "('s, 'k, 'h, 'p) server \<Rightarrow> pb_Input list \<Rightarrow> pb_Output list \<Rightarrow> u64 \<Rightarrow> ('s, 'h) WireService \<Rightarrow> u64 go" where
  "rpc_EstimateFee sv inputs outputs feePerByte ws =
     go_bind (go_map rpc_in inputs) (\<lambda>ins.
     go_bind (go_map (rpc_out sv) outputs) (\<lambda>outs.
       Ok (EstimateFee (spv_of sv [] ws) ins outs feePerByte)))"

definition rpc_private_key :: "('s, 'k, 'h, 'p) server \<Rightarrow> string \<Rightarrow> ('p \<times> bool) go" where
  "rpc_private_key sv key =
     (case hex_DecodeString key of
        None \<Rightarrow> of_lib (DecodeWIF sv key)
      | Some keyBytes \<Rightarrow>
          if length keyBytes \<noteq> 32 then Err (ErrMsg ''Hex private keys must be exactly 64 characters'')
          else Ok (PrivKeyFromBytes sv keyBytes, True))"

text \<open>\<open>creationDate\<close> is the time of the message, when it is a valid one; the key is imported before it is looked at.\<close>

definition rpc_ImportKey ::
    "('s, 'k, 'h, 'p) server \<Rightarrow> string \<Rightarrow> go_time option \<Rightarrow> ('s, 'h) WireService \<Rightarrow> (unit go \<times> ('s, 'h) WireService \<times> action list) run" where
  "rpc_ImportKey sv key creationDate ws =
     (case rpc_private_key sv key of
        Panic \<Rightarrow> Panics
      | Err e \<Rightarrow> Ret (Err e, ws, [])
      | Ok (privKey, compress) \<Rightarrow>
          (case ImportKey (sv_te sv) (sv_lib sv) (pub_Hash160 sv) (priv_Serialize sv) privKey compress (ws_s ws) of
             (Some e, s1) \<Rightarrow> Ret (Err e, ws\<lparr>ws_s := s1\<rparr>, [])
           | (None, s1) \<Rightarrow>
               (case creationDate of
                  None \<Rightarrow> Ret (Err LibError, ws\<lparr>ws_s := s1\<rparr>, [])
                | Some t \<Rightarrow>
                    run_bind (ReSyncBlockchain (sv_env sv) t (ws\<lparr>ws_s := s1\<rparr>)) (\<lambda>(ws1, acts). Ret (Ok (), ws1, acts)))))"

end
