(* ===== verification/Rpc_Calls.thy ===== *)
theory Rpc_Calls
  imports Rpc_Server Wire_Inv Tx_Author
begin

text \<open>
  What the remote calls do to the wallet: spending, sweeping, signing for several parties, and importing a key.
\<close>

section \<open>Spending\<close>

lemma map_go_Ok: "map_go f r = Ok y \<longleftrightarrow> (\<exists>x. r = Ok x \<and> y = f x)"
  by (cases r) (auto simp: map_go_def)

lemma of_lib_Ok [simp]: "of_lib r = Ok x \<longleftrightarrow> r = Some x"
  by (auto simp: of_lib_def split: option.splits)

lemma checked_Ret:
  "checked c op ws = Ret (r, ws', evs, msgs) \<longleftrightarrow>
     (\<exists>x. c = Ok x \<and> op x ws = Ret (r, ws', evs, msgs)) \<or> (\<exists>e. c = Err e \<and> r = Err e \<and> ws' = ws \<and> evs = [] \<and> msgs = [])"
  by (auto simp: checked_def split: go.splits)

lemma serve_Ret:
  "serve sv peers op ws = Ret (r, ws', evs, msgs) \<longleftrightarrow>
     (\<exists>w. op (spv_of sv peers ws) = Ret (r, w, evs, msgs) \<and> ws' = ws\<lparr>ws_ts := w_ts w, ws_s := w_s w\<rparr>)"
  by (auto simp: serve_def run_bind_Ret)

lemma spv_of_same [simp]: "ws\<lparr>ws_ts := w_ts (spv_of sv peers ws), ws_s := w_s (spv_of sv peers ws)\<rparr> = ws"
  by (simp add: spv_of_def)

lemma Broadcast_sent:
  assumes "Broadcast now tx w = Ret (err, w1, evs, msgs)"
  shows "msgs = (if err = None then UpdateFilters # map (\<lambda>p. SendTx p tx) (w_peers w) else [])"
  using assms by (auto simp: Broadcast_def run_bind_Ret Let_def split: option.splits)

lemma Spend_sent:
  assumes "Spend now perm amount addr feeLevel w = Ret (r, w1, evs, msgs)"
  shows "(\<exists>tx. buildTx w perm amount addr feeLevel None = Some (Ok tx) \<and> r = Ok (txHash (e_lib (w_env w)) tx) \<and>
      msgs = UpdateFilters # map (\<lambda>p. SendTx p tx) (w_peers w)) \<or> (\<exists>e. r = Err e \<and> msgs = [])"
proof (cases "\<exists>tx. buildTx w perm amount addr feeLevel None = Some (Ok tx)")
  case True
  then obtain tx where tx: "buildTx w perm amount addr feeLevel None = Some (Ok tx)" ..
  then obtain err where "Broadcast now tx w = Ret (err, w1, evs, msgs)"
    "r = (case err of Some e \<Rightarrow> Err e | None \<Rightarrow> Ok (txHash (e_lib (w_env w)) tx))"
    using assms unfolding Spend_def by (auto simp: run_bind_Ret)
  with tx Broadcast_sent show ?thesis by (cases err) force+
next
  case False
  with assms show ?thesis by (auto simp: Spend_def split: option.splits go.splits)
qed

text \<open>A call of \<open>Spend\<close> that returns a transaction id has sent a transaction with this id, built for the address and the
  amount read as a signed number, to every peer, and asked for new filters; a call that fails has sent nothing.\<close>

lemma rpc_Spend_cases:
  assumes "rpc_Spend sv peers now addr amount l ws = Ret (r, ws', evs, msgs)"
  shows "(\<exists>a tx feeLevel. r = Ok (hashString (e_lib (sv_te sv)) (txHash (e_lib (sv_te sv)) tx)) \<and>
        DecodeAddress_lib (sv_lib sv) addr = Some a \<and> rpc_feeLevel l = Ok feeLevel \<and>
        buildTx (spv_of sv peers ws) (sv_perm sv) (sint amount) (Some a) feeLevel None = Some (Ok tx) \<and>
        msgs = UpdateFilters # map (\<lambda>p. SendTx p tx) peers) \<or>
    (\<exists>e. r = Err e \<and> msgs = [])"
proof -
  have env: "w_env (spv_of sv peers ws) = sv_te sv" "w_peers (spv_of sv peers ws) = peers" by (simp_all add: spv_of_def)
  consider (refused) e where "r = Err e" "msgs = []"
    | (spent) a feeLevel rs w where "DecodeAddress_lib (sv_lib sv) addr = Some a" "rpc_feeLevel l = Ok feeLevel"
        "Spend now (sv_perm sv) (sint amount) (Some a) feeLevel (spv_of sv peers ws) = Ret (rs, w, evs, msgs)"
        "r = map_go (hashString (e_lib (sv_te sv))) rs"
    using assms unfolding rpc_Spend_def checked_Ret by (auto simp: go_bind_Ok map_go_Ok serve_Ret run_bind_Ret)
  then show ?thesis
  proof cases
    case spent
    with Spend_sent [OF spent(3)] show ?thesis unfolding env by (auto simp: map_go_def)
  qed simp
qed

section \<open>Sweeping\<close>

lemma go_map_nth:
  "go_map f xs = Ok ys \<Longrightarrow> length ys = length xs \<and> (\<forall>i < length xs. f (xs ! i) = Ok (ys ! i))"
proof (induction xs arbitrary: ys)
  case (Cons x xs)
  then obtain y zs where "ys = y # zs" "f x = Ok y" "go_map f xs = Ok zs" by (auto simp: go_bind_Ok)
  with Cons.IH [of zs] show ?case by (auto simp: nth_Cons split: nat.split)
qed simp

lemma sweep_inputs_unlinked:
  assumes "ins \<noteq> []" "LinkedAddress (ins ! 0) = None"
  shows "sweep_inputs env ins = Err LibError"
  using assms by (cases ins) (auto simp: pay_script_def split: option.splits)

text \<open>The call that sweeps an address never succeeds when it is given an output: it does not set the address of
  the outputs, and the script of an input without one cannot be made.  Nothing is changed or sent.\<close>

theorem rpc_SweepAddress_refused:
  assumes "si_Utxos si \<noteq> []" "rpc_SweepAddress sv peers now si ws = Ret (r, ws', evs, msgs)"
  shows "\<exists>e. r = Err e \<and> ws' = ws \<and> evs = [] \<and> msgs = []"
proof -
  consider (checks) e where "r = Err e" "ws' = ws" "evs = []" "msgs = []"
    | (swept) ins addr key feeLevel rs w where "go_map (rpc_sweep_in sv) (si_Utxos si) = Ok ins"
        "SweepAddress now ins addr key (if si_RedeemScript si = [] then None else Some (si_RedeemScript si)) feeLevel (spv_of sv peers ws)
           = Ret (rs, w, evs, msgs)" "r = map_go (hashString (e_lib (sv_te sv))) rs" "ws' = ws\<lparr>ws_ts := w_ts w, ws_s := w_s w\<rparr>"
    using assms(2) unfolding rpc_SweepAddress_def checked_Ret by (auto simp: go_bind_Ok serve_Ret run_bind_Ret)
  then show ?thesis
  proof cases
    case swept
    have "length ins = length (si_Utxos si)" "rpc_sweep_in sv (si_Utxos si ! 0) = Ok (ins ! 0)"
      using go_map_nth [OF swept(1)] assms(1) by auto
    then have "ins \<noteq> []" "LinkedAddress (ins ! 0) = None" using assms(1) by (auto simp: rpc_sweep_in_def map_go_Ok)
    note s = sweep_inputs_unlinked [OF this, of "w_env (spv_of sv peers ws)"]
    have "sweep_tx (spv_of sv peers ws) ins script key rs' feeLevel = Err LibError" for script rs'
      unfolding sweep_tx_def s by simp
    then have "(\<exists>e. rs = Err e) \<and> w = spv_of sv peers ws \<and> evs = [] \<and> msgs = []"
      using swept(2) unfolding SweepAddress_def by (auto split: go.splits option.splits)
    with swept(3,4) show ?thesis by (auto simp: map_go_def)
  qed blast
qed

section \<open>Signing for several parties\<close>

lemma msig_sigs_amount:
  assumes "\<forall>i \<in> set ins. tin_Value i = 0" "msig_sigs w ins rs key tx is = Ok sigs" "sg \<in> set sigs"
  shows "\<exists>i \<in> set is. InputIndex sg = of_nat i \<and> SignatureScript_lib (w_lib w) tx i 0 rs key = Some (Signature sg)"
  using assms(2,3)
proof (induction "is" arbitrary: sigs)
  case (Cons i "is")
  then obtain inp sigs' where i: "go_index ins i = Ok inp" "msig_sigs w ins rs key tx is = Ok sigs'"
    "sigs = (case SignatureScript_lib (w_lib w) tx i (sint (tin_Value inp)) rs key of
       None \<Rightarrow> sigs' | Some sig \<Rightarrow> \<lparr>InputIndex = of_nat i, Signature = sig\<rparr> # sigs')"
    by (auto simp: go_bind_Ok split: option.splits)
  have "tin_Value inp = 0" using i(1) assms(1) by (auto simp: go_index_def split: if_splits)
  with i(3) Cons.prems(2) have "sg \<in> set sigs' \<or>
      (InputIndex sg = of_nat i \<and> SignatureScript_lib (w_lib w) tx i 0 rs key = Some (Signature sg))"
    by (auto split: option.splits)
  with Cons.IH [OF i(2)] show ?case by auto
qed simp

text \<open>The signatures this call returns are made for inputs of the value zero, whatever the outputs they spend hold.\<close>

theorem rpc_CreateMultisigSignature_zero:
  assumes "rpc_CreateMultisigSignature sv inputs outputs key redeemScript feePerByte ws = Ok sigs"
  shows "\<exists>tx k p. rpc_key sv key = Ok k \<and> ECPrivKey (sv_lib sv) k = Some p \<and>
    (\<forall>sg \<in> set sigs. \<exists>i. InputIndex sg = of_nat i \<and> SignatureScript_lib (sv_lib sv) tx i 0 redeemScript p = Some (Signature sg))"
proof -
  have lib: "w_lib (spv_of sv [] ws) = sv_lib sv" by (simp add: spv_of_def)
  obtain ins outs k where i: "go_map rpc_in inputs = Ok ins" "rpc_key sv key = Ok k"
    "CreateMultisigSignature (spv_of sv [] ws) ins outs k redeemScript feePerByte = Ok sigs"
    using assms unfolding rpc_CreateMultisigSignature_def by (auto simp: go_bind_Ok)
  then obtain tx p where s: "ECPrivKey (sv_lib sv) k = Some p"
    "msig_sigs (spv_of sv [] ws) ins redeemScript p tx [0..<length (tx_TxIn tx)] = Ok sigs"
    by (auto simp: CreateMultisigSignature_def go_bind_Ok lib split: option.splits)
  have "\<forall>x \<in> set ins. tin_Value x = 0"
    using go_map_nth [OF i(1)] by (fastforce simp: in_set_conv_nth rpc_in_def map_go_Ok)
  from msig_sigs_amount [OF this s(2)] i(2) s(1) show ?thesis unfolding lib by blast
qed

section \<open>Importing a key\<close>

lemma ReSyncBlockchain_store: "ReSyncBlockchain env t ws = Ret (ws', acts) \<Longrightarrow> ws_s ws' = ws_s ws"
  by (auto simp: ReSyncBlockchain_def resync_after_def Resync_def run_bind_Ret dest: startSync_store)

lemma find_snoc: "find P (xs @ [x]) = (case find P xs of None \<Rightarrow> if P x then Some x else None | Some y \<Rightarrow> Some y)"
  by (induction xs) auto

lemma KeysDB_ImportKey_found:
  assumes "hex_EncodeToString sa \<notin> k_scriptAddress ` set (t_keys db)"
  shows "\<exists>db'. KeysDB_ImportKey sa key db = (None, db') \<and> snd (KeysDB_GetPathForKey sa db') \<noteq> None \<and>
    KeysDB_GetKey lib sa db' = (Some (privKeyFromBytes lib key), None)"
proof -
  have n: "find P (t_keys db) = None" if "\<And>r. P r \<Longrightarrow> k_scriptAddress r = hex_EncodeToString sa" for P
    using assms that by (force simp: find_None_iff)
  have f: "find P (t_keys db @ [r]) = (if P r then Some r else None)" if "\<And>r. P r \<Longrightarrow> k_scriptAddress r = hex_EncodeToString sa" for P r
    using n [OF that] by (simp add: find_snoc)
  have g: "find (\<lambda>r. k_scriptAddress r = hex_EncodeToString sa \<and> k_purpose r \<noteq> -1) (t_keys db @ [r]) = None" if "k_purpose r = -1" for r
    using assms that by (force simp: find_None_iff)
  show ?thesis
    using assms by (simp add: KeysDB_ImportKey_def KeysDB_insert_def KeysDB_GetPathForKey_def KeysDB_GetKey_def f g)
qed

text \<open>Property C34. A key that was imported under an address the wallet did not have is exported again under this address, also when
  the call itself failed because its date is invalid.\<close>

theorem rpc_ImportKey_GetKey:
  assumes "e_ds (sv_te sv) = SQLiteDatastore lib" "p_Net (b_params (we_b (sv_env sv))) \<noteq> OtherNet"
    "rpc_private_key sv key = Ok (p, compress)" "NewAddressPubKeyHash (sv_lib sv) (pub_Hash160 sv p compress) = Some a"
    "DecodeAddress_lib (sv_lib sv) (EncodeAddress a) = Some a" "NewWIF sv p = Some wif"
    "ECPrivKey (sv_lib sv) (imported_key (e_hd (sv_te sv)) (privKeyFromBytes lib (priv_Serialize sv p))) = Some p"
    "hex_EncodeToString (ScriptAddress a) \<notin> k_scriptAddress ` set (t_keys (ws_s ws))"
    "rpc_ImportKey sv key date ws = Ret (r, ws', acts)"
  shows "rpc_GetKey sv (EncodeAddress a) ws' = Ok wif \<and> rpc_HasKey sv (EncodeAddress a) ws' = Ok True \<and>
    (r = Ok () \<longleftrightarrow> date \<noteq> None)"
proof -
  obtain db' where i: "KeysDB_ImportKey (ScriptAddress a) (priv_Serialize sv p) (ws_s ws) = (None, db')"
    "snd (KeysDB_GetPathForKey (ScriptAddress a) db') \<noteq> None"
    "KeysDB_GetKey lib (ScriptAddress a) db' = (Some (privKeyFromBytes lib (priv_Serialize sv p)), None)"
    using KeysDB_ImportKey_found [OF assms(8)] by blast
  have "ImportKey (sv_te sv) (sv_lib sv) (pub_Hash160 sv) (priv_Serialize sv) p compress (ws_s ws) = (None, db')"
    using i(1) by (simp add: ImportKey_def assms(1,4) SQLiteDatastore_def)
  with assms(9) have w: "ws_s ws' = db'" "r = Ok () \<longleftrightarrow> date \<noteq> None"
    by (auto simp: rpc_ImportKey_def assms(3) run_bind_Ret split: option.splits dest: ReSyncBlockchain_store)
  have k: "GetKeyForScript (e_ds (sv_te sv)) (e_hd (sv_te sv)) km (ScriptAddress a) (ws_s ws') =
      Ok (imported_key (e_hd (sv_te sv)) (privKeyFromBytes lib (priv_Serialize sv p)))" for km
    using i(2,3) by (auto simp: GetKeyForScript_def assms(1) SQLiteDatastore_def w(1) split: prod.split option.split)
  have a: "rpc_address sv (EncodeAddress a) = Ok a"
    using assms(2,5) by (simp add: rpc_address_def rpc_params_def of_lib_def split: net.split)
  show ?thesis using w(2) by (simp add: rpc_GetKey_def rpc_HasKey_def a GetKey_def HasKey_def k assms(6,7) of_lib_def)
qed

section \<open>Witnesses\<close>

definition ex_rpc_addr :: Address where
  "ex_rpc_addr = \<lparr>ScriptAddress = [9], EncodeAddress = ''q9''\<rparr>"

definition ex_server :: "(sqldb, u32 list, ex_hdb_t, u32 list) server" where
  "ex_server =
     \<lparr>sv_env = ex_node, sv_lib = ex_build\<lparr>DecodeAddress_lib := \<lambda>s. if s = ''q9'' then Some ex_rpc_addr else None,
        NewAddressPubKeyHash := \<lambda>b. if b = [9] then Some ex_rpc_addr else None\<rparr>,
      sv_size = ex_size, sv_fee = NewFeeProvider 5 1 1 2, sv_perm = id, sv_creationDate = 0,
      DecodeWIF = (\<lambda>s. if s = ''Kx'' then Some ([], True) else None), NewWIF = (\<lambda>p. Some ''Kx''), priv_Serialize = (\<lambda>p. replicate 32 1),
      PrivKeyFromBytes = (\<lambda>b. []), pub_Hash160 = (\<lambda>p c. [9]), NewKeyFromString = (\<lambda>s. None),
      TimestampProto = (\<lambda>t. Some (t div nano, t mod nano))\<rparr>"

abbreviation ex_rpc_ws :: "(sqldb, ex_hdb_t) WireService" where
  "ex_rpc_ws \<equiv> NewWireService ex_ts0 ex_db0 ex_chain0 (\<lambda>_. 0)"

lemma ex_server_simps:
  "sv_env ex_server = ex_node" "sv_te ex_server = ex_env" "DecodeWIF ex_server = (\<lambda>s. if s = ''Kx'' then Some ([], True) else None)"
  "DecodeAddress_lib (sv_lib ex_server) = (\<lambda>s. if s = ''q9'' then Some ex_rpc_addr else None)" "ECPrivKey (sv_lib ex_server) = Some"
  "NewAddressPubKeyHash (sv_lib ex_server) = (\<lambda>b. if b = [9] then Some ex_rpc_addr else None)" "pub_Hash160 ex_server = (\<lambda>p c. [9])"
  "NewWIF ex_server = (\<lambda>p. Some ''Kx'')" "e_ds ex_env = SQLiteDatastore ex_lib" "e_lib ex_env = ex_lib"
  by (simp_all add: ex_server_def sv_te_def ex_node_def ex_build_def ex_env_def)

lemma ex_server_net: "p_Net (b_params (we_b ex_node)) = RegressionNet"
  by (simp add: ex_node_def ex_chain_def ex_params_def)

lemma ex_server_key: "hex_DecodeString ''Kx'' = None"
  by code_simp

theorem rpc_ImportKey_GetKey_witness:
  "\<exists>r ws' acts. rpc_ImportKey ex_server ''Kx'' None ex_rpc_ws = Ret (r, ws', acts) \<and> rpc_GetKey ex_server ''q9'' ws' = Ok ''Kx''"
proof -
  have p: "rpc_private_key ex_server ''Kx'' = Ok ([], True)"
    unfolding rpc_private_key_def ex_server_key by (simp add: ex_server_simps of_lib_def)
  have "\<exists>r ws' acts. rpc_ImportKey ex_server ''Kx'' None ex_rpc_ws = Ret (r, ws', acts)"
    by (auto simp: rpc_ImportKey_def p split: prod.split option.split)
  then obtain r ws' acts where i: "rpc_ImportKey ex_server ''Kx'' None ex_rpc_ws = Ret (r, ws', acts)" by blast
  have "rpc_GetKey ex_server (EncodeAddress ex_rpc_addr) ws' = Ok ''Kx''"
    by (rule rpc_ImportKey_GetKey [OF _ _ p _ _ _ _ _ i, where a = ex_rpc_addr and lib = ex_lib and wif = "''Kx''", THEN conjunct1])
      (simp_all add: ex_server_simps ex_server_net ex_rpc_addr_def NewWireService_def initDatabaseTables_def,
        simp_all add: ex_env_def ex_hd_def imported_key_def)
  with i show ?thesis by (auto simp: ex_rpc_addr_def)
qed

definition ex_sweep :: SweepInfo where
  "ex_sweep = \<lparr>si_Utxos = [\<lparr>pu_Txid = bit_string 5, pu_Index = 0, pu_Value = 1000\<rparr>], si_Address = ''q9'', si_Key = ''Kx'',
     si_RedeemScript = [], si_FeeLevel = 1\<rparr>"

theorem rpc_SweepAddress_refused_witness:
  "\<exists>e. rpc_SweepAddress ex_server [1] 0 ex_sweep ex_rpc_ws = Ret (Err e, ex_rpc_ws, [], [])"
proof -
  have h: "rpc_hash ex_server (bit_string 5) = Ok 5" by (simp add: rpc_hash_def ex_server_simps ex_lib_def)
  have n: "rpc_params ex_server = Ok RegressionNet" by (simp add: rpc_params_def ex_server_simps ex_server_net)
  have e: "w_env (spv_of ex_server [1] ex_rpc_ws) = ex_env" by (simp add: spv_of_def ex_server_simps)
  have "\<exists>r ws' evs msgs. rpc_SweepAddress ex_server [1] 0 ex_sweep ex_rpc_ws = Ret (r, ws', evs, msgs)"
    by (simp add: rpc_SweepAddress_def checked_def ex_sweep_def rpc_sweep_in_def h n map_go_def ex_server_simps of_lib_def
        rpc_key_def rpc_feeLevel_def Let_def serve_def SweepAddress_def sweep_tx_def e pay_script_def split: option.split)
  then obtain r ws' evs msgs where s: "rpc_SweepAddress ex_server [1] 0 ex_sweep ex_rpc_ws = Ret (r, ws', evs, msgs)" by blast
  have "si_Utxos ex_sweep \<noteq> []" by (simp add: ex_sweep_def)
  from rpc_SweepAddress_refused [OF this s] s show ?thesis by auto
qed

end
