(* ===== verification/Cli.thy ===== *)
theory Cli
  imports Rpc_Calls
begin

text \<open>
  The command line client, \<^verbatim>\<open>src/cli/cli.go\<close>: each command reads its arguments, makes one call or two of the remote interface
  and prints the reply.  The client stub returns what the server returns; the value that is printed is the result of
  the command.  The JSON messages some commands take are read by the library, as the functions of
  \<open>cli_lib\<close>.  The commands that stop the wallet, list or copy the fields of a reply are in \<open>Rpc_Session\<close> and \<open>Header_Print\<close>.
\<close>

section \<open>Arguments\<close>

text \<open>\<open>strings.ToLower\<close> on ASCII text.\<close>

definition ToLower :: "string \<Rightarrow> string" where
  "ToLower s = map (\<lambda>c. let n = of_char c :: nat in if 65 \<le> n \<and> n \<le> 90 then char_of (n + 32) else c) s"

definition arg_or_empty :: "nat \<Rightarrow> string list \<Rightarrow> string" where
  "arg_or_empty i args = (if i < length args then args ! i else '''')"

definition first_arg :: "string \<Rightarrow> string list \<Rightarrow> string go" where
  "first_arg msg args = (case args of [] \<Rightarrow> Err (ErrMsg msg) | a # _ \<Rightarrow> Ok a)"

definition cli_purpose :: "string \<Rightarrow> int" where
  "cli_purpose userSelection =
     (if ToLower userSelection = ''internal'' then 0 else if ToLower userSelection = ''external'' then 1 else 1)"

definition cli_feeLevel :: "string \<Rightarrow> int" where
  "cli_feeLevel userSelection =
     (if ToLower userSelection = ''economic'' then 0 else if ToLower userSelection = ''normal'' then 1
      else if ToLower userSelection = ''priority'' then 2 else 1)"

record CreateMultisigInfo =
  cm_Inputs :: "pb_Input list"
  cm_Outputs :: "pb_Output list"
  cm_Key :: string
  cm_RedeemScript :: bytes
  cm_FeePerByte :: u64

record MultisignInfo =
  mi_Inputs :: "pb_Input list"
  mi_Outputs :: "pb_Output list"
  mi_Sig1 :: "Signature list"
  mi_Sig2 :: "Signature list"
  mi_RedeemScript :: bytes
  mi_FeePerByte :: u64
  mi_Broadcast :: bool

record cli_lib =
  parse_sweep :: "string \<Rightarrow> SweepInfo option"
  parse_create :: "string \<Rightarrow> CreateMultisigInfo option"
  parse_sign :: "string \<Rightarrow> MultisignInfo option"
  parse_fee :: "string \<Rightarrow> (pb_Input list \<times> pb_Output list \<times> u64) option"
  parse_date :: "string \<Rightarrow> go_time option"
  time_valid :: "go_time \<Rightarrow> bool"
  zero_time :: go_time

section \<open>Commands\<close>

definition cli_CurrentAddress :: "('s, 'k, 'h, 'p) server \<Rightarrow> string list \<Rightarrow> ('s, 'h) WireService \<Rightarrow> string go" where
  "cli_CurrentAddress sv args ws = rpc_CurrentAddress sv (cli_purpose (arg_or_empty 0 args)) ws"

definition cli_NewAddress :: "('s, 'k, 'h, 'p) server \<Rightarrow> string list \<Rightarrow> ('s, 'h) WireService \<Rightarrow> (string, 's, 'h) reply" where
  "cli_NewAddress sv args ws = rpc_NewAddress sv (cli_purpose (arg_or_empty 0 args)) ws"

definition cli_HasKey :: "('s, 'k, 'h, 'p) server \<Rightarrow> string list \<Rightarrow> ('s, 'h) WireService \<Rightarrow> bool go" where
  "cli_HasKey sv args ws = go_bind (first_arg ''Bitcoin address is required'' args) (\<lambda>a. rpc_HasKey sv a ws)"

text \<open>The confirmations and the status of a transaction are computed again from the height of the tip.\<close>

record cli_Tx =
  ct_Txid :: string
  ct_Value :: i64
  ct_Status :: string
  ct_Timestamp :: go_time
  ct_Confirmations :: i32
  ct_Height :: i32
  ct_WatchOnly :: bool

definition cli_tx :: "go_time \<Rightarrow> u32 \<Rightarrow> pb_Tx \<Rightarrow> cli_Tx" where
  "cli_tx now tip tx =
     (let confs = (if pb_Height tx \<le>s 0 then pb_Height tx else tip - pb_Height tx + 1);
          ts = time_Unix (fst (pb_Timestamp tx)) + snd (pb_Timestamp tx);
          (status, confirmations) =
            (if confs <s 0 then (''DEAD'', 0)
             else if confs = 0 \<and> now - ts \<le> 6 * 3600 * nano then (''UNCONFIRMED'', 0)
             else if confs = 0 \<and> 6 * 3600 * nano < now - ts then (''STUCK'', 0)
             else if 0 <s confs \<and> confs <s 7 then (''PENDING'', confs)
             else (''CONFIRMED'', confs))
      in \<lparr>ct_Txid = pb_Txid tx, ct_Value = pb_Value tx, ct_Status = status, ct_Timestamp = ts, ct_Confirmations = confirmations,
          ct_Height = pb_Height tx, ct_WatchOnly = pb_WatchOnly tx\<rparr>)"

definition cli_Transactions :: "('s, 'k, 'h, 'p) server \<Rightarrow> go_time \<Rightarrow> ('s, 'h) WireService \<Rightarrow> cli_Tx list go" where
  "cli_Transactions sv now ws = map_go (map (cli_tx now (rpc_ChainTip sv ws))) (rpc_Transactions sv now ws)"

definition cli_GetTransaction :: "('s, 'k, 'h, 'p) server \<Rightarrow> go_time \<Rightarrow> string list \<Rightarrow> ('s, 'h) WireService \<Rightarrow> cli_Tx go" where
  "cli_GetTransaction sv now args ws =
     go_bind (first_arg ''Txid is required'' args) (\<lambda>a. map_go (cli_tx now (rpc_ChainTip sv ws)) (rpc_GetTransaction sv a ws))"

definition cli_GetFeePerByte :: "('s, 'k, 'h, 'p) server \<Rightarrow> string list \<Rightarrow> u64 go" where
  "cli_GetFeePerByte sv args = rpc_GetFeePerByte sv (cli_feeLevel (arg_or_empty 0 args))"

text \<open>The amount is an \<open>int\<close>, converted to \<open>uint64\<close> for the message.\<close>

definition cli_Spend ::
    "('s, 'k, 'h, 'p) server \<Rightarrow> nat list \<Rightarrow> go_time \<Rightarrow> string list \<Rightarrow> ('s, 'h) WireService \<Rightarrow> (string, 's, 'h) reply" where
  "cli_Spend sv peers now args =
     checked (if length args < 2 then Err (ErrMsg ''Address and amount are required'') else of_lib (Atoi (args ! 1)))
       (\<lambda>amt. rpc_Spend sv peers now (args ! 0) (word_of_int amt) (cli_feeLevel (arg_or_empty 2 args)))"

definition cli_BumpFee ::
    "('s, 'k, 'h, 'p) server \<Rightarrow> nat list \<Rightarrow> go_time \<Rightarrow> string list \<Rightarrow> ('s, 'h) WireService \<Rightarrow> (string, 's, 'h) reply" where
  "cli_BumpFee sv peers now args = checked (first_arg ''Txid is required'' args) (rpc_BumpFee sv peers now)"

definition cli_GetConfirmations :: "('s, 'k, 'h, 'p) server \<Rightarrow> string list \<Rightarrow> ('s, 'h) WireService \<Rightarrow> u32 go" where
  "cli_GetConfirmations sv args ws = go_bind (first_arg ''Txid is required'' args) (\<lambda>a. rpc_GetConfirmations sv a ws)"

definition cli_SweepAddress ::
    "cli_lib \<Rightarrow> ('s, 'k, 'h, 'p) server \<Rightarrow> nat list \<Rightarrow> go_time \<Rightarrow> string list \<Rightarrow> ('s, 'h) WireService \<Rightarrow> (string, 's, 'h) reply" where
  "cli_SweepAddress cl sv peers now args =
     checked (go_bind (first_arg ''Sweep data is required'' args) (\<lambda>a. of_lib (parse_sweep cl a))) (rpc_SweepAddress sv peers now)"

definition cli_CreateMultisigSignature ::
    "cli_lib \<Rightarrow> ('s, 'k, 'h, 'p) server \<Rightarrow> string list \<Rightarrow> ('s, 'h) WireService \<Rightarrow> (u32 \<times> string) list go" where
  "cli_CreateMultisigSignature cl sv args ws =
     go_bind (first_arg ''Multisig data is required'' args) (\<lambda>a.
     go_bind (of_lib (parse_create cl a)) (\<lambda>m.
       map_go (map (\<lambda>sg. (InputIndex sg, hex_EncodeToString (Signature sg))))
         (rpc_CreateMultisigSignature sv (cm_Inputs m) (cm_Outputs m) (cm_Key m) (cm_RedeemScript m) (cm_FeePerByte m) ws)))"

text \<open>A transaction that was sent is printed as its id, another one as its bytes.\<close>

definition cli_Multisign ::
    "cli_lib \<Rightarrow> ('s, 'k, 'h, 'p) server \<Rightarrow> nat list \<Rightarrow> go_time \<Rightarrow> string list \<Rightarrow> ('s, 'h) WireService \<Rightarrow> (string, 's, 'h) reply" where
  "cli_Multisign cl sv peers now args =
     checked (go_bind (first_arg ''Multisig data is required'' args) (\<lambda>a. of_lib (parse_sign cl a))) (\<lambda>m ws.
       run_bind (rpc_Multisign sv peers now (mi_Inputs m) (mi_Outputs m) (mi_Sig1 m) (mi_Sig2 m) (mi_RedeemScript m)
                   (mi_FeePerByte m) (mi_Broadcast m) ws) (\<lambda>(r, rest).
         Ret (map_go (\<lambda>raw. if mi_Broadcast m then txid_of (e_lib (sv_te sv)) raw else hex_EncodeToString raw) r, rest)))"

definition cli_EstimateFee :: "cli_lib \<Rightarrow> ('s, 'k, 'h, 'p) server \<Rightarrow> string list \<Rightarrow> ('s, 'h) WireService \<Rightarrow> u64 go" where
  "cli_EstimateFee cl sv args ws =
     go_bind (first_arg ''Tx data is required'' args) (\<lambda>a.
     go_bind (of_lib (parse_fee cl a)) (\<lambda>(inputs, outputs, feePerByte). rpc_EstimateFee sv inputs outputs feePerByte ws))"

definition cli_GetKey :: "('s, 'k, 'h, 'p) server \<Rightarrow> string list \<Rightarrow> ('s, 'h) WireService \<Rightarrow> string go" where
  "cli_GetKey sv args ws = go_bind (first_arg ''Address is required'' args) (\<lambda>a. rpc_GetKey sv a ws)"

text \<open>Without a date the zero time is sent.  A date that is not valid as a time stamp is refused before the call.\<close>

definition cli_ImportKey ::
    "cli_lib \<Rightarrow> ('s, 'k, 'h, 'p) server \<Rightarrow> string list \<Rightarrow> ('s, 'h) WireService \<Rightarrow> (unit go \<times> ('s, 'h) WireService \<times> action list) run" where
  "cli_ImportKey cl sv args ws =
     (case go_bind (first_arg ''A private key is required'' args) (\<lambda>key.
           go_bind (if arg_or_empty 1 args \<noteq> ''''
                    then (case parse_date cl (args ! 1) of None \<Rightarrow> Err (ErrMsg ''Error parsing creation date'') | Some t \<Rightarrow> Ok t)
                    else Ok (zero_time cl)) (\<lambda>t.
             if time_valid cl t then Ok (key, t) else Err (ErrMsg ''Error parsing creation date''))) of
        Ok (key, t) \<Rightarrow> rpc_ImportKey sv key (Some t) ws
      | Err e \<Rightarrow> Ret (Err e, ws, [])
      | Panic \<Rightarrow> Panics)"

section \<open>What the commands show and do\<close>

text \<open>The command that lists transactions agrees with the wallet on the number of confirmations, and on the status
  unless there are six: the wallet calls this transaction confirmed, the command pending.\<close>

theorem cli_tx_status:
  assumes "rpc_tx sv tx = Ok pb"
    "TimestampProto sv (txn_Timestamp tx) = Some (txn_Timestamp tx div nano, txn_Timestamp tx mod nano)"
  shows "scast (ct_Confirmations (cli_tx now tip pb)) = Confirmations (tx_status now tip tx) \<and>
    ct_Status (cli_tx now tip pb) =
      (if Confirmations (tx_status now tip tx) = 6 then ''PENDING'' else txn_Status (tx_status now tip tx)) \<and>
    (Confirmations (tx_status now tip tx) = 6 \<longrightarrow> txn_Status (tx_status now tip tx) = ''CONFIRMED'')"
proof -
  have pb: "pb_Height pb = txn_Height tx" "time_Unix (fst (pb_Timestamp pb)) + snd (pb_Timestamp pb) = txn_Timestamp tx"
    using assms by (auto simp: rpc_tx_def of_lib_def time_Unix_def)
  define c where "c = (if txn_Height tx \<le>s 0 then txn_Height tx else tip - txn_Height tx + 1)"
  have up: "sint (scast c :: i64) = sint c" by (rule sint_up_scast) (simp add: is_up)
  have six: "(scast c :: i64) = 6 \<longleftrightarrow> sint c = 6" using up by (auto intro: signed_word_eqI)
  have zero: "c = 0 \<longleftrightarrow> sint c = 0" by (metis signed_eq_0_iff)
  show ?thesis
    unfolding cli_tx_def tx_status_def Let_def pb c_def [symmetric] by (auto simp: six zero word_sless_alt split: prod.splits if_splits)
qed

lemma cli_fee: "rpc_feeLevel (cli_feeLevel level) =
    Ok (if ToLower level = ''economic'' then ECONOMIC else if ToLower level = ''priority'' then PRIOIRTY else NORMAL)"
  by (simp add: cli_feeLevel_def rpc_feeLevel_def)

text \<open>Property C24. From the command line to the peers: when the command that spends an amount prints a transaction id, a
  transaction with this id was built for this amount, address and fee level and sent to every connected peer; a
  negative amount survives the two conversions and reaches the wallet as such.\<close>

theorem cli_Spend_sent:
  assumes "in_int64 amt" "cli_Spend sv peers now (addr # Itoa amt # rest) ws = Ret (r, ws', evs, msgs)"
  shows "(\<exists>a tx. r = Ok (hashString (e_lib (sv_te sv)) (txHash (e_lib (sv_te sv)) tx)) \<and>
        DecodeAddress_lib (sv_lib sv) addr = Some a \<and>
        buildTx (spv_of sv peers ws) (sv_perm sv) amt (Some a)
          (if ToLower (arg_or_empty 0 rest) = ''economic'' then ECONOMIC
           else if ToLower (arg_or_empty 0 rest) = ''priority'' then PRIOIRTY else NORMAL) None = Some (Ok tx) \<and>
        msgs = UpdateFilters # map (\<lambda>p. SendTx p tx) peers) \<or>
    (\<exists>e. r = Err e \<and> msgs = [])"
proof -
  have amt: "sint (word_of_int amt :: u64) = amt"
    using assms(1) by (simp add: in_int64_def signed_of_int signed_take_bit_int_eq_self)
  have "arg_or_empty 2 (addr # Itoa amt # rest) = arg_or_empty 0 rest" by (simp add: arg_or_empty_def numeral_2_eq_2)
  then have s: "rpc_Spend sv peers now addr (word_of_int amt) (cli_feeLevel (arg_or_empty 0 rest)) ws = Ret (r, ws', evs, msgs)"
    using assms by (simp add: cli_Spend_def checked_def of_lib_def Atoi_Itoa)
  show ?thesis using rpc_Spend_cases [OF s] unfolding amt cli_fee by auto
qed

section \<open>Witnesses\<close>

theorem cli_tx_status_witness:
  "\<exists>pb. rpc_tx ex_server (zero_Txn\<lparr>txn_Height := 95\<rparr>) = Ok pb \<and> ct_Status (cli_tx 0 100 pb) = ''PENDING'' \<and>
     txn_Status (tx_status 0 100 (zero_Txn\<lparr>txn_Height := 95\<rparr>)) = ''CONFIRMED''"
proof -
  have t: "TimestampProto ex_server (txn_Timestamp (zero_Txn\<lparr>txn_Height := 95\<rparr>)) =
      Some (txn_Timestamp (zero_Txn\<lparr>txn_Height := 95\<rparr>) div nano, txn_Timestamp (zero_Txn\<lparr>txn_Height := 95\<rparr>) mod nano)"
    by (simp add: ex_server_def)
  then obtain pb where pb: "rpc_tx ex_server (zero_Txn\<lparr>txn_Height := 95\<rparr>) = Ok pb" by (simp add: rpc_tx_def of_lib_def)
  have "Confirmations (tx_status 0 100 (zero_Txn\<lparr>txn_Height := 95\<rparr>)) = 6"
    by (simp add: tx_status_def zero_Txn_def Let_def word_sle_eq word_sless_alt)
  with cli_tx_status [OF pb t, of 0 100] pb show ?thesis by auto
qed

theorem cli_Spend_sent_witness:
  "\<exists>e. cli_Spend ex_server [1] 0 [''q9'', Itoa (- 5)] ex_rpc_ws = Ret (Err e, ex_rpc_ws, [], [])"
proof -
  have a: "Atoi (Itoa (- 5)) = Some (- 5)" by (rule Atoi_Itoa) (simp add: in_int64_def)
  have n: "rpc_params ex_server = Ok RegressionNet" by (simp add: rpc_params_def ex_server_simps ex_server_net)
  have "buildTx (spv_of ex_server [1] ex_rpc_ws) (sv_perm ex_server) (- 5) (Some ex_rpc_addr) NORMAL None =
      Some (Err (ErrMsg ''Amount is below dust threshold''))"
    by (simp add: buildTx_def spv_of_def ex_server_def ex_build_def)
  then have "\<exists>r ws'. cli_Spend ex_server [1] 0 [''q9'', Itoa (- 5)] ex_rpc_ws = Ret (r, ws', [], []) \<and> ws' = ex_rpc_ws"
    using n by (simp add: cli_Spend_def checked_def a of_lib_def rpc_Spend_def cli_fee ToLower_def arg_or_empty_def map_go_def ex_server_simps
        serve_def Spend_def)
  then obtain r where r: "cli_Spend ex_server [1] 0 [''q9'', Itoa (- 5)] ex_rpc_ws = Ret (r, ex_rpc_ws, [], [])" by blast
  have "in_int64 (- 5)" by (simp add: in_int64_def)
  from cli_Spend_sent [OF this r] r show ?thesis by auto
qed

end
