(* ===== verification/Start_Cmd.thy ===== *)
theory Start_Cmd
  imports Wallet_Ops
begin

text \<open>
  Starting the wallet, the command \<open>start\<close> of \<^verbatim>\<open>src/cmd/bitcoincash/main.go\<close> up to the running wallet: the options, the
  settings file and the database of the data directory give the configuration, the wallet is created, and its
  mnemonic and creation date are written back.  Resolving an address, the Tor daemon, the parsing of
  a URL or a date, and whether a file can be created are fields of the record \<open>start_lib\<close>.  The window
  that follows is in \<open>Window_App\<close>.
\<close>

section \<open>The model\<close>

record fee_settings =
  fs_Priority :: u64
  fs_Normal :: u64
  fs_Economic :: u64

record Fees = fee_settings +
  fs_MaxFee :: u64

record Settings =
  st_FiatCode :: string
  st_FiatSymbol :: string
  st_FeeLevel :: string
  st_SelectBox :: string
  st_BitcoinUnit :: string
  st_DecimalPlaces :: int
  st_TrustedPeer :: string
  st_Proxy :: string
  st_Fees :: Fees

text \<open>The settings file: none, one that does not decode, with what decoding it leaves in the struct, or the settings.\<close>

datatype settings_file = NoFile | BadFile Settings | GoodFile Settings

record start_opts =
  o_Testnet :: bool
  o_Regtest :: bool
  o_Mnemonic :: string
  o_WalletCreationDate :: string
  o_TrustedPeer :: string
  o_Tor :: bool
  o_FeeAPI :: string
  o_MaxFee :: u64
  o_Fees :: fee_settings
  o_useDefaults :: bool

record start_lib =
  sl_params :: "net \<Rightarrow> chain_params"
  sl_genesis :: "net \<Rightarrow> BlockHeader"
  sl_ParseTime :: "string \<Rightarrow> go_time option"
  sl_Resolve :: "string \<Rightarrow> bool"
  sl_Tor :: bool
  sl_url :: "string \<Rightarrow> bool"
  sl_version_file :: bool
  sl_settings_file :: bool

definition default_fees :: fee_settings where
  "default_fees = \<lparr>fs_Priority = 2, fs_Normal = 1, fs_Economic = 1\<rparr>"

definition start_net :: "start_opts \<Rightarrow> net go" where
  "start_net x =
     (if o_Testnet x \<and> o_Regtest x then Err (ErrMsg ''Invalid combination of testnet and regtest modes'')
      else Ok (if o_Regtest x then RegressionNet else if o_Testnet x then TestNet3 else MainNet))"

definition check :: "bool \<Rightarrow> error \<Rightarrow> unit go" where
  "check b e = (if b then Ok () else Err e)"

definition start_options :: "start_lib \<Rightarrow> start_opts \<Rightarrow> net go" where
  "start_options li x =
     go_bind (start_net x) (\<lambda>net.
     go_bind (check (o_TrustedPeer x = '''' \<or> sl_Resolve li (o_TrustedPeer x)) LibError) (\<lambda>_.
     go_bind (check (\<not> o_Tor x \<or> sl_Tor li) (ErrMsg ''Tor daemon not found'')) (\<lambda>_.
     go_bind (check (o_FeeAPI x = '''' \<or> sl_url li (o_FeeAPI x)) LibError) (\<lambda>_. Ok net))))"

text \<open>The mnemonic of the database wins over that of the options.\<close>

definition start_mnemonic :: "start_opts \<Rightarrow> sqldb \<Rightarrow> string" where
  "start_mnemonic x db = (let mn = fst (GetMnemonic db) in if mn \<noteq> '''' then mn else o_Mnemonic x)"

text \<open>The units of the currency this wallet was derived from.\<close>

definition cash_unit :: "Settings \<Rightarrow> Settings" where
  "cash_unit s =
     s\<lparr>st_BitcoinUnit :=
         (if st_BitcoinUnit s = ''BTC'' then ''BCH'' else if st_BitcoinUnit s = ''mBTC'' then ''mBCH'' else st_BitcoinUnit s)\<rparr>"

definition default_settings :: "fee_settings \<Rightarrow> Settings" where
  "default_settings f =
     \<lparr>st_FiatCode = ''USD'', st_FiatSymbol = ''$'', st_FeeLevel = ''priority'', st_SelectBox = ''bitcoin'', st_BitcoinUnit = ''BCH'',
      st_DecimalPlaces = 5, st_TrustedPeer = '''', st_Proxy = '''',
      st_Fees = \<lparr>fs_Priority = fs_Priority f, fs_Normal = fs_Normal f, fs_Economic = fs_Economic f, fs_MaxFee = 0\<rparr>\<rparr>"

text \<open>A settings file that cannot be read is written anew from the fees of the configuration.\<close>

definition start_settings :: "start_lib \<Rightarrow> start_opts \<Rightarrow> settings_file \<Rightarrow> Settings go \<times> settings_file" where
  "start_settings li x sf =
     (case sf of
        NoFile \<Rightarrow>
          (let s = default_settings (if o_useDefaults x then default_fees else o_Fees x) in
           if sl_settings_file li then (Ok s, GoodFile s) else (Err LibError, NoFile))
      | BadFile s \<Rightarrow> (Err LibError, BadFile s)
      | GoodFile s \<Rightarrow> (Ok (cash_unit s), GoodFile s))"

definition start_checks :: "start_lib \<Rightarrow> start_opts \<Rightarrow> Settings \<Rightarrow> sqldb \<Rightarrow> go_time go" where
  "start_checks li x s db =
     go_bind (check (st_TrustedPeer s = '''' \<or> sl_Resolve li (st_TrustedPeer s)) LibError) (\<lambda>_.
     go_bind (check (st_Proxy s = '''' \<or> sl_url li (''socks5://'' @ st_Proxy s)) LibError) (\<lambda>_.
       if o_WalletCreationDate x \<noteq> ''''
       then (case sl_ParseTime li (o_WalletCreationDate x) of
               None \<Rightarrow> Err (ErrMsg ''Wallet creation date timestamp must be in RFC3339 format'')
             | Some t \<Rightarrow> Ok t)
       else Ok (fst (GetCreationDate (sl_ParseTime li) db))))"

definition start_save :: "'k seed_lib \<Rightarrow> ('k, 'h) new_wallet \<Rightarrow> sqldb \<Rightarrow> error option \<times> sqldb" where
  "start_save sl w db =
     (case SetMnemonic (nw_mnemonic w) db of
        (Some e, db1) \<Rightarrow> (Some e, db1)
      | (None, db1) \<Rightarrow> SetCreationDate (FormatTime sl) (nw_creationDate w) db1)"

text \<open>The end of the command: the error of the wallet, or its mnemonic and date in the database.\<close>

fun start_finish ::
    "'k seed_lib \<Rightarrow> settings_file \<Rightarrow> ('k, 'h) new_wallet go \<times> sqldb \<times> 'h \<Rightarrow> (('k, 'h) new_wallet go \<times> settings_file \<times> sqldb \<times> 'h) run" where
  "start_finish sl sf1 (Panic, db1, h1) = Panics"
| "start_finish sl sf1 (Err e, db1, h1) = Ret (Err e, sf1, db1, h1)"
| "start_finish sl sf1 (Ok w, db1, h1) =
     (case start_save sl w db1 of
        (Some e, db2) \<Rightarrow> Ret (Err e, sf1, db2, h1)
      | (None, db2) \<Rightarrow> Ret (Ok w, sf1, db2, h1))"

definition Start_Execute ::
    "start_lib \<Rightarrow> 'k seed_lib \<Rightarrow> script_lib \<Rightarrow> 'k hd_lib \<Rightarrow> KeyPurpose list \<Rightarrow> wire_lib \<Rightarrow> 'h headers_if \<Rightarrow> header_lib \<Rightarrow> pow_lib \<Rightarrow>
     error option \<Rightarrow> go_time \<Rightarrow> int \<Rightarrow> start_opts \<Rightarrow> settings_file \<Rightarrow> sqldb \<Rightarrow> 'h \<Rightarrow>
     (('k, 'h) new_wallet go \<times> settings_file \<times> sqldb \<times> 'h) run" where
  "Start_Execute li sl scl kl order lib hs hl pow peers now rnd x sf db h =
     (case go_bind (start_options li x) (\<lambda>net. go_bind (check (sl_version_file li) LibError) (\<lambda>_. Ok net)) of
        Panic \<Rightarrow> Panics
      | Err e \<Rightarrow> Ret (Err e, sf, db, h)
      | Ok net \<Rightarrow>
          (case start_settings li x sf of
             (Ok s, sf1) \<Rightarrow>
               (case start_checks li x s db of
                  Panic \<Rightarrow> Panics
                | Err e \<Rightarrow> Ret (Err e, sf1, db, h)
                | Ok creationDate \<Rightarrow>
                    run_bind (NewSPVWallet sl scl kl order lib hs hl pow (sl_genesis li net) (sl_params li net)
                        (o_TrustedPeer x \<noteq> '''' \<or> st_TrustedPeer s \<noteq> '''') peers now rnd
                        \<lparr>cf_Mnemonic = start_mnemonic x db, cf_CreationDate = creationDate, cf_AdditionalFilters = []\<rparr> db h)
                      (start_finish sl sf1))
           | (Err e, sf1) \<Rightarrow> Ret (Err e, sf1, db, h)
           | (Panic, _) \<Rightarrow> Panics))"

section \<open>Starting again\<close>

lemma wallet_keys_Ok:
  assumes "wallet_keys sl config0 now = Ok (config, mPriv, mPub)"
  shows "(cf_Mnemonic config0 \<noteq> '''' \<longrightarrow> config = config0) \<and> NewMaster sl (NewSeed sl (cf_Mnemonic config)) = Some mPriv \<and> Neuter sl mPriv = Some mPub"
  using assms unfolding wallet_keys_def by (cases "cf_Mnemonic config0 = ''''") (auto split: option.splits)

lemma NewSPVWallet_mnemonic:
  assumes "NewSPVWallet sl scl kl order lib hs hl pow genesis params trusted peers now rnd config0 db h = Ret (Ok w, db', h')"
  shows "(cf_Mnemonic config0 \<noteq> '''' \<longrightarrow> nw_mnemonic w = cf_Mnemonic config0 \<and> nw_creationDate w = cf_CreationDate config0) \<and>
    NewMaster sl (NewSeed sl (nw_mnemonic w)) = Some (nw_masterPrivateKey w) \<and> Neuter sl (nw_masterPrivateKey w) = Some (nw_masterPublicKey w)"
proof -
  obtain config mPriv mPub where k: "wallet_keys sl config0 now = Ok (config, mPriv, mPub)"
    using assms by (auto simp: NewSPVWallet_def split: go.splits)
  have "nw_mnemonic w = cf_Mnemonic config \<and> nw_creationDate w = cf_CreationDate config \<and> nw_masterPrivateKey w = mPriv \<and> nw_masterPublicKey w = mPub"
    using assms unfolding NewSPVWallet_def k by (auto simp: Let_def split: prod.splits option.splits go.splits)
  with wallet_keys_Ok [OF k] show ?thesis by auto
qed

text \<open>What a start that succeeds leaves behind.\<close>

lemma Start_Execute_Ok:
  assumes "Start_Execute li sl scl kl order lib hs hl pow peers now rnd x sf db h = Ret (Ok w, sf', db', h')"
  shows "(start_mnemonic x db \<noteq> '''' \<longrightarrow> nw_mnemonic w = start_mnemonic x db) \<and>
    NewMaster sl (NewSeed sl (nw_mnemonic w)) = Some (nw_masterPrivateKey w) \<and> Neuter sl (nw_masterPrivateKey w) = Some (nw_masterPublicKey w) \<and>
    GetMnemonic db' = (nw_mnemonic w, None) \<and> map_of (t_config db') ''creationDate'' = Some (FormatTime sl (nw_creationDate w)) \<and>
    (start_mnemonic x db \<noteq> '''' \<and> o_WalletCreationDate x = '''' \<longrightarrow> nw_creationDate w = fst (GetCreationDate (sl_ParseTime li) db))"
proof -
  let ?new = "\<lambda>net s t. NewSPVWallet sl scl kl order lib hs hl pow (sl_genesis li net) (sl_params li net)
      (o_TrustedPeer x \<noteq> [] \<or> st_TrustedPeer s \<noteq> []) peers now rnd
      \<lparr>cf_Mnemonic = start_mnemonic x db, cf_CreationDate = t, cf_AdditionalFilters = []\<rparr> db h"
  obtain net s sf1 t where n: "start_checks li x s db = Ok t" "run_bind (?new net s t) (start_finish sl sf1) = Ret (Ok w, sf', db', h')"
    using assms unfolding Start_Execute_def by (cases "start_settings li x sf") (auto split: go.splits)
  then obtain r db1 h1 where r: "?new net s t = Ret (r, db1, h1)" "start_finish sl sf1 (r, db1, h1) = Ret (Ok w, sf', db', h')"
    by (auto simp only: run_bind_Ret)
  then obtain w' where w': "r = Ok w'" by (cases r) auto
  then have "w' = w" "h1 = h'" "start_save sl w db1 = (None, db')"
    using r(2) by (cases "start_save sl w' db1"; auto split: option.splits)+
  with r(1) w' n(1) have a: "start_checks li x s db = Ok t" "?new net s t = Ret (Ok w, db1, h')" "start_save sl w db1 = (None, db')" by simp_all
  have "o_WalletCreationDate x = '''' \<longrightarrow> t = fst (GetCreationDate (sl_ParseTime li) db)"
    using a(1) by (auto simp: start_checks_def check_def split: if_splits)
  with NewSPVWallet_mnemonic [OF a(2)] a(3) show ?thesis
    by (auto simp: start_save_def SetMnemonic_def SetCreationDate_def GetMnemonic_def config_put_def map_of_upsert)
qed

text \<open>Property C14. A wallet that is started again is the same wallet: whatever options and clock it is started with, as long as the
  table of the configuration is as the first start left it and the mnemonic is not empty, the mnemonic and the
  master keys are those of the first start; without a date among the options so is the creation date, to the precision of
  its text form.\<close>

theorem restart_same_wallet:
  assumes "Start_Execute li sl scl kl order lib hs hl pow peers now rnd x sf db h = Ret (Ok w, sf', db', h')" "nw_mnemonic w \<noteq> ''''"
    "t_config db2 = t_config db'" "NewSeed sl2 = NewSeed sl" "NewMaster sl2 = NewMaster sl" "Neuter sl2 = Neuter sl"
    "Start_Execute li sl2 scl2 kl2 order2 lib2 hs2 hl2 pow2 peers2 now2 rnd2 x2 sf2 db2 h2 = Ret (Ok w2, sf2', db2', h2')"
  shows "nw_mnemonic w2 = nw_mnemonic w \<and> nw_masterPrivateKey w2 = nw_masterPrivateKey w \<and> nw_masterPublicKey w2 = nw_masterPublicKey w \<and>
    (o_WalletCreationDate x2 = '''' \<longrightarrow>
      nw_creationDate w2 = (case sl_ParseTime li (FormatTime sl (nw_creationDate w)) of None \<Rightarrow> 0 | Some t \<Rightarrow> t))"
proof -
  note first = Start_Execute_Ok [OF assms(1)]
  note second = Start_Execute_Ok [OF assms(7)]
  have "GetMnemonic db2 = GetMnemonic db'" by (simp add: GetMnemonic_def assms(3))
  then have m: "start_mnemonic x2 db2 = nw_mnemonic w" using first assms(2) by (simp add: start_mnemonic_def)
  have d: "GetCreationDate (sl_ParseTime li) db2 = (case sl_ParseTime li (FormatTime sl (nw_creationDate w)) of None \<Rightarrow> (0, Some LibError) | Some t \<Rightarrow> (t, None))"
    using first by (simp add: GetCreationDate_def assms(3))
  show ?thesis
    using first second assms(2,4-6) by (auto simp: m d split: option.splits)
qed

section \<open>Witness\<close>

definition ex_start :: start_lib where
  "ex_start = \<lparr>sl_params = (\<lambda>_. ex_params), sl_genesis = (\<lambda>_. ex_header 7 0), sl_ParseTime = (\<lambda>s. Some 40), sl_Resolve = (\<lambda>_. True), sl_Tor = False,
     sl_url = (\<lambda>_. True), sl_version_file = True, sl_settings_file = True\<rparr>"

definition ex_opts :: "string \<Rightarrow> start_opts" where
  "ex_opts m = \<lparr>o_Testnet = False, o_Regtest = True, o_Mnemonic = m, o_WalletCreationDate = [], o_TrustedPeer = [], o_Tor = False,
     o_FeeAPI = [], o_MaxFee = 5, o_Fees = default_fees, o_useDefaults = True\<rparr>"

abbreviation ex_start_run ::
    "u32 list seed_lib \<Rightarrow> string \<Rightarrow> sqldb \<Rightarrow> ((u32 list, ex_hdb_t) new_wallet go \<times> settings_file \<times> sqldb \<times> ex_hdb_t) run" where
  "ex_start_run sl m db \<equiv> Start_Execute ex_start sl ex_sl ex_hd [0, 1] ex_lib ex_if ex_hl ex_pow None 50 3 (ex_opts m) NoFile db
     (NewHeaderDB ex_hl ex_ol ex_bl (bk_New ex_bl) (bk_New ex_bl))"

lemma ex_start_run:
  assumes "NewMaster sl = (\<lambda>_. Some [])" "Neuter sl = Some" "NewMnemonic sl = Some g" "sql_inv ex_lib db" "v_keys (sql_view ex_lib db) = []"
  shows "\<exists>w sf db' h. ex_start_run sl m db = Ret (Ok w, sf, db', h) \<and>
    nw_mnemonic w = (if start_mnemonic (ex_opts m) db = [] then g else start_mnemonic (ex_opts m) db)"
proof -
  let ?c = "\<lambda>t. \<lparr>cf_Mnemonic = start_mnemonic (ex_opts m) db, cf_CreationDate = t, cf_AdditionalFilters = []\<rparr>"
  obtain s sf t where s: "start_settings ex_start (ex_opts m) NoFile = (Ok s, sf)" "start_checks ex_start (ex_opts m) s db = Ok t" "st_TrustedPeer s = []"
    by (simp add: start_settings_def default_settings_def start_checks_def ex_start_def ex_opts_def check_def Let_def)
  have o: "start_options ex_start (ex_opts m) = Ok RegressionNet"
    by (simp add: start_options_def start_net_def ex_start_def ex_opts_def check_def)
  obtain config where k: "wallet_keys sl (?c t) 50 = Ok (config, [], [])"
    "cf_Mnemonic config = (if start_mnemonic (ex_opts m) db = [] then g else start_mnemonic (ex_opts m) db)"
    by (cases "start_mnemonic (ex_opts m) db = []") (simp_all add: wallet_keys_def assms(1-3))
  have cp: "ex_cp = GetCheckpoint (ex_header 7 0) (cf_CreationDate config) ex_params" by (simp add: GetCheckpoint_def ex_params_def)
  have km: "ex_km = \<lparr>internalKey = internalKey ex_km, externalKey = externalKey ex_km\<rparr>" by simp
  obtain w db1 h where w: "NewSPVWallet sl ex_sl ex_hd [0, 1] ex_lib ex_if ex_hl ex_pow (ex_header 7 0) ex_params False None 50 3 (?c t) db
      (NewHeaderDB ex_hl ex_ol ex_bl (bk_New ex_bl) (bk_New ex_bl)) = Ret (Ok w, db1, h)" "nw_mnemonic w = cf_Mnemonic config"
    using NewSPVWallet_new [OF ex_lib_ok ex_ol_ok ex_bl_ok ex_hl_ok k(1) ex_Bip44 km ex_supply _ _ cp ex_cp_ok assms(4,5),
        of "[0, 1]" ex_sl ex_pow False 3] by auto
  have e: "sl_version_file ex_start" "sl_genesis ex_start RegressionNet = ex_header 7 0" "sl_params ex_start RegressionNet = ex_params"
    "o_TrustedPeer (ex_opts m) = []" by (simp_all add: ex_start_def ex_opts_def)
  show ?thesis
    using w k(2) by (simp add: Start_Execute_def o s e check_def start_save_def SetMnemonic_def SetCreationDate_def)
qed

theorem restart_same_wallet_witness:
  "\<exists>w sf db h w2 sf2 db2 h2. ex_start_run ex_seed [] (initDatabaseTables (\<lambda>n. 7)) = Ret (Ok w, sf, db, h) \<and>
     ex_start_run (ex_seed\<lparr>NewMnemonic := Some ''zoo''\<rparr>) ''abandon'' ((initDatabaseTables (\<lambda>n. 7))\<lparr>t_config := t_config db\<rparr>) = Ret (Ok w2, sf2, db2, h2) \<and>
     nw_mnemonic w2 = ''legal winner''"
proof -
  let ?db0 = "initDatabaseTables (\<lambda>n. 7)"
  have v: "v_keys (sql_view ex_lib ?db0) = []" by (simp add: sql_view_def initDatabaseTables_def)
  have m: "start_mnemonic (ex_opts []) ?db0 = []" by (simp add: start_mnemonic_def GetMnemonic_def initDatabaseTables_def ex_opts_def)
  obtain w sf db h where w: "ex_start_run ex_seed [] ?db0 = Ret (Ok w, sf, db, h)" "nw_mnemonic w = ''legal winner''"
    using ex_start_run [OF _ _ _ sql_inv_init [OF ex_lib_ok] v, of ex_seed "''legal winner''" "[]"] m by (auto simp: ex_seed_def)
  let ?db2 = "?db0\<lparr>t_config := t_config db\<rparr>"
  have "sql_inv ex_lib ?db2 \<longleftrightarrow> sql_inv ex_lib ?db0" "sql_view ex_lib ?db2 = sql_view ex_lib ?db0"
    by (simp_all add: sql_inv_def sql_view_def represents_def UtxoDB_GetAll_def StxoDB_GetAll_def WatchedScriptsDB_GetAll_def)
  then have i: "sql_inv ex_lib ?db2" "v_keys (sql_view ex_lib ?db2) = []" using sql_inv_init [OF ex_lib_ok] v by simp_all
  obtain w2 sf2 db2 h2 where w2: "ex_start_run (ex_seed\<lparr>NewMnemonic := Some ''zoo''\<rparr>) ''abandon'' ?db2 = Ret (Ok w2, sf2, db2, h2)"
    using ex_start_run [OF _ _ _ i, of "ex_seed\<lparr>NewMnemonic := Some ''zoo''\<rparr>" "''zoo''" "''abandon''"] by (auto simp: ex_seed_def)
  have "nw_mnemonic w2 = nw_mnemonic w"
    by (rule restart_same_wallet [OF w(1) _ _ _ _ _ w2, THEN conjunct1]) (simp_all add: w(2))
  with w w2 show ?thesis by auto
qed

end
