(* ===== verification/Wallet_Life.thy ===== *)
theory Wallet_Life
  imports Spv_Wallet Peer_Manager
begin

text \<open>
  The life of a wallet: \<open>Start\<close> and \<open>Close\<close> of \<^verbatim>\<open>src/wallet.go\<close> with what they call, \<open>Start\<close> and \<open>Stop\<close> of
  the peer manager and of the wire service, and \<open>Close\<close> of the block chain and of the header database.  These run in
  several goroutines at once, so here the locks are part of the state: that of the block chain (\<open>l_chain\<close>), which a
  \<open>CommitHeader\<close> holds until it returns, and that of the header database (\<open>l_store\<close>), which every operation but
  \<open>Close\<close> gives back before it ends.  A goroutine is a program counter: one for each call of \<open>Close\<close>
  (\<open>close_pc\<close>) and one for each start of the wire service (\<open>wire_pc\<close>).  A step that needs a lock another one holds is
  not possible.
\<close>

section \<open>The model\<close>

datatype quit_chan = NilChan | OpenChan | ClosedChan

datatype chain_owner = Committing | Closing

datatype close_pc = CTest | CPeers | CChain | CStore | CFile | CSync | CQuit | CFlag | CDone | CSkip

datatype wire_pc = WMake | WBest | WSelect | WHandle | WStopped

record ('s, 'm, 'b, 'a) life =
  l_running :: bool
  l_pm :: "'a PeerManager"
  l_chain :: "chain_owner option"
  l_store :: bool
  l_open :: bool
  l_quit :: quit_chan
  l_ws :: "('s, ('m, 'b) HeaderDB) WireService"
  l_wires :: "wire_pc list"
  l_starts :: nat
  l_closers :: "close_pc list"

text \<open>A wallet as \<open>NewSPVWallet\<close> returns it.\<close>

definition new_life :: "'a PeerManager \<Rightarrow> ('s, ('m, 'b) HeaderDB) WireService \<Rightarrow> ('s, 'm, 'b, 'a) life" where
  "new_life pm ws =
     \<lparr>l_running = False, l_pm = pm, l_chain = None, l_store = False, l_open = True, l_quit = NilChan, l_ws = ws,
      l_wires = [], l_starts = 0, l_closers = []\<rparr>"

text \<open>\<open>Start\<close> sets the flag and starts a goroutine for the wire service and one for the peer manager.\<close>

definition wallet_Start :: "('s, 'm, 'b, 'a) life \<Rightarrow> ('s, 'm, 'b, 'a) life" where
  "wallet_Start s = s\<lparr>l_running := True, l_wires := l_wires s @ [WMake], l_starts := Suc (l_starts s)\<rparr>"

text \<open>\<open>close\<close> of a channel that is nil or already closed panics.\<close>

definition close_quit :: "quit_chan \<Rightarrow> quit_chan run" where
  "close_quit q = (case q of OpenChan \<Rightarrow> Ret ClosedChan | _ \<Rightarrow> Panics)"

text \<open>One statement of \<open>Close\<close>; \<open>None\<close> when it waits for a lock, or is at its end.\<close>

fun close_step :: "close_pc \<Rightarrow> ('s, 'm, 'b, 'a) life \<Rightarrow> (close_pc \<times> ('s, 'm, 'b, 'a) life) run option" where
  "close_step CTest s = Some (Ret (if l_running s then CPeers else CSkip, s))"
| "close_step CPeers s = Some (Ret (CChain, s\<lparr>l_pm := fst (pm_Stop id (l_pm s))\<rparr>))"
| "close_step CChain s = (if l_chain s = None then Some (Ret (CStore, s\<lparr>l_chain := Some Closing\<rparr>)) else None)"
| "close_step CStore s = (if l_store s then None else Some (Ret (CFile, s\<lparr>l_store := True\<rparr>)))"
| "close_step CFile s = Some (Ret (CSync, s\<lparr>l_open := False\<rparr>))"
| "close_step CSync s = Some (Ret (CQuit, s\<lparr>l_ws := Stop (l_ws s)\<rparr>))"
| "close_step CQuit s = Some (run_bind (close_quit (l_quit s)) (\<lambda>q. Ret (CFlag, s\<lparr>l_quit := q\<rparr>)))"
| "close_step CFlag s = Some (Ret (CDone, s\<lparr>l_running := False\<rparr>))"
| "close_step CDone s = None"
| "close_step CSkip s = None"

text \<open>
  The goroutine of the wire service: \<open>stop\<close> says which case the select takes, and a handler ends when the step at
  \<open>WHandle\<close> is taken; what it does to the header database are steps of \<open>store_step\<close>.
\<close>

fun wire_step :: "bool \<Rightarrow> wire_pc \<Rightarrow> ('s, 'm, 'b, 'a) life \<Rightarrow> (wire_pc \<times> ('s, 'm, 'b, 'a) life) option" where
  "wire_step stop WMake s = Some (WBest, s\<lparr>l_quit := OpenChan\<rparr>)"
| "wire_step stop WBest s = (if l_store s then None else Some (WSelect, s))"
| "wire_step stop WSelect s =
     (if stop then (if l_quit s = ClosedChan then Some (WStopped, s) else None) else Some (WHandle, s))"
| "wire_step stop WHandle s = Some (WSelect, s)"
| "wire_step stop WStopped s = None"

text \<open>An operation on the header database, under its lock; \<open>OpWrite i\<close> is the write of a goroutine of \<open>Put\<close>.\<close>

datatype store_op = OpPut StoredHeader bool | OpDeleteAfter u32 | OpWrite nat

definition store_step ::
    "header_lib \<Rightarrow> 'm omap_lib \<Rightarrow> 'b bolt_lib \<Rightarrow> store_op \<Rightarrow> ('s, 'm, 'b, 'a) life \<Rightarrow> ('s, 'm, 'b, 'a) life go option" where
  "store_step hl ol bl op s =
     (if l_store s then None
      else Some (go_bind
        (case op of
           OpPut sh best \<Rightarrow> Ok (HeaderDB_Put hl ol sh best (ws_h (l_ws s)))
         | OpDeleteAfter height \<Rightarrow> Ok (snd (HeaderDB_DeleteAfter hl bl height (ws_h (l_ws s))))
         | OpWrite i \<Rightarrow> run_pending hl bl i (ws_h (l_ws s)))
        (\<lambda>h. Ok (s\<lparr>l_ws := (l_ws s)\<lparr>ws_h := h\<rparr>\<rparr>))))"

inductive life_step ::
    "header_lib \<Rightarrow> 'm omap_lib \<Rightarrow> 'b bolt_lib \<Rightarrow> ('a PeerManager \<Rightarrow> 'a PeerManager) \<Rightarrow>
     ('s, 'm, 'b, 'a) life \<Rightarrow> ('s, 'm, 'b, 'a) life \<Rightarrow> bool"
  for hl :: header_lib and ol :: "'m omap_lib" and bl :: "'b bolt_lib" and up :: "'a PeerManager \<Rightarrow> 'a PeerManager" where
  start: "life_step hl ol bl up s (wallet_Start s)"
| peers: "l_starts s = Suc n \<Longrightarrow> life_step hl ol bl up s (s\<lparr>l_starts := n, l_pm := up (l_pm s)\<rparr>)"
| call: "life_step hl ol bl up s (s\<lparr>l_closers := l_closers s @ [CTest]\<rparr>)"
| close: "i < length (l_closers s) \<Longrightarrow> close_step (l_closers s ! i) s = Some (Ret (pc, s')) \<Longrightarrow>
    life_step hl ol bl up s (s'\<lparr>l_closers := (l_closers s)[i := pc]\<rparr>)"
| wire: "i < length (l_wires s) \<Longrightarrow> wire_step stop (l_wires s ! i) s = Some (pc, s') \<Longrightarrow>
    life_step hl ol bl up s (s'\<lparr>l_wires := (l_wires s)[i := pc]\<rparr>)"
| commit: "l_chain s = None \<Longrightarrow> life_step hl ol bl up s (s\<lparr>l_chain := Some Committing\<rparr>)"
| committed: "l_chain s = Some Committing \<Longrightarrow> life_step hl ol bl up s (s\<lparr>l_chain := None\<rparr>)"
| store: "store_step hl ol bl op s = Some (Ok s') \<Longrightarrow> life_step hl ol bl up s s'"

inductive life_reach ::
    "header_lib \<Rightarrow> 'm omap_lib \<Rightarrow> 'b bolt_lib \<Rightarrow> ('a PeerManager \<Rightarrow> 'a PeerManager) \<Rightarrow> ('s, 'm, 'b, 'a) life \<Rightarrow> bool"
  for hl :: header_lib and ol :: "'m omap_lib" and bl :: "'b bolt_lib" and up :: "'a PeerManager \<Rightarrow> 'a PeerManager" where
  new: "life_reach hl ol bl up (new_life pm ws)"
| step: "life_reach hl ol bl up s \<Longrightarrow> life_step hl ol bl up s s' \<Longrightarrow> life_reach hl ol bl up s'"

text \<open>A call of \<open>Close\<close> that no other goroutine interrupts.\<close>

fun left_of :: "close_pc \<Rightarrow> nat" where
  "left_of CTest = 8" | "left_of CPeers = 7" | "left_of CChain = 6" | "left_of CStore = 5" | "left_of CFile = 4"
| "left_of CSync = 3" | "left_of CQuit = 2" | "left_of CFlag = 1" | "left_of CDone = 0" | "left_of CSkip = 0"

lemma close_step_left: "close_step pc s = Some (Ret (pc', s')) \<Longrightarrow> left_of pc' < left_of pc"
  by (cases pc) (auto split: if_splits simp: run_bind_Ret)

function close_run :: "close_pc \<Rightarrow> ('s, 'm, 'b, 'a) life \<Rightarrow> ('s, 'm, 'b, 'a) life run" where
  "close_run pc s =
     (if left_of pc = 0 then Ret s
      else case close_step pc s of
             None \<Rightarrow> Hangs
           | Some (Ret (pc', s')) \<Rightarrow> close_run pc' s'
           | Some Panics \<Rightarrow> Panics
           | Some Hangs \<Rightarrow> Hangs)"
  by pat_completeness auto
termination by (relation "measure (\<lambda>(pc, s). left_of pc)") (auto dest: close_step_left)

declare close_run.simps [simp del]

definition wallet_Close :: "('s, 'm, 'b, 'a) life \<Rightarrow> ('s, 'm, 'b, 'a) life run" where
  "wallet_Close s = close_run CTest s"

section \<open>The invariant\<close>

fun rank :: "close_pc \<Rightarrow> nat" where
  "rank CSkip = 0"
| "rank pc = 8 - left_of pc"

text \<open>The number of calls that have got at least this far.\<close>

definition above :: "nat \<Rightarrow> ('s, 'm, 'b, 'a) life \<Rightarrow> nat" where
  "above k s = length (filter (\<lambda>pc. k \<le> rank pc) (l_closers s))"

definition life_inv :: "('s, 'm, 'b, 'a) life \<Rightarrow> bool" where
  "life_inv s \<longleftrightarrow>
     above 3 s \<le> 1 \<and> (l_chain s = Some Closing \<longleftrightarrow> 0 < above 3 s) \<and> (l_store s \<longleftrightarrow> 0 < above 4 s) \<and>
     (\<not> l_open s \<longleftrightarrow> 0 < above 5 s) \<and> (l_quit s = ClosedChan \<longrightarrow> 0 < above 7 s) \<and>
     (l_quit s = NilChan \<longrightarrow> (\<forall>w \<in> set (l_wires s). w = WMake))"

lemma length_filter_update:
  "i < length xs \<Longrightarrow>
   length (filter P (xs[i := y])) + (if P (xs ! i) then 1 else 0) = length (filter P xs) + (if P y then 1 else 0)"
proof (induction xs arbitrary: i)
  case (Cons x xs)
  then show ?case by (cases i) force+
qed simp

lemma above_update:
  assumes "i < length (l_closers s)"
    "rank pc = Suc (rank (l_closers s ! i)) \<or> rank pc = 0 \<and> rank (l_closers s ! i) = 0"
  shows "above k (s'\<lparr>l_closers := (l_closers s)[i := pc]\<rparr>) = above k s + (if 0 < rank pc \<and> k = rank pc then 1 else 0)"
  using length_filter_update [OF assms(1), of "\<lambda>pc. k \<le> rank pc" pc] assms(2)
  by (cases "k = rank pc") (auto simp: above_def le_Suc_eq split: if_splits)

lemma above_fields [simp]:
  "above k (s\<lparr>l_running := a\<rparr>) = above k s" "above k (s\<lparr>l_pm := b\<rparr>) = above k s" "above k (s\<lparr>l_chain := c\<rparr>) = above k s"
  "above k (s\<lparr>l_store := a\<rparr>) = above k s" "above k (s\<lparr>l_open := a\<rparr>) = above k s" "above k (s\<lparr>l_quit := q\<rparr>) = above k s"
  "above k (s\<lparr>l_ws := w\<rparr>) = above k s" "above k (s\<lparr>l_wires := ws\<rparr>) = above k s" "above k (s\<lparr>l_starts := n\<rparr>) = above k s"
  by (simp_all add: above_def)

lemma close_step_fields:
  assumes "close_step pc0 s = Some (Ret (pc, s'))"
  shows "l_chain s' = (if pc = CStore then Some Closing else l_chain s)" "pc = CStore \<Longrightarrow> l_chain s = None"
    "l_store s' \<longleftrightarrow> l_store s \<or> pc = CFile" "pc = CFile \<Longrightarrow> \<not> l_store s" "l_open s' \<longleftrightarrow> l_open s \<and> pc \<noteq> CSync"
    "l_quit s' = (if pc = CFlag then ClosedChan else l_quit s)" "l_wires s' = l_wires s" "ws_h (l_ws s') = ws_h (l_ws s)"
    "rank pc = Suc (rank pc0) \<or> rank pc = 0 \<and> rank pc0 = 0"
  using assms by (cases pc0; auto simp: run_bind_Ret close_quit_def Stop_def split: if_splits quit_chan.splits; fail)+

lemma close_step_inv:
  assumes "life_inv s" "i < length (l_closers s)" "close_step (l_closers s ! i) s = Some (Ret (pc, s'))"
  shows "life_inv (s'\<lparr>l_closers := (l_closers s)[i := pc]\<rparr>)"
proof -
  note f = close_step_fields [OF assms(3)]
  show ?thesis
    using assms(1) f(2,4) unfolding life_inv_def above_update [OF assms(2) f(9)]
    by (cases pc) (simp_all add: f(1,3,5-7))
qed

lemma wire_step_fields:
  assumes "wire_step stop pc0 s = Some (pc, s')"
  shows "s' = s \<and> pc0 \<noteq> WMake \<or> s' = s\<lparr>l_quit := OpenChan\<rparr> \<and> pc0 = WMake"
  using assms by (cases pc0; simp split: if_splits)

lemma wire_step_inv:
  assumes "life_inv s" "i < length (l_wires s)" "wire_step stop (l_wires s ! i) s = Some (pc, s')"
  shows "life_inv (s'\<lparr>l_wires := (l_wires s)[i := pc]\<rparr>)"
proof (cases "l_wires s ! i = WMake")
  case True
  with wire_step_fields [OF assms(3)] assms(1) show ?thesis by (simp add: life_inv_def)
next
  case False
  then have "l_quit s \<noteq> NilChan" using assms(1,2) by (auto simp: life_inv_def)
  with wire_step_fields [OF assms(3)] False assms(1) show ?thesis by (simp add: life_inv_def)
qed

lemma life_reach_inv: "life_reach hl ol bl up s \<Longrightarrow> life_inv s"
proof (induction rule: life_reach.induct)
  case (new pm ws)
  then show ?case by (simp add: life_inv_def new_life_def above_def)
next
  case (step s s')
  from step.hyps(2) step.IH show ?case
  proof cases
    case (close i pc s')
    with close_step_inv step.IH show ?thesis by blast
  next
    case (wire i stop pc s')
    with wire_step_inv step.IH show ?thesis by blast
  next
    case call
    with step.IH show ?thesis by (simp add: life_inv_def above_def)
  next
    case (store op)
    then obtain h where "s' = s\<lparr>l_ws := (l_ws s)\<lparr>ws_h := h\<rparr>\<rparr>" by (auto simp: store_step_def go_bind_Ok split: if_splits)
    with step.IH show ?thesis by (simp add: life_inv_def)
  qed (simp_all add: life_inv_def wallet_Start_def above_def)
qed

section \<open>Closing\<close>

lemma two_above:
  assumes "i < length (l_closers s)" "k \<le> rank (l_closers s ! i)" "rank (l_closers s ! i) < m" "0 < above m s"
  shows "1 < above k s"
proof -
  let ?S = "{j. j < length (l_closers s) \<and> k \<le> rank (l_closers s ! j)}"
  obtain j where j: "j < length (l_closers s)" "m \<le> rank (l_closers s ! j)"
    using assms(4) by (fastforce simp: above_def filter_empty_conv in_set_conv_nth)
  then have "{i, j} \<subseteq> ?S" "i \<noteq> j" using assms by auto
  then have "2 \<le> card ?S" using card_mono [of ?S "{i, j}"] by simp
  then show ?thesis by (simp add: above_def length_filter_conv_card)
qed

text \<open>Property C15. Closing is safe however many goroutines close the wallet, start it or use it at the same time: at most one call
  ever gets past the lock of the block chain, the file is closed only while both locks are held, so
  that no operation finds it closed, and the quit channel is never closed twice.  The one way to crash is to close
  a wallet none of whose wire services has begun to run, since the channel is made there.\<close>

theorem Close_safe:
  assumes "life_reach hl ol bl up s"
  shows "length (filter (\<lambda>pc. 3 \<le> rank pc) (l_closers s)) \<le> 1 \<and>
    (\<not> l_open s \<longrightarrow> l_store s \<and> l_chain s = Some Closing) \<and>
    (\<forall>i < length (l_closers s). close_step (l_closers s ! i) s = Some Panics \<longrightarrow>
       l_quit s = NilChan \<and> (\<forall>w \<in> set (l_wires s). w = WMake))"
proof -
  note i = life_reach_inv [OF assms]
  have mono: "above 5 s \<le> above 4 s" "above 4 s \<le> above 3 s"
    by (simp_all add: above_def length_filter_conv_card card_mono Collect_mono_iff)
  have "l_quit s = NilChan" if p: "j < length (l_closers s)" "close_step (l_closers s ! j) s = Some Panics" for j
  proof -
    have pc: "l_closers s ! j = CQuit" "l_quit s \<noteq> OpenChan"
      using p(2) by (cases "l_closers s ! j"; auto simp: close_quit_def split: if_splits quit_chan.splits)+
    have "l_quit s \<noteq> ClosedChan"
      using two_above [OF p(1), of 3 7] i by (auto simp: pc life_inv_def)
    with pc(2) show ?thesis by (cases "l_quit s") auto
  qed
  then show ?thesis using i mono by (auto simp: life_inv_def above_def)
qed

text \<open>Property C32. A closed header database never changes again, whatever happens afterwards: its lock is not given back, so
  neither the file nor the cache changes, and the writes that \<open>Put\<close> had started and that were not
  done are never done; the file that the next start opens does not have them.\<close>

theorem closed_store_frozen:
  assumes "(life_step hl ol bl up)\<^sup>*\<^sup>* s s'" "l_store s"
  shows "l_store s' \<and> ws_h (l_ws s') = ws_h (l_ws s)"
  using assms
proof (induction rule: rtranclp_induct)
  case (step s1 s2)
  from step.hyps(2) step.IH [OF step.prems] show ?case
  proof cases
    case (close i pc s')
    with close_step_fields [OF close(3)] step.IH [OF step.prems] show ?thesis by simp
  next
    case (wire i stop pc s')
    with wire_step_fields [OF wire(3)] step.IH [OF step.prems] show ?thesis by auto
  qed (simp_all add: wallet_Start_def store_step_def)
qed simp

text \<open>A started wallet that nobody else closes or commits to is closed by one call: it returns, the peers are given
  up, the file is closed, and the loop of the wire service can end.\<close>

theorem Close_returns:
  assumes "l_running s" "l_chain s = None" "\<not> l_store s" "l_quit s = OpenChan"
  shows "wallet_Close s = Ret (s\<lparr>l_running := False, l_pm := (l_pm s)\<lparr>connectedPeers := []\<rparr>, l_chain := Some Closing, l_store := True,
      l_open := False, l_quit := ClosedChan, l_ws := (l_ws s)\<lparr>syncPeer := None\<rparr>\<rparr>)"
  unfolding wallet_Close_def using assms
  by (simp add: close_run.simps close_quit_def pm_Stop_def Stop_def)

text \<open>A closed wallet cannot be started again: the new wire service waits for ever for the lock of the header database, and
  so does the next \<open>Close\<close> for that of the block chain.\<close>

theorem restart_hangs:
  assumes "wallet_Close s = Ret s1" "l_running s"
  shows "wallet_Close (wallet_Start s1) = Hangs \<and> wire_step stop WBest (wallet_Start s1) = None"
proof -
  have "l_chain s = None \<and> \<not> l_store s \<and> l_quit s = OpenChan"
    using assms unfolding wallet_Close_def
    by (cases "l_chain s = None"; cases "l_store s"; cases "l_quit s") (simp_all add: close_run.simps close_quit_def)
  with Close_returns [OF assms(2)] assms(1) have "l_store s1" "l_chain s1 \<noteq> None" by auto
  then show ?thesis by (simp add: wallet_Close_def wallet_Start_def close_run.simps)
qed

section \<open>Witnesses\<close>

definition ex_life_pm :: "unit PeerManager" where
  "ex_life_pm = \<lparr>pm_addrs = (), sourceAddr = \<lparr>na_IP = ''0.0.0.0'', na_Port = 8333\<rparr>, trustedPeer = None, targetOutbound = 12, retryDuration = 5 * nano,
     pm_proxy = False, connectedPeers = [(7, 1)], msgChan = True, defaultPort = 8333, pm_DefaultPort = ''8333'', pm_DNSSeeds = []\<rparr>"

text \<open>A wallet over a header store with one write under way: it is started, its wire service makes the channel, and it is closed
  up to the locks and the file.\<close>

definition ex_life :: "(unit, (string, StoredHeader) alist, (bytes, bytes) alist, unit) life" where
  "ex_life = new_life ex_life_pm (NewWireService ex_ts0 () ex_hdb (\<lambda>_. 0))"

definition ex_closed :: "(unit, (string, StoredHeader) alist, (bytes, bytes) alist, unit) life" where
  "ex_closed = (wallet_Start ex_life)\<lparr>l_quit := OpenChan, l_wires := [WBest], l_pm := ex_life_pm\<lparr>connectedPeers := []\<rparr>,
     l_chain := Some Closing, l_store := True, l_open := False, l_closers := [CSync]\<rparr>"

lemma ex_closed_reach: "life_reach ex_hl ex_ol ex_bl id ex_closed"
proof -
  let ?R = "life_reach ex_hl ex_ol ex_bl id"
  have r0: "?R (wallet_Start ex_life)" unfolding ex_life_def by (intro life_reach.step [OF new start])
  have r1: "?R ((wallet_Start ex_life)\<lparr>l_quit := OpenChan, l_wires := [WBest]\<rparr>)"
    using life_reach.step [OF r0 wire [of 0 _ True]] by (simp add: wallet_Start_def ex_life_def new_life_def)
  have r2: "?R ((wallet_Start ex_life)\<lparr>l_quit := OpenChan, l_wires := [WBest], l_closers := [CTest]\<rparr>)"
    using life_reach.step [OF r1 call] by (simp add: wallet_Start_def ex_life_def new_life_def)
  note simps = wallet_Start_def ex_life_def new_life_def pm_Stop_def
  have r3: "?R ((wallet_Start ex_life)\<lparr>l_quit := OpenChan, l_wires := [WBest], l_closers := [CPeers]\<rparr>)"
    using life_reach.step [OF r2 close [of 0]] by (simp add: simps)
  have r4: "?R ((wallet_Start ex_life)\<lparr>l_quit := OpenChan, l_wires := [WBest], l_pm := ex_life_pm\<lparr>connectedPeers := []\<rparr>, l_closers := [CChain]\<rparr>)"
    using life_reach.step [OF r3 close [of 0]] by (simp add: simps)
  have r5: "?R ((wallet_Start ex_life)\<lparr>l_quit := OpenChan, l_wires := [WBest], l_pm := ex_life_pm\<lparr>connectedPeers := []\<rparr>,
      l_chain := Some Closing, l_closers := [CStore]\<rparr>)"
    using life_reach.step [OF r4 close [of 0]] by (simp add: simps)
  have r6: "?R ((wallet_Start ex_life)\<lparr>l_quit := OpenChan, l_wires := [WBest], l_pm := ex_life_pm\<lparr>connectedPeers := []\<rparr>,
      l_chain := Some Closing, l_store := True, l_closers := [CFile]\<rparr>)"
    using life_reach.step [OF r5 close [of 0]] by (simp add: simps)
  show ?thesis
    using life_reach.step [OF r6 close [of 0]] by (simp add: simps ex_closed_def)
qed

theorem Close_safe_witness:
  "life_reach ex_hl ex_ol ex_bl id ex_closed \<and> \<not> l_open ex_closed \<and> l_store ex_closed \<and> l_chain ex_closed = Some Closing"
proof -
  have "\<not> l_open ex_closed" by (simp add: ex_closed_def)
  with Close_safe [OF ex_closed_reach] ex_closed_reach show ?thesis by blast
qed

text \<open>The write is still waiting after another start and another call.\<close>

theorem closed_store_frozen_witness:
  "(life_step ex_hl ex_ol ex_bl id)\<^sup>*\<^sup>* ex_closed ((wallet_Start ex_closed)\<lparr>l_closers := [CSync, CTest]\<rparr>) \<and>
   pending (ws_h (l_ws ((wallet_Start ex_closed)\<lparr>l_closers := [CSync, CTest]\<rparr>))) = [(ex_sh 7 1000, True)]"
proof -
  have c: "l_closers (wallet_Start ex_closed) @ [CTest] = [CSync, CTest]" by (simp add: ex_closed_def wallet_Start_def)
  have "life_step ex_hl ex_ol ex_bl id (wallet_Start ex_closed) ((wallet_Start ex_closed)\<lparr>l_closers := [CSync, CTest]\<rparr>)"
    using call [of ex_hl ex_ol ex_bl id "wallet_Start ex_closed"] unfolding c .
  with start [of ex_hl ex_ol ex_bl id ex_closed]
  have r: "(life_step ex_hl ex_ol ex_bl id)\<^sup>*\<^sup>* ex_closed ((wallet_Start ex_closed)\<lparr>l_closers := [CSync, CTest]\<rparr>)" by force
  have p: "pending (NewHeaderDB ex_hl ex_ol ex_bl (bk_New ex_bl) (bk_New ex_bl)) = []"
    by (simp add: NewHeaderDB_def initializeCache_def split: go.split)
  have "ws_h (l_ws ((wallet_Start ex_closed)\<lparr>l_closers := [CSync, CTest]\<rparr>)) = ws_h (l_ws ex_closed)"
    by (rule closed_store_frozen [OF r, THEN conjunct2]) (simp add: ex_closed_def)
  also have "pending \<dots> = [(ex_sh 7 1000, True)]"
    by (simp add: ex_closed_def wallet_Start_def ex_life_def new_life_def NewWireService_def HeaderDB_Put_def p)
  finally show ?thesis using r by blast
qed

end
