(* ===== verification/Header_Print.thy ===== *)
theory Header_Print
  imports Wallet_Life
begin

text \<open>
  Printing the header database: \<open>Print\<close> of \<^verbatim>\<open>src/headers.go\<close> and what dumps the headers through it, \<open>DumpHeaders\<close> of the wallet, of the
  remote interface and of the command line.  A \<open>float64\<close> is a value of an ordered type \<open>'f\<close> with the operations of
  \<open>print_lib\<close>: the conversion of a height, the addition of a tenth and the format with one digit.  The loop that looks for a
  free number may run for ever, so it is a partial function.
\<close>

section \<open>The model\<close>

record 'f print_lib =
  f_of :: "u32 \<Rightarrow> 'f"
  f_tenth :: "'f \<Rightarrow> 'f"
  f_fmt :: "'f \<Rightarrow> string"

partial_function (option) free_number :: "'f print_lib \<Rightarrow> 'f list \<Rightarrow> 'f \<Rightarrow> 'f option" where
  "free_number fl ks x = (if f_tenth fl x \<in> set ks then free_number fl ks (f_tenth fl x) else Some (f_tenth fl x))"

declare free_number.simps [code]

text \<open>An entry that does not decode counts as the zero header, with the zero time of the year 1.\<close>

definition zero_stored :: StoredHeader where
  "zero_stored =
     \<lparr>sh_header = \<lparr>hdr_Version = 0, PrevBlock = 0, MerkleRoot = 0, hdr_Timestamp = - 62135596800 * nano, Bits = 0, Nonce = 0\<rparr>, sh_height = 0, totalWork = 0\<rparr>"

definition decoded :: "header_lib \<Rightarrow> bytes \<Rightarrow> StoredHeader" where
  "decoded hl v = (case deserializeHeader hl v of Ok sh \<Rightarrow> sh | _ \<Rightarrow> zero_stored)"

definition print_strings :: "header_lib \<Rightarrow> StoredHeader \<Rightarrow> string \<times> string" where
  "print_strings hl sh = (hl_String hl (BlockHash hl (sh_header sh)), hl_String hl (PrevBlock (sh_header sh)))"

definition print_number :: "'f print_lib \<Rightarrow> 'f list \<Rightarrow> u32 \<Rightarrow> 'f option" where
  "print_number fl ks height = (if f_of fl height \<in> set ks then free_number fl ks (f_of fl height) else Some (f_of fl height))"

fun print_map :: "header_lib \<Rightarrow> 'f print_lib \<Rightarrow> (bytes \<times> bytes) list \<Rightarrow> ('f \<times> string \<times> string) list \<Rightarrow> ('f \<times> string \<times> string) list option" where
  "print_map hl fl [] m = Some m"
| "print_map hl fl ((k, v) # items) m =
     (let sh = decoded hl v in
      case print_number fl (map fst m) (sh_height sh) of
        None \<Rightarrow> None
      | Some x \<Rightarrow>
          print_map hl fl items (m @ [(x, print_strings hl sh)]))"

definition text_line :: "'f print_lib \<Rightarrow> 'f \<Rightarrow> string \<times> string \<Rightarrow> string" where
  "text_line fl k hp = ''Height: '' @ f_fmt fl k @ '', Hash: '' @ fst hp @ '', Parent: '' @ snd hp @ [CHR 0x0A]"

definition print_line :: "'f print_lib \<Rightarrow> ('f \<times> string \<times> string) list \<Rightarrow> 'f \<Rightarrow> string" where
  "print_line fl m k =
     (case map_of m k of None \<Rightarrow> '''' | Some hp \<Rightarrow> text_line fl k hp)"

definition HeaderDB_Print :: "header_lib \<Rightarrow> 'b bolt_lib \<Rightarrow> ('f :: linorder) print_lib \<Rightarrow> ('m, 'b) HeaderDB \<Rightarrow> string list option" where
  "HeaderDB_Print hl bl fl h =
     (case print_map hl fl (bk_Items bl (bkt_headers h)) [] of
        None \<Rightarrow> None
      | Some m \<Rightarrow> Some (map (print_line fl m) (sort (map fst m))))"

text \<open>The header database of a closed wallet stays locked.\<close>

definition DumpHeaders ::
    "header_lib \<Rightarrow> 'b bolt_lib \<Rightarrow> ('f :: linorder) print_lib \<Rightarrow> ('s, 'm, 'b, 'a) life \<Rightarrow> string list run" where
  "DumpHeaders hl bl fl s =
     (if l_store s then Hangs
      else case HeaderDB_Print hl bl fl (ws_h (l_ws s)) of None \<Rightarrow> Hangs | Some ls \<Rightarrow> Ret ls)"

text \<open>
  \<open>HeaderWriter.Write\<close> sends a line as one message: the count it returns is zero, also without an error, and \<open>Print\<close> looks at
  neither.  \<open>sent i\<close> says whether the \<open>i\<close>-th message can be sent.
\<close>

definition HeaderWriter_Write :: "bool \<Rightarrow> string \<Rightarrow> (nat \<times> error option) \<times> string list" where
  "HeaderWriter_Write sent p = (if sent then ((0, None), [p]) else ((0, Some LibError), []))"

definition rpc_DumpHeaders ::
    "header_lib \<Rightarrow> 'b bolt_lib \<Rightarrow> ('f :: linorder) print_lib \<Rightarrow> (nat \<Rightarrow> bool) \<Rightarrow> ('s, 'm, 'b, 'a) life \<Rightarrow> (unit go \<times> string list) run" where
  "rpc_DumpHeaders hl bl fl sent s =
     run_bind (DumpHeaders hl bl fl s) (\<lambda>ls. Ret (Ok (), concat (map (\<lambda>(i, p). snd (HeaderWriter_Write (sent i) p)) (enumerate 0 ls))))"

text \<open>
  The command prints the messages of the stream until it ends, which the stream reports as an error, \<open>LibError\<close> here; with a path it
  prints the database of that path, \<open>opened\<close>, and dereferences it also when it could not be opened.
\<close>

definition cli_DumpHeaders ::
    "header_lib \<Rightarrow> 'b bolt_lib \<Rightarrow> ('f :: linorder) print_lib \<Rightarrow> (nat \<Rightarrow> bool) \<Rightarrow> (string \<Rightarrow> ('m, 'b) HeaderDB option) \<Rightarrow> string list \<Rightarrow>
     ('s, 'm, 'b, 'a) life \<Rightarrow> (unit go \<times> string list) run" where
  "cli_DumpHeaders hl bl fl sent opened args s =
     (case args of
        [] \<Rightarrow> run_bind (rpc_DumpHeaders hl bl fl sent s) (\<lambda>(_, ls). Ret (Err LibError, ls))
      | a # _ \<Rightarrow>
          (case opened a of
             None \<Rightarrow> Panics
           | Some h \<Rightarrow> (case HeaderDB_Print hl bl fl h of None \<Rightarrow> Hangs | Some ls \<Rightarrow> Ret (Ok (), ls))))"

section \<open>What is printed\<close>

text \<open>The numbers that the loop tries from a height are different, as many as there are headers.\<close>

definition floats_ok :: "'f print_lib \<Rightarrow> nat \<Rightarrow> bool" where
  "floats_ok fl n \<longleftrightarrow> (\<forall>height. inj_on (\<lambda>i. (f_tenth fl ^^ i) (f_of fl height)) {..n})"

lemma free_number_at:
  "(f_tenth fl ^^ Suc j) x \<notin> set ks \<Longrightarrow> \<exists>i. free_number fl ks x = Some ((f_tenth fl ^^ Suc i) x) \<and> (f_tenth fl ^^ Suc i) x \<notin> set ks"
proof (induction j arbitrary: x)
  case 0
  then show ?case by (subst free_number.simps) (auto intro: exI [of _ 0])
next
  case (Suc j)
  show ?case
  proof (cases "f_tenth fl x \<in> set ks")
    case True
    have "(f_tenth fl ^^ Suc j) (f_tenth fl x) \<notin> set ks" using Suc.prems by (simp add: funpow_swap1)
    from Suc.IH [OF this] obtain i where
      "free_number fl ks (f_tenth fl x) = Some ((f_tenth fl ^^ Suc i) (f_tenth fl x))" "(f_tenth fl ^^ Suc i) (f_tenth fl x) \<notin> set ks"
      by blast
    then show ?thesis using True by (subst free_number.simps) (auto simp: funpow_swap1 intro!: exI [of _ "Suc i"])
  next
    case False
    then show ?thesis by (subst free_number.simps) (auto intro: exI [of _ 0])
  qed
qed

lemma print_number_ok:
  assumes "floats_ok fl n" "length ks \<le> n"
  shows "\<exists>x i. print_number fl ks height = Some x \<and> x = (f_tenth fl ^^ i) (f_of fl height) \<and> x \<notin> set ks"
proof (cases "f_of fl height \<in> set ks")
  case True
  let ?g = "\<lambda>i. (f_tenth fl ^^ i) (f_of fl height)"
  have "inj_on ?g {..length ks}" using assms by (auto simp: floats_ok_def intro: inj_on_subset)
  then have "card (?g ` {..length ks}) = Suc (length ks)" by (simp add: card_image)
  then have "\<not> ?g ` {..length ks} \<subseteq> set ks" using card_mono [of "set ks" "?g ` {..length ks}"] card_length [of ks] by auto
  then obtain j where j: "?g j \<notin> set ks" by blast
  with True obtain j' where "j = Suc j'" by (cases j) auto
  with free_number_at [of j' fl "f_of fl height" ks] j True show ?thesis by (metis print_number_def)
qed (auto simp: print_number_def intro: exI [of _ 0])

text \<open>The number of a header: the first free one from its height on, the height itself unless it is taken.\<close>

definition numbered :: "'f print_lib \<Rightarrow> u32 list \<Rightarrow> 'f list \<Rightarrow> bool" where
  "numbered fl hs xs \<longleftrightarrow>
     (\<forall>i < length hs. (\<exists>j. xs ! i = (f_tenth fl ^^ j) (f_of fl (hs ! i))) \<and>
       (f_of fl (hs ! i) \<notin> set (take i xs) \<longrightarrow> xs ! i = f_of fl (hs ! i)))"

lemma print_map_ok:
  assumes "floats_ok fl n" "length m + length items \<le> n" "distinct (map fst m)" "length hs = length m" "numbered fl hs (map fst m)"
  shows "\<exists>xs. print_map hl fl items m = Some (m @ zip xs (map (\<lambda>kv. print_strings hl (decoded hl (snd kv))) items)) \<and>
    length xs = length items \<and> distinct (map fst m @ xs) \<and>
    numbered fl (hs @ map (\<lambda>kv. sh_height (decoded hl (snd kv))) items) (map fst m @ xs)"
  using assms(2-5)
proof (induction items arbitrary: m hs)
  case (Cons kv items)
  obtain k v where kv: "kv = (k, v)" by (cases kv)
  let ?h = "sh_height (decoded hl v)"
  obtain x j where x: "print_number fl (map fst m) ?h = Some x" "x = (f_tenth fl ^^ j) (f_of fl ?h)" "x \<notin> set (map fst m)"
    using print_number_ok [OF assms(1), of "map fst m" ?h] Cons.prems(1) by auto
  let ?m = "m @ [(x, print_strings hl (decoded hl v))]"
  have "f_of fl ?h \<notin> set (map fst m) \<longrightarrow> x = f_of fl ?h" using x(1) by (auto simp: print_number_def)
  with Cons.prems(3,4) x(2) have nb: "numbered fl (hs @ [?h]) (map fst ?m)"
    by (auto simp: numbered_def nth_append less_Suc_eq simp del: map_map)
  obtain xs where "print_map hl fl items ?m = Some (?m @ zip xs (map (\<lambda>kv. print_strings hl (decoded hl (snd kv))) items))"
    "length xs = length items" "distinct (map fst ?m @ xs)"
    "numbered fl ((hs @ [?h]) @ map (\<lambda>kv. sh_height (decoded hl (snd kv))) items) (map fst ?m @ xs)"
    using Cons.IH [of ?m "hs @ [?h]", OF _ _ _ nb] Cons.prems x(3) by auto
  then show ?case using x(1) by (intro exI [of _ "x # xs"]) (simp add: kv Let_def)
qed simp

lemma map_insort_key: "map f (insort_key f x xs) = insort (f x) (map f xs)"
  by (induction xs) simp_all

lemma map_sort_key: "map f (sort_key f xs) = sort (map f xs)"
  by (induction xs) (simp_all add: map_insort_key)

text \<open>Every header of the file is printed on one line: \<open>Print\<close> returns, with as many numbers as there are entries, all
  different; a header has its height as number unless an earlier one took it, and then the height and some tenths;
  the lines are in the order of the numbers.\<close>

theorem Print_complete:
  assumes "floats_ok fl (length (bk_Items bl (bkt_headers h)))"
  shows "\<exists>xs. length xs = length (bk_Items bl (bkt_headers h)) \<and> distinct xs \<and>
    numbered fl (map (\<lambda>kv. sh_height (decoded hl (snd kv))) (bk_Items bl (bkt_headers h))) xs \<and>
    HeaderDB_Print hl bl fl h = Some (map (\<lambda>(x, sh). text_line fl x (print_strings hl sh))
      (sort_key fst (zip xs (map (\<lambda>kv. decoded hl (snd kv)) (bk_Items bl (bkt_headers h))))))"
proof -
  let ?items = "bk_Items bl (bkt_headers h)"
  obtain xs where xs: "print_map hl fl ?items [] = Some (zip xs (map (\<lambda>kv. print_strings hl (decoded hl (snd kv))) ?items))"
    "length xs = length ?items" "distinct xs" "numbered fl (map (\<lambda>kv. sh_height (decoded hl (snd kv))) ?items) xs"
    using print_map_ok [OF assms, of "[]" ?items "[]" hl] by (auto simp: numbered_def)
  let ?z = "zip xs (map (\<lambda>kv. decoded hl (snd kv)) ?items)"
  have z: "zip xs (map (\<lambda>kv. print_strings hl (decoded hl (snd kv))) ?items) = map (\<lambda>(x, sh). (x, print_strings hl sh)) ?z"
    by (simp add: zip_map2 comp_def case_prod_beta)
  have f: "map fst ?z = xs" "distinct (map fst ?z)" using xs(2,3) by simp_all
  have "sort xs = map fst (sort_key fst ?z)" using f(1) by (metis map_sort_key)
  moreover have "print_line fl (map (\<lambda>(x, sh). (x, print_strings hl sh)) ?z) (fst p) = text_line fl (fst p) (print_strings hl (snd p))"
    if "p \<in> set ?z" for p
  proof -
    have "(fst p, print_strings hl (snd p)) \<in> set (map (\<lambda>(x, sh). (x, print_strings hl sh)) ?z)"
      using that by (auto simp only: set_map intro!: image_eqI [of _ _ p]) (simp add: case_prod_beta)
    moreover have "map fst (map (\<lambda>(x, sh). (x, print_strings hl sh)) ?z) = map fst ?z" by (simp add: case_prod_beta comp_def)
    ultimately show ?thesis using f(2) map_of_is_SomeI by (metis (no_types, lifting) option.simps(5) print_line_def)
  qed
  ultimately have "HeaderDB_Print hl bl fl h = Some (map (\<lambda>(x, sh). text_line fl x (print_strings hl sh)) (sort_key fst ?z))"
    using xs(1,2) by (simp add: HeaderDB_Print_def z comp_def case_prod_beta)
  with xs show ?thesis by blast
qed

text \<open>The dump of a wallet that was closed never ends, and the command reports an error however it goes.\<close>

theorem DumpHeaders_closed:
  "(l_store s \<longrightarrow> DumpHeaders hl bl fl s = Hangs) \<and> (\<forall>r ls. cli_DumpHeaders hl bl fl sent opened [] s = Ret (r, ls) \<longrightarrow> r = Err LibError)"
  by (auto simp: DumpHeaders_def cli_DumpHeaders_def rpc_DumpHeaders_def run_bind_Ret split: prod.splits)

section \<open>Witness\<close>

text \<open>Numbers in tenths, and a file with two entries of the same height.\<close>

definition ex_fl :: "nat print_lib" where
  "ex_fl = \<lparr>f_of = (\<lambda>h. 10 * unat h), f_tenth = Suc, f_fmt = (\<lambda>n. Itoa (int (n div 10)) @ ''.'' @ Itoa (int (n mod 10)))\<rparr>"

lemma ex_fl_ok: "floats_ok ex_fl n"
proof -
  have "(Suc ^^ i) x = x + i" for i x by (induction i) simp_all
  then show ?thesis by (simp add: floats_ok_def ex_fl_def inj_on_def)
qed

definition ex_two :: "((string, StoredHeader) alist, (bytes, bytes) alist) HeaderDB" where
  "ex_two = \<lparr>bestCache = None, cache = om_New ex_ol, bkt_headers = bk_Put ex_bl [2] [] (bk_Put ex_bl [1] [] (bk_New ex_bl)), bkt_tip = bk_New ex_bl, pending = []\<rparr>"

theorem Print_complete_witness:
  "\<exists>ls. HeaderDB_Print ex_hl ex_bl ex_fl ex_two = Some ls \<and> length ls = 2"
proof -
  have "length (bk_Items ex_bl (bkt_headers ex_two)) = 2"
    by (simp add: ex_two_def ex_bl_def DAList.update.rep_eq DAList.empty.rep_eq)
  with Print_complete [OF ex_fl_ok, of ex_bl ex_two ex_hl] show ?thesis by fastforce
qed

end
