(* ===== verification/Address_Book.thy ===== *)
theory Address_Book
  imports Rpc_Calls Wallet_Ops
begin

text \<open>
  What the wallet interface, \<^verbatim>\<open>src/wallet-interface/wallet.go\<close>, promises of the addresses a wallet hands out: \<open>CurrentAddress\<close> returns
  the same address as long as it is not used, and \<open>NewAddress\<close> one that was never returned before.  The promise is derived once, in the
  locale \<open>address_book\<close>, from what each of the two does to the list of unused addresses, and the locale is interpreted
  on the operations of \<open>Spv_Wallet\<close>.
\<close>

section \<open>The contract\<close>

text \<open>Calling an operation that hands out an address a number of times.\<close>

fun hand_out :: "('w \<Rightarrow> ('a \<times> 'w) option) \<Rightarrow> nat \<Rightarrow> 'w \<Rightarrow> ('a list \<times> 'w) option" where
  "hand_out next_addr 0 w = Some ([], w)"
| "hand_out next_addr (Suc n) w =
     (case next_addr w of
        None \<Rightarrow> None
      | Some (a, w1) \<Rightarrow> (case hand_out next_addr n w1 of None \<Rightarrow> None | Some (xs, w2) \<Rightarrow> Some (a # xs, w2)))"

locale address_book =
  fixes current_addr :: "'w \<Rightarrow> 'a option" and next_addr :: "'w \<Rightarrow> ('a \<times> 'w) option"
    and ok :: "'w \<Rightarrow> bool" and free :: "'w \<Rightarrow> 'a list"
  assumes current_first: "ok w \<Longrightarrow> free w = a # xs \<Longrightarrow> current_addr w = Some a"
    and next_second: "ok w \<Longrightarrow> free w = a # b # xs \<Longrightarrow> \<exists>w'. next_addr w = Some (b, w') \<and> ok w' \<and> free w' = a # xs"
    and free_distinct: "ok w \<Longrightarrow> distinct (free w)"
begin

lemma hand_out_free:
  "ok w \<Longrightarrow> free w = a # xs \<Longrightarrow> n \<le> length xs \<Longrightarrow>
   \<exists>w'. hand_out next_addr n w = Some (take n xs, w') \<and> ok w' \<and> free w' = a # drop n xs"
proof (induction n arbitrary: w xs)
  case (Suc n)
  then obtain b ys where xs: "xs = b # ys" by (cases xs) auto
  obtain w1 where w1: "next_addr w = Some (b, w1)" "ok w1" "free w1 = a # ys"
    using next_second [OF Suc.prems(1)] Suc.prems(2) xs by blast
  with Suc.IH [OF w1(2,3)] Suc.prems(3) xs show ?case by auto
qed simp

lemma hand_out_fresh:
  assumes "ok w" "free w = a # xs" "n \<le> length xs"
  shows "\<exists>as w'. hand_out next_addr n w = Some (as, w') \<and> length as = n \<and> distinct as \<and> set as \<subseteq> set (free w) \<and>
    current_addr w = Some a \<and> a \<notin> set as \<and> current_addr w' = Some a \<and> set (free w') \<inter> set as = {}"
proof -
  obtain w' where w': "hand_out next_addr n w = Some (take n xs, w')" "ok w'" "free w' = a # drop n xs"
    using hand_out_free [OF assms] by blast
  moreover have "distinct (a # xs)" using free_distinct [OF assms(1)] assms(2) by simp
  ultimately show ?thesis
    using current_first [OF assms(1,2)] current_first [OF w'(2,3)] assms(2,3) set_take_subset [of n xs]
      set_take_disj_set_drop_if_distinct [of xs n n] by (auto dest: in_set_takeD)
qed

end

section \<open>The addresses of the wallet\<close>

definition wallet_current :: "('s, 'k, 'h, 'p) server \<Rightarrow> KeyPurpose \<Rightarrow> ('s, 'h) WireService \<Rightarrow> Address option" where
  "wallet_current sv p ws = (case CurrentAddress (spv_of sv [] ws) p of Ok a \<Rightarrow> a | _ \<Rightarrow> None)"

definition wallet_next :: "('s, 'k, 'h, 'p) server \<Rightarrow> KeyPurpose \<Rightarrow> ('s, 'h) WireService \<Rightarrow> (Address \<times> ('s, 'h) WireService) option" where
  "wallet_next sv p ws = (case NewAddress (sv_env sv) (sv_lib sv) p ws of Ret (Some a, ws1) \<Rightarrow> Some (a, ws1) | _ \<Rightarrow> None)"

definition unused_keys :: "wire_lib \<Rightarrow> KeyPurpose \<Rightarrow> sqldb \<Rightarrow> krow list" where
  "unused_keys lib p db = filter (\<lambda>r. row_purpose r = p \<and> \<not> kr_used r) (v_keys (sql_view lib db))"

definition unused_addrs :: "wire_lib \<Rightarrow> ('k, 'p) build_lib \<Rightarrow> KeyPurpose \<Rightarrow> (sqldb, 'h) WireService \<Rightarrow> Address list" where
  "unused_addrs lib bl p ws = List.map_filter (\<lambda>r. NewAddressPubKeyHash bl (kr_script r)) (unused_keys lib p (ws_s ws))"

text \<open>A wallet with a well-formed key table whose keys have addresses; the address of a hash gives the hash back.\<close>

definition book_ok :: "wire_lib \<Rightarrow> (sqldb, 'k, 'h, 'p) server \<Rightarrow> int \<Rightarrow> KeyPurpose \<Rightarrow> (sqldb, 'h) WireService \<Rightarrow> bool" where
  "book_ok lib sv N p ws \<longleftrightarrow>
     sql_inv lib (ws_s ws) \<and> e_ds (sv_te sv) = SQLiteDatastore lib \<and> hd_purpose p \<and>
     keys_ok (e_hd (sv_te sv)) (e_km (sv_te sv)) N (v_keys (sql_view lib (ws_s ws))) \<and>
     (\<forall>r \<in> set (v_keys (sql_view lib (ws_s ws))).
        \<exists>a. NewAddressPubKeyHash (sv_lib sv) (kr_script r) = Some a \<and> ScriptAddress a = kr_script r)"

lemma book_unused:
  assumes "book_ok lib sv N p ws"
  shows "unused_addrs lib (sv_lib sv) p ws = map (\<lambda>r. the (NewAddressPubKeyHash (sv_lib sv) (kr_script r))) (unused_keys lib p (ws_s ws))"
    and "map ScriptAddress (unused_addrs lib (sv_lib sv) p ws) = map kr_script (unused_keys lib p (ws_s ws))"
proof -
  have a: "\<exists>a. NewAddressPubKeyHash (sv_lib sv) (kr_script r) = Some a \<and> ScriptAddress a = kr_script r"
    if "r \<in> set (unused_keys lib p (ws_s ws))" for r
    using assms that by (auto simp: book_ok_def unused_keys_def)
  then show "unused_addrs lib (sv_lib sv) p ws = map (\<lambda>r. the (NewAddressPubKeyHash (sv_lib sv) (kr_script r))) (unused_keys lib p (ws_s ws))"
    by (fastforce simp: unused_addrs_def map_filter_def filter_id_conv intro: map_cong)
  then show "map ScriptAddress (unused_addrs lib (sv_lib sv) p ws) = map kr_script (unused_keys lib p (ws_s ws))"
    using a by (auto simp: comp_def) force
qed

lemma wallet_current_first:
  assumes "book_ok lib sv N p ws" "unused_addrs lib (sv_lib sv) p ws = a # as"
  shows "wallet_current sv p ws = Some a"
proof -
  obtain r rs where r: "unused_keys lib p (ws_s ws) = r # rs" "a = the (NewAddressPubKeyHash (sv_lib sv) (kr_script r))"
    using assms book_unused(1) [OF assms(1)] by (auto simp: map_eq_Cons_conv)
  then have "r \<in> set (unused_keys lib p (ws_s ws))" by simp
  then have mem: "r \<in> set (v_keys (sql_view lib (ws_s ws)))" "row_purpose r = p" by (auto simp: unused_keys_def)
  then obtain k addr where k: "generateChildKey (e_hd (sv_te sv)) (e_km (sv_te sv)) p (word_of_int (row_index r)) = Ok k"
    "hd_Address (e_hd (sv_te sv)) k = Some addr" "ScriptAddress addr = kr_script r"
    using row_derived [OF _ mem] assms(1) unfolding book_ok_def by blast
  have "Keys_GetUnused (e_ds (sv_te sv)) p (ws_s ws) = (map row_index (r # rs), None)"
    using sqlite.Keys_GetUnused [of lib "ws_s ws" p] r(1) assms(1) by (simp add: book_ok_def unused_keys_def)
  then have "GetCurrentKey (e_ds (sv_te sv)) (e_hd (sv_te sv)) (e_km (sv_te sv)) p (ws_s ws) = Ok k"
    using k(1) by (simp add: GetCurrentKey_def)
  then show ?thesis
    using k(2,3) r(2) mem assms(1) by (auto simp: wallet_current_def CurrentAddress_def spv_of_def book_ok_def)
qed

lemma wallet_next_second:
  assumes "book_ok lib sv N p ws" "unused_addrs lib (sv_lib sv) p ws = a # b # as"
  shows "\<exists>ws'. wallet_next sv p ws = Some (b, ws') \<and> book_ok lib sv N p ws' \<and> unused_addrs lib (sv_lib sv) p ws' = a # as"
proof -
  obtain r0 r rs where r: "unused_keys lib p (ws_s ws) = r0 # r # rs"
    "a = the (NewAddressPubKeyHash (sv_lib sv) (kr_script r0))" "b = the (NewAddressPubKeyHash (sv_lib sv) (kr_script r))"
    "as = map (\<lambda>r. the (NewAddressPubKeyHash (sv_lib sv) (kr_script r))) rs"
    using assms book_unused(1) [OF assms(1)] by (auto simp: map_eq_Cons_conv)
  note ok = assms(1) [unfolded book_ok_def sv_te_def]
  obtain ws' where ws': "NewAddress (sv_env sv) (sv_lib sv) p ws = Ret (NewAddressPubKeyHash (sv_lib sv) (kr_script r), ws')" "sql_inv lib (ws_s ws')"
    "v_keys (sql_view lib (ws_s ws')) = map (mark_used (kr_script r)) (v_keys (sql_view lib (ws_s ws)))"
    using NewAddress_gives [of lib ws "sv_env sv" N p r0 r rs "sv_lib sv"] ok r(1) by (auto simp: unused_keys_def)
  have "keyed kr_script (v_keys (sql_view lib (ws_s ws)))" using sql_invD(3) [of lib "ws_s ws"] ok by (simp add: view_ok_def)
  then have u: "unused_keys lib p (ws_s ws') = r0 # rs"
    using unused_after_mark [of _ p r0 r rs] r(1) ws'(3) by (simp add: unused_keys_def)
  have ok': "book_ok lib sv N p ws'"
    using ok ws'(2,3) by (auto simp: book_ok_def sv_te_def keys_ok_mark_used mark_used_def)
  have "r \<in> set (unused_keys lib p (ws_s ws))" by (simp add: r(1))
  then have "NewAddressPubKeyHash (sv_lib sv) (kr_script r) = Some b" using ok r(3) by (force simp: unused_keys_def)
  with ws'(1) have "wallet_next sv p ws = Some (b, ws')" by (simp add: wallet_next_def)
  then show ?thesis using ok' u book_unused(1) [OF ok'] r(2,4) by auto
qed

interpretation book: address_book "wallet_current sv p" "wallet_next sv p" "book_ok lib sv N p" "unused_addrs lib (sv_lib sv) p"
  for sv :: "(sqldb, 'k, 'h, 'p) server" and lib N p
proof
  fix ws :: "(sqldb, 'h) WireService"
  assume ok: "book_ok lib sv N p ws"
  then have "keyed kr_script (v_keys (sql_view lib (ws_s ws)))" using sql_invD(3) [of lib "ws_s ws"] by (simp add: book_ok_def view_ok_def)
  then have "distinct (map kr_script (unused_keys lib p (ws_s ws)))" by (simp add: keyed_def unused_keys_def distinct_map_filter)
  then show "distinct (unused_addrs lib (sv_lib sv) p ws)" using book_unused(2) [OF ok] by (metis distinct_map)
qed (rule wallet_current_first wallet_next_second; assumption)+

text \<open>Property C31. The promise of the interface: as long as there are unused keys in advance, the addresses that calls of \<open>NewAddress\<close> return are all
  different, none of them is the address that \<open>CurrentAddress\<close> returns, and the latter stays the same and is
  returned by no later call either.\<close>

theorem NewAddress_contract:
  assumes "book_ok lib sv N p ws" "n < length (unused_keys lib p (ws_s ws))"
  shows "\<exists>as ws' a. hand_out (wallet_next sv p) n ws = Some (as, ws') \<and> length as = n \<and> distinct as \<and>
    wallet_current sv p ws = Some a \<and> wallet_current sv p ws' = Some a \<and> a \<notin> set as \<and> book_ok lib sv N p ws' \<and>
    set (unused_addrs lib (sv_lib sv) p ws') \<inter> set as = {}"
proof -
  have "length (unused_addrs lib (sv_lib sv) p ws) = length (unused_keys lib p (ws_s ws))" using book_unused(1) [OF assms(1)] by simp
  then obtain a xs where xs: "unused_addrs lib (sv_lib sv) p ws = a # xs" "n \<le> length xs"
    using assms(2) by (cases "unused_addrs lib (sv_lib sv) p ws") auto
  from book.hand_out_fresh [OF assms(1) xs] book.hand_out_free [OF assms(1) xs] show ?thesis by fastforce
qed

section \<open>Witness\<close>

theorem NewAddress_contract_witness:
  "\<exists>a ws' c. hand_out (wallet_next (ex_server\<lparr>sv_lib := ex_build\<rparr>) EXTERNAL) 1 (ex_wallet_ws ex_twokeys) = Some ([a], ws') \<and>
     wallet_current (ex_server\<lparr>sv_lib := ex_build\<rparr>) EXTERNAL ws' = Some c \<and> a \<noteq> c"
proof -
  have te: "sv_te (ex_server\<lparr>sv_lib := ex_build\<rparr>) = we_ts ex_node" by (simp add: sv_te_def ex_server_simps)
  have "book_ok ex_lib (ex_server\<lparr>sv_lib := ex_build\<rparr>) (2 ^ 32) EXTERNAL (ex_wallet_ws ex_twokeys)"
    unfolding book_ok_def te using ex_twokeys_ok ex_node_ds by (simp add: ex_twokeys hd_purpose_def ex_build_def)
  moreover have "1 < length (unused_keys ex_lib EXTERNAL (ws_s (ex_wallet_ws ex_twokeys)))" by (simp add: unused_keys_def ex_twokeys(2))
  ultimately obtain as ws' c where "hand_out (wallet_next (ex_server\<lparr>sv_lib := ex_build\<rparr>) EXTERNAL) 1 (ex_wallet_ws ex_twokeys) = Some (as, ws')"
    "length as = 1" "wallet_current (ex_server\<lparr>sv_lib := ex_build\<rparr>) EXTERNAL ws' = Some c" "c \<notin> set as"
    using NewAddress_contract by blast
  then show ?thesis by (cases as) auto
qed

end
