(* ===== verification/Rpc_Session.thy ===== *)
theory Rpc_Session
  imports Header_Print Cli
begin

text \<open>
  The rest of the remote interface and of the command line: stopping the wallet, the keys, the parameters and the peers
  (\<^verbatim>\<open>src/api/rpc.go\<close>), and the commands that make one call and print its fields (\<^verbatim>\<open>src/cli/cli.go\<close>).  What the peer library knows
  of a connected peer is the record \<open>peer_info\<close>.
\<close>

section \<open>The remote interface\<close>

definition rpc_Stop :: "('s, 'm, 'b, 'a) life \<Rightarrow> (unit go \<times> ('s, 'm, 'b, 'a) life) run" where
  "rpc_Stop s = run_bind (wallet_Close s) (\<lambda>s1. Ret (Ok (), s1))"

text \<open>The master keys and the network; \<open>str\<close> is the text form of an extended key, \<open>name\<close> that of a network.\<close>

definition rpc_MasterPrivateKey :: "('k \<Rightarrow> string) \<Rightarrow> ('k, 'h) new_wallet \<Rightarrow> string" where
  "rpc_MasterPrivateKey str w = str (nw_masterPrivateKey w)"

definition rpc_MasterPublicKey :: "('k \<Rightarrow> string) \<Rightarrow> ('k, 'h) new_wallet \<Rightarrow> string" where
  "rpc_MasterPublicKey str w = str (nw_masterPublicKey w)"

definition rpc_Params :: "(net \<Rightarrow> string) \<Rightarrow> ('s, 'k, 'h, 'p) server \<Rightarrow> string" where
  "rpc_Params name sv = name (p_Net (b_params (we_b (sv_env sv))))"

record peer_info =
  pe_Addr :: string
  pe_BytesSent :: u64
  pe_BytesReceived :: u64
  pe_Connected :: bool
  pe_ID :: i32
  pe_LastBlock :: i32
  pe_ProtocolVersion :: u32
  pe_Services :: string
  pe_UserAgent :: string
  pe_TimeConnected :: go_time

record pb_Peer =
  pp_Address :: string
  pp_BytesSent :: u64
  pp_BytesReceived :: u64
  pp_Connected :: bool
  pp_ID :: i32
  pp_LastBlock :: i32
  pp_ProtocolVersion :: u32
  pp_Services :: string
  pp_UserAgent :: string
  pp_TimeConnected :: "int \<times> int"

definition rpc_peer :: "('s, 'k, 'h, 'p) server \<Rightarrow> peer_info \<Rightarrow> pb_Peer go" where
  "rpc_peer sv i =
     go_bind (of_lib (TimestampProto sv (pe_TimeConnected i))) (\<lambda>ts.
       Ok \<lparr>pp_Address = pe_Addr i, pp_BytesSent = pe_BytesSent i, pp_BytesReceived = pe_BytesReceived i, pp_Connected = pe_Connected i,
           pp_ID = pe_ID i, pp_LastBlock = pe_LastBlock i, pp_ProtocolVersion = pe_ProtocolVersion i, pp_Services = pe_Services i,
           pp_UserAgent = pe_UserAgent i, pp_TimeConnected = ts\<rparr>)"

definition rpc_Peers :: "('s, 'k, 'h, 'p) server \<Rightarrow> (nat \<Rightarrow> peer_info) \<Rightarrow> ('s, 'm, 'b, 'a) life \<Rightarrow> pb_Peer list go" where
  "rpc_Peers sv info s = go_map (rpc_peer sv) (map info (ConnectedPeers (l_pm s)))"

section \<open>Commands\<close>

text \<open>The reply is not looked at.\<close>

definition cli_Stop :: "('s, 'm, 'b, 'a) life \<Rightarrow> (unit go \<times> ('s, 'm, 'b, 'a) life) run" where
  "cli_Stop s = run_bind (rpc_Stop s) (\<lambda>(_, s1). Ret (Ok (), s1))"

definition cli_ChainTip :: "('s, 'k, 'h, 'p) server \<Rightarrow> ('s, 'h) WireService \<Rightarrow> string" where
  "cli_ChainTip sv ws = Itoa (uint (rpc_ChainTip sv ws))"

definition cli_Balance :: "('s, 'k, 'h, 'p) server \<Rightarrow> ('s, 'h) WireService \<Rightarrow> (u64 \<times> u64) option" where
  "cli_Balance sv ws = rpc_Balance sv ws"

definition cli_MasterPrivateKey :: "('k \<Rightarrow> string) \<Rightarrow> ('k, 'h) new_wallet \<Rightarrow> string" where
  "cli_MasterPrivateKey str w = rpc_MasterPrivateKey str w"

definition cli_MasterPublicKey :: "('k \<Rightarrow> string) \<Rightarrow> ('k, 'h) new_wallet \<Rightarrow> string" where
  "cli_MasterPublicKey str w = rpc_MasterPublicKey str w"

definition cli_peer :: "pb_Peer \<Rightarrow> peer_info" where
  "cli_peer p =
     \<lparr>pe_Addr = pp_Address p, pe_BytesSent = pp_BytesSent p, pe_BytesReceived = pp_BytesReceived p, pe_Connected = pp_Connected p,
      pe_ID = pp_ID p, pe_LastBlock = pp_LastBlock p, pe_ProtocolVersion = pp_ProtocolVersion p, pe_Services = pp_Services p,
      pe_UserAgent = pp_UserAgent p, pe_TimeConnected = time_Unix (fst (pp_TimeConnected p)) + snd (pp_TimeConnected p)\<rparr>"

definition cli_Peers :: "('s, 'k, 'h, 'p) server \<Rightarrow> (nat \<Rightarrow> peer_info) \<Rightarrow> ('s, 'm, 'b, 'a) life \<Rightarrow> peer_info list go" where
  "cli_Peers sv info s = map_go (map cli_peer) (rpc_Peers sv info s)"

definition cli_AddWatchedScript ::
    "('s, 'k, 'h, 'p) server \<Rightarrow> string list \<Rightarrow> ('s, 'h) WireService \<Rightarrow> (unit option, 's, 'h) reply" where
  "cli_AddWatchedScript sv args = checked (first_arg ''Address or script required'' args) (rpc_AddWatchedAddress sv)"

text \<open>The height is required, and cut to 32 bits.\<close>

definition cli_ReSyncBlockchain ::
    "('s, 'k, 'h, 'p) server \<Rightarrow> string list \<Rightarrow> ('s, 'h) WireService \<Rightarrow> (unit option go \<times> ('s, 'h) WireService \<times> action list) run" where
  "cli_ReSyncBlockchain sv args ws =
     (case go_bind (first_arg ''Txid is required'' args) (\<lambda>a. of_lib (Atoi a)) of
        Ok i \<Rightarrow> rpc_ReSyncBlockchain sv (word_of_int i) ws
      | Err e \<Rightarrow> Ret (Err e, ws, [])
      | Panic \<Rightarrow> Panics)"

definition cli_ListAddresses :: "('s, 'k, 'h, 'p) server \<Rightarrow> ('s, 'h) WireService \<Rightarrow> string list" where
  "cli_ListAddresses sv ws = rpc_ListAddresses sv ws"

definition cli_ListKeys :: "('s, 'k, 'h, 'p) server \<Rightarrow> ('s, 'h) WireService \<Rightarrow> string list go" where
  "cli_ListKeys sv ws = rpc_ListKeys sv ws"

section \<open>Properties\<close>

lemma go_map_round:
  "(\<And>x. x \<in> set xs \<Longrightarrow> \<exists>y. f x = Ok y \<and> g y = x) \<Longrightarrow> \<exists>ys. go_map f xs = Ok ys \<and> map g ys = xs"
proof (induction xs)
  case (Cons x xs)
  then obtain y ys where "f x = Ok y" "g y = x" "go_map f xs = Ok ys" "map g ys = xs" by (metis list.set_intros)
  then show ?case by simp
qed simp

text \<open>The command that lists the peers prints what the peer library reports of each connected peer, the times to the nanosecond, when the library
  splits a time into seconds and nanoseconds.\<close>

theorem cli_Peers_roundtrip:
  assumes "\<forall>p \<in> set (ConnectedPeers (l_pm s)). TimestampProto sv (pe_TimeConnected (info p)) =
      Some (pe_TimeConnected (info p) div nano, pe_TimeConnected (info p) mod nano)"
  shows "cli_Peers sv info s = Ok (map info (ConnectedPeers (l_pm s)))"
proof -
  have "\<exists>y. rpc_peer sv x = Ok y \<and> cli_peer y = x" if "x \<in> set (map info (ConnectedPeers (l_pm s)))" for x
    using that assms by (auto simp: rpc_peer_def of_lib_def cli_peer_def time_Unix_def)
  then obtain ys where "go_map (rpc_peer sv) (map info (ConnectedPeers (l_pm s))) = Ok ys" "map cli_peer ys = map info (ConnectedPeers (l_pm s))"
    using go_map_round by blast
  then show ?thesis by (simp add: cli_Peers_def rpc_Peers_def map_go_def)
qed

theorem cli_Peers_roundtrip_witness:
  "cli_Peers ex_server (\<lambda>p. \<lparr>pe_Addr = ''a'', pe_BytesSent = 1, pe_BytesReceived = 2, pe_Connected = True, pe_ID = 3, pe_LastBlock = 4,
       pe_ProtocolVersion = 5, pe_Services = ''s'', pe_UserAgent = ''u'', pe_TimeConnected = 6\<rparr>) (new_life ex_life_pm ex_rpc_ws) =
     Ok [\<lparr>pe_Addr = ''a'', pe_BytesSent = 1, pe_BytesReceived = 2, pe_Connected = True, pe_ID = 3, pe_LastBlock = 4,
       pe_ProtocolVersion = 5, pe_Services = ''s'', pe_UserAgent = ''u'', pe_TimeConnected = 6\<rparr>]"
  by (subst cli_Peers_roundtrip) (simp_all add: ex_server_def new_life_def ex_life_pm_def ConnectedPeers_def)

text \<open>The command that synchronises again does the same for every height, and refuses to run without one.\<close>

theorem cli_ReSync_height:
  "cli_ReSyncBlockchain sv [] ws = Ret (Err (ErrMsg ''Txid is required''), ws, []) \<and>
   (Atoi a = Some i \<longrightarrow> cli_ReSyncBlockchain sv (a # args) ws = rpc_ReSyncBlockchain sv 0 ws)"
  by (simp add: cli_ReSyncBlockchain_def first_arg_def of_lib_def rpc_ReSyncBlockchain_def)

text \<open>A wallet that was stopped over the remote interface cannot be stopped or started again; the second call hangs once it was started.\<close>

theorem rpc_Stop_twice:
  assumes "rpc_Stop s = Ret (r, s1)" "l_running s"
  shows "rpc_Stop s1 = Ret (Ok (), s1) \<and> rpc_Stop (wallet_Start s1) = Hangs"
proof -
  have c: "wallet_Close s = Ret s1" using assms(1) by (auto simp: rpc_Stop_def run_bind_Ret)
  have "\<not> l_running s1"
    using c assms(2) unfolding wallet_Close_def
    by (cases "l_chain s = None"; cases "l_store s"; cases "l_quit s") (auto simp: close_run.simps close_quit_def)
  then have "wallet_Close s1 = Ret s1" by (simp add: wallet_Close_def close_run.simps)
  with restart_hangs [OF c assms(2)] show ?thesis by (simp add: rpc_Stop_def)
qed

end
