(* ===== verification/Window_App.thy ===== *)
theory Window_App
  imports Cli Start_Cmd Wallet_Life Exchange_Rates
begin

text \<open>
  The window of the wallet: the message handler of \<^verbatim>\<open>src/cmd/bitcoincash/main.go\<close> and the parts of \<^verbatim>\<open>src/gui/bootstrap\<close> that
  call it.  The wallets the program creates are objects: \<open>ap_wallets\<close> holds them, and the variable \<open>cashWallet\<close>, the remote
  interface and the options of the bootstrap each point to one by its number; a restore makes a new object and
  moves the variable only.  A message has a name and a JSON value; the fields of the structs it is decoded into are
  matched as \<open>encoding/json\<close> matches them, in any case of the letters, the last one counting.  What the handler shows, sends and
  opens is the datatype \<open>app_out\<close>.  The messages are modelled on a wallet whose header store is open (\<open>Wallet_Life\<close>
  says what holds of a closed one).  A \<open>float64\<close> is a value of a type \<open>'f\<close>.
\<close>

section \<open>Decoding a message\<close>

text \<open>The members of an object; the null value decodes to the zero struct.\<close>

fun json_members :: "'f json option \<Rightarrow> (string \<times> 'f json) list option" where
  "json_members (Some (JObj kvs)) = Some kvs"
| "json_members (Some JNull) = Some []"
| "json_members _ = None"

fun json_fold :: "('f json \<Rightarrow> 'v option) \<Rightarrow> string \<Rightarrow> 'v \<Rightarrow> (string \<times> 'f json) list \<Rightarrow> 'v option" where
  "json_fold dec name acc [] = Some acc"
| "json_fold dec name acc ((k, v) # kvs) =
     (if ToLower k = ToLower name
      then case v of JNull \<Rightarrow> json_fold dec name acc kvs
                   | _ \<Rightarrow> (case dec v of None \<Rightarrow> None | Some x \<Rightarrow> json_fold dec name x kvs)
      else json_fold dec name acc kvs)"

fun json_string :: "'f json \<Rightarrow> string option" where
  "json_string (JStr s) = Some s"
| "json_string _ = None"

fun json_number :: "'f json \<Rightarrow> 'f option" where
  "json_number (JNum x) = Some x"
| "json_number _ = None"

definition str_field :: "string \<Rightarrow> (string \<times> 'f json) list \<Rightarrow> string option" where
  "str_field name kvs = json_fold json_string name [] kvs"

text \<open>Two string fields.\<close>

definition two_fields :: "string \<Rightarrow> string \<Rightarrow> 'f json option \<Rightarrow> (string \<times> string) option" where
  "two_fields a b payload =
     Option.bind (json_members payload) (\<lambda>kvs. Option.bind (str_field a kvs) (\<lambda>x. Option.bind (str_field b kvs) (\<lambda>y. Some (x, y))))"

definition one_field :: "string \<Rightarrow> 'f json option \<Rightarrow> string option" where
  "one_field a payload = Option.bind (json_members payload) (str_field a)"

text \<open>A string; the null value leaves it empty.\<close>

fun json_text :: "'f json option \<Rightarrow> string option" where
  "json_text (Some (JStr s)) = Some s"
| "json_text (Some JNull) = Some []"
| "json_text _ = None"

text \<open>The settings; a number of the file is decoded as an unsigned integer by \<open>dec\<close>.\<close>

definition fees_of :: "('f \<Rightarrow> u64 option) \<Rightarrow> 'f json \<Rightarrow> Fees option" where
  "fees_of dec j =
     Option.bind (json_members (Some j)) (\<lambda>kvs.
       let num = (\<lambda>name. json_fold (\<lambda>v. Option.bind (json_number v) dec) name 0 kvs) in
       Option.bind (num ''priority'') (\<lambda>p. Option.bind (num ''normal'') (\<lambda>n.
       Option.bind (num ''economic'') (\<lambda>e. Option.bind (num ''maxFee'') (\<lambda>m.
         Some \<lparr>fs_Priority = p, fs_Normal = n, fs_Economic = e, fs_MaxFee = m\<rparr>)))))"

definition zero_fees :: Fees where
  "zero_fees = \<lparr>fs_Priority = 0, fs_Normal = 0, fs_Economic = 0, fs_MaxFee = 0\<rparr>"

definition zero_settings :: Settings where
  "zero_settings =
     \<lparr>st_FiatCode = [], st_FiatSymbol = [], st_FeeLevel = [], st_SelectBox = [], st_BitcoinUnit = [], st_DecimalPlaces = 0,
      st_TrustedPeer = [], st_Proxy = [], st_Fees = zero_fees\<rparr>"

definition settings_of :: "('f \<Rightarrow> u64 option) \<Rightarrow> ('f \<Rightarrow> int option) \<Rightarrow> 'f json option \<Rightarrow> Settings option" where
  "settings_of dec int_of payload =
     Option.bind (json_members payload) (\<lambda>kvs.
     Option.bind (str_field ''fiatCode'' kvs) (\<lambda>code. Option.bind (str_field ''fiatSymbol'' kvs) (\<lambda>sym.
     Option.bind (str_field ''feeLevel'' kvs) (\<lambda>level. Option.bind (str_field ''selectBox'' kvs) (\<lambda>box.
     Option.bind (str_field ''bitcoinUnit'' kvs) (\<lambda>unit.
     Option.bind (json_fold (\<lambda>v. Option.bind (json_number v) int_of) ''decimalPlaces'' 0 kvs) (\<lambda>places.
     Option.bind (str_field ''trustedPeer'' kvs) (\<lambda>peer. Option.bind (str_field ''proxy'' kvs) (\<lambda>proxy.
     Option.bind (json_fold (fees_of dec) ''fees'' zero_fees kvs) (\<lambda>fees.
       Some \<lparr>st_FiatCode = code, st_FiatSymbol = sym, st_FeeLevel = level, st_SelectBox = box, st_BitcoinUnit = unit,
             st_DecimalPlaces = places, st_TrustedPeer = peer, st_Proxy = proxy, st_Fees = fees\<rparr>))))))))))"

section \<open>The program\<close>

record ('k, 'm, 'b, 'a, 'f, 'p) app_wallet =
  aw_sv :: "(sqldb, 'k, ('m, 'b) HeaderDB, 'p) server"
  aw_life :: "(sqldb, 'm, 'b, 'a) life"
  aw_rates :: "'f BitcoinCashPriceFetcher"
  aw_mnemonic :: string

record ('k, 'm, 'b, 'a, 'f, 'p) app =
  ap_wallets :: "('k, 'm, 'b, 'a, 'f, 'p) app_wallet list"
  ap_cash :: "nat option"
  ap_api :: nat
  ap_boot :: nat
  ap_config :: Config
  ap_settings :: settings_file
  ap_clipboard :: string
  ap_tray :: bool

record Stats =
  s_Confirmed :: i64
  s_Fiat :: string
  s_Transactions :: nat
  s_Height :: u32
  s_ExchangeRate :: string

datatype app_payload =
    PStats Stats
  | PText string
  | PSettings Settings
  | PTxns "Txn list"
  | PHeight u32

datatype app_out =
    SendMessage string app_payload
  | OpenUrl string
  | Resize int
  | HideWindow
  | NewTray
  | Wallet_out "event list" "sent list"
  | Wire_out "action list"

text \<open>The library functions of the handler, and what a new wallet is made of.\<close>

record 'f app_lib =
  al_fl :: "'f float_lib"
  al_of_int :: "int \<Rightarrow> 'f"
  al_int64 :: "'f \<Rightarrow> int"
  al_fmt2 :: "'f \<Rightarrow> string"
  al_parse :: "string \<Rightarrow> 'f json option"
  al_uint :: "'f \<Rightarrow> u64 option"
  al_int :: "'f \<Rightarrow> int option"
  al_date :: "string \<Rightarrow> go_time option"
  al_zero_time :: go_time
  al_clip :: bool
  al_create :: bool
  al_error :: "error \<Rightarrow> string"

record ('k, 'm, 'b, 'a) new_lib =
  nl_seed :: "'k seed_lib"
  nl_scl :: script_lib
  nl_kl :: "'k hd_lib"
  nl_order :: "KeyPurpose list"
  nl_lib :: wire_lib
  nl_hl :: header_lib
  nl_ol :: "'m omap_lib"
  nl_bl :: "'b bolt_lib"
  nl_pow :: pow_lib
  nl_genesis :: BlockHeader
  nl_params :: chain_params
  nl_trusted :: bool
  nl_peers :: "error option"
  nl_pm :: "'a PeerManager"
  nl_rand :: "nat \<Rightarrow> u32"

type_synonym ('k, 'm, 'b, 'a, 'f, 'p) app_result = "(('k, 'm, 'b, 'a, 'f, 'p) app \<times> app_out list) run"

text \<open>The wallet the variable points to; a nil pointer panics.\<close>

definition with_wallet ::
    "(nat \<Rightarrow> ('k, 'm, 'b, 'a, 'f, 'p) app_wallet \<Rightarrow> ('k, 'm, 'b, 'a, 'f, 'p) app_result) \<Rightarrow> ('k, 'm, 'b, 'a, 'f, 'p) app \<Rightarrow>
     ('k, 'm, 'b, 'a, 'f, 'p) app_result" where
  "with_wallet f ap = (case ap_cash ap of None \<Rightarrow> Panics | Some i \<Rightarrow> f i (ap_wallets ap ! i))"

definition set_ws ::
    "nat \<Rightarrow> (sqldb, ('m, 'b) HeaderDB) WireService \<Rightarrow> ('k, 'm, 'b, 'a, 'f, 'p) app \<Rightarrow> ('k, 'm, 'b, 'a, 'f, 'p) app" where
  "set_ws i ws ap =
     (let w = ap_wallets ap ! i in
      ap\<lparr>ap_wallets := (ap_wallets ap)[i := w\<lparr>aw_life := (aw_life w)\<lparr>l_ws := ws\<rparr>\<rparr>]\<rparr>)"

abbreviation aw_ws :: "('k, 'm, 'b, 'a, 'f, 'p) app_wallet \<Rightarrow> (sqldb, ('m, 'b) HeaderDB) WireService" where
  "aw_ws w \<equiv> l_ws (aw_life w)"

text \<open>The text of an error.\<close>

definition app_error :: "'f app_lib \<Rightarrow> error \<Rightarrow> string" where
  "app_error al e = (case e of ErrMsg m \<Rightarrow> m | _ \<Rightarrow> al_error al e)"

section \<open>The messages\<close>

definition on_getStats ::
    "'f app_lib \<Rightarrow> go_time \<Rightarrow> 'f json option \<Rightarrow> ('k, 'm, 'b, 'a, 'f, 'p) app \<Rightarrow> ('k, 'm, 'b, 'a, 'f, 'p) app_result" where
  "on_getStats al now payload ap =
     (case one_field ''currencyCode'' payload of
        None \<Rightarrow> Ret (ap, [])
      | Some code \<Rightarrow>
          with_wallet (\<lambda>_ w.
            let env = sv_env (aw_sv w) in
            case Balance env (aw_ws w) of
              None \<Rightarrow> Hangs
            | Some (confirmed, _) \<Rightarrow>
                (case wallet_Transactions env now (aw_ws w) of
                   (_, Some e) \<Rightarrow> Ret (ap, [])
                 | (txs, None) \<Rightarrow>
                     (case GetExchangeRate code (aw_rates w) of
                        Ok rate \<Rightarrow>
                          (let bchVal = fdiv (al_fl al) (al_of_int al (sint confirmed)) (al_of_int al 100000000);
                               fiatVal = fmul (al_fl al) bchVal rate
                           in Ret (ap, [SendMessage ''statsUpdate'' (PStats
                                \<lparr>s_Confirmed = confirmed, s_Fiat = al_fmt2 al fiatVal, s_Transactions = length txs,
                                 s_Height = fst (chain_tip env (ws_h (aw_ws w))), s_ExchangeRate = al_fmt2 al rate\<rparr>)]))
                      | _ \<Rightarrow> Ret (ap, [])))) ap)"

definition on_getAddress :: "('k, 'm, 'b, 'a, 'f, 'p) app \<Rightarrow> ('k, 'm, 'b, 'a, 'f, 'p) app_result" where
  "on_getAddress ap =
     with_wallet (\<lambda>_ w.
       case go_bind (CurrentAddress (spv_of (aw_sv w) [] (aw_ws w)) EXTERNAL) addr_str of
         Ok a \<Rightarrow> Ret (ap, [SendMessage ''address'' (PText a)])
       | _ \<Rightarrow> Panics) ap"

definition app_feeLevel :: "string \<Rightarrow> FeeLevel" where
  "app_feeLevel l =
     (if ToLower l = ''priority'' then PRIOIRTY else if ToLower l = ''normal'' then NORMAL
      else if ToLower l = ''economic'' then ECONOMIC else NORMAL)"

definition send_payload :: "'f app_lib \<Rightarrow> 'f json option \<Rightarrow> (string \<times> 'f \<times> string) option" where
  "send_payload al payload =
     Option.bind (json_members payload) (\<lambda>kvs.
     Option.bind (str_field ''address'' kvs) (\<lambda>a.
     Option.bind (json_fold json_number ''amount'' (al_of_int al 0) kvs) (\<lambda>x.
     Option.bind (str_field ''note'' kvs) (\<lambda>_. Option.bind (str_field ''feeLevel'' kvs) (\<lambda>l. Some (a, x, l))))))"

definition on_send ::
    "'f app_lib \<Rightarrow> go_time \<Rightarrow> 'f json option \<Rightarrow> ('k, 'm, 'b, 'a, 'f, 'p) app \<Rightarrow> ('k, 'm, 'b, 'a, 'f, 'p) app_result" where
  "on_send al now payload ap =
     (case send_payload al payload of
        None \<Rightarrow> Ret (ap, [])
      | Some (a, amount, l) \<Rightarrow>
          with_wallet (\<lambda>i w.
            case DecodeAddress_lib (sv_lib (aw_sv w)) a of
              None \<Rightarrow> Ret (ap, [SendMessage ''spendError'' (PText ''Invalid address'')])
            | Some addr \<Rightarrow>
                run_bind (serve (aw_sv w) (ConnectedPeers (l_pm (aw_life w)))
                    (Spend now (sv_perm (aw_sv w)) (al_int64 al amount) (Some addr) (app_feeLevel l)) (aw_ws w))
                  (\<lambda>(r, ws1, evs, msgs).
                    case r of
                      Ok _ \<Rightarrow> Ret (set_ws i ws1 ap, [Wallet_out evs msgs])
                    | Err e \<Rightarrow> Ret (set_ws i ws1 ap, [Wallet_out evs msgs, SendMessage ''spendError'' (PText (app_error al e))])
                    | Panic \<Rightarrow> Panics)) ap)"

definition on_clipboard :: "'f app_lib \<Rightarrow> 'f json option \<Rightarrow> ('k, 'm, 'b, 'a, 'f, 'p) app \<Rightarrow> ('k, 'm, 'b, 'a, 'f, 'p) app_result" where
  "on_clipboard al payload ap =
     (case one_field ''data'' payload of
        None \<Rightarrow> Ret (ap, [])
      | Some d \<Rightarrow> Ret (if al_clip al then ap\<lparr>ap_clipboard := d\<rparr> else ap, []))"

text \<open>The payload is a string that holds the settings as JSON.\<close>

definition on_putSettings :: "'f app_lib \<Rightarrow> 'f json option \<Rightarrow> ('k, 'm, 'b, 'a, 'f, 'p) app \<Rightarrow> ('k, 'm, 'b, 'a, 'f, 'p) app_result" where
  "on_putSettings al payload ap =
     (case Option.bind (json_text payload) (\<lambda>t. settings_of (al_uint al) (al_int al) (al_parse al t)) of
        None \<Rightarrow> Ret (ap, [])
      | Some s \<Rightarrow> Ret (if al_create al then ap\<lparr>ap_settings := GoodFile s\<rparr> else ap, []))"

text \<open>The errors of reading and of decoding the file are only logged.\<close>

definition on_getSettings :: "('k, 'm, 'b, 'a, 'f, 'p) app \<Rightarrow> ('k, 'm, 'b, 'a, 'f, 'p) app_result" where
  "on_getSettings ap =
     (let s = (case ap_settings ap of NoFile \<Rightarrow> zero_settings | BadFile s \<Rightarrow> s | GoodFile s \<Rightarrow> s) in
      Ret (ap, [SendMessage ''settings'' (PSettings (cash_unit s))]))"

definition app_resync :: "go_time \<Rightarrow> ('k, 'm, 'b, 'a, 'f, 'p) app \<Rightarrow> ('k, 'm, 'b, 'a, 'f, 'p) app_result" where
  "app_resync t ap =
     with_wallet (\<lambda>i w.
       run_bind (ReSyncBlockchain (sv_env (aw_sv w)) t (aw_ws w)) (\<lambda>(ws1, acts). Ret (set_ws i ws1 ap, [Wire_out acts]))) ap"

definition payload_date :: "'f app_lib \<Rightarrow> string \<Rightarrow> go_time" where
  "payload_date al d = (if d = [] then al_zero_time al else case al_date al d of Some t \<Rightarrow> t | None \<Rightarrow> al_zero_time al)"

text \<open>A key in hexadecimal form or in the wallet import format; the result of \<open>ImportKey\<close> is dropped.\<close>

definition on_importKey :: "'f app_lib \<Rightarrow> 'f json option \<Rightarrow> ('k, 'm, 'b, 'a, 'f, 'p) app \<Rightarrow> ('k, 'm, 'b, 'a, 'f, 'p) app_result" where
  "on_importKey al payload ap =
     (case two_fields ''key'' ''date'' payload of
        None \<Rightarrow> Ret (ap, [])
      | Some (key, date) \<Rightarrow>
          with_wallet (\<lambda>i w.
            let sv = aw_sv w;
                r = (case hex_DecodeString key of
                       None \<Rightarrow> (case DecodeWIF sv key of None \<Rightarrow> Err LibError | Some p \<Rightarrow> Ok p)
                     | Some bs \<Rightarrow> if length bs \<noteq> 32 then Err (ErrMsg ''Invalid key'') else Ok (PrivKeyFromBytes sv bs, True))
            in case r of
                 Ok (privKey, compress) \<Rightarrow>
                   (let s1 = snd (ImportKey (sv_te sv) (sv_lib sv) (pub_Hash160 sv) (priv_Serialize sv) privKey compress (ws_s (aw_ws w)))
                    in app_resync (payload_date al date) (set_ws i ((aw_ws w)\<lparr>ws_s := s1\<rparr>) ap))
               | Err e \<Rightarrow> Ret (ap, [SendMessage ''importError'' (PText (app_error al e))])
               | Panic \<Rightarrow> Panics) ap)"

definition app_transactions :: "'f app_lib \<Rightarrow> go_time \<Rightarrow> ('k, 'm, 'b, 'a, 'f, 'p) app \<Rightarrow> ('k, 'm, 'b, 'a, 'f, 'p) app_result" where
  "app_transactions al now ap =
     with_wallet (\<lambda>_ w.
       case wallet_Transactions (sv_env (aw_sv w)) now (aw_ws w) of
         (txs, err) \<Rightarrow>
           Ret (ap, (case err of None \<Rightarrow> [] | Some e \<Rightarrow> [SendMessage ''txError'' (PText (app_error al e))]) @
                    [SendMessage ''transactions'' (PTxns txs)])) ap"

definition on_getMnemonic :: "('k, 'm, 'b, 'a, 'f, 'p) app \<Rightarrow> ('k, 'm, 'b, 'a, 'f, 'p) app_result" where
  "on_getMnemonic ap = with_wallet (\<lambda>_ w. Ret (ap, [SendMessage ''mnemonic'' (PText (aw_mnemonic w))])) ap"

section \<open>Restoring a wallet\<close>

text \<open>
  A restore closes the wallet, removes its files, and creates a wallet with the given mnemonic over new ones; \<open>config\<close> is shared with
  \<open>NewSPVWallet\<close>, which fills in a missing mnemonic.  The environment of the new wallet differs from that of the old one in the
  keys, the chain and the dates.
\<close>

definition new_files :: "('k, 'm, 'b, 'a) new_lib \<Rightarrow> sqldb \<times> ('m, 'b) HeaderDB" where
  "new_files nl =
     (initDatabaseTables (nl_rand nl), NewHeaderDB (nl_hl nl) (nl_ol nl) (nl_bl nl) (bk_New (nl_bl nl)) (bk_New (nl_bl nl)))"

definition restore_config :: "'k seed_lib \<Rightarrow> go_time \<Rightarrow> Config \<Rightarrow> Config" where
  "restore_config sl now config =
     (if cf_Mnemonic config = []
      then (case NewMnemonic sl of None \<Rightarrow> config | Some m \<Rightarrow> config\<lparr>cf_Mnemonic := m, cf_CreationDate := now\<rparr>)
      else config)"

definition new_server ::
    "('k, 'm, 'b, 'a) new_lib \<Rightarrow> ('k, ('m, 'b) HeaderDB) new_wallet \<Rightarrow> (sqldb, 'k, ('m, 'b) HeaderDB, 'p) server \<Rightarrow>
     (sqldb, 'k, ('m, 'b) HeaderDB, 'p) server" where
  "new_server nl w sv =
     sv\<lparr>sv_env := (sv_env sv)\<lparr>we_ts := wallet_env (nl_lib nl) (nl_scl nl) (nl_kl nl) (nl_order nl) (nw_km w), we_b := nw_chain w,
          walletCreationDate := nw_creationDate w, minPeersForSync := nw_minSync w\<rparr>, sv_creationDate := nw_creationDate w\<rparr>"

definition restored ::
    "('k, 'm, 'b, 'a) new_lib \<Rightarrow> string \<Rightarrow> go_time \<Rightarrow> ('k, ('m, 'b) HeaderDB) new_wallet \<Rightarrow> sqldb \<Rightarrow> ('k, 'm, 'b, 'a, 'f, 'p) app_wallet \<Rightarrow>
     ('k, 'm, 'b, 'a, 'f, 'p) app_wallet" where
  "restored nl m t w db old =
     (let db1 = snd (SetCreationDate (FormatTime (nl_seed nl)) t (snd (SetMnemonic m db))) in
      \<lparr>aw_sv = new_server nl w (aw_sv old), aw_life = wallet_Start (new_life (nl_pm nl) ((nw_ws w)\<lparr>ws_s := db1\<rparr>)),
       aw_rates = NewBitcoinCashPriceFetcher, aw_mnemonic = nw_mnemonic w\<rparr>)"

definition on_restore ::
    "('k, 'm, 'b, 'a) new_lib \<Rightarrow> 'f app_lib \<Rightarrow> go_time \<Rightarrow> int \<Rightarrow> 'f json option \<Rightarrow> ('k, 'm, 'b, 'a, 'f, 'p) app \<Rightarrow>
     ('k, 'm, 'b, 'a, 'f, 'p) app_result" where
  "on_restore nl al now rnd payload ap =
     (case two_fields ''mnemonic'' ''date'' payload of
        None \<Rightarrow> Ret (ap, [])
      | Some (m, date) \<Rightarrow>
          with_wallet (\<lambda>i old.
            run_bind (wallet_Close (aw_life old)) (\<lambda>closed.
              let t = payload_date al date;
                  config = (ap_config ap)\<lparr>cf_Mnemonic := m, cf_CreationDate := t\<rparr>;
                  ap1 = ap\<lparr>ap_wallets := (ap_wallets ap)[i := old\<lparr>aw_life := closed\<rparr>], ap_config := restore_config (nl_seed nl) now config\<rparr>;
                  (db, h) = new_files nl
              in run_bind (NewSPVWallet (nl_seed nl) (nl_scl nl) (nl_kl nl) (nl_order nl) (nl_lib nl) (HeaderDB_if (nl_hl nl) (nl_ol nl) (nl_bl nl))
                     (nl_hl nl) (nl_pow nl) (nl_genesis nl) (nl_params nl) (nl_trusted nl) (nl_peers nl) now rnd config db h)
                   (\<lambda>(r, db1, h1).
                      case r of
                        Ok w \<Rightarrow>
                          Ret (ap1\<lparr>ap_wallets := ap_wallets ap1 @ [restored nl m t w db1 old], ap_cash := Some (length (ap_wallets ap1))\<rparr>, [])
                      | _ \<Rightarrow> Ret (ap1\<lparr>ap_cash := None\<rparr>, [])))) ap)"

section \<open>The handler and the events of the window\<close>

definition MessageHandler ::
    "('k, 'm, 'b, 'a) new_lib \<Rightarrow> 'f app_lib \<Rightarrow> go_time \<Rightarrow> int \<Rightarrow> string \<Rightarrow> 'f json option \<Rightarrow> ('k, 'm, 'b, 'a, 'f, 'p) app \<Rightarrow>
     ('k, 'm, 'b, 'a, 'f, 'p) app_result" where
  "MessageHandler nl al now rnd name payload ap =
     (if name = ''getStats'' then on_getStats al now payload ap
      else if name = ''getAddress'' then on_getAddress ap
      else if name = ''send'' then on_send al now payload ap
      else if name = ''clipboard'' then on_clipboard al payload ap
      else if name = ''putSettings'' then on_putSettings al payload ap
      else if name = ''getSettings'' then on_getSettings ap
      else if name = ''openbrowser'' then Ret (ap, case json_text payload of None \<Rightarrow> [] | Some url \<Rightarrow> [OpenUrl url])
      else if name = ''resync'' then app_resync (cf_CreationDate (ap_config ap)) ap
      else if name = ''importKey'' then on_importKey al payload ap
      else if name = ''restore'' then on_restore nl al now rnd payload ap
      else if name = ''minimize'' then if ap_tray ap then Ret (ap, [HideWindow, NewTray]) else Panics
      else if name = ''showTransactions''
      then run_bind (app_transactions al now ap) (\<lambda>(ap1, outs). Ret (ap1, Resize 649 # outs))
      else if name = ''getTransactions'' then app_transactions al now ap
      else if name = ''hide'' then Ret (ap, [Resize 341])
      else if name = ''showSettings'' then Ret (ap, [Resize 649])
      else if name = ''getMnemonic'' then on_getMnemonic ap
      else Ret (ap, []))"

text \<open>\<open>handleMessages\<close>: a message that does not decode is dropped.\<close>

definition handleMessages ::
    "('k, 'm, 'b, 'a) new_lib \<Rightarrow> 'f app_lib \<Rightarrow> go_time \<Rightarrow> int \<Rightarrow> (string \<times> 'f json option) option \<Rightarrow> ('k, 'm, 'b, 'a, 'f, 'p) app \<Rightarrow>
     ('k, 'm, 'b, 'a, 'f, 'p) app_result" where
  "handleMessages nl al now rnd e ap =
     (case e of None \<Rightarrow> Ret (ap, []) | Some (name, payload) \<Rightarrow> MessageHandler nl al now rnd name payload ap)"

text \<open>A new transaction is reported with the height of the tip.\<close>

definition on_transaction :: "('k, 'm, 'b, 'a, 'f, 'p) app \<Rightarrow> ('k, 'm, 'b, 'a, 'f, 'p) app_result" where
  "on_transaction ap =
     with_wallet (\<lambda>_ w. Ret (ap, [SendMessage ''newTransaction'' (PHeight (fst (chain_tip (sv_env (aw_sv w)) (ws_h (aw_ws w)))))])) ap"

text \<open>
  The event that the program stops: the channel of the tray is closed, which panics the second time, and the wallet of the
  options is closed.
\<close>

definition on_stop :: "('k, 'm, 'b, 'a, 'f, 'p) app \<Rightarrow> ('k, 'm, 'b, 'a, 'f, 'p) app run" where
  "on_stop ap =
     (if \<not> ap_tray ap then Panics
      else let w = ap_wallets ap ! ap_boot ap in
           run_bind (wallet_Close (aw_life w)) (\<lambda>l.
             Ret (ap\<lparr>ap_tray := False, ap_wallets := (ap_wallets ap)[ap_boot ap := w\<lparr>aw_life := l\<rparr>]\<rparr>)))"

text \<open>
  \<open>provision\<close>: the assets are restored when their directory is missing; \<open>stat\<close> is \<open>None\<close> when it is, and otherwise says whether it
  can be read; \<open>custom\<close> is the result of the function of the options, if there is one.
\<close>

definition custom_provision :: "bool option \<Rightarrow> error option" where
  "custom_provision custom = (case custom of Some False \<Rightarrow> Some LibError | _ \<Rightarrow> None)"

definition provision :: "bool option \<Rightarrow> bool \<Rightarrow> bool option \<Rightarrow> error option" where
  "provision stat assets custom =
     (case stat of
        None \<Rightarrow> if assets then custom_provision custom else Some LibError
      | Some readable \<Rightarrow> if readable then custom_provision custom else Some LibError)"

section \<open>Restoring\<close>

lemma config_put_tables: "sql_view lib (config_put k v db) = sql_view lib db" "sql_inv lib (config_put k v db) \<longleftrightarrow> sql_inv lib db"
  by (simp_all add: config_put_def sql_view_def sql_inv_def represents_def UtxoDB_GetAll_def StxoDB_GetAll_def WatchedScriptsDB_GetAll_def)

text \<open>What a restored wallet is, whatever its mnemonic: \<open>m\<close> is the one of the message, \<open>config\<close> the configuration \<open>NewSPVWallet\<close> ends with.\<close>

lemma on_restore_ok:
  assumes ok: "wire_ok (nl_lib nl)" "omap_ok (nl_ol nl)" "bolt_ok (nl_bl nl)" "hl_ok (nl_hl nl)"
    and keys: "wallet_keys (nl_seed nl) ((ap_config ap)\<lparr>cf_Mnemonic := m, cf_CreationDate := payload_date al date\<rparr>) now = Ok (config, mPriv, mPub)"
      "Bip44Derivation (nl_kl nl) mPriv = Ok (internal, external)"
      "key_supply (nl_kl nl) \<lparr>internalKey = internal, externalKey = external\<rparr> N" "1000 \<le> N"
      "nl_order nl = [EXTERNAL, INTERNAL] \<or> nl_order nl = [INTERNAL, EXTERNAL]"
    and cp: "cp = GetCheckpoint (nl_genesis nl) (cf_CreationDate config) (nl_params nl)" "checkpoint_ok (nl_hl nl) cp" "nl_peers nl = None"
    and msg: "two_fields ''mnemonic'' ''date'' payload = Some (m, date)" "ap_cash ap = Some i" "i < length (ap_wallets ap)"
    and life: "l_running (aw_life (ap_wallets ap ! i))" "l_chain (aw_life (ap_wallets ap ! i)) = None"
      "\<not> l_store (aw_life (ap_wallets ap ! i))" "l_quit (aw_life (ap_wallets ap ! i)) = OpenChan"
  shows "\<exists>ap' w closed. MessageHandler nl al now rnd ''restore'' payload ap = Ret (ap', []) \<and>
    ap_wallets ap' = (ap_wallets ap)[i := (ap_wallets ap ! i)\<lparr>aw_life := closed\<rparr>] @ [w] \<and>
    ap_cash ap' = Some (length (ap_wallets ap)) \<and> ap_api ap' = ap_api ap \<and> ap_boot ap' = ap_boot ap \<and> ap_tray ap' = ap_tray ap \<and>
    wallet_Close (aw_life (ap_wallets ap ! i)) = Ret closed \<and>
    aw_mnemonic w = cf_Mnemonic config \<and> GetMnemonic (ws_s (aw_ws w)) = (m, None) \<and> l_running (aw_life w) \<and> l_open (aw_life w) \<and>
    sql_inv (nl_lib nl) (ws_s (aw_ws w)) \<and>
    keys_ok (nl_kl nl) \<lparr>internalKey = internal, externalKey = external\<rparr> N (v_keys (sql_view (nl_lib nl) (ws_s (aw_ws w)))) \<and>
    HeaderDB_GetBestHeader (nl_hl nl) (nl_bl nl) (ws_h (aw_ws w)) = Ok (first_header cp)"
proof -
  let ?old = "ap_wallets ap ! i" and ?t = "payload_date al date"
  obtain w db h where w: "NewSPVWallet (nl_seed nl) (nl_scl nl) (nl_kl nl) (nl_order nl) (nl_lib nl) (HeaderDB_if (nl_hl nl) (nl_ol nl) (nl_bl nl))
      (nl_hl nl) (nl_pow nl) (nl_genesis nl) (nl_params nl) (nl_trusted nl) None now rnd ((ap_config ap)\<lparr>cf_Mnemonic := m, cf_CreationDate := ?t\<rparr>)
      (initDatabaseTables (nl_rand nl)) (NewHeaderDB (nl_hl nl) (nl_ol nl) (nl_bl nl) (bk_New (nl_bl nl)) (bk_New (nl_bl nl))) = Ret (Ok w, db, h)"
    "nw_mnemonic w = cf_Mnemonic config" "ws_h (nw_ws w) = h" "sql_inv (nl_lib nl) db"
    "keys_ok (nl_kl nl) \<lparr>internalKey = internal, externalKey = external\<rparr> N (v_keys (sql_view (nl_lib nl) db))"
    "HeaderDB_GetBestHeader (nl_hl nl) (nl_bl nl) h = Ok (first_header cp)"
    using NewSPVWallet_new [OF ok keys(1,2) refl keys(3-5) cp(1,2) sql_inv_init [OF ok(1)],
        of "nl_rand nl" "nl_scl nl" "nl_pow nl" "nl_trusted nl" rnd]
    by (auto simp: sql_view_def initDatabaseTables_def)
  obtain closed where c: "wallet_Close (aw_life ?old) = Ret closed" using Close_returns [OF life] by blast
  define nw where "nw = restored nl m ?t w db ?old"
  have "\<exists>ap'. MessageHandler nl al now rnd ''restore'' payload ap = Ret (ap', []) \<and>
      ap_wallets ap' = (ap_wallets ap)[i := ?old\<lparr>aw_life := closed\<rparr>] @ [nw] \<and>
      ap_cash ap' = Some (length (ap_wallets ap)) \<and> ap_api ap' = ap_api ap \<and> ap_boot ap' = ap_boot ap \<and> ap_tray ap' = ap_tray ap"
    by (simp add: MessageHandler_def on_restore_def msg(1,2) with_wallet_def c new_files_def cp(3) w(1) nw_def Let_def)
  moreover have "aw_mnemonic nw = cf_Mnemonic config \<and> GetMnemonic (ws_s (aw_ws nw)) = (m, None) \<and> l_running (aw_life nw) \<and> l_open (aw_life nw) \<and>
      sql_inv (nl_lib nl) (ws_s (aw_ws nw)) \<and> sql_view (nl_lib nl) (ws_s (aw_ws nw)) = sql_view (nl_lib nl) db \<and> ws_h (aw_ws nw) = h"
    using w(2-4)
    by (simp add: nw_def restored_def wallet_Start_def new_life_def SetMnemonic_def SetCreationDate_def config_put_tables)
      (simp add: GetMnemonic_def config_put_def map_of_upsert)
  ultimately show ?thesis using c w(5,6) by metis
qed

text \<open>Property C16. Restoring a wallet from a mnemonic: the window's wallet is closed and replaced by one with this mnemonic over new files,
  with keys in advance and the checkpoint as its tip; the mnemonic is the one that the next start of the program finds.  The remote interface and
  the stop event keep the old wallet: when the window stops, the restored one stays open and running.\<close>

theorem restore_correct:
  assumes "wire_ok (nl_lib nl)" "omap_ok (nl_ol nl)" "bolt_ok (nl_bl nl)" "hl_ok (nl_hl nl)"
    and "NewMaster (nl_seed nl) (NewSeed (nl_seed nl) m) = Some mPriv" "Neuter (nl_seed nl) mPriv = Some mPub" "m \<noteq> ''''"
      "Bip44Derivation (nl_kl nl) mPriv = Ok (internal, external)"
      "key_supply (nl_kl nl) \<lparr>internalKey = internal, externalKey = external\<rparr> N" "1000 \<le> N"
      "nl_order nl = [EXTERNAL, INTERNAL] \<or> nl_order nl = [INTERNAL, EXTERNAL]"
    and "cp = GetCheckpoint (nl_genesis nl) (payload_date al date) (nl_params nl)" "checkpoint_ok (nl_hl nl) cp" "nl_peers nl = None"
    and "two_fields ''mnemonic'' ''date'' payload = Some (m, date)" "ap_cash ap = Some i" "i < length (ap_wallets ap)" "ap_boot ap = i" "ap_tray ap"
    and "l_running (aw_life (ap_wallets ap ! i))" "l_chain (aw_life (ap_wallets ap ! i)) = None"
      "\<not> l_store (aw_life (ap_wallets ap ! i))" "l_quit (aw_life (ap_wallets ap ! i)) = OpenChan"
  shows "\<exists>ap' w. MessageHandler nl al now rnd ''restore'' payload ap = Ret (ap', []) \<and>
    ap_cash ap' = Some (length (ap_wallets ap)) \<and> ap_wallets ap' ! length (ap_wallets ap) = w \<and>
    aw_mnemonic w = m \<and> (\<forall>x. start_mnemonic x (ws_s (aw_ws w)) = m) \<and>
    keys_ok (nl_kl nl) \<lparr>internalKey = internal, externalKey = external\<rparr> N (v_keys (sql_view (nl_lib nl) (ws_s (aw_ws w)))) \<and>
    HeaderDB_GetBestHeader (nl_hl nl) (nl_bl nl) (ws_h (aw_ws w)) = Ok (first_header cp) \<and>
    l_store (aw_life (ap_wallets ap' ! i)) \<and> ap_api ap' = ap_api ap \<and>
    (\<exists>ap''. on_stop ap' = Ret ap'' \<and> ap_wallets ap'' ! length (ap_wallets ap) = w) \<and> l_running (aw_life w) \<and> l_open (aw_life w)"
proof -
  have keys: "wallet_keys (nl_seed nl) ((ap_config ap)\<lparr>cf_Mnemonic := m, cf_CreationDate := payload_date al date\<rparr>) now =
      Ok ((ap_config ap)\<lparr>cf_Mnemonic := m, cf_CreationDate := payload_date al date\<rparr>, mPriv, mPub)"
    using assms(5-7) by (simp add: wallet_keys_def)
  obtain ap' w closed where r: "MessageHandler nl al now rnd ''restore'' payload ap = Ret (ap', [])"
    "ap_wallets ap' = (ap_wallets ap)[i := (ap_wallets ap ! i)\<lparr>aw_life := closed\<rparr>] @ [w]"
    "ap_cash ap' = Some (length (ap_wallets ap))" "ap_api ap' = ap_api ap" "ap_boot ap' = ap_boot ap"
    "wallet_Close (aw_life (ap_wallets ap ! i)) = Ret closed"
    "aw_mnemonic w = m" "GetMnemonic (ws_s (aw_ws w)) = (m, None)" "l_running (aw_life w)" "l_open (aw_life w)"
    "keys_ok (nl_kl nl) \<lparr>internalKey = internal, externalKey = external\<rparr> N (v_keys (sql_view (nl_lib nl) (ws_s (aw_ws w))))"
    "HeaderDB_GetBestHeader (nl_hl nl) (nl_bl nl) (ws_h (aw_ws w)) = Ok (first_header cp)" "ap_tray ap' = ap_tray ap"
    using on_restore_ok [OF assms(1-4) keys assms(8-11) _ assms(13-17) assms(20-23)] assms(12) by (simp; blast)
  have closed: "l_store closed" "\<not> l_running closed" using Close_returns [OF assms(20-23)] r(6) by auto
  have "ap_wallets ap' ! i = (ap_wallets ap ! i)\<lparr>aw_life := closed\<rparr>" using assms(17) by (simp add: r(2) nth_append)
  then have "\<exists>ap''. on_stop ap' = Ret ap'' \<and> ap_wallets ap'' ! length (ap_wallets ap) = w"
    using assms(17-19) closed(2) by (simp add: on_stop_def r(2,5,13) wallet_Close_def close_run.simps nth_append Let_def)
  then show ?thesis
    using r assms(7,17) closed(1) by (auto simp: nth_append start_mnemonic_def)
qed

text \<open>A restore without a mnemonic makes a wallet with a mnemonic of its own and then files the empty one of the message: the next start of
  the program, without a mnemonic among its options, does not find the wallet's but starts with none.\<close>

theorem restore_without_mnemonic:
  assumes "wire_ok (nl_lib nl)" "omap_ok (nl_ol nl)" "bolt_ok (nl_bl nl)" "hl_ok (nl_hl nl)"
    and "NewMnemonic (nl_seed nl) = Some g" "NewMaster (nl_seed nl) (NewSeed (nl_seed nl) g) = Some mPriv" "Neuter (nl_seed nl) mPriv = Some mPub"
      "Bip44Derivation (nl_kl nl) mPriv = Ok (internal, external)"
      "key_supply (nl_kl nl) \<lparr>internalKey = internal, externalKey = external\<rparr> N" "1000 \<le> N"
      "nl_order nl = [EXTERNAL, INTERNAL] \<or> nl_order nl = [INTERNAL, EXTERNAL]"
    and "checkpoint_ok (nl_hl nl) (GetCheckpoint (nl_genesis nl) now (nl_params nl))" "nl_peers nl = None"
    and "two_fields ''mnemonic'' ''date'' payload = Some ('''', date)" "ap_cash ap = Some i" "i < length (ap_wallets ap)"
    and "l_running (aw_life (ap_wallets ap ! i))" "l_chain (aw_life (ap_wallets ap ! i)) = None"
      "\<not> l_store (aw_life (ap_wallets ap ! i))" "l_quit (aw_life (ap_wallets ap ! i)) = OpenChan"
  shows "\<exists>ap' w. MessageHandler nl al now rnd ''restore'' payload ap = Ret (ap', []) \<and> ap_wallets ap' ! length (ap_wallets ap) = w \<and>
    aw_mnemonic w = g \<and> (\<forall>x. o_Mnemonic x = '''' \<longrightarrow> start_mnemonic x (ws_s (aw_ws w)) = '''')"
proof -
  have keys: "wallet_keys (nl_seed nl) ((ap_config ap)\<lparr>cf_Mnemonic := [], cf_CreationDate := payload_date al date\<rparr>) now =
      Ok ((ap_config ap)\<lparr>cf_Mnemonic := g, cf_CreationDate := now\<rparr>, mPriv, mPub)"
    using assms(5-7) by (simp add: wallet_keys_def)
  obtain ap' w closed where r: "MessageHandler nl al now rnd ''restore'' payload ap = Ret (ap', [])"
    "ap_wallets ap' = (ap_wallets ap)[i := (ap_wallets ap ! i)\<lparr>aw_life := closed\<rparr>] @ [w]"
    "aw_mnemonic w = g" "GetMnemonic (ws_s (aw_ws w)) = ([], None)"
    using on_restore_ok [OF assms(1-4) keys assms(8-11) refl _ assms(13-20)] assms(12) by (simp; blast)
  then show ?thesis by (auto simp: nth_append start_mnemonic_def)
qed

section \<open>Settings\<close>

text \<open>The settings the window puts are those it gets back, with the units of the other currency renamed, and those that the
  next start of the program reads.\<close>

theorem settings_roundtrip:
  assumes "json_text payload = Some t" "settings_of (al_uint al) (al_int al) (al_parse al t) = Some s" "al_create al"
  shows "\<exists>ap'. MessageHandler nl al now rnd ''putSettings'' payload ap = Ret (ap', []) \<and> ap_wallets ap' = ap_wallets ap \<and>
    MessageHandler nl al now' rnd' ''getSettings'' payload' ap' = Ret (ap', [SendMessage ''settings'' (PSettings (cash_unit s))]) \<and>
    fst (start_settings li x (ap_settings ap')) = Ok (cash_unit s)"
proof (intro exI conjI)
  let ?ap = "ap\<lparr>ap_settings := GoodFile s\<rparr>"
  show "MessageHandler nl al now rnd ''putSettings'' payload ap = Ret (?ap, [])"
    using assms by (simp add: MessageHandler_def on_putSettings_def)
  show "MessageHandler nl al now' rnd' ''getSettings'' payload' ?ap = Ret (?ap, [SendMessage ''settings'' (PSettings (cash_unit s))])"
    by (simp add: MessageHandler_def on_getSettings_def)
qed (simp_all add: start_settings_def)

text \<open>After a restore that failed, the messages that need the wallet crash the program.\<close>

lemma no_wallet_panics:
  assumes "ap_cash ap = None"
  shows "MessageHandler nl al now rnd ''getAddress'' payload ap = Panics" "MessageHandler nl al now rnd ''resync'' payload ap = Panics"
    "MessageHandler nl al now rnd ''getTransactions'' payload ap = Panics"
  by (simp_all add: MessageHandler_def on_getAddress_def app_resync_def app_transactions_def with_wallet_def assms)

section \<open>Witnesses\<close>

definition ex_new :: "(u32 list, (string, StoredHeader) alist, (bytes, bytes) alist, unit) new_lib" where
  "ex_new = \<lparr>nl_seed = ex_seed, nl_scl = ex_sl, nl_kl = ex_hd, nl_order = [0, 1], nl_lib = ex_lib, nl_hl = ex_hl, nl_ol = ex_ol, nl_bl = ex_bl,
     nl_pow = ex_pow, nl_genesis = ex_header 7 0, nl_params = ex_params, nl_trusted = False, nl_peers = None, nl_pm = ex_life_pm, nl_rand = (\<lambda>n. 7)\<rparr>"

definition ex_floats :: "int float_lib" where
  "ex_floats = \<lparr>fmul = (*), fdiv = (div), f_one = 1, is_zero = (\<lambda>x. x = 0), ParseFloat = (\<lambda>_. None)\<rparr>"

definition ex_app_lib :: "int app_lib" where
  "ex_app_lib = \<lparr>al_fl = ex_floats, al_of_int = id, al_int64 = id, al_fmt2 = Itoa,
     al_parse = (\<lambda>t. if t = ''x'' then Some (JObj [(''BitcoinUnit'', JStr ''mBTC''), (''fees'', JObj [(''normal'', JNum 9)])]) else None),
     al_uint = (\<lambda>x. Some (word_of_int x)), al_int = Some, al_date = (\<lambda>_. None), al_zero_time = - 62135596800 * nano,
     al_clip = True, al_create = True, al_error = (\<lambda>_. ''error'')\<rparr>"

text \<open>A started wallet as the only one.\<close>

definition ex_app :: "(u32 list, (string, StoredHeader) alist, (bytes, bytes) alist, unit, int, u32 list) app" where
  "ex_app = \<lparr>ap_wallets = [\<lparr>aw_sv = ex_server, aw_life = (wallet_Start (new_life ex_life_pm ex_rpc_ws))\<lparr>l_quit := OpenChan, l_wires := [WSelect]\<rparr>,
       aw_rates = NewBitcoinCashPriceFetcher, aw_mnemonic = ''abandon''\<rparr>],
     ap_cash = Some 0, ap_api = 0, ap_boot = 0, ap_config = ex_config, ap_settings = NoFile, ap_clipboard = [], ap_tray = True\<rparr>"

abbreviation ex_restore :: "int json option" where
  "ex_restore \<equiv> Some (JObj [(''mnemonic'', JStr ''zoo''), (''date'', JStr '''')])"

lemma ex_restore: "two_fields ''mnemonic'' ''date'' ex_restore = Some (''zoo'', '''')"
  by code_simp

theorem restore_correct_witness:
  "\<exists>ap' w. MessageHandler ex_new ex_app_lib 50 3 ''restore'' ex_restore ex_app = Ret (ap', []) \<and> ap_cash ap' = Some 1 \<and>
     ap_wallets ap' ! 1 = w \<and> aw_mnemonic w = ''zoo'' \<and> l_store (aw_life (ap_wallets ap' ! 0)) \<and> l_running (aw_life w)"
proof -
  have n: "nl_lib ex_new = ex_lib" "nl_ol ex_new = ex_ol" "nl_bl ex_new = ex_bl" "nl_hl ex_new = ex_hl" "nl_kl ex_new = ex_hd"
    "NewMaster (nl_seed ex_new) (NewSeed (nl_seed ex_new) ''zoo'') = Some []" "Neuter (nl_seed ex_new) [] = Some []"
    "nl_order ex_new = [0, 1]" "nl_peers ex_new = None" "nl_genesis ex_new = ex_header 7 0" "nl_params ex_new = ex_params"
    by (simp_all add: ex_new_def ex_seed_def)
  have cp: "ex_cp = GetCheckpoint (ex_header 7 0) (payload_date ex_app_lib []) ex_params" by (simp add: GetCheckpoint_def ex_params_def)
  have km: "key_supply ex_hd \<lparr>internalKey = internalKey ex_km, externalKey = externalKey ex_km\<rparr> (2 ^ 32)"
  proof -
    have "\<lparr>internalKey = internalKey ex_km, externalKey = externalKey ex_km\<rparr> = ex_km" by simp
    then show ?thesis using ex_supply by (simp only:)
  qed
  have l: "ap_cash ex_app = Some 0" "length (ap_wallets ex_app) = 1" "ap_boot ex_app = 0" "ap_tray ex_app"
    "l_running (aw_life (ap_wallets ex_app ! 0))" "l_chain (aw_life (ap_wallets ex_app ! 0)) = None"
    "\<not> l_store (aw_life (ap_wallets ex_app ! 0))" "l_quit (aw_life (ap_wallets ex_app ! 0)) = OpenChan"
    by (simp_all add: ex_app_def wallet_Start_def new_life_def)
  show ?thesis
    using restore_correct [of ex_new "''zoo''" "[]" "[]" "internalKey ex_km" "externalKey ex_km" "2 ^ 32" ex_cp ex_app_lib "[]" ex_restore ex_app 0 50 3]
      ex_lib_ok ex_ol_ok ex_bl_ok ex_hl_ok ex_Bip44 km cp ex_cp_ok ex_restore
    unfolding n l(2) by (simp add: l) (fastforce simp: l)
qed

theorem settings_roundtrip_witness:
  "\<exists>ap' s. MessageHandler ex_new ex_app_lib 50 3 ''putSettings'' (Some (JStr ''x'')) ex_app = Ret (ap', []) \<and>
     MessageHandler ex_new ex_app_lib 60 4 ''getSettings'' None ap' = Ret (ap', [SendMessage ''settings'' (PSettings s)]) \<and>
     st_BitcoinUnit s = ''mBCH'' \<and> fs_Normal (st_Fees s) = 9"
proof -
  have "settings_of (al_uint ex_app_lib) (al_int ex_app_lib) (al_parse ex_app_lib ''x'') =
      Some (zero_settings\<lparr>st_BitcoinUnit := ''mBTC'', st_Fees := zero_fees\<lparr>fs_Normal := 9\<rparr>\<rparr>)" by code_simp
  from settings_roundtrip [OF _ this, of "Some (JStr ''x'')" ex_new 50 3 ex_app 60 4 None ex_start "ex_opts []"]
  show ?thesis by (fastforce simp: ex_app_lib_def cash_unit_def zero_settings_def)
qed

end
