(* ===== verification/Spec2Isabelle.thy ===== *)
theory Spec2Isabelle
  imports Merkle_Block Sqlite_Store Key_Manager Tx_Ingest Header_Store Chain_Commit Chain_Rules Tx_Spend Wire_Sync Wire_Blocks Wallet_Ops Mock_Store Peer_Net
    Tor_Lookup Exchange_Rates Rpc_Calls Cli Start_Cmd Wallet_Life Header_Print Address_Book Rpc_Session Window_App
begin

text \<open>
  \<^bold>\<open>A verified model of the Bitcoin Cash SPV wallet\<close> (Go package \<open>bitcoincash\<close> and its commands, under \<^verbatim>\<open>src/\<close>).

  \<^bold>\<open>The program.\<close>  A wallet that follows the block chain by headers only.  The peer manager connects to nodes of the
  network and passes their messages to the wire service, which runs one loop over them: it downloads headers, asks for
  filtered blocks, checks their Merkle proofs and hands transactions to the transaction store.  The transaction store keeps
  the outputs of the wallet, what was spent and by whom, and resolves double spends and reorganisations.  The key manager
  derives the addresses and keeps a window of unused ones.  Both keep their tables in a datastore; the headers are in a
  file of their own.  On top of these the wallet reports balances and builds, signs and sends transactions; it is reached
  by a remote interface with a command line client, and by a window that the start command opens.

  \<^bold>\<open>Theories and sources.\<close>
  \<^item> \<open>Wallet_Prelude\<close>: machine types, errors, the ways a call ends (\<open>go\<close>: a value, an error or a panic; \<open>run\<close>: it may also not end),
    word arithmetic and keyed tables.  \<open>Wallet_Types\<close>: the structs of \<^verbatim>\<open>wallet-interface/datastore.go\<close> and \<^verbatim>\<open>wallet-interface/wallet.go\<close>.
    \<open>Go_Lib\<close>: hexadecimal and decimal numbers, splitting of strings, and the record of the wire library.
  \<^item> \<open>Merkle_Block\<close>: \<^verbatim>\<open>mblock.go\<close>, the proof checker of filtered blocks.
  \<^item> \<open>Datastore_Spec\<close>: the interface of \<^verbatim>\<open>wallet-interface/datastore.go\<close> as a method table, an abstract state of its tables and the
    laws of its operations as the locale \<open>datastore_laws\<close>, in which the clients are verified.  \<open>Sqlite_Store\<close>: \<^verbatim>\<open>db/*.go\<close>, one
    definition per method over the rows of the tables, and the interpretation of the locale.  \<open>Mock_Store\<close>: \<^verbatim>\<open>mock.go\<close>, the store in
    memory, which keeps the laws of the utxo table and not those of the other tables.
  \<^item> \<open>Key_Manager\<close>: \<^verbatim>\<open>keys.go\<close>.
  \<^item> \<open>Tx_Store\<close>: \<^verbatim>\<open>txstore.go\<close>; \<open>Tx_Dead\<close> and \<open>Tx_Ingest\<close> hold its properties.
  \<^item> \<open>Header_Store\<close>: \<^verbatim>\<open>headers.go\<close>, the file, the cache and the writes that are still under way.
  \<^item> \<open>Block_Chain\<close>: \<^verbatim>\<open>blockchain.go\<close>, \<^verbatim>\<open>checkpoints.go\<close> and \<^verbatim>\<open>timesorter.go\<close> over an interface of header stores, whose laws are a
    locale interpreted on \<open>Header_Store\<close>; \<open>Chain_Commit\<close> and \<open>Chain_Rules\<close> hold its properties.
  \<^item> \<open>Tx_Sizes\<close>: \<^verbatim>\<open>txsizes.go\<close>, \<^verbatim>\<open>fees.go\<close> and the lock time of \<^verbatim>\<open>sortsignsend.go\<close>; \<open>Tx_Build\<close>: the rest of \<^verbatim>\<open>sortsignsend.go\<close>;
    \<open>Tx_Author\<close> and \<open>Tx_Spend\<close> hold its properties.
  \<^item> \<open>Wire_Service\<close>: \<^verbatim>\<open>eight333.go\<close>, one definition per handler, with everything it sends; \<open>Wire_Inv\<close>, \<open>Wire_Sync\<close> and \<open>Wire_Blocks\<close> hold
    its properties.  \<open>Peer_Manager\<close>: \<^verbatim>\<open>peers.go\<close>; \<open>Peer_Net\<close>: its properties, alone and together with the wire service, whose
    contract towards the manager is the locale \<open>peer_service\<close>, interpreted on \<open>Wire_Service\<close>.
    \<open>Tor_Lookup\<close>: \<^verbatim>\<open>tor.go\<close>.
  \<^item> \<open>Spv_Wallet\<close>: \<^verbatim>\<open>wallet.go\<close>; \<open>Wallet_Ops\<close> holds its properties, and \<open>Address_Book\<close> the contract of its addresses, a locale that is
    interpreted on \<open>CurrentAddress\<close> and \<open>NewAddress\<close> over the SQLite store.  \<open>Wallet_Life\<close>: \<open>Start\<close> and \<open>Close\<close> of the wallet with those of its parts,
    as steps of goroutines that take locks.  \<open>Header_Print\<close>: the listing of the headers from \<open>HeaderDB.Print\<close> to the command line.
    \<open>Exchange_Rates\<close>: \<^verbatim>\<open>exchangerates/exchangerates.go\<close>.
  \<^item> \<open>Rpc_Server\<close>: \<^verbatim>\<open>api/rpc.go\<close>, with its properties in \<open>Rpc_Calls\<close>; \<open>Cli\<close>: \<^verbatim>\<open>cli/cli.go\<close>; \<open>Rpc_Session\<close>: the calls and commands of
    both that stop the wallet or report its state.  \<open>Start_Cmd\<close>: the start command of \<^verbatim>\<open>cmd/bitcoincash/main.go\<close>; \<open>Window_App\<close>: the messages
    of its window, with \<^verbatim>\<open>gui/bootstrap\<close>.

  \<^bold>\<open>What is shown.\<close>
  \<^item> Blocks: the checker accepts exactly transactions that are leaves of the tree under the header's root, returns on all inputs
    but those that announce more than \<open>2^31\<close> transactions, and never panics.
  \<^item> Stores: the SQLite methods refine the abstract tables; every state reached keeps the tables well formed.  Headers survive
    serialisation, and the header store returns for a hash only a header with this hash, whatever writes are under way.
  \<^item> Keys: after a key is used both chains have a full window of unused keys again; the mock store agrees with SQLite on
    windows, unused and last keys.
  \<^item> Transactions: \<open>Ingest\<close> brings the tables to those of a reference definition and returns the change of the balance; a conflicting
    transaction is ignored or the conflicting ones are marked as dead; marking as dead reaches every dependent
    transaction and gives back what they spent.
  \<^item> Chain: every reachable header store holds a well-formed chain from the checkpoint to a tip of the most work;
    headers are accepted under the difficulty and proof-of-work rules; a common ancestor is found and the search ends; locator and
    rollback are characterised.
  \<^item> Network: a transaction reaches the store only from a peer it was requested from; requests are never lost with their
    peer; the peers the service knows are connected and offer the services it needs; a sync starts with the best peer.
  \<^item> Spending: a built transaction spends outputs of the wallet, pays the amount, and its value is that of its outputs, the
    fee and at most a dust remainder; the authoring loop ends.  A spend on the command line reaches the peers with this amount.
  \<^item> Life cycle: a new wallet is ready to synchronise, and a wallet that is started again has the same keys; the balance
    counts exactly the outputs that are not watched.  Addresses are handed out once each, until the look-ahead runs out.  Closing is safe however many
    goroutines do it, and a closed header store never changes again.  A restore from the window makes a wallet with the given mnemonic, which the next
    start of the program finds.
  \<^item> Where the code does something else than it means to, the behaviour is proved as it is: the text above such a theorem says so.

  \<^bold>\<open>Loops and bounds.\<close>  A loop of the code without a bound of its own is a \<open>partial_function\<close> whose value \<open>None\<close> is non-termination, and its
  termination is a theorem: the tree depth, the search for the next key, the walk to a common ancestor, the authoring loop
  (ended by the number of inputs of the source) and the search for a confirmed spend.  Marking as dead recurses along spent
  outputs; its fuel is one more than their number, which is enough because every call removes a row.  The other bounds are those
  of the code: a thousand keys ahead, locators of at most 500 hashes, a hundred draws for an address.

  \<^bold>\<open>Libraries.\<close>  Hashes and serialisation, scripts and signatures, hierarchical keys, coin selection, the key-value file, the ordered map,
  proof-of-work numbers, addresses, sockets, HTTP and \<open>float64\<close> arithmetic are records of functions that the definitions take as
  arguments.  What a theorem needs of them is a named predicate among its hypotheses, such as \<open>wire_ok\<close>, \<open>bolt_ok\<close>, \<open>hl_ok\<close> or \<open>select_ok\<close>, and the
  witness of the theorem gives an instance.  The order in which Go iterates over a map is a parameter.

  \<^bold>\<open>Not modelled.\<close>  Locks and goroutines outside \<open>Wallet_Life\<close>: a handler is one step, except for the header writes, which the code does in the
  background and the model keeps as pending.  The clock is read once per message.  Errors of the SQL engine other than violated constraints and
  missing rows, and rounding of \<open>float64\<close> in durations that are not whole hours.  The database in \<open>Config\<close> is that of the data directory.  In
  the peer manager a peer completes its handshake after its connection is filed and before it is lost.
  Input and output without a decision: logging, the gRPC transport with \<open>ServeAPI\<close>, the text form of the JSON that is printed, the help texts of \<open>SetupCli\<close>,
  the splash screen, \<open>getRepoPath\<close>.  \<open>WalletNotify\<close> does not fit the listener interface it calls.  Of \<^verbatim>\<open>gui/\<close> the calls to the Electron library that build the window,
  the template server and the generated assets, the generated \<^verbatim>\<open>api/pb\<close>, and the example client: glue around libraries.  The wallet interface of
  \<^verbatim>\<open>wallet-interface/wallet.go\<close> is a list of method signatures and documentation, which the properties of the methods refer to; the code's \<open>Spend\<close> does not
  have the signature it declares.
\<close>

end
